(* ===== verification/JsPrelude.thy ===== *)
theory JsPrelude
  imports Complex_Main "HOL-Library.AList"
begin

text \<open>
  Shared vocabulary of the development: the JavaScript values the control plane handles, the
  insertion-ordered \<^verbatim>\<open>Map\<close>, decimal rendering of counters, and the two interfaces that
  several components implement (an insertion-ordered map, an optimistic-concurrency store).

  Conventions used by every other theory:
  \<^item> a JavaScript number is \<open>jsnum\<close>: a rational, one of the infinities or NaN; the code only adds
    and subtracts integral millisecond counts, for which doubles are exact below \<open>2 ^ 53\<close>;
  \<^item> a JavaScript string is a \<open>string\<close>, its UTF-8 bytes where it leaves ASCII;
  \<^item> an object literal is an association list in enumeration order, \<open>undefined\<close> is the value of an
    absent member (prototype members such as \<^verbatim>\<open>constructor\<close> are outside the model);
  \<^item> \<^verbatim>\<open>Date.now()\<close> is an argument called \<open>now\<close>: one reading of the clock per operation;
  \<^item> a thrown error is \<open>Inl\<close>, a returned value \<open>Inr\<close>, and an operation that changes state returns
    the new state together with its result.
\<close>

section \<open>Collections of facts\<close>

named_theorems js_simps \<open>evaluation of JavaScript operators\<close>
named_theorems frame_simps \<open>fields an operation does not touch\<close>

section \<open>JavaScript values\<close>

datatype jsnum = NaN | PosInf | NegInf | Fin rat

datatype jsval =
    JUndef
  | JNull
  | JBool bool
  | JNum jsnum
  | JStr string
  | JArr "jsval list"
  | JObj "(string \<times> jsval) list"

fun truthy :: "jsval \<Rightarrow> bool" where
  "truthy JUndef = False"
| "truthy JNull = False"
| "truthy (JBool b) = b"
| "truthy (JNum n) = (n \<noteq> NaN \<and> n \<noteq> Fin 0)"
| "truthy (JStr s) = (s \<noteq> [])"
| "truthy (JArr xs) = True"
| "truthy (JObj kvs) = True"

text \<open>\<^verbatim>\<open>typeof v === 'object'\<close> holds of null, arrays and objects.\<close>

fun typeof_object :: "jsval \<Rightarrow> bool" where
  "typeof_object JNull = True"
| "typeof_object (JArr xs) = True"
| "typeof_object (JObj kvs) = True"
| "typeof_object _ = False"

fun is_array :: "jsval \<Rightarrow> bool" where
  "is_array (JArr xs) = True"
| "is_array _ = False"

fun is_string :: "jsval \<Rightarrow> bool" where
  "is_string (JStr s) = True"
| "is_string _ = False"

text \<open>Member read with optional chaining: \<open>undefined\<close> where there is no such member.\<close>

definition obj_get :: "(string \<times> jsval) list \<Rightarrow> string \<Rightarrow> jsval" where
  "obj_get kvs k = (case map_of kvs k of None \<Rightarrow> JUndef | Some v \<Rightarrow> v)"

fun js_get :: "jsval \<Rightarrow> string \<Rightarrow> jsval" where
  "js_get (JObj kvs) k = obj_get kvs k"
| "js_get _ k = JUndef"

definition js_or :: "jsval \<Rightarrow> jsval \<Rightarrow> jsval" where
  "js_or a b = (if truthy a then a else b)"

fun num_less :: "jsnum \<Rightarrow> jsnum \<Rightarrow> bool" where
  "num_less (Fin a) (Fin b) = (a < b)"
| "num_less NegInf (Fin b) = True"
| "num_less NegInf PosInf = True"
| "num_less (Fin a) PosInf = True"
| "num_less _ _ = False"

definition num_le :: "jsnum \<Rightarrow> jsnum \<Rightarrow> bool" where
  "num_le a b \<longleftrightarrow> num_less a b \<or> (a = b \<and> a \<noteq> NaN)"

fun is_finite_num :: "jsnum \<Rightarrow> bool" where
  "is_finite_num (Fin r) = True"
| "is_finite_num _ = False"

lemma num_le_Fin [simp]: "num_le (Fin a) (Fin b) \<longleftrightarrow> a \<le> b"
  by (auto simp: num_le_def)

lemma num_le_NaN [simp]: "\<not> num_le NaN b" "\<not> num_le b NaN"
  by (auto simp: num_le_def)

lemma obj_get_update [simp]:
  "obj_get (AList.update k v kvs) k' = (if k' = k then v else obj_get kvs k')"
  by (simp add: obj_get_def update_conv')

text \<open>\<^verbatim>\<open>{ ...base, ...over }\<close>.\<close>

type_synonym obj = "(string \<times> jsval) list"

definition obj_merge :: "obj \<Rightarrow> obj \<Rightarrow> obj" where
  "obj_merge base over = fold (\<lambda>(k, v). AList.update k v) over base"

lemma obj_merge_simps [simp]: "obj_merge base [] = base" "obj_merge base (m # over) = obj_merge (AList.update (fst m) (snd m) base) over"
  by (simp_all add: obj_merge_def case_prod_beta)

lemma obj_get_merge:
  "distinct (map fst over) \<Longrightarrow> obj_get (obj_merge base over) k = (if k \<in> set (map fst over) then obj_get over k else obj_get base k)"
  by (induction over arbitrary: base) (auto simp: obj_get_def map_of_eq_None_iff update_conv')

text \<open>Lower case of ASCII letters, and \<^verbatim>\<open>String.includes\<close>.\<close>

definition lower_char :: "char \<Rightarrow> char" where
  "lower_char c = (let n = of_char c :: nat in if 65 \<le> n \<and> n \<le> 90 then char_of (n + 32) else c)"

definition toLowerCase :: "string \<Rightarrow> string" where
  "toLowerCase s = map lower_char s"

fun includes_str :: "string \<Rightarrow> string \<Rightarrow> bool" where
  "includes_str [] needle = (needle = [])"
| "includes_str (c # cs) needle = (take (length needle) (c # cs) = needle \<or> includes_str cs needle)"

text \<open>Insertion into and deletion from a map.\<close>

lemma update_new: "k \<notin> set (map fst m) \<Longrightarrow> AList.update k v m = m @ [(k, v)]"
  by (induction m) auto

lemma length_update: "map_of m k = Some e \<Longrightarrow> length (AList.update k v m) = length m"
  by (induction m) (auto split: if_splits)

lemma delete_absent: "k \<notin> set (map fst m) \<Longrightarrow> AList.delete k m = m"
  by (induction m) auto

lemma length_delete: "distinct (map fst m) \<Longrightarrow> map_of m k = Some e \<Longrightarrow> Suc (length (AList.delete k m)) = length m"
  by (induction m) (auto simp: delete_absent split: if_splits)

text \<open>\<^verbatim>\<open>Array.from(new Set(xs))\<close>: first occurrences, in order.\<close>

definition js_set :: "'a list \<Rightarrow> 'a list" where
  "js_set xs = rev (remdups (rev xs))"

lemma set_js_set [simp]: "set (js_set xs) = set xs"
  by (simp add: js_set_def)

lemma distinct_js_set [simp]: "distinct (js_set xs)"
  by (simp add: js_set_def)

section \<open>Decimal rendering\<close>

text \<open>\<^verbatim>\<open>String(n)\<close> for a non-negative integer, as template literals use it.\<close>

definition digit_char :: "nat \<Rightarrow> char" where
  "digit_char d = char_of (48 + d)"

fun dec_string :: "nat \<Rightarrow> string" where
  "dec_string n = (if n < 10 then [digit_char n] else dec_string (n div 10) @ [digit_char (n mod 10)])"

declare dec_string.simps [simp del]

definition dec_value :: "string \<Rightarrow> nat" where
  "dec_value s = foldl (\<lambda>a c. 10 * a + (of_char c - 48)) 0 s"

lemma digit_char_value: "d < 10 \<Longrightarrow> of_char (digit_char d) = (48 + d :: nat)"
  by (simp add: digit_char_def of_char_of)

lemma dec_value_snoc: "dec_value (s @ [c]) = 10 * dec_value s + (of_char c - 48)"
  by (simp add: dec_value_def)

lemma dec_value_dec_string: "dec_value (dec_string n) = n"
proof (induction n rule: dec_string.induct)
  case (1 n)
  show ?case
  proof (cases "n < 10")
    case True
    then show ?thesis
      by (simp add: dec_string.simps [of n] dec_value_def digit_char_value)
  next
    case False
    with "1.IH" have "dec_value (dec_string (n div 10)) = n div 10" by simp
    with False show ?thesis
      by (simp add: dec_string.simps [of n] dec_value_snoc digit_char_value)
  qed
qed

lemma dec_string_inject [simp]: "dec_string m = dec_string n \<longleftrightarrow> m = n"
  by (metis dec_value_dec_string)

lemma digit_char_neq_colon: "d < 10 \<Longrightarrow> digit_char d \<noteq> CHR '':''"
proof -
  assume "d < 10"
  then have "of_char (digit_char d) \<noteq> (58 :: nat)"
    by (simp add: digit_char_value)
  then show ?thesis by auto
qed

lemma dec_string_no_colon: "CHR '':'' \<notin> set (dec_string n)"
proof (induction n rule: dec_string.induct)
  case (1 n)
  then show ?case
    using digit_char_neq_colon [of n] digit_char_neq_colon [of "n mod 10"]
    by (auto simp: dec_string.simps [of n])
qed

lemma append_sep_inject:
  assumes "xs @ c # ys = xs' @ c # ys'" and "c \<notin> set xs" and "c \<notin> set xs'"
  shows "xs = xs' \<and> ys = ys'"
  using assms
proof (induction xs arbitrary: xs')
  case Nil
  then show ?case by (cases xs') auto
next
  case (Cons x xs)
  then show ?case by (cases xs') auto
qed

section \<open>Insertion-ordered maps\<close>

text \<open>
  A JavaScript \<^verbatim>\<open>Map\<close> is an association list with distinct keys: \<^verbatim>\<open>set\<close> keeps the position of a
  key that is present and appends one that is not (\<^const>\<open>AList.update\<close>), \<^verbatim>\<open>delete\<close> removes it
  (\<^const>\<open>AList.delete\<close>), and iteration follows the list. The interface below is what the ledger, the
  nonce caches, the trackers and the containers rely on.
\<close>

type_synonym ('k, 'v) jsmap = "('k \<times> 'v) list"

locale ordered_map =
  fixes get :: "'m \<Rightarrow> 'k \<Rightarrow> 'v option"
    and put :: "'k \<Rightarrow> 'v \<Rightarrow> 'm \<Rightarrow> 'm"
    and del :: "'k \<Rightarrow> 'm \<Rightarrow> 'm"
    and keys :: "'m \<Rightarrow> 'k list"
  assumes get_put: "get (put k v m) k' = (if k' = k then Some v else get m k')"
    and get_del: "get (del k m) k' = (if k' = k then None else get m k')"
    and keys_put: "keys (put k v m) = (if k \<in> set (keys m) then keys m else keys m @ [k])"
    and keys_del: "keys (del k m) = filter (\<lambda>x. x \<noteq> k) (keys m)"
    and get_None: "get m k = None \<longleftrightarrow> k \<notin> set (keys m)"
begin

lemma distinct_put: "distinct (keys m) \<Longrightarrow> distinct (keys (put k v m))"
  by (simp add: keys_put)

lemma distinct_del: "distinct (keys m) \<Longrightarrow> distinct (keys (del k m))"
  by (simp add: keys_del)

lemma touch_keys: "keys (put k v (del k m)) = filter (\<lambda>x. x \<noteq> k) (keys m) @ [k]"
  by (simp add: keys_put keys_del)

lemma touch_get: "get (put k v (del k m)) k' = (if k' = k then Some v else get m k')"
  by (simp add: get_put get_del)

lemma length_del_le: "length (keys (del k m)) \<le> length (keys m)"
  by (simp add: keys_del)

lemma length_del:
  assumes "distinct (keys m)" and "k \<in> set (keys m)"
  shows "Suc (length (keys (del k m))) = length (keys m)"
proof -
  have "length (filter (\<lambda>x. x \<noteq> k) (keys m)) = card (set (keys m) - {k})"
    using assms(1) by (metis Diff_iff Collect_mem_eq distinct_card distinct_filter filter_cong
        set_filter singletonI set_minus_filter_out)
  also have "\<dots> = length (keys m) - 1"
    using assms by (simp add: distinct_card)
  finally show ?thesis
    using assms(2) by (cases "keys m") (auto simp: keys_del)
qed

lemma length_put_le: "length (keys (put k v m)) \<le> Suc (length (keys m))"
  by (simp add: keys_put)

text \<open>Evicting a present key before inserting never grows the map.\<close>

lemma evict_put_length:
  assumes "distinct (keys m)" and "k0 \<in> set (keys m)"
  shows "length (keys (put k v (del k0 m))) \<le> length (keys m)"
  using length_put_le [of k v "del k0 m"] length_del [OF assms] by simp

end

interpretation jm: ordered_map map_of AList.update AList.delete "map fst"
proof
  fix k :: 'a and v :: 'b and m :: "('a, 'b) jsmap" and k' :: 'a
  show "map_of (AList.update k v m) k' = (if k' = k then Some v else map_of m k')"
    by (simp add: update_conv')
  show "map_of (AList.delete k m) k' = (if k' = k then None else map_of m k')"
    by (simp add: delete_conv')
  show "map fst (AList.update k v m) = (if k \<in> set (map fst m) then map fst m else map fst m @ [k])"
    by (simp add: update_keys)
  show "map fst (AList.delete k m) = filter (\<lambda>x. x \<noteq> k) (map fst m)"
    by (simp add: delete_keys removeAll_filter_not_eq)
      (metis (mono_tags, lifting) filter_cong)
  show "(map_of m k = None) = (k \<notin> set (map fst m))"
    by (simp add: map_of_eq_None_iff)
qed

lemma jsmap_length_keys: "length m = length (map fst m)"
  by simp

text \<open>Loading rows into a map, as the components hydrate from their tables.\<close>

lemma fold_update_lookup:
  "map_of (fold (\<lambda>(k, r). AList.update k r) xs m) k =
     (case map_of (rev xs) k of None \<Rightarrow> map_of m k | Some r \<Rightarrow> Some r)"
  by (induction xs arbitrary: m) (auto simp: update_conv' map_add_def split: option.splits)

lemma map_of_filter_distinct:
  "distinct (map fst m) \<Longrightarrow> map_of (filter P m) k =
     (case map_of m k of Some v \<Rightarrow> if P (k, v) then Some v else None | None \<Rightarrow> None)"
proof (induction m)
  case (Cons x m)
  then show ?case
    by (cases x) (auto simp: map_of_eq_None_iff image_iff split: option.splits dest: map_of_SomeD)
qed simp

lemma distinct_filter_keys: "distinct (map fst m) \<Longrightarrow> distinct (map fst (filter P m))"
  by (induction m) auto

section \<open>Optimistic concurrency control\<close>

text \<open>
  Several stores of the control plane (the security state row, the state-store containers, the
  consistency groups) accept a write only when it names the version it was computed from and then
  move to the next version. \<open>occ_run\<close> feeds a store a sequence of such writes, in whatever order the
  event loop schedules them, and collects the versions of the accepted ones.
\<close>

fun occ_run :: "('u \<Rightarrow> nat \<Rightarrow> 's \<Rightarrow> 's option) \<Rightarrow> ('u \<times> nat) list \<Rightarrow> 's \<Rightarrow> nat list \<times> 's" where
  "occ_run commit [] s = ([], s)"
| "occ_run commit ((u, e) # us) s =
     (case commit u e s of
        None \<Rightarrow> occ_run commit us s
      | Some s' \<Rightarrow> (case occ_run commit us s' of (vs, t) \<Rightarrow> (e # vs, t)))"

locale occ_store =
  fixes ver :: "'s \<Rightarrow> nat"
    and commit :: "'u \<Rightarrow> nat \<Rightarrow> 's \<Rightarrow> 's option"
  assumes stale: "e \<noteq> ver s \<Longrightarrow> commit u e s = None"
    and bump: "commit u e s = Some s' \<Longrightarrow> ver s' = Suc (ver s)"
begin

lemma accepted_version: "commit u e s = Some s' \<Longrightarrow> e = ver s"
  using stale by force

text \<open>Two writers that read the same version: the second is always refused.\<close>

lemma single_winner: "commit u e s = Some s' \<Longrightarrow> commit u' e s' = None"
  using accepted_version bump by (metis n_not_Suc_n stale)

text \<open>The accepted writes of a run are based on consecutive versions: no update is lost.\<close>

lemma run_versions:
  "occ_run commit us s = (vs, t) \<Longrightarrow> vs = [ver s ..< ver s + length vs] \<and> ver t = ver s + length vs"
proof (induction us arbitrary: s vs t)
  case Nil
  then show ?case by simp
next
  case (Cons x us)
  obtain u e where x: "x = (u, e)" by (cases x)
  show ?case
  proof (cases "commit u e s")
    case None
    with Cons x show ?thesis by simp
  next
    case (Some s')
    obtain vs' t' where run: "occ_run commit us s' = (vs', t')" by fastforce
    with Some Cons.prems x have vs: "vs = e # vs'" and t: "t = t'" by auto
    from Cons.IH [OF run] bump [OF Some]
    have "vs' = [Suc (ver s) ..< Suc (ver s) + length vs']" and "ver t' = Suc (ver s) + length vs'"
      by simp_all
    moreover have "[ver s ..< ver s + Suc n] = ver s # [Suc (ver s) ..< Suc (ver s) + n]" for n
      by (simp add: upt_conv_Cons)
    ultimately show ?thesis
      using vs t accepted_version [OF Some] by simp
  qed
qed

end

section \<open>State machines\<close>

text \<open>States reachable by a step relation, and the invariant rule the components share.\<close>

inductive reach :: "('s \<Rightarrow> bool) \<Rightarrow> ('s \<Rightarrow> 's \<Rightarrow> bool) \<Rightarrow> 's \<Rightarrow> bool"
  for start :: "'s \<Rightarrow> bool" and step :: "'s \<Rightarrow> 's \<Rightarrow> bool" where
  reach_start: "start s \<Longrightarrow> reach start step s"
| reach_step: "reach start step s \<Longrightarrow> step s t \<Longrightarrow> reach start step t"

locale machine_invariant =
  fixes start :: "'s \<Rightarrow> bool" and step :: "'s \<Rightarrow> 's \<Rightarrow> bool" and good :: "'s \<Rightarrow> bool"
  assumes good_start: "start s \<Longrightarrow> good s"
    and good_step: "step s t \<Longrightarrow> good s \<Longrightarrow> good t"
begin

lemma reach_good: "reach start step s \<Longrightarrow> good s"
  by (induction rule: reach.induct) (auto intro: good_start good_step)

end

end
