(* ===== verification/AuthorityState.thy ===== *)
theory AuthorityState
  imports JsPrelude
begin

text \<open>
  The data of the security authority: the state names of
  \<^verbatim>\<open>state-machine/states.mjs\<close>, the session, authorization, license and grace-token
  objects that the facade builds and the database keeps, and the record \<open>acp\<close> of everything the
  authority reads and writes: the SQLite tables of \<^verbatim>\<open>aead-storage-adapter.mjs\<close>, the native flags
  behind \<^verbatim>\<open>native/security-core.mjs\<close> and the in-memory projection of the decision engine.

  An absent or null member is \<open>None\<close> (\<open>0\<close> for the counters the code reads with \<^verbatim>\<open>|| 0\<close>): the code
  never distinguishes null from undefined on these objects.
\<close>

datatype security_state =
    UNINITIALIZED | INITIALIZING | SECURITY_STATE_UNCERTAIN | SECURITY_STATE_READY
  | UNAUTHENTICATED | AUTHENTICATING | AUTH_FAILED | AUTHENTICATED | AUTHORIZING | AUTHZ_FAILURE
  | OPERATIONAL | RENEWING | OFFLINE_GRACE | EXPIRED | REVOKED | INTEGRITY_DEGRADED
  | TAMPER_SUSPECTED | COMPROMISED | REAUTHENTICATION_REQUIRED | LOGGING_OUT | LOGGED_OUT
  | RECONCILING \<comment> \<open>written by recovery/reconciliation.mjs, absent from the enum\<close>

record session_row =
  sessionId :: string
  sessionStatus :: string
  userId :: string
  issuedAt :: "int option"
  sessionExpiresAt :: int
  renewAfter :: "int option"

record authorization_row =
  authStatus :: string
  capability_set :: "string list option"

text \<open>A date member: absent, present but unparsable (\<open>NaN\<close>), or milliseconds since the epoch.\<close>

datatype date_field = NoDate | BadDate | DateAt int

record license_row =
  licenseStatus :: "string option"
  licenseSignature :: "string option"
  licenseExpiresAt :: date_field
  licenseExpiration :: "int option"
  licenseAccountId :: "string option"
  keyVersion2 :: bool
  strictCapabilities :: bool
  revokedAt :: "int option"
  revokeReason :: "string option"

record grace_token =
  graceMachineId :: string
  graceSessionGeneration :: nat
  not_before :: "int option"
  not_after :: int
  graceSignature :: "string option"
  graceKeyVersion2 :: bool

record security_data =
  state :: security_state
  state_version :: nat
  session :: "session_row option"
  authorization :: "authorization_row option"
  license :: "license_row option"
  machine :: "string option"
  graceTokenData :: "grace_token option"
  session_generation :: nat
  server_epoch :: nat
  highest_observed_time :: int
  grace_token_signature :: "string option"
  capabilities :: "string list option"
  last_transition :: "string option"
  last_transition_at :: "int option"

record audit_event =
  event_type :: string
  severity :: string
  event_result :: jsval
  event_hash :: "string option"
  prev_event_hash :: "string option"
  event_metadata :: jsval

text \<open>The documents that are serialised to JSON and encrypted.\<close>

datatype document = StateDoc security_data | AnchorDoc int | EventDoc audit_event

record 'b state_row =
  row_version :: nat
  row_generation :: nat
  row_epoch :: nat
  row_highest :: int
  row_grace_sig :: "string option"
  row_blob :: 'b

record 'b audit_row =
  audit_timestamp :: int
  audit_type :: string
  audit_blob :: 'b

record 'b acp =
  db_open :: bool                                    \<comment> \<open>\<^verbatim>\<open>_db !== null\<close>\<close>
  dbPath :: "string option"
  minValidStateVersion :: nat
  pathMinVersions :: "(string, nat) jsmap"
  anchors_file :: "(string, nat) jsmap option"       \<comment> \<open>\<^verbatim>\<open>db_anchors.bin\<close>\<close>
  anchors_writable :: bool
  singleton :: "'b state_row option"                 \<comment> \<open>table secure_state, key singleton\<close>
  time_anchor :: "(nat \<times> nat \<times> 'b) option"          \<comment> \<open>table secure_state, key time_anchor\<close>
  audit_log :: "'b audit_row list"                   \<comment> \<open>table security_audit_log\<close>
  nonce_table :: "(string, int) jsmap"               \<comment> \<open>table seen_nonces\<close>
  revoked :: bool                                    \<comment> \<open>native flag \<^verbatim>\<open>IS_REVOKED\<close>\<close>
  pipe_server :: bool                                \<comment> \<open>native secure pipe listening\<close>
  intent :: int                                      \<comment> \<open>DPAPI transition intent, -1 when none\<close>
  dpapi_ok :: bool
  inMemoryState :: "security_data option"
  execution_active :: bool                           \<comment> \<open>what the active-execution checker returns\<close>
  bootWallclock :: int                               \<comment> \<open>persistent clock\<close>
  bootHrtime :: int                                  \<comment> \<open>nanoseconds\<close>
  lastKnownTime :: int
  isUncertain :: bool
  auditQueue :: "audit_event list"                   \<comment> \<open>audit writer\<close>
  auditBusy :: bool
  activeProxies :: "nat list"                        \<comment> \<open>CDP proxies, by identity\<close>
  killedRuntimes :: "nat list"                       \<comment> \<open>\<^verbatim>\<open>killRuntime\<close> calls, in order\<close>

datatype auth_error =
    DatabaseNotInitialized
  | IntegrityVerificationFailed
  | StateVersionRollback
  | GenerationRollback
  | StateRowMissing
  | EngineNotInitialized
  | CannotEstablishState
  | DatabaseOpenFailed
  | TypeError
  | InvariantViolation string
  | ClockUncertain
  | ClockRolledBack
  | OccExhausted

type_synonym ('b, 'a) op_result = "(auth_error + 'a) \<times> 'b acp"

section \<open>The native boundary\<close>

text \<open>
  \<^verbatim>\<open>set_revoked_sync\<close> stores the flag and, when it is set, also stops the pipe server (the child
  processes it kills are not part of the model).
\<close>

definition setRevokedSync :: "bool \<Rightarrow> 'b acp \<Rightarrow> 'b acp" where
  "setRevokedSync r w = w\<lparr>revoked := r, pipe_server := (if r then False else pipe_server w)\<rparr>"

definition setTransitionIntent :: "nat \<Rightarrow> 'b acp \<Rightarrow> 'b acp" where
  "setTransitionIntent v w = (if dpapi_ok w then w\<lparr>intent := int v\<rparr> else w)"

lemma setRevokedSync_simps [simp]:
  "revoked (setRevokedSync r w) = r"
  "singleton (setRevokedSync r w) = singleton w"
  "inMemoryState (setRevokedSync r w) = inMemoryState w"
  "db_open (setRevokedSync r w) = db_open w"
  "pathMinVersions (setRevokedSync r w) = pathMinVersions w"
  "minValidStateVersion (setRevokedSync r w) = minValidStateVersion w"
  "dbPath (setRevokedSync r w) = dbPath w"
  "intent (setRevokedSync r w) = intent w"
  "dpapi_ok (setRevokedSync r w) = dpapi_ok w"
  "execution_active (setRevokedSync r w) = execution_active w"
  "audit_log (setRevokedSync r w) = audit_log w"
  "nonce_table (setRevokedSync r w) = nonce_table w"
  "time_anchor (setRevokedSync r w) = time_anchor w"
  "bootWallclock (setRevokedSync r w) = bootWallclock w"
  "bootHrtime (setRevokedSync r w) = bootHrtime w"
  "lastKnownTime (setRevokedSync r w) = lastKnownTime w"
  "isUncertain (setRevokedSync r w) = isUncertain w"
  "pipe_server (setRevokedSync r w) = (\<not> r \<and> pipe_server w)"
  by (simp_all add: setRevokedSync_def)

lemma setTransitionIntent_simps [simp]:
  "revoked (setTransitionIntent v w) = revoked w"
  "singleton (setTransitionIntent v w) = singleton w"
  "inMemoryState (setTransitionIntent v w) = inMemoryState w"
  "db_open (setTransitionIntent v w) = db_open w"
  "pathMinVersions (setTransitionIntent v w) = pathMinVersions w"
  "minValidStateVersion (setTransitionIntent v w) = minValidStateVersion w"
  "dbPath (setTransitionIntent v w) = dbPath w"
  "dpapi_ok (setTransitionIntent v w) = dpapi_ok w"
  "execution_active (setTransitionIntent v w) = execution_active w"
  "audit_log (setTransitionIntent v w) = audit_log w"
  "nonce_table (setTransitionIntent v w) = nonce_table w"
  "time_anchor (setTransitionIntent v w) = time_anchor w"
  "bootWallclock (setTransitionIntent v w) = bootWallclock w"
  "bootHrtime (setTransitionIntent v w) = bootHrtime w"
  "lastKnownTime (setTransitionIntent v w) = lastKnownTime w"
  "isUncertain (setTransitionIntent v w) = isUncertain w"
  "pipe_server (setTransitionIntent v w) = pipe_server w"
  "intent (setTransitionIntent v w) = (if dpapi_ok w then int v else intent w)"
  by (simp_all add: setTransitionIntent_def)

end
