(* ===== verification/SecureStorage.thy ===== *)
theory SecureStorage
  imports AuthorityState
begin

text \<open>
  The encrypted storage adapter, \<^verbatim>\<open>persistence/aead-storage-adapter.mjs\<close>: path anchors, opening and
  migrating the database, reading the singleton security-state row with its integrity and rollback
  checks, committing a transition under optimistic concurrency control, the audit log and the nonce
  table.

  AES-256-GCM lives in the native addon: \<open>enc\<close> and \<open>dec\<close> are parameters, \<open>enc aad doc\<close> the ciphertext
  and \<open>dec aad blob\<close> the document or \<open>None\<close> when authentication fails. What the adapter relies on is
  \<open>aead_ok\<close>: decryption inverts encryption under the same associated data, and a ciphertext
  authenticates under no other associated data.
\<close>

section \<open>Encryption of documents\<close>

definition aead_ok :: "(string \<Rightarrow> document \<Rightarrow> 'b) \<Rightarrow> (string \<Rightarrow> 'b \<Rightarrow> document option) \<Rightarrow> bool" where
  "aead_ok enc dec \<longleftrightarrow>
     (\<forall>aad doc. dec aad (enc aad doc) = Some doc) \<and>
     (\<forall>aad aad' doc. aad \<noteq> aad' \<longrightarrow> dec aad' (enc aad doc) = None)"

definition payload_aad :: "string \<Rightarrow> nat \<Rightarrow> nat \<Rightarrow> string" where
  "payload_aad key stateVersion backendGeneration =
     key @ '':'' @ dec_string stateVersion @ '':'' @ dec_string backendGeneration"

definition encryptPayload ::
  "(string \<Rightarrow> document \<Rightarrow> 'b) \<Rightarrow> string \<Rightarrow> nat \<Rightarrow> nat \<Rightarrow> document \<Rightarrow> 'b" where
  "encryptPayload enc key stateVersion backendGeneration payload =
     enc (payload_aad key stateVersion backendGeneration) payload"

definition decryptPayload ::
  "(string \<Rightarrow> 'b \<Rightarrow> document option) \<Rightarrow> string \<Rightarrow> nat \<Rightarrow> nat \<Rightarrow> 'b \<Rightarrow> document option" where
  "decryptPayload dec key stateVersion backendGeneration blob =
     dec (payload_aad key stateVersion backendGeneration) blob"

section \<open>Path anchors and opening the database\<close>

definition loadPersistedPathAnchors :: "'b acp \<Rightarrow> 'b acp" where
  "loadPersistedPathAnchors w =
     (case anchors_file w of
        None \<Rightarrow> w
      | Some parsed \<Rightarrow>
          w\<lparr>pathMinVersions :=
              fold (\<lambda>(k, num) m.
                      if num > (case map_of m k of None \<Rightarrow> 0 | Some x \<Rightarrow> x)
                      then AList.update k num m else m)
                parsed (pathMinVersions w)\<rparr>)"

definition savePersistedPathAnchor :: "string option \<Rightarrow> nat \<Rightarrow> 'b acp \<Rightarrow> 'b acp" where
  "savePersistedPathAnchor resolvedPath version w =
     (case resolvedPath of
        None \<Rightarrow> w
      | Some p \<Rightarrow>
          if p = [] \<or> p = '':memory:'' then w
          else (let m = AList.update p version (pathMinVersions w) in
                w\<lparr>pathMinVersions := m,
                  anchors_file := (if anchors_writable w then Some m else anchors_file w)\<rparr>))"

text \<open>
  \<^verbatim>\<open>_migrateDatabase\<close>: from schema version 0 or 1 the V2 step adds the tracking columns and stamps
  every row of \<^verbatim>\<open>secure_state\<close> with the current time; from version 2 on it changes nothing.
\<close>

definition migrateDatabase :: "int \<Rightarrow> nat \<Rightarrow> 'b acp \<Rightarrow> nat \<times> 'b acp" where
  "migrateDatabase now user_version w =
     (if user_version = 0 \<or> user_version = 1
      then (2, w\<lparr>singleton := map_option (\<lambda>r. r\<lparr>row_highest := now\<rparr>) (singleton w)\<rparr>)
      else (user_version, w))"

text \<open>
  What opening the file gives: a usable database with its schema version, a corruption error (the
  file is then quarantined and a fresh database opened), or another failure, which is rethrown (the
  flag says whether the handle was already assigned, that is whether the migration failed).
\<close>

datatype open_outcome = OpenedDb nat | CorruptDb | OpenFailed bool

definition drop_tables :: "'b acp \<Rightarrow> 'b acp" where
  "drop_tables w = w\<lparr>singleton := None, time_anchor := None, audit_log := [], nonce_table := []\<rparr>"

definition initDatabase ::
  "int \<Rightarrow> string \<Rightarrow> bool \<Rightarrow> open_outcome \<Rightarrow> 'b acp \<Rightarrow> (auth_error option) \<times> 'b acp" where
  "initDatabase now resolvedPath fileExistedBeforeOpen opened w =
     (let w1 = (loadPersistedPathAnchors w)\<lparr>dbPath := Some resolvedPath\<rparr>;
          w2 = (if \<not> fileExistedBeforeOpen
                then savePersistedPathAnchor (Some resolvedPath) 0
                       ((drop_tables w1)\<lparr>minValidStateVersion := 0\<rparr>)
                else w1\<lparr>minValidStateVersion :=
                       (case map_of (pathMinVersions w1) resolvedPath of None \<Rightarrow> 0 | Some v \<Rightarrow> v)\<rparr>)
      in case opened of
           OpenedDb v \<Rightarrow> (None, (snd (migrateDatabase now v w2))\<lparr>db_open := True\<rparr>)
         | CorruptDb \<Rightarrow>
             (None, (snd (migrateDatabase now 0 ((drop_tables w2)\<lparr>minValidStateVersion := 0\<rparr>)))
                       \<lparr>db_open := True\<rparr>)
         | OpenFailed assigned \<Rightarrow> (Some DatabaseOpenFailed, w2\<lparr>db_open := assigned \<or> db_open w\<rparr>))"

section \<open>Reading the singleton row\<close>

text \<open>The DPAPI anchor check: a gap of one is an uncommitted intent, a larger gap a rollback.\<close>

definition checkTransitionIntent :: "nat \<Rightarrow> 'b acp \<Rightarrow> ('b, unit) op_result" where
  "checkTransitionIntent version w =
     (if 0 < minValidStateVersion w \<and> dpapi_ok w \<and> 0 < intent w \<and> int version < intent w
      then if intent w = int version + 1
           then (Inr (), setTransitionIntent version w)
           else (Inl StateVersionRollback, w)
      else (Inr (), w))"

definition effectiveMinVersion :: "'b acp \<Rightarrow> nat" where
  "effectiveMinVersion w =
     max (minValidStateVersion w)
       (case dbPath w of
          None \<Rightarrow> 0
        | Some p \<Rightarrow> (case map_of (pathMinVersions w) p of None \<Rightarrow> 0 | Some v \<Rightarrow> v))"

definition raiseWatermark :: "nat \<Rightarrow> 'b acp \<Rightarrow> 'b acp" where
  "raiseWatermark version w =
     (if version > minValidStateVersion w
      then savePersistedPathAnchor (dbPath w) version (w\<lparr>minValidStateVersion := version\<rparr>)
      else w)"

definition injectColumns :: "'b state_row \<Rightarrow> security_data \<Rightarrow> security_data" where
  "injectColumns row data =
     data\<lparr>server_epoch := row_epoch row, highest_observed_time := row_highest row,
          grace_token_signature := row_grace_sig row\<rparr>"

definition getSecurityStateRow ::
  "(string \<Rightarrow> 'b \<Rightarrow> document option) \<Rightarrow> 'b acp \<Rightarrow> ('b, security_data option) op_result" where
  "getSecurityStateRow dec w =
     (if \<not> db_open w then (Inl DatabaseNotInitialized, w)
      else case singleton w of
        None \<Rightarrow> (Inr None, w)
      | Some row \<Rightarrow>
          (case decryptPayload dec ''singleton'' (row_version row) (row_generation row) (row_blob row) of
             Some (StateDoc data) \<Rightarrow>
               if 0 < effectiveMinVersion w \<and> row_version row < effectiveMinVersion w
               then (Inl StateVersionRollback, w)
               else (case checkTransitionIntent (row_version row) w of
                       (Inl e, w1) \<Rightarrow> (Inl e, w1)
                     | (Inr _, w1) \<Rightarrow>
                         if session_generation data \<noteq> 0 \<and> row_generation row \<noteq> session_generation data
                         then (Inl GenerationRollback, w1)
                         else (Inr (Some (injectColumns row data)),
                               raiseWatermark (row_version row) w1))
           | _ \<Rightarrow> (Inl IntegrityVerificationFailed, w)))"

section \<open>Committing a transition\<close>

definition commitPayload :: "int \<Rightarrow> nat \<Rightarrow> security_data \<Rightarrow> string option \<Rightarrow> security_data" where
  "commitPayload now nextVersion nextStateData event =
     nextStateData\<lparr>state_version := nextVersion, last_transition := event,
       last_transition_at := Some now, server_epoch := 0, highest_observed_time := 0,
       grace_token_signature := None\<rparr>"

definition commitRow ::
  "(string \<Rightarrow> document \<Rightarrow> 'b) \<Rightarrow> int \<Rightarrow> nat \<Rightarrow> security_data \<Rightarrow> string option \<Rightarrow> 'b state_row" where
  "commitRow enc now nextVersion nextStateData event =
     \<lparr>row_version = nextVersion,
      row_generation = session_generation nextStateData,
      row_epoch = server_epoch nextStateData,
      row_highest = (if highest_observed_time nextStateData \<noteq> 0
                     then highest_observed_time nextStateData else now),
      row_grace_sig = grace_token_signature nextStateData,
      row_blob = encryptPayload enc ''singleton'' nextVersion (session_generation nextStateData)
                   (StateDoc (commitPayload now nextVersion nextStateData event))\<rparr>"

definition afterCommit :: "nat \<Rightarrow> 'b acp \<Rightarrow> 'b acp" where
  "afterCommit nextVersion w =
     setTransitionIntent nextVersion
       (savePersistedPathAnchor (dbPath w) nextVersion (w\<lparr>minValidStateVersion := nextVersion\<rparr>))"

definition commitTransitionWithOCC ::
  "(string \<Rightarrow> document \<Rightarrow> 'b) \<Rightarrow> int \<Rightarrow> nat \<Rightarrow> security_data \<Rightarrow> string option \<Rightarrow> 'b acp
     \<Rightarrow> ('b, bool) op_result" where
  "commitTransitionWithOCC enc now expectedStateVersion nextStateData event w =
     (if \<not> db_open w then (Inl DatabaseNotInitialized, w)
      else let nextVersion = expectedStateVersion + 1;
               row' = commitRow enc now nextVersion nextStateData event;
               w' = afterCommit nextVersion (w\<lparr>singleton := Some row'\<rparr>)
           in case singleton w of
                Some row \<Rightarrow>
                  if row_version row = expectedStateVersion then (Inr True, w') else (Inr False, w)
              | None \<Rightarrow>
                  if expectedStateVersion = 0 then (Inr True, w') else (Inr False, w))"

section \<open>Audit log and nonce table\<close>

definition writeEvent ::
  "(string \<Rightarrow> document \<Rightarrow> 'b) \<Rightarrow> int \<Rightarrow> audit_event \<Rightarrow> 'b acp \<Rightarrow> 'b acp" where
  "writeEvent enc now ev w =
     (if \<not> db_open w then w
      else w\<lparr>audit_log := audit_log w @
               [\<lparr>audit_timestamp = now,
                 audit_type = (if event_type ev = [] then ''UNKNOWN'' else event_type ev),
                 audit_blob = encryptPayload enc ''audit'' (nat now) 0 (EventDoc ev)\<rparr>]\<rparr>)"

definition loadSeenNonces :: "'b acp \<Rightarrow> string list" where
  "loadSeenNonces w = (if \<not> db_open w then [] else map fst (nonce_table w))"

definition saveNonce :: "string \<Rightarrow> int \<Rightarrow> 'b acp \<Rightarrow> 'b acp" where
  "saveNonce nonce seenAt w =
     (if \<not> db_open w then w
      else if map_of (nonce_table w) nonce = None
      then w\<lparr>nonce_table := nonce_table w @ [(nonce, seenAt)]\<rparr>
      else w)"

definition evictOldNonces :: "int \<Rightarrow> 'b acp \<Rightarrow> 'b acp" where
  "evictOldNonces cutoff w =
     (if \<not> db_open w then w
      else w\<lparr>nonce_table := filter (\<lambda>(n, seen). \<not> seen < cutoff) (nonce_table w)\<rparr>)"

section \<open>Lemmas\<close>

lemma payload_aad_inject:
  assumes "payload_aad k v g = payload_aad k' v' g'"
    and "CHR '':'' \<notin> set k" and "CHR '':'' \<notin> set k'"
  shows "k = k' \<and> v = v' \<and> g = g'"
proof -
  have 1: "k = k' \<and> dec_string v @ CHR '':'' # dec_string g = dec_string v' @ CHR '':'' # dec_string g'"
    by (rule append_sep_inject) (use assms in \<open>simp_all add: payload_aad_def\<close>)
  have "dec_string v = dec_string v' \<and> dec_string g = dec_string g'"
    by (rule append_sep_inject [OF conjunct2 [OF 1]]) (rule dec_string_no_colon)+
  with 1 show ?thesis by simp
qed

lemma decrypt_encrypt:
  "aead_ok enc dec \<Longrightarrow> decryptPayload dec k v g (encryptPayload enc k v g doc) = Some doc"
  by (simp add: aead_ok_def decryptPayload_def encryptPayload_def)

lemma decrypt_other:
  assumes "aead_ok enc dec" and "(k, v, g) \<noteq> (k', v', g')"
    and "CHR '':'' \<notin> set k" and "CHR '':'' \<notin> set k'"
  shows "decryptPayload dec k' v' g' (encryptPayload enc k v g doc) = None"
proof -
  have "payload_aad k v g \<noteq> payload_aad k' v' g'"
    using assms(2-4) payload_aad_inject by blast
  then show ?thesis
    using assms(1) by (simp add: aead_ok_def decryptPayload_def encryptPayload_def)
qed

lemma savePersistedPathAnchor_frame [simp]:
  "singleton (savePersistedPathAnchor p v w) = singleton w"
  "minValidStateVersion (savePersistedPathAnchor p v w) = minValidStateVersion w"
  "db_open (savePersistedPathAnchor p v w) = db_open w"
  "dbPath (savePersistedPathAnchor p v w) = dbPath w"
  "revoked (savePersistedPathAnchor p v w) = revoked w"
  "pipe_server (savePersistedPathAnchor p v w) = pipe_server w"
  "intent (savePersistedPathAnchor p v w) = intent w"
  "dpapi_ok (savePersistedPathAnchor p v w) = dpapi_ok w"
  "inMemoryState (savePersistedPathAnchor p v w) = inMemoryState w"
  "execution_active (savePersistedPathAnchor p v w) = execution_active w"
  "audit_log (savePersistedPathAnchor p v w) = audit_log w"
  "nonce_table (savePersistedPathAnchor p v w) = nonce_table w"
  "time_anchor (savePersistedPathAnchor p v w) = time_anchor w"
  by (simp_all add: savePersistedPathAnchor_def Let_def split: option.splits)

lemma savePersistedPathAnchor_lookup:
  "map_of (pathMinVersions (savePersistedPathAnchor (Some p) v w)) q =
     (if q = p \<and> p \<noteq> [] \<and> p \<noteq> '':memory:'' then Some v else map_of (pathMinVersions w) q)"
  by (auto simp: savePersistedPathAnchor_def Let_def update_conv')

lemma afterCommit_frame [simp]:
  "singleton (afterCommit v w) = singleton w"
  "minValidStateVersion (afterCommit v w) = v"
  "db_open (afterCommit v w) = db_open w"
  "dbPath (afterCommit v w) = dbPath w"
  "revoked (afterCommit v w) = revoked w"
  "pipe_server (afterCommit v w) = pipe_server w"
  "dpapi_ok (afterCommit v w) = dpapi_ok w"
  "inMemoryState (afterCommit v w) = inMemoryState w"
  "execution_active (afterCommit v w) = execution_active w"
  "audit_log (afterCommit v w) = audit_log w"
  "nonce_table (afterCommit v w) = nonce_table w"
  "time_anchor (afterCommit v w) = time_anchor w"
  "intent (afterCommit v w) = (if dpapi_ok w then int v else intent w)"
  by (simp_all add: afterCommit_def)

lemma effectiveMin_cong:
  "dbPath w' = dbPath w \<Longrightarrow> minValidStateVersion w' = minValidStateVersion w \<Longrightarrow>
   pathMinVersions w' = pathMinVersions w \<Longrightarrow> effectiveMinVersion w' = effectiveMinVersion w"
  by (simp add: effectiveMinVersion_def cong: option.case_cong)

lemma effectiveMin_ge: "minValidStateVersion w \<le> effectiveMinVersion w"
  by (simp add: effectiveMinVersion_def)

text \<open>After a commit the watermark is the committed version, unless an in-memory path has a stale anchor.\<close>

lemma effectiveMin_afterCommit:
  "effectiveMinVersion w \<le> v \<Longrightarrow> effectiveMinVersion (afterCommit v w) = v"
proof (cases "dbPath w")
  case None
  then show ?thesis by (simp add: effectiveMinVersion_def)
next
  case (Some p)
  assume "effectiveMinVersion w \<le> v"
  with Some show ?thesis
    by (auto simp: effectiveMinVersion_def afterCommit_def savePersistedPathAnchor_lookup
          setTransitionIntent_def max_def split: if_splits option.splits)
qed

lemma commit_True_iff:
  "fst (commitTransitionWithOCC enc now e d ev w) = Inr True \<longleftrightarrow>
     db_open w \<and> (case singleton w of Some row \<Rightarrow> row_version row = e | None \<Rightarrow> e = 0)"
  by (auto simp: commitTransitionWithOCC_def Let_def split: option.splits)

lemma commit_False_unchanged:
  "commitTransitionWithOCC enc now e d ev w = (r, w') \<Longrightarrow> r \<noteq> Inr True \<Longrightarrow> w' = w"
  by (auto simp: commitTransitionWithOCC_def Let_def split: option.splits if_splits)

lemma commit_True_state:
  "commitTransitionWithOCC enc now e d ev w = (Inr True, w') \<Longrightarrow>
     w' = afterCommit (e + 1) (w\<lparr>singleton := Some (commitRow enc now (e + 1) d ev)\<rparr>)"
  by (auto simp: commitTransitionWithOCC_def Let_def split: option.splits if_splits)

lemma commit_frame:
  assumes "commitTransitionWithOCC enc now e d ev w = (r, w')"
  shows "revoked w' = revoked w" "inMemoryState w' = inMemoryState w" "db_open w' = db_open w"
    "execution_active w' = execution_active w" "dpapi_ok w' = dpapi_ok w" "dbPath w' = dbPath w"
    "audit_log w' = audit_log w" "pipe_server w' = pipe_server w" "nonce_table w' = nonce_table w"
    "time_anchor w' = time_anchor w"
  using assms by (auto simp: commitTransitionWithOCC_def Let_def split: option.splits if_splits)

lemma checkTransitionIntent_frame [simp]:
  "revoked (snd (checkTransitionIntent v w)) = revoked w"
  "inMemoryState (snd (checkTransitionIntent v w)) = inMemoryState w"
  "db_open (snd (checkTransitionIntent v w)) = db_open w"
  "execution_active (snd (checkTransitionIntent v w)) = execution_active w"
  "singleton (snd (checkTransitionIntent v w)) = singleton w"
  "dbPath (snd (checkTransitionIntent v w)) = dbPath w"
  "audit_log (snd (checkTransitionIntent v w)) = audit_log w"
  "minValidStateVersion (snd (checkTransitionIntent v w)) = minValidStateVersion w"
  "pathMinVersions (snd (checkTransitionIntent v w)) = pathMinVersions w"
  "pipe_server (snd (checkTransitionIntent v w)) = pipe_server w"
  "nonce_table (snd (checkTransitionIntent v w)) = nonce_table w"
  "time_anchor (snd (checkTransitionIntent v w)) = time_anchor w"
  by (simp_all add: checkTransitionIntent_def)

lemma raiseWatermark_frame [simp]:
  "revoked (raiseWatermark v w) = revoked w"
  "inMemoryState (raiseWatermark v w) = inMemoryState w"
  "db_open (raiseWatermark v w) = db_open w"
  "execution_active (raiseWatermark v w) = execution_active w"
  "singleton (raiseWatermark v w) = singleton w"
  "dbPath (raiseWatermark v w) = dbPath w"
  "audit_log (raiseWatermark v w) = audit_log w"
  "pipe_server (raiseWatermark v w) = pipe_server w"
  "nonce_table (raiseWatermark v w) = nonce_table w"
  "time_anchor (raiseWatermark v w) = time_anchor w"
  "minValidStateVersion (raiseWatermark v w) = max v (minValidStateVersion w)"
  by (simp_all add: raiseWatermark_def)

lemma getRow_world:
  assumes "getSecurityStateRow dec w = (r, w')"
  obtains "w' = w" | v where "w' = snd (checkTransitionIntent v w)"
    | v where "w' = raiseWatermark v (snd (checkTransitionIntent v w))"
proof (cases "db_open w \<and> singleton w \<noteq> None")
  case False
  with assms have "w' = w" by (auto simp: getSecurityStateRow_def split: if_splits)
  then show ?thesis by (rule that(1))
next
  case True
  then obtain row where row: "db_open w" "singleton w = Some row" by blast
  obtain c w1 where c: "checkTransitionIntent (row_version row) w = (c, w1)" by fastforce
  with assms row have "w' = w \<or> w' = w1 \<or> w' = raiseWatermark (row_version row) w1"
    by (cases c) (auto simp: getSecurityStateRow_def split: option.splits document.splits if_splits)
  moreover have "w1 = snd (checkTransitionIntent (row_version row) w)" using c by simp
  ultimately show ?thesis using that by blast
qed

lemma getRow_frame:
  assumes "getSecurityStateRow dec w = (r, w')"
  shows "revoked w' = revoked w" "inMemoryState w' = inMemoryState w" "db_open w' = db_open w"
    "execution_active w' = execution_active w" "singleton w' = singleton w" "dbPath w' = dbPath w"
    "audit_log w' = audit_log w" "pipe_server w' = pipe_server w" "nonce_table w' = nonce_table w"
    "time_anchor w' = time_anchor w"
  using assms by (elim getRow_world, simp_all)+

text \<open>What a successful read says: the row authenticated, was not older than the watermark, and its
  data is returned with the query columns injected.\<close>

lemma getRow_Some:
  assumes "getSecurityStateRow dec w = (Inr (Some d), w')"
  obtains row data where "singleton w = Some row" "db_open w"
    "decryptPayload dec ''singleton'' (row_version row) (row_generation row) (row_blob row) =
       Some (StateDoc data)"
    "d = injectColumns row data" "effectiveMinVersion w \<le> row_version row"
    "row_version row \<le> minValidStateVersion w'"
  using assms
  by (auto simp: getSecurityStateRow_def split: option.splits document.splits if_splits prod.splits
        sum.splits)

lemma getRow_older_rejected:
  assumes "singleton w = Some row" and "row_version row < effectiveMinVersion w"
  shows "\<exists>e. fst (getSecurityStateRow dec w) = Inl e"
  using assms
  by (auto simp: getSecurityStateRow_def split: option.splits document.splits)

lemma getRow_afterCommit:
  assumes aead: "aead_ok enc dec" and db: "db_open w" and em: "effectiveMinVersion w \<le> v"
  shows "fst (getSecurityStateRow dec (afterCommit v (w\<lparr>singleton := Some (commitRow enc now v d ev)\<rparr>))) =
    Inr (Some (injectColumns (commitRow enc now v d ev) (commitPayload now v d ev)))"
proof -
  let ?w = "w\<lparr>singleton := Some (commitRow enc now v d ev)\<rparr>"
  have "effectiveMinVersion ?w \<le> v" using em
    by (subst effectiveMin_cong [of _ w]) simp_all
  then have "effectiveMinVersion (afterCommit v ?w) = v" by (rule effectiveMin_afterCommit)
  with db show ?thesis
    by (simp add: getSecurityStateRow_def commitRow_def decrypt_encrypt [OF aead] commitPayload_def
          checkTransitionIntent_def)
qed

lemma inject_commit:
  "injectColumns (commitRow enc now v d ev) (commitPayload now v d ev) =
     d\<lparr>state_version := v, last_transition := ev, last_transition_at := Some now,
       highest_observed_time :=
         (if highest_observed_time d \<noteq> 0 then highest_observed_time d else now)\<rparr>"
  by (simp add: injectColumns_def commitRow_def commitPayload_def)

text \<open>Rows whose version column repeats the version inside the encrypted document, as every row the
  adapter writes does.\<close>

definition row_consistent :: "(string \<Rightarrow> 'b \<Rightarrow> document option) \<Rightarrow> 'b acp \<Rightarrow> bool" where
  "row_consistent dec w \<longleftrightarrow>
     (case singleton w of
        None \<Rightarrow> True
      | Some row \<Rightarrow>
          (case decryptPayload dec ''singleton'' (row_version row) (row_generation row) (row_blob row) of
             Some (StateDoc data) \<Rightarrow> state_version data = row_version row
           | _ \<Rightarrow> True))"

lemma injectColumns_simps [simp]:
  "state (injectColumns row d) = state d" "state_version (injectColumns row d) = state_version d"
  "session (injectColumns row d) = session d" "authorization (injectColumns row d) = authorization d"
  "license (injectColumns row d) = license d" "session_generation (injectColumns row d) = session_generation d"
  by (simp_all add: injectColumns_def)

lemma commitRow_version [simp]: "row_version (commitRow enc now v d ev) = v"
  by (simp add: commitRow_def)

lemma row_consistent_commit:
  assumes "aead_ok enc dec" and "singleton w = Some (commitRow enc now v d ev)"
  shows "row_consistent dec w"
  using assms by (simp add: row_consistent_def commitRow_def decrypt_encrypt commitPayload_def)

lemma getRow_None: "getSecurityStateRow dec w = (Inr None, w') \<Longrightarrow> singleton w = None \<and> db_open w \<and> w' = w"
  by (auto simp: getSecurityStateRow_def split: option.splits document.splits if_splits prod.splits
        sum.splits)

section \<open>The store as an optimistic-concurrency store\<close>

definition store_version :: "'b acp \<Rightarrow> nat" where
  "store_version w = (case singleton w of None \<Rightarrow> 0 | Some row \<Rightarrow> row_version row)"

definition occ_commit ::
  "(string \<Rightarrow> document \<Rightarrow> 'b) \<Rightarrow> (int \<times> security_data \<times> string option) \<Rightarrow> nat \<Rightarrow> 'b acp \<Rightarrow> 'b acp option" where
  "occ_commit enc u e w =
     (case u of (now, d, ev) \<Rightarrow>
        (case commitTransitionWithOCC enc now e d ev w of
           (Inr True, w') \<Rightarrow> Some w'
         | _ \<Rightarrow> None))"

interpretation secure_row: occ_store store_version "occ_commit enc"
  by unfold_locales
    (auto simp: occ_commit_def store_version_def commitTransitionWithOCC_def Let_def commitRow_def
       split: option.splits if_splits prod.splits bool.splits)

lemma getRow_version:
  assumes "getSecurityStateRow dec w = (Inr (Some d), w')" and "row_consistent dec w"
  shows "state_version d = store_version w"
  using assms(1)
proof (rule getRow_Some)
  fix row data
  assume "singleton w = Some row"
    "decryptPayload dec ''singleton'' (row_version row) (row_generation row) (row_blob row) =
       Some (StateDoc data)" "d = injectColumns row data"
  with assms(2) show ?thesis by (simp add: row_consistent_def store_version_def)
qed

text \<open>What a read depends on.\<close>

lemma getRow_depends:
  assumes "singleton w' = singleton w" and "db_open w' = db_open w" and "dbPath w' = dbPath w"
    and "minValidStateVersion w' = minValidStateVersion w" and "pathMinVersions w' = pathMinVersions w"
    and "intent w' = intent w" and "dpapi_ok w' = dpapi_ok w"
  shows "fst (getSecurityStateRow dec w') = fst (getSecurityStateRow dec w)"
proof -
  have em: "effectiveMinVersion w' = effectiveMinVersion w"
    using assms(3-5) by (rule effectiveMin_cong)
  show ?thesis
  proof (cases "singleton w")
    case None
    with assms show ?thesis by (simp add: getSecurityStateRow_def)
  next
    case (Some row)
    have "fst (checkTransitionIntent (row_version row) w') = fst (checkTransitionIntent (row_version row) w)"
      using assms(4,6,7) by (simp add: checkTransitionIntent_def)
    with Some assms(1,2) em show ?thesis
      by (cases "checkTransitionIntent (row_version row) w"; cases "checkTransitionIntent (row_version row) w'")
        (auto simp: getSecurityStateRow_def split: option.splits document.splits sum.splits)
  qed
qed

lemma effectiveMin_raise:
  "effectiveMinVersion w \<le> v \<Longrightarrow> effectiveMinVersion (raiseWatermark v w) \<le> v"
  by (cases "dbPath w")
    (auto simp: raiseWatermark_def effectiveMinVersion_def savePersistedPathAnchor_lookup
       split: option.splits if_splits)

lemma effectiveMin_intent [simp]:
  "effectiveMinVersion (snd (checkTransitionIntent v w)) = effectiveMinVersion w"
  by (rule effectiveMin_cong) simp_all

lemma getRow_effectiveMin:
  assumes "getSecurityStateRow dec w = (Inr (Some d), w')"
  shows "effectiveMinVersion w' \<le> store_version w"
proof -
  from assms obtain row data where row: "singleton w = Some row" "db_open w"
    and em: "effectiveMinVersion w \<le> row_version row"
    and dec: "decryptPayload dec ''singleton'' (row_version row) (row_generation row) (row_blob row) =
       Some (StateDoc data)"
    by (rule getRow_Some)
  obtain c w1 where c: "checkTransitionIntent (row_version row) w = (c, w1)" by fastforce
  with assms row dec em have "w' = raiseWatermark (row_version row) w1"
    by (cases c) (auto simp: getSecurityStateRow_def split: if_splits)
  moreover have "effectiveMinVersion w1 = effectiveMinVersion w"
    using effectiveMin_intent [of "row_version row" w] c by simp
  ultimately show ?thesis
    using em row effectiveMin_raise [of w1 "row_version row"] by (simp add: store_version_def)
qed

section \<open>Properties\<close>

text \<open>A ciphertext that carries its associated data in the clear satisfies the assumptions on the
  native cipher; the witnesses below use it.\<close>

definition tag_enc :: "string \<Rightarrow> document \<Rightarrow> string \<times> document" where
  "tag_enc aad doc = (aad, doc)"

definition tag_dec :: "string \<Rightarrow> string \<times> document \<Rightarrow> document option" where
  "tag_dec aad blob = (if fst blob = aad then Some (snd blob) else None)"

lemma tag_aead_ok: "aead_ok tag_enc tag_dec"
  by (simp add: aead_ok_def tag_enc_def tag_dec_def)

definition fresh_acp :: "'b acp" where
  "fresh_acp = \<lparr>db_open = True, dbPath = Some ''acp.db'', minValidStateVersion = 0,
     pathMinVersions = [], anchors_file = None, anchors_writable = True, singleton = None,
     time_anchor = None, audit_log = [], nonce_table = [], revoked = False, pipe_server = True,
     intent = -1, dpapi_ok = True, inMemoryState = None, execution_active = False,
     bootWallclock = 0, bootHrtime = 0, lastKnownTime = 0, isUncertain = True,
     auditQueue = [], auditBusy = False, activeProxies = [], killedRuntimes = []\<rparr>"

definition sample_data :: "security_state \<Rightarrow> nat \<Rightarrow> security_data" where
  "sample_data s v =
     \<lparr>state = s, state_version = v, session = None, authorization = None, license = None,
      machine = None, graceTokenData = None, session_generation = 0, server_epoch = 0,
      highest_observed_time = 0, grace_token_signature = None, capabilities = None,
      last_transition = None, last_transition_at = None\<rparr>"

text \<open>C7. Round trip of the security row: what a successful commit wrote is exactly what the next read
  returns (the new version, the event and the time stamped into it, the query columns restored from
  the row), provided the watermark is not already beyond the committed version.\<close>

theorem committed_row_reads_back:
  assumes "aead_ok enc dec"
    and "commitTransitionWithOCC enc now e d ev w = (Inr True, w')"
    and "effectiveMinVersion w \<le> e + 1"
  shows "fst (getSecurityStateRow dec w') =
    Inr (Some (d\<lparr>state_version := e + 1, last_transition := ev, last_transition_at := Some now,
      highest_observed_time := (if highest_observed_time d \<noteq> 0 then highest_observed_time d else now)\<rparr>))"
proof -
  from assms(2) have "db_open w"
    by (auto simp: commitTransitionWithOCC_def split: if_splits)
  from getRow_afterCommit [OF assms(1) this assms(3)] commit_True_state [OF assms(2)] show ?thesis
    by (simp add: inject_commit)
qed

theorem committed_row_reads_back_witness:
  "fst (getSecurityStateRow tag_dec
      (snd (commitTransitionWithOCC tag_enc 7 0 (sample_data UNINITIALIZED 0) (Some ''SYSTEM_BOOT'') fresh_acp))) =
    Inr (Some ((sample_data UNINITIALIZED 0)\<lparr>state_version := 1, last_transition := Some ''SYSTEM_BOOT'',
      last_transition_at := Some 7, highest_observed_time := 7\<rparr>))"
  using committed_row_reads_back [OF tag_aead_ok, of 7 0 "sample_data UNINITIALIZED 0" "Some ''SYSTEM_BOOT''"
      fresh_acp]
  by (simp add: commitTransitionWithOCC_def fresh_acp_def effectiveMinVersion_def sample_data_def)

text \<open>C8. Rollback detection: once version \<open>e + 1\<close> was committed, a database in which the row has been
  replaced by any row of an older version is refused, whatever its contents.\<close>

theorem restored_row_refused:
  assumes "commitTransitionWithOCC enc now e d ev w = (Inr True, w')" and "row_version old \<le> e"
  shows "\<exists>err. fst (getSecurityStateRow dec (w'\<lparr>singleton := Some old\<rparr>)) = Inl err"
proof (rule getRow_older_rejected)
  have "e + 1 \<le> effectiveMinVersion w'"
    using effectiveMin_ge [of w'] commit_True_state [OF assms(1)] by simp
  moreover have "effectiveMinVersion (w'\<lparr>singleton := Some old\<rparr>) = effectiveMinVersion w'"
    by (rule effectiveMin_cong) simp_all
  ultimately show "row_version old < effectiveMinVersion (w'\<lparr>singleton := Some old\<rparr>)"
    using assms(2) by simp
qed simp

theorem restored_row_refused_witness:
  "\<exists>err. fst (getSecurityStateRow tag_dec
      ((snd (commitTransitionWithOCC tag_enc 7 0 (sample_data UNINITIALIZED 0) None fresh_acp))
        \<lparr>singleton := Some (commitRow tag_enc 3 0 (sample_data OPERATIONAL 0) None)\<rparr>)) = Inl err"
proof (rule restored_row_refused [where enc = tag_enc and w = fresh_acp and e = 0 and now = 7
      and d = "sample_data UNINITIALIZED 0" and ev = None])
  show "commitTransitionWithOCC tag_enc 7 0 (sample_data UNINITIALIZED 0) None fresh_acp =
      (Inr True, snd (commitTransitionWithOCC tag_enc 7 0 (sample_data UNINITIALIZED 0) None fresh_acp))"
    by (simp add: commitTransitionWithOCC_def fresh_acp_def)
qed (simp add: commitRow_def)

text \<open>Row swapping: a row that carries a ciphertext produced for another table key, another version
  or another backend generation fails authentication.\<close>

theorem swapped_blob_refused:
  assumes "aead_ok enc dec" and "db_open w" and "singleton w = Some row"
    and "row_blob row = encryptPayload enc key v g doc" and "CHR '':'' \<notin> set key"
    and "(key, v, g) \<noteq> (''singleton'', row_version row, row_generation row)"
  shows "fst (getSecurityStateRow dec w) = Inl IntegrityVerificationFailed"
  using assms decrypt_other [OF assms(1,6,5), of doc]
  by (simp add: getSecurityStateRow_def)

theorem swapped_blob_refused_witness:
  "fst (getSecurityStateRow tag_dec (fresh_acp\<lparr>singleton :=
      Some ((commitRow tag_enc 3 5 (sample_data OPERATIONAL 4) None)\<lparr>row_version := 6\<rparr>)\<rparr>)) =
    Inl IntegrityVerificationFailed"
  by (rule swapped_blob_refused [OF tag_aead_ok, where key = "''singleton''" and v = 5 and g = 0
        and row = "(commitRow tag_enc 3 5 (sample_data OPERATIONAL 4) None)\<lparr>row_version := 6\<rparr>"
        and doc = "StateDoc (commitPayload 3 5 (sample_data OPERATIONAL 4) None)"])
    (simp_all add: fresh_acp_def commitRow_def sample_data_def)

text \<open>C6. No update is lost: in any sequence of commits, whatever versions they were computed from, the
  accepted ones are based on consecutive versions of the row, starting at the current one, and the row
  ends at the version that counts them.\<close>

theorem commits_never_lost:
  "fst (occ_run (occ_commit enc) us w) =
     [store_version w ..< store_version w + length (fst (occ_run (occ_commit enc) us w))] \<and>
   store_version (snd (occ_run (occ_commit enc) us w)) =
     store_version w + length (fst (occ_run (occ_commit enc) us w))"
  by (rule secure_row.run_versions) simp

end
