(* ===== verification/Transitions.thy ===== *)
theory Transitions
  imports AuthorityState
begin

text \<open>
  The transition table of \<^verbatim>\<open>state-machine/transitions.mjs\<close>: the events, the payload members the guards
  read, the 40 entries in source order and the lookup \<^verbatim>\<open>getTransition\<close>. A guard that dereferences a
  missing payload throws a TypeError.
\<close>

datatype transition_event =
    INITIALIZE | BOOTSTRAP_COMPLETE | INTERRUPTED_TRANSACTION_FOUND | RECONCILIATION_RESOLVED
  | LOGIN_INTENT | BACKEND_AUTH_SUCCESS | BACKEND_AUTH_FAILURE | AUTHZ_LICENSE_RESOLVED
  | AUTHZ_LICENSE_FAILED | RENEW_THRESHOLD_REACHED | RENEW_SUCCESS | RENEW_BACKEND_UNREACHABLE
  | ENTER_OFFLINE_GRACE | BACKEND_RECONNECTED | OFFLINE_GRACE_EXHAUSTED | SESSION_OR_LICENSE_EXPIRED
  | BACKEND_REVOCATION | SIGNIFICANT_TAMPER_SIGNAL | CRITICAL_OR_CORRELATED_TAMPER_SIGNAL
  | USER_REINITIATES | LOGOUT_INTENT | LOGOUT_SEQUENCE_COMPLETE

fun event_name :: "transition_event \<Rightarrow> string" where
  "event_name INITIALIZE = ''INITIALIZE''"
| "event_name BOOTSTRAP_COMPLETE = ''BOOTSTRAP_COMPLETE''"
| "event_name INTERRUPTED_TRANSACTION_FOUND = ''INTERRUPTED_TRANSACTION_FOUND''"
| "event_name RECONCILIATION_RESOLVED = ''RECONCILIATION_RESOLVED''"
| "event_name LOGIN_INTENT = ''LOGIN_INTENT''"
| "event_name BACKEND_AUTH_SUCCESS = ''BACKEND_AUTH_SUCCESS''"
| "event_name BACKEND_AUTH_FAILURE = ''BACKEND_AUTH_FAILURE''"
| "event_name AUTHZ_LICENSE_RESOLVED = ''AUTHZ_LICENSE_RESOLVED''"
| "event_name AUTHZ_LICENSE_FAILED = ''AUTHZ_LICENSE_FAILED''"
| "event_name RENEW_THRESHOLD_REACHED = ''RENEW_THRESHOLD_REACHED''"
| "event_name RENEW_SUCCESS = ''RENEW_SUCCESS''"
| "event_name RENEW_BACKEND_UNREACHABLE = ''RENEW_BACKEND_UNREACHABLE''"
| "event_name ENTER_OFFLINE_GRACE = ''ENTER_OFFLINE_GRACE''"
| "event_name BACKEND_RECONNECTED = ''BACKEND_RECONNECTED''"
| "event_name OFFLINE_GRACE_EXHAUSTED = ''OFFLINE_GRACE_EXHAUSTED''"
| "event_name SESSION_OR_LICENSE_EXPIRED = ''SESSION_OR_LICENSE_EXPIRED''"
| "event_name BACKEND_REVOCATION = ''BACKEND_REVOCATION''"
| "event_name SIGNIFICANT_TAMPER_SIGNAL = ''SIGNIFICANT_TAMPER_SIGNAL''"
| "event_name CRITICAL_OR_CORRELATED_TAMPER_SIGNAL = ''CRITICAL_OR_CORRELATED_TAMPER_SIGNAL''"
| "event_name USER_REINITIATES = ''USER_REINITIATES''"
| "event_name LOGOUT_INTENT = ''LOGOUT_INTENT''"
| "event_name LOGOUT_SEQUENCE_COMPLETE = ''LOGOUT_SEQUENCE_COMPLETE''"

text \<open>The members of the payload object that guards and engine read; an absent boolean is \<open>False\<close>, an
  absent number \<open>None\<close> (every comparison with it is false).\<close>

record transition_payload =
  singleInstanceLockHeld :: bool
  integrityVerified :: bool
  storageVerified :: bool
  machineIdentityVerified :: bool
  pendingTransactionExists :: bool
  causalViolation :: bool
  authoritativeOutcomeConfirmed :: bool
  isWithinGrace :: bool
  nonceValidated :: bool
  backendConfirmed :: bool
  p_now :: "int option"
  p_renewAfter :: "int option"
  renewalMutexHeld :: bool
  responseValidated :: bool
  handshakePassed :: bool
  accumulatedMs :: "int option"
  offlineGraceMax :: "int option"
  p_expiresAt :: "int option"
  nonceChecked :: bool
  classification :: "string option"
  correlatedCount :: "int option"
  threshold :: "int option"
  allStepsCompleted :: bool
  sessionData :: "session_row option"
  authorizationData :: "authorization_row option"
  licenseData :: "license_row option"
  p_graceTokenData :: "grace_token option"

definition empty_payload :: transition_payload where
  "empty_payload = \<lparr>
     singleInstanceLockHeld = False, integrityVerified = False, storageVerified = False,
     machineIdentityVerified = False, pendingTransactionExists = False, causalViolation = False,
     authoritativeOutcomeConfirmed = False, isWithinGrace = False, nonceValidated = False,
     backendConfirmed = False, p_now = None, p_renewAfter = None, renewalMutexHeld = False,
     responseValidated = False, handshakePassed = False, accumulatedMs = None,
     offlineGraceMax = None, p_expiresAt = None, nonceChecked = False, classification = None,
     correlatedCount = None, threshold = None, allStepsCompleted = False, sessionData = None,
     authorizationData = None, licenseData = None, p_graceTokenData = None\<rparr>"

fun opt_ge :: "int option \<Rightarrow> int option \<Rightarrow> bool" where
  "opt_ge (Some a) (Some b) = (a \<ge> b)"
| "opt_ge _ _ = False"

fun opt_gt :: "int option \<Rightarrow> int option \<Rightarrow> bool" where
  "opt_gt (Some a) (Some b) = (a > b)"
| "opt_gt _ _ = False"

type_synonym guard = "transition_payload option \<Rightarrow> auth_error + bool"

definition deref :: "(transition_payload \<Rightarrow> bool) \<Rightarrow> guard" where
  "deref g p = (case p of None \<Rightarrow> Inl TypeError | Some q \<Rightarrow> Inr (g q))"

definition checked :: "(transition_payload \<Rightarrow> bool) \<Rightarrow> guard" where
  "checked g p = (case p of None \<Rightarrow> Inr False | Some q \<Rightarrow> Inr (g q))"

definition always :: guard where
  "always p = Inr True"

record transition_definition =
  currentState :: security_state
  on_event :: transition_event
  guard :: guard
  nextState :: security_state

definition tdef :: "security_state \<Rightarrow> transition_event \<Rightarrow> guard \<Rightarrow> security_state \<Rightarrow> transition_definition" where
  "tdef s e g t = \<lparr>currentState = s, on_event = e, guard = g, nextState = t\<rparr>"

definition expiry_guard :: guard where
  "expiry_guard = deref (\<lambda>p. opt_ge (p_now p) (p_expiresAt p))"

definition revocation_guard :: guard where
  "revocation_guard = deref nonceChecked"

definition Transitions :: "transition_definition list" where
  "Transitions = [
     tdef UNINITIALIZED INITIALIZE (deref singleInstanceLockHeld) INITIALIZING,
     tdef INITIALIZING BOOTSTRAP_COMPLETE
       (deref (\<lambda>p. integrityVerified p \<and> storageVerified p \<and> machineIdentityVerified p))
       SECURITY_STATE_READY,
     tdef INITIALIZING INTERRUPTED_TRANSACTION_FOUND
       (deref (\<lambda>p. pendingTransactionExists p \<or> causalViolation p)) SECURITY_STATE_UNCERTAIN,
     tdef SECURITY_STATE_UNCERTAIN RECONCILIATION_RESOLVED
       (deref authoritativeOutcomeConfirmed) SECURITY_STATE_READY,
     tdef SECURITY_STATE_READY ENTER_OFFLINE_GRACE (checked isWithinGrace) OFFLINE_GRACE,
     tdef SECURITY_STATE_READY LOGIN_INTENT always AUTHENTICATING,
     tdef UNAUTHENTICATED ENTER_OFFLINE_GRACE (checked isWithinGrace) OFFLINE_GRACE,
     tdef UNAUTHENTICATED LOGIN_INTENT always AUTHENTICATING,
     tdef AUTHENTICATING BACKEND_AUTH_SUCCESS (deref nonceValidated) AUTHENTICATED,
     tdef AUTHENTICATING BACKEND_AUTH_FAILURE always AUTH_FAILED,
     tdef AUTHENTICATED AUTHZ_LICENSE_RESOLVED (deref backendConfirmed) OPERATIONAL,
     tdef AUTHENTICATED AUTHZ_LICENSE_FAILED always AUTHZ_FAILURE,
     tdef OPERATIONAL RENEW_THRESHOLD_REACHED
       (deref (\<lambda>p. opt_ge (p_now p) (p_renewAfter p) \<and> \<not> renewalMutexHeld p)) RENEWING,
     tdef RENEWING RENEW_SUCCESS (deref responseValidated) OPERATIONAL,
     tdef RENEWING RENEW_BACKEND_UNREACHABLE always OFFLINE_GRACE,
     tdef OFFLINE_GRACE BACKEND_RECONNECTED (deref handshakePassed) OPERATIONAL,
     tdef OFFLINE_GRACE OFFLINE_GRACE_EXHAUSTED
       (deref (\<lambda>p. opt_gt (accumulatedMs p) (offlineGraceMax p))) REAUTHENTICATION_REQUIRED,
     tdef OPERATIONAL SESSION_OR_LICENSE_EXPIRED expiry_guard EXPIRED,
     tdef OFFLINE_GRACE SESSION_OR_LICENSE_EXPIRED expiry_guard EXPIRED,
     tdef RENEWING SESSION_OR_LICENSE_EXPIRED expiry_guard EXPIRED,
     tdef OPERATIONAL BACKEND_REVOCATION revocation_guard REVOKED,
     tdef OFFLINE_GRACE BACKEND_REVOCATION revocation_guard REVOKED,
     tdef RENEWING BACKEND_REVOCATION revocation_guard REVOKED,
     tdef AUTHENTICATED BACKEND_REVOCATION revocation_guard REVOKED,
     tdef OPERATIONAL SIGNIFICANT_TAMPER_SIGNAL
       (deref (\<lambda>p. classification p = Some ''SIGNIFICANT'')) INTEGRITY_DEGRADED,
     tdef INTEGRITY_DEGRADED CRITICAL_OR_CORRELATED_TAMPER_SIGNAL
       (deref (\<lambda>p. classification p = Some ''CRITICAL'' \<or>
                   opt_ge (correlatedCount p) (threshold p))) TAMPER_SUSPECTED,
     tdef REAUTHENTICATION_REQUIRED USER_REINITIATES always AUTHENTICATING,
     tdef LOGGED_OUT LOGIN_INTENT always AUTHENTICATING,
     tdef AUTH_FAILED LOGIN_INTENT always AUTHENTICATING,
     tdef AUTHZ_FAILURE LOGIN_INTENT always AUTHENTICATING,
     tdef EXPIRED LOGIN_INTENT always AUTHENTICATING,
     tdef AUTHENTICATED LOGIN_INTENT always AUTHENTICATING,
     tdef OPERATIONAL LOGIN_INTENT always AUTHENTICATING,
     tdef AUTHENTICATED LOGOUT_INTENT always LOGGING_OUT,
     tdef OPERATIONAL LOGOUT_INTENT always LOGGING_OUT,
     tdef OFFLINE_GRACE LOGOUT_INTENT always LOGGING_OUT,
     tdef EXPIRED LOGOUT_INTENT always LOGGING_OUT,
     tdef AUTHZ_FAILURE LOGOUT_INTENT always LOGGING_OUT,
     tdef REAUTHENTICATION_REQUIRED LOGOUT_INTENT always LOGGING_OUT,
     tdef LOGGING_OUT LOGOUT_SEQUENCE_COMPLETE (deref allStepsCompleted) LOGGED_OUT]"

definition getTransition :: "security_state \<Rightarrow> transition_event \<Rightarrow> transition_definition option" where
  "getTransition s e = find (\<lambda>t. currentState t = s \<and> on_event t = e) Transitions"

section \<open>Facts about the table\<close>

lemma tdef_simps [simp]:
  "currentState (tdef s e g t) = s" "on_event (tdef s e g t) = e"
  "guard (tdef s e g t) = g" "nextState (tdef s e g t) = t"
  by (simp_all add: tdef_def)

lemma guard_simps [simp]:
  "deref g None = Inl TypeError" "deref g (Some q) = Inr (g q)"
  "checked g None = Inr False" "checked g (Some q) = Inr (g q)" "always p = Inr True"
  by (simp_all add: deref_def checked_def always_def)

text \<open>The table has at most one entry per state and event, so \<^verbatim>\<open>find\<close> never hides one.\<close>

lemma Transitions_keys_distinct: "distinct (map (\<lambda>t. (currentState t, on_event t)) Transitions)"
  by code_simp

lemma getTransition_mem: "getTransition s e = Some t \<Longrightarrow> t \<in> set Transitions \<and> currentState t = s \<and> on_event t = e"
  by (auto simp: getTransition_def find_Some_iff)

lemma getTransition_iff:
  "getTransition s e = Some t \<longleftrightarrow> t \<in> set Transitions \<and> currentState t = s \<and> on_event t = e"
proof
  assume t: "t \<in> set Transitions \<and> currentState t = s \<and> on_event t = e"
  then have "getTransition s e \<noteq> None"
    by (auto simp: getTransition_def find_None_iff)
  then obtain t' where t': "getTransition s e = Some t'" by blast
  then have "t' \<in> set Transitions" "currentState t' = s" "on_event t' = e"
    by (auto dest: getTransition_mem)
  with t Transitions_keys_distinct have "t' = t"
    by (auto simp: distinct_map inj_on_def)
  with t' show "getTransition s e = Some t" by simp
qed (rule getTransition_mem)

definition lockdown :: "security_state \<Rightarrow> bool" where
  "lockdown s \<longleftrightarrow> s \<in> {REVOKED, COMPROMISED, TAMPER_SUSPECTED}"

text \<open>Facts about every entry are decided by running through the table.\<close>

lemma table_sources: "list_all (\<lambda>t. \<not> lockdown (currentState t)) Transitions"
  by (simp add: Transitions_def lockdown_def)

lemma table_targets:
  "list_all (\<lambda>t. nextState t \<notin> {UNINITIALIZED, UNAUTHENTICATED, AUTHORIZING, COMPROMISED, RECONCILING})
     Transitions"
  by (simp add: Transitions_def)

lemma table_operational:
  "list_all (\<lambda>t. nextState t = OPERATIONAL \<longrightarrow>
       (currentState t, on_event t) \<in> {(AUTHENTICATED, AUTHZ_LICENSE_RESOLVED),
          (RENEWING, RENEW_SUCCESS), (OFFLINE_GRACE, BACKEND_RECONNECTED)}) Transitions"
  by (simp add: Transitions_def)

lemma lockdown_terminal: "lockdown s \<Longrightarrow> getTransition s e = None"
  using table_sources getTransition_mem [of s e]
  by (cases "getTransition s e") (auto simp: list_all_iff)

lemma transition_target:
  "getTransition s e = Some t \<Longrightarrow>
     nextState t \<notin> {UNINITIALIZED, UNAUTHENTICATED, AUTHORIZING, COMPROMISED, RECONCILING}"
  using table_targets getTransition_mem [of s e t] by (simp add: list_all_iff)

lemma transition_operational:
  "getTransition s e = Some t \<Longrightarrow> nextState t = OPERATIONAL \<Longrightarrow>
     (s, e) \<in> {(AUTHENTICATED, AUTHZ_LICENSE_RESOLVED), (RENEWING, RENEW_SUCCESS),
       (OFFLINE_GRACE, BACKEND_RECONNECTED)}"
  using table_operational getTransition_mem [of s e t] unfolding list_all_iff by blast

text \<open>The entries the facade drives, evaluated.\<close>

lemma getTransition_eval:
  "getTransition UNINITIALIZED INITIALIZE =
     Some (tdef UNINITIALIZED INITIALIZE (deref singleInstanceLockHeld) INITIALIZING)"
  "getTransition AUTHENTICATING BACKEND_AUTH_SUCCESS =
     Some (tdef AUTHENTICATING BACKEND_AUTH_SUCCESS (deref nonceValidated) AUTHENTICATED)"
  "getTransition AUTHENTICATED AUTHZ_LICENSE_RESOLVED =
     Some (tdef AUTHENTICATED AUTHZ_LICENSE_RESOLVED (deref backendConfirmed) OPERATIONAL)"
  "getTransition OFFLINE_GRACE BACKEND_RECONNECTED =
     Some (tdef OFFLINE_GRACE BACKEND_RECONNECTED (deref handshakePassed) OPERATIONAL)"
  "getTransition RENEWING RENEW_SUCCESS =
     Some (tdef RENEWING RENEW_SUCCESS (deref responseValidated) OPERATIONAL)"
  "getTransition RENEWING RENEW_BACKEND_UNREACHABLE =
     Some (tdef RENEWING RENEW_BACKEND_UNREACHABLE always OFFLINE_GRACE)"
  "getTransition LOGGING_OUT LOGOUT_SEQUENCE_COMPLETE =
     Some (tdef LOGGING_OUT LOGOUT_SEQUENCE_COMPLETE (deref allStepsCompleted) LOGGED_OUT)"
  "getTransition OPERATIONAL BACKEND_REVOCATION =
     Some (tdef OPERATIONAL BACKEND_REVOCATION revocation_guard REVOKED)"
  by (simp_all add: getTransition_def Transitions_def)

end
