(* ===== verification/StateEngine.thy ===== *)
theory StateEngine
  imports SecureStorage Transitions
begin

text \<open>
  The state-machine engine (\<^verbatim>\<open>state-machine/engine.mjs\<close>, \<^verbatim>\<open>state-machine/invariants.mjs\<close>) and the
  decision engine (\<^verbatim>\<open>decision-engine.mjs\<close>): one guarded, version-checked, persisted transition; its
  dispatch against the in-memory projection; the boot sequence; the capability set. The state-machine
  mutex serialises transitions, so \<open>executeTransition\<close> is one step of the model.
\<close>

section \<open>Names of the states\<close>

fun state_name :: "security_state \<Rightarrow> string" where
  "state_name UNINITIALIZED = ''UNINITIALIZED''"
| "state_name INITIALIZING = ''INITIALIZING''"
| "state_name SECURITY_STATE_UNCERTAIN = ''SECURITY_STATE_UNCERTAIN''"
| "state_name SECURITY_STATE_READY = ''SECURITY_STATE_READY''"
| "state_name UNAUTHENTICATED = ''UNAUTHENTICATED''"
| "state_name AUTHENTICATING = ''AUTHENTICATING''"
| "state_name AUTH_FAILED = ''AUTH_FAILED''"
| "state_name AUTHENTICATED = ''AUTHENTICATED''"
| "state_name AUTHORIZING = ''AUTHORIZING''"
| "state_name AUTHZ_FAILURE = ''AUTHZ_FAILURE''"
| "state_name OPERATIONAL = ''OPERATIONAL''"
| "state_name RENEWING = ''RENEWING''"
| "state_name OFFLINE_GRACE = ''OFFLINE_GRACE''"
| "state_name EXPIRED = ''EXPIRED''"
| "state_name REVOKED = ''REVOKED''"
| "state_name INTEGRITY_DEGRADED = ''INTEGRITY_DEGRADED''"
| "state_name TAMPER_SUSPECTED = ''TAMPER_SUSPECTED''"
| "state_name COMPROMISED = ''COMPROMISED''"
| "state_name REAUTHENTICATION_REQUIRED = ''REAUTHENTICATION_REQUIRED''"
| "state_name LOGGING_OUT = ''LOGGING_OUT''"
| "state_name LOGGED_OUT = ''LOGGED_OUT''"
| "state_name RECONCILING = ''RECONCILING''"

section \<open>Invariants checked after a transition\<close>

definition assertStateMachineInvariants :: "security_data \<Rightarrow> string list \<Rightarrow> auth_error option" where
  "assertStateMachineInvariants d caps =
     (let op_error =
        (if state d = OPERATIONAL then
           (case authorization d of
              None \<Rightarrow> Some TypeError
            | Some a \<Rightarrow>
                if authStatus a \<noteq> ''VALID''
                then Some (InvariantViolation ''OPERATIONAL implies valid authorization'')
                else (case session d of
                        None \<Rightarrow> Some TypeError
                      | Some s \<Rightarrow>
                          if sessionStatus s \<noteq> ''AUTHENTICATED'' \<and> sessionStatus s \<noteq> ''RENEWING''
                          then Some (InvariantViolation ''OPERATIONAL implies valid session'')
                          else None))
         else None)
      in case op_error of
           Some e \<Rightarrow> Some e
         | None \<Rightarrow>
             if (state d = COMPROMISED \<or> state d = REVOKED) \<and> caps \<noteq> []
             then Some (InvariantViolation ''COMPROMISED/REVOKED implies no execution capability'')
             else None)"

section \<open>One transition\<close>

datatype transition_outcome = Applied security_data | OccConflict | InvalidTransition | GuardFailed

definition audit_of :: "string \<Rightarrow> string \<Rightarrow> string \<Rightarrow> jsval \<Rightarrow> audit_event" where
  "audit_of ty sev res meta =
     \<lparr>event_type = ty, severity = sev, event_result = JStr res, event_hash = None,
      prev_event_hash = None, event_metadata = meta\<rparr>"

definition override :: "'a option \<Rightarrow> 'a option \<Rightarrow> 'a option" where
  "override new old = (case new of None \<Rightarrow> old | Some x \<Rightarrow> Some x)"

definition applyPayload :: "transition_payload option \<Rightarrow> security_data \<Rightarrow> security_data" where
  "applyPayload payload d =
     (case payload of
        None \<Rightarrow> d
      | Some p \<Rightarrow>
          d\<lparr>session := override (sessionData p) (session d),
            authorization := override (authorizationData p) (authorization d),
            license := override (licenseData p) (license d),
            graceTokenData := override (p_graceTokenData p) (graceTokenData d)\<rparr>)"

definition capabilities_of :: "security_data \<Rightarrow> string list" where
  "capabilities_of d =
     (case authorization d of
        None \<Rightarrow> []
      | Some a \<Rightarrow> (case capability_set a of None \<Rightarrow> [] | Some cs \<Rightarrow> cs))"

definition nonRevokedStates :: "security_state list" where
  "nonRevokedStates = [OPERATIONAL, AUTHENTICATED, AUTHENTICATING, RENEWING, OFFLINE_GRACE]"

definition executeTransition ::
  "(string \<Rightarrow> document \<Rightarrow> 'b) \<Rightarrow> (string \<Rightarrow> 'b \<Rightarrow> document option) \<Rightarrow> int \<Rightarrow> security_data
     \<Rightarrow> transition_event \<Rightarrow> transition_payload option \<Rightarrow> 'b acp \<Rightarrow> ('b, transition_outcome) op_result" where
  "executeTransition enc dec now current event payload w =
     (case getSecurityStateRow dec w of
        (Inl e, w1) \<Rightarrow> (Inl e, w1)
      | (Inr None, w1) \<Rightarrow> (Inl StateRowMissing, w1)
      | (Inr (Some dbStateRow), w1) \<Rightarrow>
          if state_version current \<noteq> state_version dbStateRow then (Inr OccConflict, w1)
          else case getTransition (state current) event of
            None \<Rightarrow>
              (Inr InvalidTransition,
               writeEvent enc now (audit_of ''INVALID_TRANSITION_ATTEMPTED'' ''WARN'' ''FAILED'' JUndef) w1)
          | Some t \<Rightarrow>
              (case guard t payload of
                 Inl e \<Rightarrow> (Inl e, w1)
               | Inr False \<Rightarrow>
                   (Inr GuardFailed,
                    writeEvent enc now (audit_of ''TRANSITION_GUARD_FAILED'' ''WARN'' ''FAILED'' JUndef) w1)
               | Inr True \<Rightarrow>
                   let next = applyPayload payload (current\<lparr>state := nextState t\<rparr>) in
                   (case commitTransitionWithOCC enc now (state_version current) next
                           (Some (event_name event)) w1 of
                      (Inl e, w2) \<Rightarrow> (Inl e, w2)
                    | (Inr False, w2) \<Rightarrow> (Inr OccConflict, w2)
                    | (Inr True, w2) \<Rightarrow>
                        let next' = next\<lparr>state_version := state_version current + 1\<rparr>;
                            w3 = writeEvent enc now
                                   (audit_of ''STATE_TRANSITION'' ''INFO'' ''SUCCESS''
                                      (JObj [(''event'', JStr (event_name event)),
                                             (''nextState'', JStr (state_name (state next')))])) w2
                        in case assertStateMachineInvariants next' (capabilities_of next') of
                             Some e \<Rightarrow> (Inl e, w3)
                           | None \<Rightarrow>
                               (Inr (Applied next'),
                                setRevokedSync (state next' \<notin> set nonRevokedStates) w3))))"

section \<open>The decision engine\<close>

definition dispatch ::
  "(string \<Rightarrow> document \<Rightarrow> 'b) \<Rightarrow> (string \<Rightarrow> 'b \<Rightarrow> document option) \<Rightarrow> int
     \<Rightarrow> transition_event \<Rightarrow> transition_payload option \<Rightarrow> 'b acp \<Rightarrow> ('b, bool) op_result" where
  "dispatch enc dec now event payload w =
     (case inMemoryState w of
        None \<Rightarrow> (Inl EngineNotInitialized, w)
      | Some current \<Rightarrow>
          (case executeTransition enc dec now current event payload w of
             (Inl e, w1) \<Rightarrow> (Inl e, w1)
           | (Inr (Applied next), w1) \<Rightarrow> (Inr True, w1\<lparr>inMemoryState := Some next\<rparr>)
           | (Inr _, w1) \<Rightarrow> (Inr False, w1)))"

definition blank_data :: "security_state \<Rightarrow> nat \<Rightarrow> security_data" where
  "blank_data s v =
     \<lparr>state = s, state_version = v, session = None, authorization = None, license = None,
      machine = None, graceTokenData = None, session_generation = 0, server_epoch = 0,
      highest_observed_time = 0, grace_token_signature = None, capabilities = None,
      last_transition = None, last_transition_at = None\<rparr>"

text \<open>The in-memory projection keeps six members of the row and drops the others.\<close>

definition memory_projection :: "security_data \<Rightarrow> security_data" where
  "memory_projection raw =
     (blank_data (state raw) (state_version raw))
       \<lparr>session := session raw, authorization := authorization raw, license := license raw,
        machine := machine raw\<rparr>"

definition establishRow ::
  "(string \<Rightarrow> document \<Rightarrow> 'b) \<Rightarrow> (string \<Rightarrow> 'b \<Rightarrow> document option) \<Rightarrow> int \<Rightarrow> 'b acp
     \<Rightarrow> ('b, security_data) op_result" where
  "establishRow enc dec now w =
     (case getSecurityStateRow dec w of
        (Inl e, w1) \<Rightarrow> (Inl e, w1)
      | (Inr (Some d), w1) \<Rightarrow> (Inr d, w1)
      | (Inr None, w1) \<Rightarrow>
          (case commitTransitionWithOCC enc now 0 (blank_data UNINITIALIZED 0) (Some ''SYSTEM_BOOT'') w1 of
             (Inl e, w2) \<Rightarrow> (Inl e, w2)
           | (Inr _, w2) \<Rightarrow>
               (case getSecurityStateRow dec w2 of
                  (Inl e, w3) \<Rightarrow> (Inl e, w3)
                | (Inr None, w3) \<Rightarrow> (Inl CannotEstablishState, w3)
                | (Inr (Some d), w3) \<Rightarrow> (Inr d, w3))))"

definition bootFlagStates :: "security_state list" where
  "bootFlagStates = [OPERATIONAL, AUTHENTICATED, AUTHENTICATING, RENEWING, OFFLINE_GRACE, SECURITY_STATE_READY]"

definition syncBootFlag :: "'b acp \<Rightarrow> 'b acp" where
  "syncBootFlag w =
     (case inMemoryState w of
        None \<Rightarrow> w
      | Some m \<Rightarrow> setRevokedSync (state m \<notin> set bootFlagStates) w)"

definition bootstrapFresh ::
  "(string \<Rightarrow> document \<Rightarrow> 'b) \<Rightarrow> (string \<Rightarrow> 'b \<Rightarrow> document option) \<Rightarrow> int \<Rightarrow> bool \<Rightarrow> 'b acp
     \<Rightarrow> ('b, unit) op_result" where
  "bootstrapFresh enc dec now isMachineValid w =
     (case dispatch enc dec now INITIALIZE (Some (empty_payload\<lparr>singleInstanceLockHeld := True\<rparr>)) w of
        (Inl e, w1) \<Rightarrow> (Inl e, w1)
      | (Inr _, w1) \<Rightarrow>
          (case dispatch enc dec now BOOTSTRAP_COMPLETE
                  (Some (empty_payload\<lparr>integrityVerified := True, storageVerified := True,
                           machineIdentityVerified := isMachineValid\<rparr>)) w1 of
             (Inl e, w2) \<Rightarrow> (Inl e, w2)
           | (Inr _, w2) \<Rightarrow> (Inr (), syncBootFlag w2)))"

text \<open>\<^verbatim>\<open>TransitionEvent.IDENTITY_MISMATCH\<close> is not a member of the event table: the commit records no event.\<close>

definition resumePersisted ::
  "(string \<Rightarrow> document \<Rightarrow> 'b) \<Rightarrow> int \<Rightarrow> bool \<Rightarrow> security_data \<Rightarrow> 'b acp \<Rightarrow> ('b, unit) op_result" where
  "resumePersisted enc now isMachineValid m w =
     (if isMachineValid
      then (Inr (), syncBootFlag (w\<lparr>inMemoryState := Some (m\<lparr>state := SECURITY_STATE_READY\<rparr>)\<rparr>))
      else let mc = m\<lparr>state := COMPROMISED\<rparr>
           in case commitTransitionWithOCC enc now (state_version mc) mc None
                     (w\<lparr>inMemoryState := Some mc\<rparr>) of
                (Inl e, w1) \<Rightarrow> (Inr (), setRevokedSync True w1)
              | (Inr _, w1) \<Rightarrow>
                  (Inr (), setRevokedSync True
                     (w1\<lparr>inMemoryState := Some (mc\<lparr>state_version := state_version mc + 1\<rparr>)\<rparr>)))"

definition initialize ::
  "(string \<Rightarrow> document \<Rightarrow> 'b) \<Rightarrow> (string \<Rightarrow> 'b \<Rightarrow> document option) \<Rightarrow> int \<Rightarrow> bool \<Rightarrow> 'b acp
     \<Rightarrow> ('b, unit) op_result" where
  "initialize enc dec now isMachineValid w =
     (case establishRow enc dec now w of
        (Inl e, w1) \<Rightarrow> (Inl e, w1)
      | (Inr raw, w1) \<Rightarrow>
          let m = memory_projection raw; w2 = w1\<lparr>inMemoryState := Some m\<rparr> in
          if lockdown (state m) then (Inr (), setRevokedSync True w2)
          else if state m = UNINITIALIZED then bootstrapFresh enc dec now isMachineValid w2
          else resumePersisted enc now isMachineValid m w2)"

definition CAP_AUTOMATION_START :: string where "CAP_AUTOMATION_START = ''CAP_AUTOMATION_START''"
definition CAP_AUTOMATION_STOP :: string where "CAP_AUTOMATION_STOP = ''CAP_AUTOMATION_STOP''"
definition CAP_CONFIG_MODIFY :: string where "CAP_CONFIG_MODIFY = ''CAP_CONFIG_MODIFY''"

definition getCurrentCapabilities :: "'b acp \<Rightarrow> string list" where
  "getCurrentCapabilities w =
     (case inMemoryState w of
        None \<Rightarrow> [CAP_AUTOMATION_STOP]
      | Some m \<Rightarrow>
          if state m \<noteq> OPERATIONAL \<and> state m \<noteq> OFFLINE_GRACE then [CAP_AUTOMATION_STOP]
          else case authorization m of
            None \<Rightarrow> [CAP_AUTOMATION_STOP]
          | Some a \<Rightarrow>
              if authStatus a \<noteq> ''VALID'' then [CAP_AUTOMATION_STOP]
              else let strictCaps = (case license m of None \<Rightarrow> False | Some l \<Rightarrow> strictCapabilities l);
                       baseCaps = (if strictCaps then [CAP_AUTOMATION_STOP]
                                   else [CAP_CONFIG_MODIFY, CAP_AUTOMATION_STOP, ''CAP_ACCOUNT_MANAGE'']);
                       caps = js_set (baseCaps @ (case capability_set a of None \<Rightarrow> [] | Some cs \<Rightarrow> cs))
                   in if execution_active w then filter (\<lambda>c. c \<noteq> CAP_AUTOMATION_START) caps else caps)"

section \<open>Lemmas\<close>

lemma writeEvent_frame [simp]:
  "singleton (writeEvent enc now ev w) = singleton w"
  "minValidStateVersion (writeEvent enc now ev w) = minValidStateVersion w"
  "pathMinVersions (writeEvent enc now ev w) = pathMinVersions w"
  "db_open (writeEvent enc now ev w) = db_open w"
  "dbPath (writeEvent enc now ev w) = dbPath w"
  "revoked (writeEvent enc now ev w) = revoked w"
  "pipe_server (writeEvent enc now ev w) = pipe_server w"
  "intent (writeEvent enc now ev w) = intent w"
  "dpapi_ok (writeEvent enc now ev w) = dpapi_ok w"
  "inMemoryState (writeEvent enc now ev w) = inMemoryState w"
  "execution_active (writeEvent enc now ev w) = execution_active w"
  "nonce_table (writeEvent enc now ev w) = nonce_table w"
  "time_anchor (writeEvent enc now ev w) = time_anchor w"
  by (simp_all add: writeEvent_def)

lemma applyPayload_simps [simp]:
  "state (applyPayload p d) = state d"
  "state_version (applyPayload p d) = state_version d"
  "highest_observed_time (applyPayload p d) = highest_observed_time d"
  "session_generation (applyPayload p d) = session_generation d"
  "server_epoch (applyPayload p d) = server_epoch d"
  "grace_token_signature (applyPayload p d) = grace_token_signature d"
  "machine (applyPayload p d) = machine d"
  by (simp_all add: applyPayload_def split: option.splits)

text \<open>The data a transition writes, and the world it leaves when it is applied.\<close>

definition transition_data :: "security_data \<Rightarrow> transition_definition \<Rightarrow> transition_payload option \<Rightarrow> security_data" where
  "transition_data cur t p =
     (applyPayload p (cur\<lparr>state := nextState t\<rparr>))\<lparr>state_version := state_version cur + 1\<rparr>"

lemma transition_data_simps [simp]:
  "state (transition_data cur t p) = nextState t"
  "state_version (transition_data cur t p) = state_version cur + 1"
  "highest_observed_time (transition_data cur t p) = highest_observed_time cur"
  "session_generation (transition_data cur t p) = session_generation cur"
  by (simp_all add: transition_data_def)

lemma commitRow_version_irrelevant:
  "commitRow enc now v (d\<lparr>state_version := u\<rparr>) ev = commitRow enc now v d ev"
  by (simp add: commitRow_def commitPayload_def)

text \<open>Inversion: a transition that got as far as the commit, whatever the invariant check then said.\<close>

lemma executeTransition_committed:
  assumes "executeTransition enc dec now cur ev p w = (r, w')"
    and "singleton w' \<noteq> singleton w \<or> (\<exists>n. r = Inr (Applied n))"
  obtains t db w1 audit where
    "getSecurityStateRow dec w = (Inr (Some db), w1)" "state_version cur = state_version db"
    "getTransition (state cur) ev = Some t" "guard t p = Inr True"
    "store_version w = state_version cur" "db_open w"
    "w' = (if assertStateMachineInvariants (transition_data cur t p)
                (capabilities_of (transition_data cur t p)) = None
           then setRevokedSync (nextState t \<notin> set nonRevokedStates) else id)
           (writeEvent enc now audit
             (afterCommit (state_version cur + 1)
               (w1\<lparr>singleton := Some (commitRow enc now (state_version cur + 1)
                     (transition_data cur t p) (Some (event_name ev)))\<rparr>)))"
    "r = (case assertStateMachineInvariants (transition_data cur t p)
                 (capabilities_of (transition_data cur t p)) of
            None \<Rightarrow> Inr (Applied (transition_data cur t p)) | Some e \<Rightarrow> Inl e)"
proof -
  obtain g w1 where g: "getSecurityStateRow dec w = (g, w1)" by fastforce
  note fr = getRow_frame [OF g]
  from assms g fr obtain db where db: "g = Inr (Some db)" "state_version cur = state_version db"
    by (cases g) (auto simp: executeTransition_def split: option.splits if_splits)
  from assms g fr db obtain t where t: "getTransition (state cur) ev = Some t" "guard t p = Inr True"
    by (auto simp: executeTransition_def split: option.splits sum.splits bool.splits)
  obtain c w2 where c: "commitTransitionWithOCC enc now (state_version cur)
      (applyPayload p (cur\<lparr>state := nextState t\<rparr>)) (Some (event_name ev)) w1 = (c, w2)" by fastforce
  have "c = Inr True"
  proof (rule ccontr)
    assume n: "c \<noteq> Inr True"
    with c have "w2 = w1" by (rule commit_False_unchanged)
    with assms g fr db t c n show False
      by (cases c) (auto simp: executeTransition_def Let_def split: bool.splits)
  qed
  with c have c': "commitTransitionWithOCC enc now (state_version cur)
      (applyPayload p (cur\<lparr>state := nextState t\<rparr>)) (Some (event_name ev)) w1 = (Inr True, w2)" by simp
  have w2: "w2 = afterCommit (state_version cur + 1) (w1\<lparr>singleton := Some (commitRow enc now
      (state_version cur + 1) (transition_data cur t p) (Some (event_name ev)))\<rparr>)"
    using commit_True_state [OF c'] by (simp only: transition_data_def commitRow_version_irrelevant)
  from arg_cong [OF c', of fst] have op: "db_open w1" and sv: "store_version w1 = state_version cur"
    by (simp_all add: commit_True_iff store_version_def split: option.splits)
  have sv': "store_version w = state_version cur" "db_open w"
    using sv op fr by (simp_all add: store_version_def)
  define audit where "audit = audit_of ''STATE_TRANSITION'' ''INFO'' ''SUCCESS''
      (JObj [(''event'', JStr (event_name ev)), (''nextState'', JStr (state_name (nextState t)))])"
  have "(r, w') = (case assertStateMachineInvariants (transition_data cur t p)
      (capabilities_of (transition_data cur t p)) of
        Some e \<Rightarrow> (Inl e, writeEvent enc now audit w2)
      | None \<Rightarrow> (Inr (Applied (transition_data cur t p)),
          setRevokedSync (nextState t \<notin> set nonRevokedStates) (writeEvent enc now audit w2)))"
    using assms(1) g db t c \<open>c = Inr True\<close>
    by (simp add: executeTransition_def Let_def transition_data_def audit_def cong: option.case_cong)
  then show ?thesis
    using that [OF g [unfolded db(1)] db(2) t sv', of audit] w2 by (auto split: option.splits)
qed

lemma executeTransition_frame:
  assumes "executeTransition enc dec now cur ev p w = (r, w')"
  shows "inMemoryState w' = inMemoryState w" "db_open w' = db_open w"
    "execution_active w' = execution_active w"
proof -
  obtain g w1 where g: "getSecurityStateRow dec w = (g, w1)" by fastforce
  note fr = getRow_frame [OF g]
  have "inMemoryState w' = inMemoryState w1 \<and> db_open w' = db_open w1 \<and>
      execution_active w' = execution_active w1"
  proof (cases "\<exists>db t. g = Inr (Some db) \<and> state_version cur = state_version db \<and>
      getTransition (state cur) ev = Some t \<and> guard t p = Inr True")
    case False
    with assms g show ?thesis
      by (auto simp: executeTransition_def split: option.splits sum.splits if_splits bool.splits)
  next
    case True
    then obtain db t where db: "g = Inr (Some db)" "state_version cur = state_version db"
      and t: "getTransition (state cur) ev = Some t" "guard t p = Inr True" by blast
    obtain c w2 where c: "commitTransitionWithOCC enc now (state_version cur)
        (applyPayload p (cur\<lparr>state := nextState t\<rparr>)) (Some (event_name ev)) w1 = (c, w2)" by fastforce
    note cf = commit_frame [OF c]
    from assms g db t c have "(\<exists>a b. w' = w2 \<or> w' = writeEvent enc now a w2 \<or>
        w' = setRevokedSync b (writeEvent enc now a w2))"
      by (simp add: executeTransition_def Let_def split: sum.splits bool.splits option.splits) blast+
    with cf show ?thesis by auto
  qed
  then show "inMemoryState w' = inMemoryState w" "db_open w' = db_open w"
    "execution_active w' = execution_active w"
    using fr by simp_all
qed

text \<open>The three ways a dispatch ends.\<close>

lemma dispatch_True:
  assumes "dispatch enc dec now ev p w = (Inr True, w')"
  obtains cur t db w1 audit where
    "inMemoryState w = Some cur" "getTransition (state cur) ev = Some t" "guard t p = Inr True"
    "getSecurityStateRow dec w = (Inr (Some db), w1)" "state_version cur = state_version db"
    "store_version w = state_version cur" "db_open w"
    "assertStateMachineInvariants (transition_data cur t p)
       (capabilities_of (transition_data cur t p)) = None"
    "w' = (setRevokedSync (nextState t \<notin> set nonRevokedStates)
            (writeEvent enc now audit
              (afterCommit (state_version cur + 1)
                (w1\<lparr>singleton := Some (commitRow enc now (state_version cur + 1)
                      (transition_data cur t p) (Some (event_name ev)))\<rparr>))))
          \<lparr>inMemoryState := Some (transition_data cur t p)\<rparr>"
proof -
  from assms obtain cur n w0 where cur: "inMemoryState w = Some cur"
    and ex: "executeTransition enc dec now cur ev p w = (Inr (Applied n), w0)"
    and w': "w' = w0\<lparr>inMemoryState := Some n\<rparr>"
    by (auto simp: dispatch_def split: option.splits prod.splits sum.splits transition_outcome.splits)
  from ex show ?thesis
  proof (rule executeTransition_committed)
    show "singleton w0 \<noteq> singleton w \<or> (\<exists>m. Inr (Applied n) = Inr (Applied m))" by blast
  next
    fix t db w1 audit
    let ?n = "transition_data cur t p"
    let ?chk = "assertStateMachineInvariants ?n (capabilities_of ?n)"
    assume *: "getSecurityStateRow dec w = (Inr (Some db), w1)" "state_version cur = state_version db"
      "getTransition (state cur) ev = Some t" "guard t p = Inr True"
      "store_version w = state_version cur" "db_open w"
      and w0: "w0 = (if ?chk = None then setRevokedSync (nextState t \<notin> set nonRevokedStates) else id)
           (writeEvent enc now audit
             (afterCommit (state_version cur + 1)
               (w1\<lparr>singleton := Some (commitRow enc now (state_version cur + 1) ?n (Some (event_name ev)))\<rparr>)))"
      and r: "Inr (Applied n) = (case ?chk of None \<Rightarrow> Inr (Applied ?n) | Some e \<Rightarrow> Inl e)"
    from r have "?chk = None" "n = ?n" by (simp_all split: option.splits)
    with that [OF cur *(3,4,1,2,5,6)] w0 w' show ?thesis by simp
  qed
qed

lemma dispatch_False:
  assumes "dispatch enc dec now ev p w = (Inr False, w')"
  shows "inMemoryState w' = inMemoryState w \<and> singleton w' = singleton w"
proof -
  from assms obtain cur r where cur: "inMemoryState w = Some cur"
    and ex: "executeTransition enc dec now cur ev p w = (Inr r, w')" and na: "\<forall>n. r \<noteq> Applied n"
    by (auto simp: dispatch_def split: option.splits prod.splits sum.splits transition_outcome.splits)
  have "singleton w' = singleton w"
  proof (rule ccontr)
    assume "singleton w' \<noteq> singleton w"
    then have "singleton w' \<noteq> singleton w \<or> (\<exists>n. Inr r = Inr (Applied n))" by blast
    with ex show False
      by (rule executeTransition_committed) (use na in \<open>auto split: option.splits\<close>)
  qed
  with executeTransition_frame(1) [OF ex] show ?thesis by simp
qed

section \<open>The invariant of the engine\<close>

text \<open>
  The in-memory projection carries the version of the persisted row, and an operational state always
  comes with a valid authorization and a live session.
\<close>

definition operational_ok :: "security_data \<Rightarrow> bool" where
  "operational_ok m \<longleftrightarrow>
     (state m = OPERATIONAL \<longrightarrow>
        (\<exists>a s. authorization m = Some a \<and> authStatus a = ''VALID'' \<and> session m = Some s \<and>
               (sessionStatus s = ''AUTHENTICATED'' \<or> sessionStatus s = ''RENEWING'')))"

definition engine_good :: "'b acp \<Rightarrow> bool" where
  "engine_good w \<longleftrightarrow>
     (\<exists>m. inMemoryState w = Some m \<and> state_version m = store_version w \<and> operational_ok m)"

lemma assert_operational_ok:
  "assertStateMachineInvariants m caps = None \<Longrightarrow> operational_ok m"
  by (auto simp: assertStateMachineInvariants_def operational_ok_def Let_def
        split: option.splits if_splits)

inductive engine_step ::
  "(string \<Rightarrow> document \<Rightarrow> 'b) \<Rightarrow> (string \<Rightarrow> 'b \<Rightarrow> document option) \<Rightarrow> 'b acp \<Rightarrow> 'b acp \<Rightarrow> bool"
  for enc dec where
  dispatched: "dispatch enc dec now ev p w = (Inr b, w') \<Longrightarrow> engine_step enc dec w w'"

inductive_cases engine_stepE: "engine_step enc dec w w'"

lemma engine_step_good: "engine_step enc dec w w' \<Longrightarrow> engine_good w \<Longrightarrow> engine_good w'"
proof (erule engine_stepE)
  fix now ev p b
  assume good: "engine_good w" and d: "dispatch enc dec now ev p w = (Inr b, w')"
  show "engine_good w'"
  proof (cases b)
    case True
    with d have "dispatch enc dec now ev p w = (Inr True, w')" by simp
    then show ?thesis
      by (rule dispatch_True)
        (auto simp: engine_good_def store_version_def commitRow_def intro: assert_operational_ok)
  next
    case False
    with d good show ?thesis
      by (auto simp: engine_good_def store_version_def dest: dispatch_False)
  qed
qed

definition boot_state ::
  "(string \<Rightarrow> document \<Rightarrow> 'b) \<Rightarrow> (string \<Rightarrow> 'b \<Rightarrow> document option) \<Rightarrow> 'b acp \<Rightarrow> bool" where
  "boot_state enc dec w \<longleftrightarrow>
     aead_ok enc dec \<and>
     (\<exists>now isMachineValid w0. row_consistent dec w0 \<and>
        initialize enc dec now isMachineValid w0 = (Inr (), w))"

lemma establishRow_version:
  assumes "aead_ok enc dec" and "row_consistent dec w"
    and "establishRow enc dec now w = (Inr raw, w1)"
  shows "state_version raw = store_version w1"
proof (cases "getSecurityStateRow dec w")
  case (Pair g wg)
  note fr = getRow_frame [OF Pair]
  show ?thesis
  proof (cases "g = Inr None")
    case False
    with assms(3) Pair obtain d where "g = Inr (Some d)" "raw = d" "w1 = wg"
      by (auto simp: establishRow_def split: sum.splits option.splits)
    with getRow_version [OF Pair [unfolded \<open>g = Inr (Some d)\<close>] assms(2)] fr show ?thesis
      by (simp add: store_version_def)
  next
    case True
    with Pair have none: "singleton w = None" "db_open w" "wg = w" by (auto dest: getRow_None)
    let ?d = "blank_data UNINITIALIZED 0"
    let ?w2 = "afterCommit 1 (w\<lparr>singleton := Some (commitRow enc now 1 ?d (Some ''SYSTEM_BOOT''))\<rparr>)"
    have c: "commitTransitionWithOCC enc now 0 ?d (Some ''SYSTEM_BOOT'') w = (Inr True, ?w2)"
      using none by (simp add: commitTransitionWithOCC_def)
    obtain g2 w3 where g2: "getSecurityStateRow dec ?w2 = (g2, w3)" by fastforce
    from assms(3) Pair True none c g2 have "g2 = Inr (Some raw)" "w1 = w3"
      by (auto simp: establishRow_def split: sum.splits option.splits)
    with g2 have "state_version raw = store_version ?w2"
      using getRow_version [of dec ?w2 raw w3] row_consistent_commit [OF assms(1), of ?w2] by simp
    with getRow_frame(5) [OF g2] \<open>w1 = w3\<close> show ?thesis by (simp add: store_version_def)
  qed
qed

lemma syncBootFlag_frame [simp]:
  "inMemoryState (syncBootFlag w) = inMemoryState w" "singleton (syncBootFlag w) = singleton w"
  by (simp_all add: syncBootFlag_def split: option.splits)

lemma engine_good_cong:
  "inMemoryState w' = inMemoryState w \<Longrightarrow> singleton w' = singleton w \<Longrightarrow> engine_good w' = engine_good w"
  by (simp add: engine_good_def store_version_def)

lemma bootstrapFresh_good:
  assumes "engine_good w" and "bootstrapFresh enc dec now mv w = (Inr (), w')"
  shows "engine_good w'"
proof -
  from assms(2) obtain b1 w1 b2 w2 p1 p2 where
    "dispatch enc dec now INITIALIZE p1 w = (Inr b1, w1)"
    "dispatch enc dec now BOOTSTRAP_COMPLETE p2 w1 = (Inr b2, w2)" "w' = syncBootFlag w2"
    by (auto simp: bootstrapFresh_def split: prod.splits sum.splits)
  with assms(1) show ?thesis
    by (metis dispatched engine_good_cong engine_step_good syncBootFlag_frame)
qed

lemma resumePersisted_good:
  assumes "state_version m = store_version w" and "row_consistent dec w"
    and "resumePersisted enc now mv m w = (Inr (), w')" and "db_open w" and "singleton w \<noteq> None"
  shows "engine_good w'"
proof (cases mv)
  case True
  with assms show ?thesis
    by (auto simp: resumePersisted_def engine_good_def store_version_def operational_ok_def)
next
  case False
  let ?mc = "m\<lparr>state := COMPROMISED\<rparr>"
  let ?w = "w\<lparr>inMemoryState := Some ?mc\<rparr>"
  obtain c w1 where c: "commitTransitionWithOCC enc now (state_version m) ?mc None ?w = (c, w1)"
    by fastforce
  have "fst (commitTransitionWithOCC enc now (state_version m) ?mc None ?w) = Inr True"
    using assms(1,4,5) by (auto simp: commit_True_iff store_version_def split: option.splits)
  with c have "c = Inr True" by simp
  with c commit_True_state [of enc now "state_version m" ?mc None ?w w1] assms(3) False show ?thesis
    by (auto simp: resumePersisted_def Let_def engine_good_def store_version_def operational_ok_def)
qed

lemma establishRow_row:
  assumes "establishRow enc dec now w = (Inr raw, w1)"
  shows "db_open w1 \<and> singleton w1 \<noteq> None"
proof (cases "getSecurityStateRow dec w")
  case (Pair g wg)
  show ?thesis
  proof (cases "g = Inr None")
    case False
    with assms Pair have g: "getSecurityStateRow dec w = (Inr (Some raw), w1)"
      by (auto simp: establishRow_def split: sum.splits option.splits)
    from getRow_frame [OF g] show ?thesis
      using getRow_Some [OF g] by (metis option.distinct(1))
  next
    case True
    with assms Pair obtain w2 where g: "getSecurityStateRow dec w2 = (Inr (Some raw), w1)"
      by (auto simp: establishRow_def split: sum.splits option.splits prod.splits)
    from getRow_frame [OF g] show ?thesis
      using getRow_Some [OF g] by (metis option.distinct(1))
  qed
qed

lemma establishRow_consistent:
  assumes "aead_ok enc dec" and "row_consistent dec w"
    and "establishRow enc dec now w = (Inr raw, w1)"
  shows "row_consistent dec w1"
proof (cases "getSecurityStateRow dec w")
  case (Pair g wg)
  show ?thesis
  proof (cases "g = Inr None")
    case False
    with assms Pair have g: "getSecurityStateRow dec w = (Inr (Some raw), w1)"
      by (auto simp: establishRow_def split: sum.splits option.splits)
    from getRow_frame(5) [OF g] assms(2) show ?thesis by (simp add: row_consistent_def)
  next
    case True
    with Pair have none: "singleton w = None" "db_open w" "wg = w" by (auto dest: getRow_None)
    let ?d = "blank_data UNINITIALIZED 0"
    let ?w2 = "afterCommit 1 (w\<lparr>singleton := Some (commitRow enc now 1 ?d (Some ''SYSTEM_BOOT''))\<rparr>)"
    have c: "commitTransitionWithOCC enc now 0 ?d (Some ''SYSTEM_BOOT'') w = (Inr True, ?w2)"
      using none by (simp add: commitTransitionWithOCC_def)
    from assms(3) Pair True none c have "getSecurityStateRow dec ?w2 = (Inr (Some raw), w1)"
      by (auto simp: establishRow_def split: sum.splits option.splits prod.splits)
    from getRow_frame(5) [OF this] row_consistent_commit [OF assms(1), of ?w2] show ?thesis
      by (simp add: row_consistent_def)
  qed
qed

lemma memory_projection_simps [simp]:
  "state (memory_projection d) = state d" "state_version (memory_projection d) = state_version d"
  "session (memory_projection d) = session d" "authorization (memory_projection d) = authorization d"
  "license (memory_projection d) = license d" "highest_observed_time (memory_projection d) = 0"
  "session_generation (memory_projection d) = 0" "graceTokenData (memory_projection d) = None"
  by (simp_all add: memory_projection_def blank_data_def)

lemma initialize_good:
  assumes aead: "aead_ok enc dec" and rc: "row_consistent dec w0"
    and init: "initialize enc dec now mv w0 = (Inr (), w)"
  shows "engine_good w"
proof -
  from init obtain raw w1 where er: "establishRow enc dec now w0 = (Inr raw, w1)"
    by (auto simp: initialize_def split: prod.splits sum.splits)
  let ?m = "memory_projection raw"
  let ?w2 = "w1\<lparr>inMemoryState := Some ?m\<rparr>"
  have v: "state_version ?m = store_version ?w2"
    using establishRow_version [OF aead rc er] by (simp add: store_version_def)
  have row: "db_open ?w2" "singleton ?w2 \<noteq> None" "row_consistent dec ?w2"
    using establishRow_row [OF er] establishRow_consistent [OF aead rc er]
    by (simp_all add: row_consistent_def)
  consider (lock) "lockdown (state raw)" | (fresh) "\<not> lockdown (state raw)" "state raw = UNINITIALIZED"
    | (resume) "\<not> lockdown (state raw)" "state raw \<noteq> UNINITIALIZED" by blast
  then show ?thesis
  proof cases
    case lock
    with init er v show ?thesis
      by (auto simp: initialize_def Let_def engine_good_def store_version_def operational_ok_def
            lockdown_def)
  next
    case fresh
    have "engine_good ?w2"
      using fresh v by (auto simp: engine_good_def operational_ok_def)
    moreover have "bootstrapFresh enc dec now mv ?w2 = (Inr (), w)"
      using init er fresh by (simp add: initialize_def Let_def)
    ultimately show ?thesis by (rule bootstrapFresh_good)
  next
    case resume
    then have "resumePersisted enc now mv ?m ?w2 = (Inr (), w)"
      using init er by (simp add: initialize_def Let_def)
    then show ?thesis by (rule resumePersisted_good [OF v row(3) _ row(1,2)])
  qed
qed

interpretation engine: machine_invariant "boot_state enc dec" "engine_step enc dec" engine_good
  by unfold_locales (auto simp: boot_state_def intro: initialize_good engine_step_good)

section \<open>Boot\<close>

lemma dispatch_keeps_or_moves:
  assumes "dispatch enc dec now ev p w = (Inr b, w')" and "inMemoryState w = Some cur"
  shows "inMemoryState w' = Some cur \<or>
    (\<exists>t. getTransition (state cur) ev = Some t \<and> guard t p = Inr True \<and>
         inMemoryState w' = Some (transition_data cur t p))"
proof (cases b)
  case True
  with assms(1) have "dispatch enc dec now ev p w = (Inr True, w')" by simp
  then show ?thesis by (rule dispatch_True) (use assms(2) in auto)
next
  case False
  with assms show ?thesis by (auto dest: dispatch_False)
qed

lemma bootstrap_table:
  "getTransition UNINITIALIZED INITIALIZE = Some t \<Longrightarrow> nextState t = INITIALIZING"
  "getTransition UNINITIALIZED BOOTSTRAP_COMPLETE = None"
  "getTransition INITIALIZING BOOTSTRAP_COMPLETE = Some t \<Longrightarrow> nextState t = SECURITY_STATE_READY"
  "getTransition INITIALIZING BOOTSTRAP_COMPLETE = Some t \<Longrightarrow> guard t (Some q) = Inr True \<Longrightarrow>
     machineIdentityVerified q"
  by (auto simp: getTransition_def Transitions_def)

lemma bootstrapFresh_state:
  assumes "bootstrapFresh enc dec now mv w = (Inr (), w')" and "inMemoryState w = Some m"
    and "state m = UNINITIALIZED"
  obtains m' where "inMemoryState w' = Some m'"
    "state m' \<in> {UNINITIALIZED, INITIALIZING} \<or> (mv \<and> state m' = SECURITY_STATE_READY)"
    "revoked w' = (state m' \<notin> set bootFlagStates)"
proof -
  let ?p2 = "empty_payload\<lparr>integrityVerified := True, storageVerified := True,
               machineIdentityVerified := mv\<rparr>"
  from assms(1) obtain b1 w1 b2 w2 p1 where d1: "dispatch enc dec now INITIALIZE p1 w = (Inr b1, w1)"
    and d2: "dispatch enc dec now BOOTSTRAP_COMPLETE (Some ?p2) w1 = (Inr b2, w2)"
    and w': "w' = syncBootFlag w2"
    by (auto simp: bootstrapFresh_def split: prod.splits sum.splits)
  from dispatch_keeps_or_moves [OF d1 assms(2)] assms(3)
  obtain m1 where m1: "inMemoryState w1 = Some m1" "state m1 \<in> {UNINITIALIZED, INITIALIZING}"
    by (auto dest: bootstrap_table(1))
  from dispatch_keeps_or_moves [OF d2 m1(1)]
  obtain m2 where m2: "inMemoryState w2 = Some m2"
    "state m2 \<in> {UNINITIALIZED, INITIALIZING} \<or> (mv \<and> state m2 = SECURITY_STATE_READY)"
  proof
    assume "inMemoryState w2 = Some m1"
    with that m1(2) show thesis by blast
  next
    assume "\<exists>t. getTransition (state m1) BOOTSTRAP_COMPLETE = Some t \<and> guard t (Some ?p2) = Inr True \<and>
      inMemoryState w2 = Some (transition_data m1 t (Some ?p2))"
    then obtain t where t: "getTransition (state m1) BOOTSTRAP_COMPLETE = Some t"
      "guard t (Some ?p2) = Inr True" "inMemoryState w2 = Some (transition_data m1 t (Some ?p2))" by blast
    with m1(2) have st: "state m1 = INITIALIZING" by (auto simp: bootstrap_table(2))
    with t(1) have "nextState t = SECURITY_STATE_READY" by (simp add: bootstrap_table(3))
    moreover from st t(1,2) have mv by (auto dest: bootstrap_table(4))
    ultimately show thesis using that t(3) by simp
  qed
  from m2 w' show ?thesis by (intro that) (auto simp: syncBootFlag_def)
qed

lemma safety_caps_only:
  "inMemoryState w = Some m \<Longrightarrow> state m \<noteq> OPERATIONAL \<Longrightarrow> state m \<noteq> OFFLINE_GRACE \<Longrightarrow>
     getCurrentCapabilities w = [CAP_AUTOMATION_STOP]"
  by (simp add: getCurrentCapabilities_def)

lemma resumePersisted_state:
  assumes "resumePersisted enc now mv m w = (Inr (), w')"
  obtains m' where "inMemoryState w' = Some m'"
    "(mv \<and> state m' = SECURITY_STATE_READY \<and> \<not> revoked w') \<or>
     (\<not> mv \<and> state m' = COMPROMISED \<and> revoked w')"
proof (cases mv)
  case True
  with assms show ?thesis
    by (intro that [of "m\<lparr>state := SECURITY_STATE_READY\<rparr>"])
      (auto simp: resumePersisted_def syncBootFlag_def bootFlagStates_def)
next
  case False
  let ?mc = "m\<lparr>state := COMPROMISED\<rparr>"
  obtain c w1 where c: "commitTransitionWithOCC enc now (state_version m) ?mc None
      (w\<lparr>inMemoryState := Some ?mc\<rparr>) = (c, w1)" by fastforce
  from commit_frame(2) [OF c] have "inMemoryState w1 = Some ?mc" by simp
  with assms False c show ?thesis
    by (cases c) (auto simp: resumePersisted_def Let_def intro: that)
qed

section \<open>Properties\<close>

text \<open>C1. Engine invariant: in every state reached from a boot by dispatches that return (successfully or
  with a refusal), the in-memory projection carries the version of the persisted row, so the next
  dispatch is not refused as stale, and an OPERATIONAL state has a VALID authorization and a session
  that is AUTHENTICATED or RENEWING.\<close>

theorem engine_invariant:
  assumes "reach (boot_state enc dec) (engine_step enc dec) w"
  shows "\<exists>m. inMemoryState w = Some m \<and> state_version m = store_version w \<and>
    (state m = OPERATIONAL \<longrightarrow>
       (\<exists>a s. authorization m = Some a \<and> authStatus a = ''VALID'' \<and> session m = Some s \<and>
              (sessionStatus s = ''AUTHENTICATED'' \<or> sessionStatus s = ''RENEWING'')))"
  using engine.reach_good [OF assms] by (simp add: engine_good_def operational_ok_def)

definition booted :: "(string \<times> document) acp" where
  "booted = snd (initialize tag_enc tag_dec 5 True fresh_acp)"

lemma booted_ok: "initialize tag_enc tag_dec 5 True fresh_acp = (Inr (), booted)"
proof -
  have "fst (initialize tag_enc tag_dec 5 True fresh_acp) = Inr ()" by code_simp
  then show ?thesis by (simp add: booted_def prod_eq_iff)
qed

lemma booted_boot_state: "boot_state tag_enc tag_dec booted"
  unfolding boot_state_def
  using tag_aead_ok booted_ok by (force simp: row_consistent_def fresh_acp_def)

text \<open>A boot followed by the three transitions of a login.\<close>

definition login_events :: "(transition_event \<times> transition_payload) list" where
  "login_events =
     [(LOGIN_INTENT, empty_payload),
      (BACKEND_AUTH_SUCCESS, empty_payload\<lparr>nonceValidated := True,
         sessionData := Some \<lparr>sessionId = ''s1'', sessionStatus = ''AUTHENTICATED'', userId = ''u1'', issuedAt = Some 0,
           sessionExpiresAt = 1000, renewAfter = None\<rparr>\<rparr>),
      (AUTHZ_LICENSE_RESOLVED, empty_payload\<lparr>backendConfirmed := True,
         authorizationData := Some \<lparr>authStatus = ''VALID'', capability_set = Some [CAP_AUTOMATION_START]\<rparr>\<rparr>)]"

definition login_step :: "transition_event \<times> transition_payload \<Rightarrow> (string \<times> document) acp \<Rightarrow> (string \<times> document) acp" where
  "login_step = (\<lambda>(ev, p) w. snd (dispatch tag_enc tag_dec 9 ev (Some p) w))"

definition logged_in :: "(string \<times> document) acp" where
  "logged_in = fold login_step login_events booted"

lemma dispatched_reach:
  assumes "reach (boot_state tag_enc tag_dec) (engine_step tag_enc tag_dec) w"
    and "fst (dispatch tag_enc tag_dec 9 ev (Some p) w) = Inr True"
  shows "reach (boot_state tag_enc tag_dec) (engine_step tag_enc tag_dec) (login_step (ev, p) w)"
proof (rule reach_step [OF assms(1)])
  from assms(2) have "dispatch tag_enc tag_dec 9 ev (Some p) w = (Inr True, login_step (ev, p) w)"
    by (simp add: login_step_def prod_eq_iff)
  then show "engine_step tag_enc tag_dec w (login_step (ev, p) w)" by (rule engine_step.dispatched)
qed

lemma logged_in_reachable: "reach (boot_state tag_enc tag_dec) (engine_step tag_enc tag_dec) logged_in"
proof -
  have ok: "\<forall>i<3. fst (dispatch tag_enc tag_dec 9 (fst (login_events ! i)) (Some (snd (login_events ! i)))
      (fold login_step (take i login_events) booted)) = Inr True" by code_simp
  have "reach (boot_state tag_enc tag_dec) (engine_step tag_enc tag_dec) (fold login_step (take i login_events) booted)"
    if "i \<le> 3" for i using that
  proof (induction i)
    case 0
    show ?case using reach_start [of "boot_state tag_enc tag_dec", OF booted_boot_state] by simp
  next
    case (Suc i)
    have "length login_events = 3" by (simp add: login_events_def)
    with Suc.prems have "take (Suc i) login_events = take i login_events @ [login_events ! i]"
      by (simp add: take_Suc_conv_app_nth)
    with dispatched_reach [of _ "fst (login_events ! i)" "snd (login_events ! i)"] Suc ok show ?case by simp
  qed
  from this [of 3] show ?thesis by (simp add: logged_in_def login_events_def)
qed

theorem engine_invariant_witness:
  "\<exists>m a s. inMemoryState logged_in = Some m \<and> state m = OPERATIONAL \<and> state_version m = store_version logged_in \<and>
    authorization m = Some a \<and> authStatus a = ''VALID'' \<and> session m = Some s \<and>
    (sessionStatus s = ''AUTHENTICATED'' \<or> sessionStatus s = ''RENEWING'')"
proof -
  have "map_option state (inMemoryState logged_in) = Some OPERATIONAL" by code_simp
  with engine_invariant [OF logged_in_reachable] show ?thesis by auto
qed

text \<open>A dispatch that reports success took an entry of the transition table whose guard held, left the
  in-memory state and the row read back from the database in agreement on state, version, session,
  authorization and license, and set the native revocation flag exactly when the new state is not one
  of the active ones.\<close>

theorem dispatch_applied_and_persisted:
  assumes "aead_ok enc dec" and "dispatch enc dec now ev p w = (Inr True, w')"
    and "inMemoryState w = Some cur"
  shows "\<exists>t m d. getTransition (state cur) ev = Some t \<and> guard t p = Inr True \<and>
    inMemoryState w' = Some m \<and> state m = nextState t \<and> state_version m = state_version cur + 1 \<and>
    fst (getSecurityStateRow dec w') = Inr (Some d) \<and> state d = state m \<and>
    state_version d = state_version m \<and> session d = session m \<and>
    authorization d = authorization m \<and> license d = license m \<and>
    revoked w' = (state m \<notin> set nonRevokedStates)"
  using assms(2)
proof (rule dispatch_True)
  fix cur' t db w1 audit
  let ?n = "transition_data cur' t p"
  let ?v = "state_version cur' + 1"
  let ?row = "commitRow enc now ?v ?n (Some (event_name ev))"
  let ?wc = "afterCommit ?v (w1\<lparr>singleton := Some ?row\<rparr>)"
  assume *: "inMemoryState w = Some cur'" "getTransition (state cur') ev = Some t" "guard t p = Inr True"
    and g: "getSecurityStateRow dec w = (Inr (Some db), w1)"
    and v: "store_version w = state_version cur'" and op: "db_open w"
    and w': "w' = (setRevokedSync (nextState t \<notin> set nonRevokedStates) (writeEvent enc now audit ?wc))
      \<lparr>inMemoryState := Some ?n\<rparr>"
  have "effectiveMinVersion w1 \<le> ?v"
    using getRow_effectiveMin [OF g] v by simp
  moreover have "db_open w1" using getRow_frame(3) [OF g] op by simp
  ultimately have "fst (getSecurityStateRow dec ?wc) =
      Inr (Some (injectColumns ?row (commitPayload now ?v ?n (Some (event_name ev)))))"
    using getRow_afterCommit [OF assms(1)] by blast
  moreover have "fst (getSecurityStateRow dec w') = fst (getSecurityStateRow dec ?wc)"
    unfolding w' by (rule getRow_depends) simp_all
  ultimately have "fst (getSecurityStateRow dec w') =
      Inr (Some (injectColumns ?row (commitPayload now ?v ?n (Some (event_name ev)))))" by simp
  with * assms(3) w' show ?thesis by (auto simp: commitPayload_def)
qed

definition logging_in :: "(string \<times> document) acp" where
  "logging_in = snd (dispatch tag_enc tag_dec 9 LOGIN_INTENT (Some empty_payload) booted)"

lemma logging_in_ok: "dispatch tag_enc tag_dec 9 LOGIN_INTENT (Some empty_payload) booted = (Inr True, logging_in)"
proof -
  have "fst (dispatch tag_enc tag_dec 9 LOGIN_INTENT (Some empty_payload) booted) = Inr True" by code_simp
  then show ?thesis by (simp add: logging_in_def prod_eq_iff)
qed

theorem dispatch_applied_and_persisted_witness:
  "\<exists>t m d. getTransition SECURITY_STATE_READY LOGIN_INTENT = Some t \<and> guard t (Some empty_payload) = Inr True \<and>
    inMemoryState logging_in = Some m \<and> state m = nextState t \<and>
    fst (getSecurityStateRow tag_dec logging_in) = Inr (Some d) \<and> state d = state m \<and>
    revoked logging_in = (state m \<notin> set nonRevokedStates)"
proof -
  have cur: "inMemoryState booted = Some (the (inMemoryState booted))" and
    st: "state (the (inMemoryState booted)) = SECURITY_STATE_READY" by code_simp+
  show ?thesis
    using dispatch_applied_and_persisted [OF tag_aead_ok logging_in_ok cur] unfolding st by blast
qed

text \<open>C9. Lockdown is final: from REVOKED, COMPROMISED or TAMPER_SUSPECTED no dispatch succeeds, and none
  changes the in-memory state or the persisted row.\<close>

theorem lockdown_final:
  assumes "inMemoryState w = Some m" and "lockdown (state m)"
  shows "fst (dispatch enc dec now ev p w) \<noteq> Inr True \<and>
    inMemoryState (snd (dispatch enc dec now ev p w)) = Some m \<and>
    singleton (snd (dispatch enc dec now ev p w)) = singleton w"
proof -
  obtain r w' where ex: "executeTransition enc dec now m ev p w = (r, w')" by fastforce
  have none: "getTransition (state m) ev = None" by (rule lockdown_terminal [OF assms(2)])
  have "\<not> (singleton w' \<noteq> singleton w \<or> (\<exists>n. r = Inr (Applied n)))"
  proof
    assume "singleton w' \<noteq> singleton w \<or> (\<exists>n. r = Inr (Applied n))"
    with ex show False by (rule executeTransition_committed) (simp add: none)
  qed
  with executeTransition_frame(1) [OF ex] assms(1) ex show ?thesis
    by (auto simp: dispatch_def split: sum.splits transition_outcome.splits)
qed

theorem lockdown_final_witness:
  "fst (dispatch tag_enc tag_dec 9 LOGIN_INTENT (Some empty_payload)
      (booted\<lparr>inMemoryState := Some (sample_data REVOKED 3)\<rparr>)) \<noteq> Inr True"
  using lockdown_final [where w = "booted\<lparr>inMemoryState := Some (sample_data REVOKED 3)\<rparr>"
      and m = "sample_data REVOKED 3" and enc = tag_enc and dec = tag_dec and now = 9
      and ev = LOGIN_INTENT and p = "Some empty_payload"]
  by (simp add: lockdown_def sample_data_def)

text \<open>C5. Cold boot fails closed: whatever state was persisted, initialisation that returns leaves no
  capability but the emergency stop, the state is one of the boot or lockdown states, a lockdown state
  is reported to the native layer as revoked, and so is a machine whose identity did not verify.\<close>

theorem cold_boot_inactive:
  assumes "initialize enc dec now isMachineValid w = (Inr (), w')"
  shows "\<exists>m. inMemoryState w' = Some m \<and>
    (state m \<in> {UNINITIALIZED, INITIALIZING, SECURITY_STATE_READY} \<or> lockdown (state m)) \<and>
    getCurrentCapabilities w' = [CAP_AUTOMATION_STOP] \<and>
    (lockdown (state m) \<longrightarrow> revoked w') \<and> (\<not> isMachineValid \<longrightarrow> revoked w')"
proof -
  from assms obtain raw w1 where er: "establishRow enc dec now w = (Inr raw, w1)"
    by (auto simp: initialize_def split: prod.splits sum.splits)
  let ?m = "memory_projection raw"
  let ?w2 = "w1\<lparr>inMemoryState := Some ?m\<rparr>"
  consider (lock) "lockdown (state raw)" | (fresh) "\<not> lockdown (state raw)" "state raw = UNINITIALIZED"
    | (resume) "\<not> lockdown (state raw)" "state raw \<noteq> UNINITIALIZED" by blast
  then show ?thesis
  proof cases
    case lock
    with assms er have "w' = setRevokedSync True ?w2" by (simp add: initialize_def Let_def)
    with lock show ?thesis
      by (auto simp: lockdown_def intro!: safety_caps_only [of _ ?m])
  next
    case fresh
    with assms er have "bootstrapFresh enc dec now isMachineValid ?w2 = (Inr (), w')"
      by (simp add: initialize_def Let_def)
    then show ?thesis
      by (rule bootstrapFresh_state [where m = ?m])
        (use fresh in \<open>auto simp: lockdown_def bootFlagStates_def intro: safety_caps_only\<close>)
  next
    case resume
    with assms er have "resumePersisted enc now isMachineValid ?m ?w2 = (Inr (), w')"
      by (simp add: initialize_def Let_def)
    then show ?thesis
      by (rule resumePersisted_state) (auto simp: lockdown_def intro: safety_caps_only)
  qed
qed

theorem cold_boot_inactive_witness:
  "\<exists>m. inMemoryState booted = Some m \<and>
    (state m \<in> {UNINITIALIZED, INITIALIZING, SECURITY_STATE_READY} \<or> lockdown (state m)) \<and>
    getCurrentCapabilities booted = [CAP_AUTOMATION_STOP] \<and>
    (lockdown (state m) \<longrightarrow> revoked booted) \<and> (\<not> True \<longrightarrow> revoked booted)"
  by (rule cold_boot_inactive [OF booted_ok])

text \<open>C10. The capability gate: the emergency stop is always granted; any other capability is granted only
  in OPERATIONAL or OFFLINE_GRACE with a VALID authorization, it is one of the base capabilities or was
  granted by the backend, and AUTOMATION_START is withheld while an execution is active.\<close>

theorem capability_gate:
  "CAP_AUTOMATION_STOP \<in> set (getCurrentCapabilities w) \<and>
   (\<forall>c. c \<in> set (getCurrentCapabilities w) \<and> c \<noteq> CAP_AUTOMATION_STOP \<longrightarrow>
      (\<exists>m a. inMemoryState w = Some m \<and> (state m = OPERATIONAL \<or> state m = OFFLINE_GRACE) \<and>
         authorization m = Some a \<and> authStatus a = ''VALID'' \<and>
         (c \<in> {CAP_CONFIG_MODIFY, ''CAP_ACCOUNT_MANAGE''} \<or> c \<in> set (capabilities_of m)) \<and>
         (c = CAP_AUTOMATION_START \<longrightarrow> \<not> execution_active w)))"
  by (auto simp: getCurrentCapabilities_def Let_def capabilities_of_def CAP_AUTOMATION_STOP_def
        CAP_AUTOMATION_START_def split: option.splits if_splits)

definition active_acp :: "bool \<Rightarrow> (string \<times> document) acp" where
  "active_acp running = booted\<lparr>execution_active := running,
     inMemoryState := Some ((sample_data OPERATIONAL 4)
       \<lparr>authorization := Some \<lparr>authStatus = ''VALID'', capability_set = Some [CAP_AUTOMATION_START]\<rparr>\<rparr>)\<rparr>"

theorem capability_gate_witness:
  "CAP_AUTOMATION_START \<in> set (getCurrentCapabilities (active_acp False)) \<and>
   CAP_AUTOMATION_START \<notin> set (getCurrentCapabilities (active_acp True))"
proof
  show "CAP_AUTOMATION_START \<in> set (getCurrentCapabilities (active_acp False))" by code_simp
  have "CAP_AUTOMATION_START \<noteq> CAP_AUTOMATION_STOP" by code_simp
  then show "CAP_AUTOMATION_START \<notin> set (getCurrentCapabilities (active_acp True))"
    using capability_gate [of "active_acp True"] by (auto simp: active_acp_def)
qed

lemma revocation_violates:
  assumes "capabilities_of cur \<noteq> []"
    and "guard t p = Inr True" and "nextState t = REVOKED" and "p = Some (empty_payload\<lparr>nonceChecked := True\<rparr>)"
  shows "assertStateMachineInvariants (transition_data cur t p) (capabilities_of (transition_data cur t p)) =
    Some (InvariantViolation ''COMPROMISED/REVOKED implies no execution capability'')"
  using assms
  by (simp add: assertStateMachineInvariants_def transition_data_def applyPayload_def empty_payload_def
        override_def capabilities_of_def)

text \<open>The revocation event alone does not revoke: dispatching BACKEND_REVOCATION on an operational
  engine whose authorization holds any capability (as every operational one the facade builds does)
  commits the REVOKED row and then throws from the invariant check, before the native flag is written
  and before the in-memory state is replaced. The engine keeps its OPERATIONAL projection, and every
  later dispatch finds a row one version ahead of it.\<close>

theorem revocation_event_desynchronises:
  assumes "inMemoryState w = Some cur" and "state cur = OPERATIONAL" and "capabilities_of cur \<noteq> []"
    and "getSecurityStateRow dec w = (Inr (Some db), w1)" and "state_version db = state_version cur"
    and "store_version w = state_version cur"
  shows "\<exists>w'. dispatch enc dec now BACKEND_REVOCATION (Some (empty_payload\<lparr>nonceChecked := True\<rparr>)) w =
      (Inl (InvariantViolation ''COMPROMISED/REVOKED implies no execution capability''), w') \<and>
    inMemoryState w' = Some cur \<and> revoked w' = revoked w \<and> store_version w' = state_version cur + 1"
proof -
  let ?p = "Some (empty_payload\<lparr>nonceChecked := True\<rparr>)"
  define t where "t = tdef OPERATIONAL BACKEND_REVOCATION revocation_guard REVOKED"
  have t: "getTransition OPERATIONAL BACKEND_REVOCATION = Some t" "guard t ?p = Inr True" "nextState t = REVOKED"
    by (simp_all add: t_def getTransition_eval(8) revocation_guard_def)
  note fr = getRow_frame [OF assms(4)]
  have op: "db_open w1" using getRow_Some [OF assms(4)] fr(3) by metis
  obtain c w2 where c: "commitTransitionWithOCC enc now (state_version cur)
      (applyPayload ?p (cur\<lparr>state := REVOKED\<rparr>)) (Some (event_name BACKEND_REVOCATION)) w1 = (c, w2)" by fastforce
  have "fst (commitTransitionWithOCC enc now (state_version cur)
      (applyPayload ?p (cur\<lparr>state := REVOKED\<rparr>)) (Some (event_name BACKEND_REVOCATION)) w1) = Inr True"
    using op assms(6) fr(5) getRow_Some [OF assms(4)]
    by (auto simp: commit_True_iff store_version_def split: option.splits)
  with c have cT: "c = Inr True" by simp
  note c' = c [unfolded cT]
  have inv: "assertStateMachineInvariants ((applyPayload ?p (cur\<lparr>state := REVOKED\<rparr>))\<lparr>state_version := state_version cur + 1\<rparr>)
      (capabilities_of ((applyPayload ?p (cur\<lparr>state := REVOKED\<rparr>))\<lparr>state_version := state_version cur + 1\<rparr>)) =
      Some (InvariantViolation ''COMPROMISED/REVOKED implies no execution capability'')"
    using revocation_violates [OF assms(3) t(2,3) refl] by (simp add: transition_data_def t(3))
  obtain a where ex: "executeTransition enc dec now cur BACKEND_REVOCATION ?p w =
      (Inl (InvariantViolation ''COMPROMISED/REVOKED implies no execution capability''), writeEvent enc now a w2)"
    using assms(2,4,5) t c' inv by (simp add: executeTransition_def Let_def)
  have "store_version w2 = state_version cur + 1"
    using commit_True_state [OF c'] by (simp add: store_version_def)
  with ex assms(1) commit_frame [OF c'] fr show ?thesis
    by (simp add: dispatch_def store_version_def)
qed

definition operational_data :: security_data where
  "operational_data = (sample_data OPERATIONAL 4)\<lparr>
     session := Some \<lparr>sessionId = ''s1'', sessionStatus = ''AUTHENTICATED'', userId = ''u1'', issuedAt = Some 0,
       sessionExpiresAt = 1000, renewAfter = None\<rparr>,
     authorization := Some \<lparr>authStatus = ''VALID'', capability_set = Some [CAP_AUTOMATION_START]\<rparr>\<rparr>"

definition operational_acp :: "(string \<times> document) acp" where
  "operational_acp = fresh_acp\<lparr>singleton := Some (commitRow tag_enc 3 4 operational_data None),
     inMemoryState := Some operational_data\<rparr>"

theorem revocation_event_desynchronises_witness:
  "\<exists>w'. dispatch tag_enc tag_dec 9 BACKEND_REVOCATION (Some (empty_payload\<lparr>nonceChecked := True\<rparr>)) operational_acp =
      (Inl (InvariantViolation ''COMPROMISED/REVOKED implies no execution capability''), w') \<and>
    inMemoryState w' = Some operational_data \<and> revoked w' = revoked operational_acp \<and>
    store_version w' = state_version operational_data + 1"
proof -
  let ?g = "getSecurityStateRow tag_dec operational_acp"
  have "fst ?g = Inr (Some (operational_data\<lparr>last_transition_at := Some 3, highest_observed_time := 3\<rparr>))"
    by code_simp
  then have g: "?g = (Inr (Some (operational_data\<lparr>last_transition_at := Some 3, highest_observed_time := 3\<rparr>)), snd ?g)"
    by (simp add: prod_eq_iff)
  have "inMemoryState operational_acp = Some operational_data" "state operational_data = OPERATIONAL"
    "capabilities_of operational_data \<noteq> []" "store_version operational_acp = state_version operational_data"
    by (simp_all add: operational_acp_def operational_data_def capabilities_of_def store_version_def
          commitRow_def sample_data_def)
  from revocation_event_desynchronises [OF this(1-3) g _ this(4)] show ?thesis by simp
qed

text \<open>The anti-rollback time watermark is not monotone: every applied transition whose in-memory state
  carries no watermark (the boot projection drops it) stamps the row with the current wall clock, even
  when that is earlier than the watermark already stored.\<close>

theorem dispatch_overwrites_time_watermark:
  assumes "dispatch enc dec now ev p w = (Inr True, w')" and "inMemoryState w = Some cur"
    and "highest_observed_time cur = 0"
  shows "\<exists>row. singleton w' = Some row \<and> row_highest row = now"
  using assms(1)
  by (rule dispatch_True) (use assms(2,3) in \<open>auto simp: commitRow_def\<close>)

theorem dispatch_overwrites_time_watermark_witness:
  "map_option row_highest (singleton booted) = Some 5 \<and>
   (\<exists>row. singleton (snd (dispatch tag_enc tag_dec 2 LOGIN_INTENT (Some empty_payload) booted)) = Some row \<and>
      row_highest row = 2)"
proof
  let ?d = "dispatch tag_enc tag_dec 2 LOGIN_INTENT (Some empty_payload) booted"
  show "map_option row_highest (singleton booted) = Some 5" by code_simp
  have "fst ?d = Inr True" by code_simp
  then have d: "?d = (Inr True, snd ?d)" by (simp add: prod_eq_iff)
  have cur: "inMemoryState booted = Some (the (inMemoryState booted))"
    and h: "highest_observed_time (the (inMemoryState booted)) = 0" by code_simp+
  from dispatch_overwrites_time_watermark [OF d cur h]
  show "\<exists>row. singleton (snd ?d) = Some row \<and> row_highest row = 2" .
qed

end
