(* ===== verification/Licensing.thy ===== *)
theory Licensing
  imports AuthorityState
begin

text \<open>
  License and grace-token verification (\<^verbatim>\<open>licensing/license-manager.mjs\<close>). The Ed25519 check of the
  native addon is the parameter \<open>verify\<close>, applied to a public key, the serialised message and a
  signature; it answers \<open>None\<close> when it, or the hex decoding before it, throws. A message is identified
  by what was serialised and by which serialiser.
\<close>

record license_env =
  isProduction :: bool           \<comment> \<open>\<^verbatim>\<open>NODE_ENV === 'production'\<close>\<close>
  allowDevLicense :: bool        \<comment> \<open>\<^verbatim>\<open>ALLOW_DEV_LICENSE === 'true'\<close>\<close>
  pinnedKey :: "string option"   \<comment> \<open>\<^verbatim>\<open>PINNED_BACKEND_PUBKEY_HEX\<close>\<close>
  pinnedKeyV2 :: "string option" \<comment> \<open>\<^verbatim>\<open>PINNED_BACKEND_PUBKEY_V2_HEX\<close>\<close>

datatype signed_message =
    CanonicalClaims license_row
  | LegacyClaims license_row
  | CanonicalToken grace_token

type_synonym verifier = "string \<Rightarrow> signed_message \<Rightarrow> string \<Rightarrow> bool option"

text \<open>A string member counts only when it is present and not empty.\<close>

definition present :: "string option \<Rightarrow> string option" where
  "present s = (case s of Some (c # cs) \<Rightarrow> Some (c # cs) | _ \<Rightarrow> None)"

lemma present_Some [simp]: "present s = Some x \<longleftrightarrow> s = Some x \<and> x \<noteq> []"
  by (auto simp: present_def split: option.splits list.splits)

lemma present_None [simp]: "present s = None \<longleftrightarrow> s = None \<or> s = Some []"
  by (auto simp: present_def split: option.splits list.splits)

lemma present_value [simp]: "x \<noteq> [] \<Longrightarrow> present (Some x) = Some x"
  by simp

definition trusted_key :: "license_env \<Rightarrow> bool \<Rightarrow> string option \<Rightarrow> string option" where
  "trusted_key env isV2 serverTrustPubHex =
     (case present serverTrustPubHex of
        Some k \<Rightarrow> Some k
      | None \<Rightarrow>
          (if isV2 \<and> present (pinnedKeyV2 env) \<noteq> None then present (pinnedKeyV2 env)
           else case present (pinnedKey env) of Some k \<Rightarrow> Some k | None \<Rightarrow> present (pinnedKeyV2 env)))"

definition date_passed :: "int \<Rightarrow> date_field \<Rightarrow> bool" where
  "date_passed now d = (case d of DateAt t \<Rightarrow> now \<ge> t | _ \<Rightarrow> False)"

definition license_claims :: "license_row \<Rightarrow> license_row" where
  "license_claims l = l\<lparr>licenseSignature := None, keyVersion2 := False\<rparr>"

definition VALID_SIG :: string where "VALID_SIG = ''VALID_SIG''"

definition validateLicenseIntegrity ::
  "license_env \<Rightarrow> verifier \<Rightarrow> int \<Rightarrow> license_row option \<Rightarrow> string option \<Rightarrow> string option \<Rightarrow> bool" where
  "validateLicenseIntegrity env verify now licensePayload serverTrustPubHex accountId =
     (case licensePayload of
        None \<Rightarrow> False
      | Some l \<Rightarrow>
          (case present (licenseSignature l) of
             None \<Rightarrow> False
           | Some sig \<Rightarrow>
               if date_passed now (licenseExpiresAt l) then False
               else if present accountId \<noteq> None \<and> present (licenseAccountId l) \<noteq> None
                       \<and> licenseAccountId l \<noteq> accountId then False
               else if \<not> isProduction env \<and> allowDevLicense env \<and> sig = VALID_SIG then True
               else (case trusted_key env (keyVersion2 l) serverTrustPubHex of
                       None \<Rightarrow> if isProduction env then False else sig = VALID_SIG
                     | Some key \<Rightarrow>
                         (case verify key (CanonicalClaims (license_claims l)) sig of
                            None \<Rightarrow> False
                          | Some True \<Rightarrow> True
                          | Some False \<Rightarrow>
                              (case verify key (LegacyClaims (license_claims l)) sig of
                                 None \<Rightarrow> False | Some ok \<Rightarrow> ok)))))"

definition verifyGraceToken ::
  "license_env \<Rightarrow> verifier \<Rightarrow> int \<Rightarrow> grace_token option \<Rightarrow> string option \<Rightarrow> bool" where
  "verifyGraceToken env verify now token serverTrustPubHex =
     (case token of
        None \<Rightarrow> False
      | Some t \<Rightarrow>
          (case present (graceSignature t) of
             None \<Rightarrow> False
           | Some sig \<Rightarrow>
               if (case not_before t of None \<Rightarrow> False | Some nb \<Rightarrow> nb \<noteq> 0 \<and> now < nb) then False
               else if not_after t \<noteq> 0 \<and> now > not_after t then False
               else (case trusted_key env (graceKeyVersion2 t) serverTrustPubHex of
                       None \<Rightarrow> False
                     | Some key \<Rightarrow>
                         (case verify key (CanonicalToken (t\<lparr>graceSignature := None, graceKeyVersion2 := False\<rparr>)) sig of
                            None \<Rightarrow> False | Some ok \<Rightarrow> ok))))"

definition isLicenseActive :: "int \<Rightarrow> license_row \<Rightarrow> bool" where
  "isLicenseActive now l =
     (if (case licenseExpiration l of None \<Rightarrow> False | Some e \<Rightarrow> e \<noteq> 0 \<and> e < now) then False
      else if date_passed now (licenseExpiresAt l) then False
      else licenseStatus l = Some ''ACTIVE'' \<or> licenseStatus l = Some ''VALID'')"

section \<open>Lemmas\<close>

text \<open>What an accepted license has been checked for.\<close>

lemma validate_accepted:
  assumes "validateLicenseIntegrity env verify now (Some l) trust acc"
  obtains sig where "licenseSignature l = Some sig" "sig \<noteq> []" "\<not> date_passed now (licenseExpiresAt l)"
    "(\<not> isProduction env \<and> sig = VALID_SIG) \<or>
     (\<exists>key. trusted_key env (keyVersion2 l) trust = Some key \<and>
        (verify key (CanonicalClaims (license_claims l)) sig = Some True \<or>
         verify key (LegacyClaims (license_claims l)) sig = Some True))"
  using assms
  by (auto simp: validateLicenseIntegrity_def split: option.splits if_splits bool.splits)

section \<open>Properties\<close>

text \<open>In production a license passes the integrity check only when it carries a signature that the
  native Ed25519 check accepts under a pinned key, over its own claims, and it is not past its expiry
  date; the development signature never passes.\<close>

theorem production_license_signed:
  assumes "isProduction env" and "validateLicenseIntegrity env verify now (Some l) None acc"
  shows "\<exists>sig key. licenseSignature l = Some sig \<and>
    (pinnedKey env = Some key \<or> pinnedKeyV2 env = Some key) \<and>
    (verify key (CanonicalClaims (license_claims l)) sig = Some True \<or>
     verify key (LegacyClaims (license_claims l)) sig = Some True) \<and>
    (\<forall>t. licenseExpiresAt l = DateAt t \<longrightarrow> now < t)"
  using assms(2)
proof (rule validate_accepted)
  fix sig
  assume "licenseSignature l = Some sig" "\<not> date_passed now (licenseExpiresAt l)"
    "(\<not> isProduction env \<and> sig = VALID_SIG) \<or>
     (\<exists>key. trusted_key env (keyVersion2 l) None = Some key \<and>
        (verify key (CanonicalClaims (license_claims l)) sig = Some True \<or>
         verify key (LegacyClaims (license_claims l)) sig = Some True))"
  moreover have "trusted_key env v None = Some key \<Longrightarrow> pinnedKey env = Some key \<or> pinnedKeyV2 env = Some key"
    for v key
    by (auto simp: trusted_key_def split: if_splits option.splits)
  ultimately show ?thesis
    using assms(1) by (auto simp: date_passed_def split: date_field.splits)
qed

definition signed_license :: license_row where
  "signed_license = \<lparr>licenseStatus = Some ''VALID'', licenseSignature = Some ''ab'', licenseExpiresAt = DateAt 900,
     licenseExpiration = None, licenseAccountId = Some ''acc'', keyVersion2 = False, strictCapabilities = False,
     revokedAt = None, revokeReason = None\<rparr>"

definition prod_env :: license_env where
  "prod_env = \<lparr>isProduction = True, allowDevLicense = True, pinnedKey = Some ''k1'', pinnedKeyV2 = None\<rparr>"

definition sample_verify :: verifier where
  "sample_verify key msg sig = Some (key = ''k1'' \<and> sig = ''ab'' \<and> msg = CanonicalClaims (license_claims signed_license))"

theorem production_license_signed_witness:
  "\<exists>sig key. licenseSignature signed_license = Some sig \<and>
    (pinnedKey prod_env = Some key \<or> pinnedKeyV2 prod_env = Some key) \<and>
    (sample_verify key (CanonicalClaims (license_claims signed_license)) sig = Some True \<or>
     sample_verify key (LegacyClaims (license_claims signed_license)) sig = Some True) \<and>
    (\<forall>t. licenseExpiresAt signed_license = DateAt t \<longrightarrow> 500 < t)"
proof (rule production_license_signed)
  show "isProduction prod_env" by (simp add: prod_env_def)
  show "validateLicenseIntegrity prod_env sample_verify 500 (Some signed_license) None (Some ''acc'')"
    by code_simp
qed

end
