(* ===== verification/TimeGuard.thy ===== *)
theory TimeGuard
  imports StateEngine Licensing
begin

text \<open>
  Time: the persistent clock (\<^verbatim>\<open>time/persistent-clock.mjs\<close>), the offline-grace monitor
  (\<^verbatim>\<open>time/offline-grace.mjs\<close>) and the session checks that read time from the security row
  (\<^verbatim>\<open>sessions/session-manager.mjs\<close>). \<open>now\<close> is the wall clock in milliseconds, \<open>hr\<close> the monotonic
  \<^verbatim>\<open>process.hrtime.bigint()\<close> in nanoseconds.
\<close>

section \<open>The persistent clock\<close>

definition updateAnchor ::
  "(string \<Rightarrow> document \<Rightarrow> 'b) \<Rightarrow> int \<Rightarrow> int \<Rightarrow> 'b acp \<Rightarrow> 'b acp" where
  "updateAnchor enc hr backendTimestamp w =
     (if backendTimestamp \<le> 0 then w
      else if backendTimestamp \<ge> lastKnownTime w
      then let w1 = w\<lparr>lastKnownTime := backendTimestamp, bootWallclock := backendTimestamp,
                       bootHrtime := hr, isUncertain := False\<rparr>
           in if \<not> db_open w1 then w1
              else let nextVersion = (case time_anchor w1 of None \<Rightarrow> 1 | Some (v, g, b) \<Rightarrow> v + 1)
                   in w1\<lparr>time_anchor := Some (nextVersion, 0,
                           encryptPayload enc ''time_anchor'' nextVersion 0 (AnchorDoc backendTimestamp))\<rparr>
      else w)"

definition clockInitialize ::
  "(string \<Rightarrow> document \<Rightarrow> 'b) \<Rightarrow> (string \<Rightarrow> 'b \<Rightarrow> document option) \<Rightarrow> int \<Rightarrow> int \<Rightarrow> 'b acp
     \<Rightarrow> ('b, unit) op_result" where
  "clockInitialize enc dec now hr w =
     (if \<not> db_open w then (Inl DatabaseNotInitialized, w)
      else let w1 = w\<lparr>bootWallclock := now, bootHrtime := hr\<rparr>
           in case time_anchor w1 of
                Some (v, g, b) \<Rightarrow>
                  (case decryptPayload dec ''time_anchor'' v g b of
                     Some (AnchorDoc t) \<Rightarrow>
                       (Inr (), w1\<lparr>lastKnownTime := t, isUncertain := (now < t)\<rparr>)
                   | _ \<Rightarrow> (Inr (), w1\<lparr>isUncertain := True\<rparr>))
              | None \<Rightarrow> (Inr (), updateAnchor enc hr now (w1\<lparr>isUncertain := False\<rparr>)))"

definition clockNow :: "int \<Rightarrow> 'b acp \<Rightarrow> auth_error + int" where
  "clockNow hr w =
     (if isUncertain w then Inl ClockUncertain
      else Inr (bootWallclock w + (hr - bootHrtime w) div 1000000))"

section \<open>The offline-grace monitor\<close>

definition expireGrace ::
  "(string \<Rightarrow> document \<Rightarrow> 'b) \<Rightarrow> int \<Rightarrow> int \<Rightarrow> security_data \<Rightarrow> nat \<Rightarrow> 'b acp \<Rightarrow> ('b, unit) op_result" where
  "expireGrace enc wall now row currentVersion w =
     (let expired = row\<lparr>state := EXPIRED, highest_observed_time := now\<rparr>
      in case commitTransitionWithOCC enc wall currentVersion expired (Some ''GRACE_EXHAUSTED'')
                (setRevokedSync True w) of
           (Inl e, w1) \<Rightarrow> (Inl e, w1)
         | (Inr committed, w1) \<Rightarrow>
             (Inr (), w1\<lparr>inMemoryState := map_option (\<lambda>m. m\<lparr>state := EXPIRED,
                state_version := (if committed then currentVersion + 1 else state_version m)\<rparr>)
                (inMemoryState w1)\<rparr>))"

definition checkTimeBounds ::
  "(string \<Rightarrow> document \<Rightarrow> 'b) \<Rightarrow> (string \<Rightarrow> 'b \<Rightarrow> document option) \<Rightarrow> int \<Rightarrow> int \<Rightarrow> 'b acp
     \<Rightarrow> ('b, unit) op_result" where
  "checkTimeBounds enc dec wall hr w =
     (case getSecurityStateRow dec w of
        (Inl e, w1) \<Rightarrow> (Inl e, w1)
      | (Inr None, w1) \<Rightarrow> (Inr (), w1)
      | (Inr (Some row), w1) \<Rightarrow>
          (case clockNow hr w1 of
             Inl e \<Rightarrow> (Inl e, w1)
           | Inr now \<Rightarrow>
               if now < highest_observed_time row
               then (Inl ClockRolledBack, setRevokedSync True w1)
               else (case (if now > highest_observed_time row
                           then commitTransitionWithOCC enc wall (state_version row)
                                  (row\<lparr>highest_observed_time := now\<rparr>) (Some ''TIME_TICK'') w1
                           else (Inr False, w1)) of
                       (Inl e, w2) \<Rightarrow> (Inl e, w2)
                     | (Inr committed, w2) \<Rightarrow>
                         let currentVersion = (if committed then state_version row + 1 else state_version row)
                         in case graceTokenData row of
                              None \<Rightarrow> (Inr (), w2)
                            | Some token \<Rightarrow>
                                if state row = OFFLINE_GRACE \<and> now > not_after token
                                then expireGrace enc wall now row currentVersion w2
                                else (Inr (), w2))))"

definition isValidGraceToken ::
  "license_env \<Rightarrow> verifier \<Rightarrow> int \<Rightarrow> int \<Rightarrow> grace_token option \<Rightarrow> string \<Rightarrow> nat \<Rightarrow> 'b acp \<Rightarrow> auth_error + bool" where
  "isValidGraceToken env verify wall hr token currentMachineId currentGeneration w =
     (case token of
        None \<Rightarrow> Inr False
      | Some t \<Rightarrow>
          if graceMachineId t \<noteq> currentMachineId then Inr False
          else if graceSessionGeneration t \<noteq> currentGeneration then Inr False
          else case clockNow hr w of
            Inl e \<Rightarrow> Inl e
          | Inr now \<Rightarrow>
              if now > not_after t then Inr False
              else if present (graceSignature t) \<noteq> None \<and> \<not> verifyGraceToken env verify wall (Some t) None
              then Inr False
              else Inr True)"

section \<open>Sessions\<close>

definition getActiveSession ::
  "(string \<Rightarrow> 'b \<Rightarrow> document option) \<Rightarrow> 'b acp \<Rightarrow> ('b, session_row option) op_result" where
  "getActiveSession dec w =
     (case getSecurityStateRow dec w of
        (Inl e, w1) \<Rightarrow> (Inl e, w1)
      | (Inr None, w1) \<Rightarrow> (Inr None, w1)
      | (Inr (Some row), w1) \<Rightarrow>
          (Inr (if state row = REVOKED \<or> state row = COMPROMISED then None else session row), w1))"

text \<open>\<^verbatim>\<open>row.highest_observed_time || clock.now()\<close>\<close>

definition observedNow :: "int \<Rightarrow> security_data \<Rightarrow> 'b acp \<Rightarrow> auth_error + int" where
  "observedNow hr row w =
     (if highest_observed_time row \<noteq> 0 then Inr (highest_observed_time row) else clockNow hr w)"

definition isSessionValid ::
  "(string \<Rightarrow> 'b \<Rightarrow> document option) \<Rightarrow> int \<Rightarrow> 'b acp \<Rightarrow> ('b, bool) op_result" where
  "isSessionValid dec hr w =
     (case getSecurityStateRow dec w of
        (Inl e, w1) \<Rightarrow> (Inl e, w1)
      | (Inr None, w1) \<Rightarrow> (Inr False, w1)
      | (Inr (Some row), w1) \<Rightarrow>
          (case session row of
             None \<Rightarrow> (Inr False, w1)
           | Some s \<Rightarrow>
               if state row = REVOKED \<or> state row = COMPROMISED then (Inr False, w1)
               else if sessionStatus s \<noteq> ''AUTHENTICATED'' \<and> sessionStatus s \<noteq> ''RENEWING''
               then (Inr False, w1)
               else (case observedNow hr row w1 of
                       Inl e \<Rightarrow> (Inl e, w1)
                     | Inr now \<Rightarrow> (Inr (\<not> now > sessionExpiresAt s), w1))))"

definition isRenewalDue ::
  "(string \<Rightarrow> 'b \<Rightarrow> document option) \<Rightarrow> int \<Rightarrow> 'b acp \<Rightarrow> ('b, bool) op_result" where
  "isRenewalDue dec hr w =
     (case getSecurityStateRow dec w of
        (Inl e, w1) \<Rightarrow> (Inl e, w1)
      | (Inr None, w1) \<Rightarrow> (Inr False, w1)
      | (Inr (Some row), w1) \<Rightarrow>
          (case session row of
             None \<Rightarrow> (Inr False, w1)
           | Some s \<Rightarrow>
               if state row = REVOKED \<or> state row = COMPROMISED \<or> state row = OFFLINE_GRACE
               then (Inr False, w1)
               else (case observedNow hr row w1 of
                       Inl e \<Rightarrow> (Inl e, w1)
                     | Inr now \<Rightarrow> (Inr (opt_ge (Some now) (renewAfter s)), w1))))"

section \<open>The clock as a machine\<close>

text \<open>
  \<open>hr\<close> is the reading of the monotonic counter. A restarted process has a new counter and none of the
  clock's memory, but the same database.
\<close>

definition anchored_time :: "(string \<Rightarrow> 'b \<Rightarrow> document option) \<Rightarrow> 'b acp \<Rightarrow> int option" where
  "anchored_time dec w =
     (case time_anchor w of
        None \<Rightarrow> None
      | Some (v, g, b) \<Rightarrow>
          (case decryptPayload dec ''time_anchor'' v g b of Some (AnchorDoc t) \<Rightarrow> Some t | _ \<Rightarrow> None))"

definition restartProcess :: "int \<Rightarrow> int \<Rightarrow> 'b acp \<Rightarrow> 'b acp" where
  "restartProcess now hr w =
     w\<lparr>bootWallclock := now, bootHrtime := hr, lastKnownTime := 0, isUncertain := True\<rparr>"

inductive clock_step ::
  "(string \<Rightarrow> document \<Rightarrow> 'b) \<Rightarrow> (string \<Rightarrow> 'b \<Rightarrow> document option)
     \<Rightarrow> int \<times> 'b acp \<Rightarrow> int \<times> 'b acp \<Rightarrow> bool"
  for enc dec where
  tick: "hr \<le> hr' \<Longrightarrow> clock_step enc dec (hr, w) (hr', w)"
| anchored: "clock_step enc dec (hr, w) (hr, updateAnchor enc hr ts w)"
| initialized: "clockInitialize enc dec now hr w = (Inr (), w') \<Longrightarrow> clock_step enc dec (hr, w) (hr, w')"
| restarted: "clock_step enc dec (hr, w) (hr', restartProcess now hr' w)"

definition clock_start ::
  "(string \<Rightarrow> document \<Rightarrow> 'b) \<Rightarrow> (string \<Rightarrow> 'b \<Rightarrow> document option) \<Rightarrow> int \<times> 'b acp \<Rightarrow> bool" where
  "clock_start enc dec x \<longleftrightarrow> aead_ok enc dec \<and> db_open (snd x) \<and> isUncertain (snd x) \<and> bootHrtime (snd x) \<le> fst x"

definition clock_good ::
  "(string \<Rightarrow> document \<Rightarrow> 'b) \<Rightarrow> (string \<Rightarrow> 'b \<Rightarrow> document option) \<Rightarrow> int \<times> 'b acp \<Rightarrow> bool" where
  "clock_good enc dec x \<longleftrightarrow>
     aead_ok enc dec \<and> db_open (snd x) \<and> bootHrtime (snd x) \<le> fst x \<and>
     (\<not> isUncertain (snd x) \<longrightarrow>
        (\<forall>t. anchored_time dec (snd x) = Some t \<longrightarrow> t \<le> bootWallclock (snd x)))"

lemma updateAnchor_cases:
  "updateAnchor enc hr ts w = w \<or>
   (0 < ts \<and> lastKnownTime w \<le> ts \<and> lastKnownTime (updateAnchor enc hr ts w) = ts \<and>
    bootWallclock (updateAnchor enc hr ts w) = ts \<and> bootHrtime (updateAnchor enc hr ts w) = hr \<and>
    \<not> isUncertain (updateAnchor enc hr ts w) \<and>
    (db_open w \<longrightarrow> (\<exists>v. time_anchor (updateAnchor enc hr ts w) =
       Some (v, 0, encryptPayload enc ''time_anchor'' v 0 (AnchorDoc ts)))))"
  by (auto simp: updateAnchor_def Let_def)

lemma updateAnchor_frame [simp]:
  "db_open (updateAnchor enc hr ts w) = db_open w" "singleton (updateAnchor enc hr ts w) = singleton w"
  "inMemoryState (updateAnchor enc hr ts w) = inMemoryState w" "revoked (updateAnchor enc hr ts w) = revoked w"
  by (simp_all add: updateAnchor_def Let_def)

lemma updateAnchor_good:
  assumes "clock_good enc dec (hr, w)"
  shows "clock_good enc dec (hr, updateAnchor enc hr ts w)"
  using updateAnchor_cases [of enc hr ts w]
proof
  assume "updateAnchor enc hr ts w = w"
  with assms show ?thesis by simp
qed (use assms in \<open>auto simp: clock_good_def anchored_time_def decrypt_encrypt\<close>)

lemma clockInitialize_good:
  assumes good: "clock_good enc dec (hr, w)" and init: "clockInitialize enc dec now hr w = (Inr (), w')"
  shows "clock_good enc dec (hr, w')"
proof (cases "time_anchor w")
  case (Some a)
  obtain v g b where a: "a = (v, g, b)" by (cases a)
  with good init Some show ?thesis
    by (auto simp: clock_good_def clockInitialize_def anchored_time_def Let_def
          split: option.splits document.splits if_splits)
next
  case None
  with init have w': "w' = updateAnchor enc hr now (w\<lparr>bootWallclock := now, bootHrtime := hr, isUncertain := False\<rparr>)"
    by (auto simp: clockInitialize_def Let_def split: if_splits)
  have "clock_good enc dec (hr, w\<lparr>bootWallclock := now, bootHrtime := hr, isUncertain := False\<rparr>)"
    using good None by (simp add: clock_good_def anchored_time_def)
  then show ?thesis unfolding w' by (rule updateAnchor_good)
qed

lemma clock_step_good: "clock_step enc dec x y \<Longrightarrow> clock_good enc dec x \<Longrightarrow> clock_good enc dec y"
proof (induction rule: clock_step.induct)
  case (tick hr hr' w)
  then show ?case by (simp add: clock_good_def)
next
  case (restarted hr w hr' now)
  then show ?case by (simp add: clock_good_def restartProcess_def)
qed (auto intro: updateAnchor_good clockInitialize_good)

interpretation clock_machine: machine_invariant "clock_start enc dec" "clock_step enc dec" "clock_good enc dec"
proof
  fix x y :: "int \<times> 'a acp"
  show "clock_start enc dec x \<Longrightarrow> clock_good enc dec x"
    by (simp add: clock_start_def clock_good_def)
  show "clock_step enc dec x y \<Longrightarrow> clock_good enc dec x \<Longrightarrow> clock_good enc dec y"
    by (rule clock_step_good)
qed

lemma clockNow_ge_boot:
  "clockNow hr w = Inr t \<Longrightarrow> bootHrtime w \<le> hr \<Longrightarrow> \<not> isUncertain w \<and> bootWallclock w \<le> t"
  by (auto simp: clockNow_def pos_imp_zdiv_nonneg_iff split: if_splits)

section \<open>Reading and writing the row in one check\<close>

lemma commitPayload_version: "state_version (commitPayload now v d ev) = v"
  by (simp add: commitPayload_def)

lemma getRow_clock: "getSecurityStateRow dec w = (r, w') \<Longrightarrow> clockNow hr w' = clockNow hr w"
  by (erule getRow_world)
    (simp_all add: clockNow_def checkTransitionIntent_def setTransitionIntent_def raiseWatermark_def
       savePersistedPathAnchor_def Let_def split: option.splits)

lemma commit_current:
  "db_open w \<Longrightarrow> singleton w = Some row \<Longrightarrow> row_version row = v \<Longrightarrow>
   commitTransitionWithOCC enc now v d ev w =
     (Inr True, afterCommit (v + 1) (w\<lparr>singleton := Some (commitRow enc now (v + 1) d ev)\<rparr>))"
  by (simp add: commitTransitionWithOCC_def)

text \<open>The first half of a time check, on a readable row and a certain clock: the row is stamped with the
  clock reading and its version moves when the reading is new.\<close>

definition tickedWorld ::
  "(string \<Rightarrow> document \<Rightarrow> 'b) \<Rightarrow> int \<Rightarrow> security_data \<Rightarrow> int \<Rightarrow> 'b acp \<Rightarrow> 'b acp" where
  "tickedWorld enc wall row t w =
     (if t > highest_observed_time row
      then afterCommit (state_version row + 1)
             (w\<lparr>singleton := Some (commitRow enc wall (state_version row + 1)
                  (row\<lparr>highest_observed_time := t\<rparr>) (Some ''TIME_TICK''))\<rparr>)
      else w)"

lemma checkTimeBounds_ticked:
  assumes read: "getSecurityStateRow dec w = (Inr (Some row), w1)" and rc: "row_consistent dec w"
    and clk: "clockNow hr w = Inr t" and fwd: "\<not> t < highest_observed_time row"
  shows "checkTimeBounds enc dec wall hr w =
    (case graceTokenData row of
       None \<Rightarrow> (Inr (), tickedWorld enc wall row t w1)
     | Some token \<Rightarrow>
         if state row = OFFLINE_GRACE \<and> t > not_after token
         then expireGrace enc wall t row (store_version (tickedWorld enc wall row t w1))
                (tickedWorld enc wall row t w1)
         else (Inr (), tickedWorld enc wall row t w1))"
proof -
  note fr = getRow_frame [OF read]
  from read obtain r where r: "singleton w = Some r" "db_open w" by (rule getRow_Some)
  have v: "state_version row = row_version r"
    using getRow_version [OF read rc] r by (simp add: store_version_def)
  have clk1: "clockNow hr w1 = Inr t" using clk getRow_clock [OF read] by simp
  have c: "commitTransitionWithOCC enc wall (state_version row) d ev w1 =
      (Inr True, afterCommit (state_version row + 1)
         (w1\<lparr>singleton := Some (commitRow enc wall (state_version row + 1) d ev)\<rparr>))" for d ev
    using commit_current [of w1 r "state_version row" enc wall d ev] r fr v by simp
  show ?thesis
  proof (cases "highest_observed_time row < t")
    case True
    have "store_version (tickedWorld enc wall row t w1) = state_version row + 1"
      using True by (simp add: tickedWorld_def store_version_def)
    with True show ?thesis
      by (simp add: checkTimeBounds_def read clk1 fwd c tickedWorld_def split: option.splits)
  next
    case False
    have "store_version (tickedWorld enc wall row t w1) = state_version row"
      using False r fr v by (simp add: tickedWorld_def store_version_def)
    with False show ?thesis
      by (simp add: checkTimeBounds_def read clk1 fwd tickedWorld_def split: option.splits)
  qed
qed

lemma tickedWorld_row:
  assumes "getSecurityStateRow dec w = (Inr (Some row), w1)" and "row_consistent dec w"
  obtains r where "singleton (tickedWorld enc wall row t w1) = Some r"
    "db_open (tickedWorld enc wall row t w1)"
    "effectiveMinVersion (tickedWorld enc wall row t w1) \<le> row_version r"
proof -
  note fr = getRow_frame [OF assms(1)]
  from assms(1) obtain r0 where r0: "singleton w = Some r0" "db_open w" by (rule getRow_Some)
  have v: "state_version row = row_version r0"
    using getRow_version [OF assms] r0 by (simp add: store_version_def)
  have em: "effectiveMinVersion w1 \<le> row_version r0"
    using getRow_effectiveMin [OF assms(1)] r0 by (simp add: store_version_def)
  show ?thesis
  proof (cases "highest_observed_time row < t")
    case True
    let ?row = "commitRow enc wall (state_version row + 1) (row\<lparr>highest_observed_time := t\<rparr>) (Some ''TIME_TICK'')"
    have "effectiveMinVersion (w1\<lparr>singleton := Some ?row\<rparr>) \<le> state_version row + 1"
      using em v by (subst effectiveMin_cong [of _ w1]) simp_all
    then have "effectiveMinVersion (tickedWorld enc wall row t w1) = state_version row + 1"
      using True by (simp add: tickedWorld_def effectiveMin_afterCommit)
    with True r0 fr show ?thesis by (intro that [of ?row]) (simp_all add: tickedWorld_def)
  next
    case False
    with r0 fr em show ?thesis by (intro that [of r0]) (simp_all add: tickedWorld_def)
  qed
qed

lemma expireGrace_done:
  assumes aead: "aead_ok enc dec" and row: "singleton w = Some r" "db_open w"
    and em: "effectiveMinVersion w \<le> row_version r"
  obtains w' where "expireGrace enc wall t row (row_version r) w = (Inr (), w')" "revoked w'"
    "inMemoryState w' = map_option (\<lambda>m. m\<lparr>state := EXPIRED, state_version := store_version w'\<rparr>) (inMemoryState w)"
    "\<exists>d. fst (getSecurityStateRow dec w') = Inr (Some d) \<and> state d = EXPIRED"
proof -
  let ?x = "row\<lparr>state := EXPIRED, highest_observed_time := t\<rparr>"
  let ?r = "commitRow enc wall (row_version r + 1) ?x (Some ''GRACE_EXHAUSTED'')"
  let ?c = "afterCommit (row_version r + 1) ((setRevokedSync True w)\<lparr>singleton := Some ?r\<rparr>)"
  let ?w = "?c\<lparr>inMemoryState := map_option (\<lambda>m. m\<lparr>state := EXPIRED, state_version := row_version r + 1\<rparr>)
      (inMemoryState ?c)\<rparr>"
  have ex: "expireGrace enc wall t row (row_version r) w = (Inr (), ?w)"
    using row by (simp add: expireGrace_def commit_current)
  have em': "effectiveMinVersion (setRevokedSync True w) \<le> row_version r + 1"
    using em by (subst effectiveMin_cong [of _ w]) (simp_all add: setRevokedSync_def)
  have "fst (getSecurityStateRow dec ?w) = fst (getSecurityStateRow dec ?c)"
    by (rule getRow_depends) simp_all
  also have "\<dots> = Inr (Some (injectColumns ?r (commitPayload wall (row_version r + 1) ?x (Some ''GRACE_EXHAUSTED''))))"
    using row em' by (intro getRow_afterCommit [OF aead]) simp_all
  finally have "\<exists>d. fst (getSecurityStateRow dec ?w) = Inr (Some d) \<and> state d = EXPIRED"
    by (simp add: inject_commit)
  with ex show ?thesis by (intro that [of ?w]) (simp_all add: store_version_def)
qed

section \<open>Properties\<close>

text \<open>The persistent clock never reads below its persisted anchor: after any sequence of boots, backend
  anchors and passage of time, a reading that is returned at all is at least the time in the encrypted
  anchor row, and readings do not decrease while the process runs without a new anchor.\<close>

theorem clock_never_below_anchor:
  assumes "reach (clock_start enc dec) (clock_step enc dec) (hr, w)" and "hr \<le> hr'"
    and "clockNow hr' w = Inr t"
  shows "(\<forall>t0. anchored_time dec w = Some t0 \<longrightarrow> t0 \<le> t) \<and>
    (\<exists>s. clockNow hr w = Inr s \<and> s \<le> t)"
proof
  from clock_machine.reach_good [OF assms(1)] have good: "clock_good enc dec (hr, w)" .
  with assms(2) have "bootHrtime w \<le> hr'" by (simp add: clock_good_def)
  from clockNow_ge_boot [OF assms(3) this] good
  show "\<forall>t0. anchored_time dec w = Some t0 \<longrightarrow> t0 \<le> t" by (auto simp: clock_good_def)
  show "\<exists>s. clockNow hr w = Inr s \<and> s \<le> t"
    using assms(2,3) by (auto simp: clockNow_def split: if_splits intro: zdiv_mono1)
qed

definition clocked :: "(string \<times> document) acp" where
  "clocked = snd (clockInitialize tag_enc tag_dec 100 7 fresh_acp)"

lemma clocked_reachable:
  "reach (clock_start tag_enc tag_dec) (clock_step tag_enc tag_dec) (7, clocked)"
proof -
  have "fst (clockInitialize tag_enc tag_dec 100 7 fresh_acp) = Inr ()" by code_simp
  then have "clockInitialize tag_enc tag_dec 100 7 fresh_acp = (Inr (), clocked)"
    by (simp add: clocked_def prod_eq_iff)
  then have "clock_step tag_enc tag_dec (7, fresh_acp) (7, clocked)" by (rule initialized)
  moreover have "clock_start tag_enc tag_dec (7, fresh_acp)"
    by (simp add: clock_start_def tag_aead_ok fresh_acp_def)
  ultimately show ?thesis by (blast intro: reach_start reach_step)
qed

theorem clock_never_below_anchor_witness:
  "anchored_time tag_dec clocked = Some 100 \<and> clockNow 5000007 clocked = Inr 105 \<and>
   (\<exists>s. clockNow 7 clocked = Inr s \<and> s \<le> 105)"
proof -
  have a: "anchored_time tag_dec clocked = Some 100" and n: "clockNow 5000007 clocked = Inr 105"
    by code_simp+
  from clock_never_below_anchor [OF clocked_reachable _ n] a n show ?thesis by simp
qed

text \<open>Boot fails closed: when the wall clock is behind the persisted anchor, or the anchor does not
  authenticate, every reading of the clock throws, and no backend time earlier than the anchor
  restores it.\<close>

theorem boot_rollback_fails_closed:
  assumes "clockInitialize enc dec now hr w = (Inr (), w')" and "time_anchor w \<noteq> None"
    and "\<forall>t0. anchored_time dec w = Some t0 \<longrightarrow> now < t0"
  shows "clockNow hr' w' = Inl ClockUncertain \<and>
    (\<forall>t0 ts hr2. anchored_time dec w = Some t0 \<longrightarrow> ts < t0 \<longrightarrow> updateAnchor enc hr2 ts w' = w')"
proof -
  obtain v g b where a: "time_anchor w = Some (v, g, b)" using assms(2) by (cases "time_anchor w") auto
  have op: "db_open w" using assms(1) by (auto simp: clockInitialize_def split: if_splits)
  show ?thesis
  proof (cases "anchored_time dec w")
    case None
    with a op assms(1) have "isUncertain w'"
      by (auto simp: clockInitialize_def anchored_time_def split: option.splits document.splits)
    with None show ?thesis by (simp add: clockNow_def)
  next
    case (Some t0)
    with a have "decryptPayload dec ''time_anchor'' v g b = Some (AnchorDoc t0)"
      by (auto simp: anchored_time_def split: option.splits document.splits)
    with a op assms(1,3) Some have "isUncertain w'" "lastKnownTime w' = t0"
      by (auto simp: clockInitialize_def)
    with Some show ?thesis by (simp add: clockNow_def updateAnchor_def)
  qed
qed

theorem boot_rollback_fails_closed_witness:
  "clockNow 9 (snd (clockInitialize tag_enc tag_dec 50 8 clocked)) = Inl ClockUncertain \<and>
   updateAnchor tag_enc 10 60 (snd (clockInitialize tag_enc tag_dec 50 8 clocked)) =
     snd (clockInitialize tag_enc tag_dec 50 8 clocked)"
proof -
  have "fst (clockInitialize tag_enc tag_dec 50 8 clocked) = Inr ()" by code_simp
  then have init: "clockInitialize tag_enc tag_dec 50 8 clocked =
      (Inr (), snd (clockInitialize tag_enc tag_dec 50 8 clocked))" by (simp add: prod_eq_iff)
  have a: "anchored_time tag_dec clocked = Some 100" by code_simp
  then have "time_anchor clocked \<noteq> None" by (cases "time_anchor clocked") (simp_all add: anchored_time_def)
  from boot_rollback_fails_closed [OF init this, of 9] a show ?thesis by auto
qed

definition grace_data :: "int \<Rightarrow> grace_token option \<Rightarrow> security_data" where
  "grace_data highest token = (sample_data OFFLINE_GRACE 4)\<lparr>highest_observed_time := highest, graceTokenData := token\<rparr>"

definition grace_acp :: "int \<Rightarrow> grace_token option \<Rightarrow> (string \<times> document) acp" where
  "grace_acp highest token = clocked\<lparr>singleton := Some (commitRow tag_enc 3 4 (grace_data highest token) None),
     inMemoryState := Some (grace_data highest token)\<rparr>"

definition old_token :: grace_token where
  "old_token = \<lparr>graceMachineId = ''m1'', graceSessionGeneration = 0, not_before = None, not_after = 80,
     graceSignature = None, graceKeyVersion2 = False\<rparr>"

lemma grace_acp_reads:
  assumes "h \<noteq> 0"
  shows "getSecurityStateRow tag_dec (grace_acp h tok) =
      (Inr (Some ((grace_data h tok)\<lparr>last_transition_at := Some 3\<rparr>)), snd (getSecurityStateRow tag_dec (grace_acp h tok)))"
    "row_consistent tag_dec (grace_acp h tok)" "clockNow 7 (grace_acp h tok) = Inr 100"
proof -
  have e: "db_open (grace_acp h tok)" "effectiveMinVersion (grace_acp h tok) = 0"
    "minValidStateVersion (grace_acp h tok) = 0"
    by (simp_all add: grace_acp_def effectiveMinVersion_def clocked_def fresh_acp_def clockInitialize_def
        updateAnchor_def)
  have "fst (getSecurityStateRow tag_dec (grace_acp h tok)) = Inr (Some ((grace_data h tok)\<lparr>last_transition_at := Some 3\<rparr>))"
    using assms e by (simp add: getSecurityStateRow_def grace_acp_def commitRow_def decrypt_encrypt [OF tag_aead_ok]
        checkTransitionIntent_def commitPayload_def injectColumns_def grace_data_def sample_data_def)
  then show "getSecurityStateRow tag_dec (grace_acp h tok) =
      (Inr (Some ((grace_data h tok)\<lparr>last_transition_at := Some 3\<rparr>)), snd (getSecurityStateRow tag_dec (grace_acp h tok)))"
    by (simp add: prod_eq_iff)
  show "row_consistent tag_dec (grace_acp h tok)"
    by (rule row_consistent_commit [OF tag_aead_ok]) (simp add: grace_acp_def)
  show "clockNow 7 (grace_acp h tok) = Inr 100"
    by (simp add: grace_acp_def clockNow_def clocked_def clockInitialize_def fresh_acp_def updateAnchor_def)
qed

lemma grace_data_simps [simp]:
  "highest_observed_time (grace_data h tok) = h" "graceTokenData (grace_data h tok) = tok"
  "state (grace_data h tok) = OFFLINE_GRACE" "state_version (grace_data h tok) = 4"
  by (simp_all add: grace_data_def sample_data_def)

text \<open>A running clock that falls behind the watermark of the row stops execution at once: the check
  sets the native revocation flag and throws.\<close>

theorem runtime_rollback_revokes:
  assumes "getSecurityStateRow dec w = (Inr (Some row), w1)" and "clockNow hr w = Inr t"
    and "t < highest_observed_time row"
  shows "\<exists>w'. checkTimeBounds enc dec wall hr w = (Inl ClockRolledBack, w') \<and> revoked w' \<and> \<not> pipe_server w'"
  using assms getRow_clock [OF assms(1), of hr] by (simp add: checkTimeBounds_def)

theorem runtime_rollback_revokes_witness:
  "\<exists>w'. checkTimeBounds tag_enc tag_dec 100 7 (grace_acp 500 None) = (Inl ClockRolledBack, w') \<and>
     revoked w' \<and> \<not> pipe_server w'"
  by (rule runtime_rollback_revokes [OF grace_acp_reads(1,3)]) simp_all

text \<open>Offline grace ends with its token: on a readable row in OFFLINE_GRACE whose token has expired by
  the clock, the check sets the native revocation flag, moves the in-memory state to EXPIRED at the
  version of the row, and the row itself reads EXPIRED from then on.\<close>

theorem grace_ends_with_token:
  assumes "aead_ok enc dec" and "row_consistent dec w"
    and "getSecurityStateRow dec w = (Inr (Some row), w1)" and "clockNow hr w = Inr t"
    and "highest_observed_time row \<le> t" and "state row = OFFLINE_GRACE"
    and "graceTokenData row = Some token" and "not_after token < t"
  shows "\<exists>w'. checkTimeBounds enc dec wall hr w = (Inr (), w') \<and> revoked w' \<and>
    inMemoryState w' = map_option (\<lambda>m. m\<lparr>state := EXPIRED, state_version := store_version w'\<rparr>) (inMemoryState w) \<and>
    (\<exists>d. fst (getSecurityStateRow dec w') = Inr (Some d) \<and> state d = EXPIRED)"
proof -
  let ?tw = "tickedWorld enc wall row t w1"
  from tickedWorld_row [OF assms(3,2)] obtain r where r: "singleton ?tw = Some r" "db_open ?tw"
    "effectiveMinVersion ?tw \<le> row_version r" by blast
  have m: "inMemoryState ?tw = inMemoryState w"
    using getRow_frame(2) [OF assms(3)] by (simp add: tickedWorld_def)
  have "checkTimeBounds enc dec wall hr w = expireGrace enc wall t row (row_version r) ?tw"
    using checkTimeBounds_ticked [OF assms(3,2,4)] assms(5-8) r(1) by (simp add: store_version_def)
  with expireGrace_done [OF assms(1) r, of wall t row] m show ?thesis by metis
qed

theorem grace_ends_with_token_witness:
  "\<exists>w'. checkTimeBounds tag_enc tag_dec 100 7 (grace_acp 50 (Some old_token)) = (Inr (), w') \<and> revoked w' \<and>
    inMemoryState w' = map_option (\<lambda>m. m\<lparr>state := EXPIRED, state_version := store_version w'\<rparr>)
      (inMemoryState (grace_acp 50 (Some old_token))) \<and>
    (\<exists>d. fst (getSecurityStateRow tag_dec w') = Inr (Some d) \<and> state d = EXPIRED)"
  by (rule grace_ends_with_token [OF tag_aead_ok grace_acp_reads(2,1,3), where token = old_token])
    (simp_all add: old_token_def)

text \<open>A grace token is accepted exactly when it is bound to this machine and session generation, the
  clock is certain and not past its end, and its signature verifies, if it has one: a token without a
  signature passes on its unauthenticated members alone.\<close>

theorem grace_token_acceptance:
  "isValidGraceToken env verify wall hr (Some t) mid gen w = Inr True \<longleftrightarrow>
     graceMachineId t = mid \<and> graceSessionGeneration t = gen \<and>
     \<not> isUncertain w \<and> bootWallclock w + (hr - bootHrtime w) div 1000000 \<le> not_after t \<and>
     (present (graceSignature t) = None \<or> verifyGraceToken env verify wall (Some t) None)"
  by (auto simp: isValidGraceToken_def clockNow_def split: if_splits)

text \<open>A time tick outdates the decision engine: the check commits a new version of the row without
  telling the in-memory projection, so after it every dispatch is refused as a concurrent modification.\<close>

theorem time_tick_blocks_dispatch:
  assumes "aead_ok enc dec" and "row_consistent dec w"
    and "getSecurityStateRow dec w = (Inr (Some row), w1)" and "clockNow hr w = Inr t"
    and "highest_observed_time row < t" and "graceTokenData row = None"
    and "inMemoryState w = Some m" and "state_version m = store_version w"
  shows "\<exists>w'. checkTimeBounds enc dec wall hr w = (Inr (), w') \<and> inMemoryState w' = Some m \<and>
    store_version w' = state_version m + 1 \<and>
    (\<forall>now ev p. fst (dispatch enc dec now ev p w') = Inr False)"
proof -
  let ?tw = "tickedWorld enc wall row t w1"
  have c: "checkTimeBounds enc dec wall hr w = (Inr (), ?tw)"
    using checkTimeBounds_ticked [OF assms(3,2,4)] assms(5,6) by simp
  have m: "inMemoryState ?tw = Some m"
    using getRow_frame(2) [OF assms(3)] assms(7) by (simp add: tickedWorld_def)
  have v: "state_version row = state_version m"
    using getRow_version [OF assms(3,2)] assms(8) by simp
  have sv: "store_version ?tw = state_version m + 1"
    using assms(5) v by (simp add: tickedWorld_def store_version_def)
  from assms(3) obtain r0 where r0: "singleton w = Some r0" "db_open w" by (rule getRow_Some)
  have em: "effectiveMinVersion w1 \<le> state_version row + 1"
    using getRow_effectiveMin [OF assms(3)] assms(8) v by simp
  have "fst (getSecurityStateRow dec ?tw) = Inr (Some (injectColumns
      (commitRow enc wall (state_version row + 1) (row\<lparr>highest_observed_time := t\<rparr>) (Some ''TIME_TICK''))
      (commitPayload wall (state_version row + 1) (row\<lparr>highest_observed_time := t\<rparr>) (Some ''TIME_TICK''))))"
    using assms(5) getRow_afterCommit [OF assms(1) _ em] r0 getRow_frame(3) [OF assms(3)]
    by (simp add: tickedWorld_def)
  then obtain d w2 where d: "getSecurityStateRow dec ?tw = (Inr (Some d), w2)" "state_version d = state_version m + 1"
    using v by (metis (no_types, lifting) commitPayload_version injectColumns_simps(2) prod.collapse)
  have "fst (dispatch enc dec now ev p ?tw) = Inr False" for now ev p
    using m d by (simp add: dispatch_def executeTransition_def)
  with c m sv show ?thesis by blast
qed

theorem time_tick_blocks_dispatch_witness:
  "\<exists>w'. checkTimeBounds tag_enc tag_dec 100 7 (grace_acp 50 None) = (Inr (), w') \<and>
    inMemoryState w' = Some (grace_data 50 None) \<and>
    store_version w' = state_version (grace_data 50 None) + 1 \<and>
    (\<forall>now ev p. fst (dispatch tag_enc tag_dec now ev p w') = Inr False)"
  by (rule time_tick_blocks_dispatch [OF tag_aead_ok grace_acp_reads(2,1,3)])
    (simp_all add: grace_acp_def store_version_def)

text \<open>The clock is not monotone across anchors: a backend time between the last anchor and the current
  reading is accepted and moves the clock back to it.\<close>

theorem anchor_rewinds_clock:
  assumes "clockNow hr w = Inr t" and "0 < ts" and "lastKnownTime w \<le> ts" and "ts < t"
  shows "clockNow hr (updateAnchor enc hr ts w) = Inr ts \<and> ts < t"
  using assms by (auto simp: updateAnchor_def clockNow_def Let_def)

theorem anchor_rewinds_clock_witness:
  "clockNow 5000007 clocked = Inr 105 \<and>
   clockNow 5000007 (updateAnchor tag_enc 5000007 101 clocked) = Inr 101 \<and> (101::int) < 105"
proof -
  have n: "clockNow 5000007 clocked = Inr 105" and l: "lastKnownTime clocked = 100" by code_simp+
  with anchor_rewinds_clock [OF n, of 101 tag_enc] show ?thesis by simp
qed

end
