(* ===== verification/AuditTrail.thy ===== *)
theory AuditTrail
  imports SecureStorage
begin

text \<open>
  The audit trail: scrubbing of metadata and queueing of events (\<^verbatim>\<open>audit/event-log.mjs\<close>) and the
  background writer that links the queued events in a hash chain (\<^verbatim>\<open>audit/audit-writer.mjs\<close>). The
  SHA-256 of the previous hash followed by the JSON text of the metadata is the parameter \<open>sha\<close>.
  The random event id, the ISO time stamp and the revision numbers of an event play no part in the
  chain and are left out of \<open>audit_event\<close>.
\<close>

section \<open>Scrubbing\<close>

definition forbiddenKeys :: "string list" where
  "forbiddenKeys = [''password'', ''secret'', ''key'', ''token'', ''credential'', ''private'']"

definition forbidden_key :: "string \<Rightarrow> bool" where
  "forbidden_key k = list_ex (includes_str (toLowerCase k)) forbiddenKeys"

definition REDACTED :: jsval where "REDACTED = JStr ''[REDACTED]''"

text \<open>The keys of an array are its indices, none of which is forbidden, so its elements are visited.\<close>

fun scrubMetadata :: "jsval \<Rightarrow> jsval" and scrub_members :: "(string \<times> jsval) list \<Rightarrow> (string \<times> jsval) list"
  and scrub_elements :: "jsval list \<Rightarrow> jsval list" where
  "scrubMetadata (JObj kvs) = JObj (scrub_members kvs)"
| "scrubMetadata (JArr xs) = JArr (scrub_elements xs)"
| "scrubMetadata v = v"
| "scrub_members [] = []"
| "scrub_members ((k, v) # kvs) =
     (k, if forbidden_key k then REDACTED else scrubMetadata v) # scrub_members kvs"
| "scrub_elements [] = []"
| "scrub_elements (x # xs) = scrubMetadata x # scrub_elements xs"

section \<open>Queueing\<close>

definition writeSecurityEvent :: "string \<Rightarrow> string \<Rightarrow> jsval \<Rightarrow> 'b acp \<Rightarrow> 'b acp" where
  "writeSecurityEvent eventType sev metadata w =
     (let safeMetadata = scrubMetadata metadata in
      w\<lparr>auditQueue := auditQueue w @
          [\<lparr>event_type = eventType, severity = sev, event_result = js_or (js_get safeMetadata ''result'') (JStr ''RECORDED''),
            event_hash = None, prev_event_hash = None, event_metadata = safeMetadata\<rparr>]\<rparr>)"

section \<open>The background writer\<close>

definition fetchLastEventHash ::
  "(string \<Rightarrow> 'b \<Rightarrow> document option) \<Rightarrow> 'b acp \<Rightarrow> string option" where
  "fetchLastEventHash dec w =
     (if \<not> db_open w then None
      else if audit_log w = [] then None
      else let row = last (audit_log w) in
           case decryptPayload dec ''audit'' (nat (audit_timestamp row)) 0 (audit_blob row) of
             Some (EventDoc ev) \<Rightarrow> (case event_hash ev of Some (c # cs) \<Rightarrow> Some (c # cs) | _ \<Rightarrow> None)
           | _ \<Rightarrow> None)"

text \<open>\<^verbatim>\<open>event.metadata || {}\<close>\<close>

definition hashed_metadata :: "audit_event \<Rightarrow> jsval" where
  "hashed_metadata ev = js_or (event_metadata ev) (JObj [])"

definition chain_event :: "(string \<Rightarrow> jsval \<Rightarrow> string) \<Rightarrow> string \<Rightarrow> audit_event \<Rightarrow> audit_event" where
  "chain_event sha prev ev =
     ev\<lparr>prev_event_hash := Some prev,
        event_hash := Some (sha prev (hashed_metadata ev))\<rparr>"

text \<open>\<^verbatim>\<open>lastHash || "GENESIS_BLOCK"\<close>\<close>

definition chain_head :: "string option \<Rightarrow> string" where
  "chain_head h = (case h of None \<Rightarrow> ''GENESIS_BLOCK'' | Some x \<Rightarrow> if x = [] then ''GENESIS_BLOCK'' else x)"

fun writeBatch ::
  "(string \<Rightarrow> jsval \<Rightarrow> string) \<Rightarrow> (string \<Rightarrow> document \<Rightarrow> 'b) \<Rightarrow> int \<Rightarrow> string option
     \<Rightarrow> audit_event list \<Rightarrow> 'b acp \<Rightarrow> 'b acp" where
  "writeBatch sha enc now lastHash [] w = w"
| "writeBatch sha enc now lastHash (ev # evs) w =
     (let ev' = chain_event sha (chain_head lastHash) ev
      in writeBatch sha enc now (event_hash ev') evs (writeEvent enc now ev' w))"

definition processQueue ::
  "(string \<Rightarrow> jsval \<Rightarrow> string) \<Rightarrow> (string \<Rightarrow> document \<Rightarrow> 'b) \<Rightarrow> (string \<Rightarrow> 'b \<Rightarrow> document option)
     \<Rightarrow> int \<Rightarrow> 'b acp \<Rightarrow> 'b acp" where
  "processQueue sha enc dec now w =
     (if auditBusy w \<or> auditQueue w = [] then w
      else writeBatch sha enc now (fetchLastEventHash dec w) (auditQueue w) (w\<lparr>auditQueue := []\<rparr>))"

section \<open>Lemmas\<close>

text \<open>A value is clean when no member under a forbidden key, at any depth, holds anything but the mark.\<close>

fun clean :: "jsval \<Rightarrow> bool" and clean_members :: "(string \<times> jsval) list \<Rightarrow> bool"
  and clean_elements :: "jsval list \<Rightarrow> bool" where
  "clean (JObj kvs) = clean_members kvs"
| "clean (JArr xs) = clean_elements xs"
| "clean v = True"
| "clean_members [] = True"
| "clean_members ((k, v) # kvs) =
     ((if forbidden_key k then v = REDACTED else clean v) \<and> clean_members kvs)"
| "clean_elements [] = True"
| "clean_elements (x # xs) = (clean x \<and> clean_elements xs)"

lemma scrub_clean:
  "clean (scrubMetadata v)" "clean_members (scrub_members kvs)" "clean_elements (scrub_elements xs)"
  by (induction v and kvs and xs rule: scrubMetadata_scrub_members_scrub_elements.induct) auto

lemma scrub_id:
  "clean v \<Longrightarrow> scrubMetadata v = v" "clean_members kvs \<Longrightarrow> scrub_members kvs = kvs"
  "clean_elements xs \<Longrightarrow> scrub_elements xs = xs"
  by (induction v and kvs and xs rule: scrubMetadata_scrub_members_scrub_elements.induct) (auto split: if_splits)

text \<open>The events of a chain that starts after the hash \<open>prev\<close>.\<close>

fun linked :: "(string \<Rightarrow> jsval \<Rightarrow> string) \<Rightarrow> string \<Rightarrow> audit_event list \<Rightarrow> bool" where
  "linked sha prev [] = True"
| "linked sha prev (ev # evs) =
     (prev_event_hash ev = Some prev \<and>
      event_hash ev = Some (sha prev (hashed_metadata ev)) \<and>
      linked sha (sha prev (hashed_metadata ev)) evs)"

definition row_event :: "(string \<Rightarrow> 'b \<Rightarrow> document option) \<Rightarrow> 'b audit_row \<Rightarrow> audit_event option" where
  "row_event dec row =
     (case decryptPayload dec ''audit'' (nat (audit_timestamp row)) 0 (audit_blob row) of
        Some (EventDoc ev) \<Rightarrow> Some ev | _ \<Rightarrow> None)"

definition unchained :: "audit_event \<Rightarrow> audit_event" where
  "unchained ev = ev\<lparr>event_hash := None, prev_event_hash := None\<rparr>"

lemma writeEvent_row:
  assumes "aead_ok enc dec" and "db_open w"
  obtains row where "audit_log (writeEvent enc now ev w) = audit_log w @ [row]" "row_event dec row = Some ev"
  using assms by (auto simp: writeEvent_def row_event_def decrypt_encrypt)

lemma writeEvent_keeps [simp]:
  "db_open (writeEvent enc now ev w) = db_open w" "auditQueue (writeEvent enc now ev w) = auditQueue w"
  by (simp_all add: writeEvent_def)

lemma writeBatch_linked:
  assumes "aead_ok enc dec" and "db_open w" and "\<And>p m. sha p m \<noteq> []"
  shows "\<exists>rows evs. audit_log (writeBatch sha enc now h batch w) = audit_log w @ rows \<and>
     map (row_event dec) rows = map Some evs \<and> linked sha (chain_head h) evs \<and>
     map unchained evs = map unchained batch \<and> auditQueue (writeBatch sha enc now h batch w) = auditQueue w"
  using assms(2)
proof (induction batch arbitrary: h w)
  case Nil
  then show ?case by (intro exI [of _ "[]"]) simp
next
  case (Cons ev batch)
  let ?ev = "chain_event sha (chain_head h) ev"
  let ?w = "writeEvent enc now ?ev w"
  have hash: "event_hash ?ev = Some (sha (chain_head h) (hashed_metadata ev))"
    and prev: "prev_event_hash ?ev = Some (chain_head h)" and meta: "hashed_metadata ?ev = hashed_metadata ev"
    and un: "unchained ?ev = unchained ev"
    by (simp_all add: chain_event_def unchained_def hashed_metadata_def)
  have head: "chain_head (event_hash ?ev) = sha (chain_head h) (hashed_metadata ev)"
    unfolding hash by (simp add: chain_head_def [of "Some x" for x] assms(3))
  obtain row where row: "audit_log ?w = audit_log w @ [row]" "row_event dec row = Some ?ev"
    using writeEvent_row [OF assms(1) Cons.prems] by blast
  have "db_open ?w" using Cons.prems by simp
  from Cons.IH [OF this, of "event_hash ?ev"] obtain rows evs where
    "audit_log (writeBatch sha enc now (event_hash ?ev) batch ?w) = audit_log ?w @ rows"
    "map (row_event dec) rows = map Some evs" "linked sha (chain_head (event_hash ?ev)) evs"
    "map unchained evs = map unchained batch"
    "auditQueue (writeBatch sha enc now (event_hash ?ev) batch ?w) = auditQueue ?w" by blast
  with row hash prev meta un head show ?case
    by (intro exI [of _ "row # rows"] exI [of _ "?ev # evs"]) (simp add: Let_def)
qed

section \<open>Properties\<close>

text \<open>Secrets never reach the audit log: scrubbing replaces every member whose key contains a
  forbidden word, at any depth and inside arrays, and changes nothing in metadata that is already
  clean (so it is idempotent).\<close>

theorem scrubbing_complete:
  "clean (scrubMetadata v) \<and> (clean v \<longrightarrow> scrubMetadata v = v)"
  by (simp add: scrub_clean scrub_id)

theorem scrubbing_complete_witness:
  "clean (scrubMetadata (JObj [(''a'', JArr [JObj [(''apiKEY'', JStr ''x'')]])])) \<and>
   clean (JObj [(''user'', JStr ''u'')]) \<and>
   scrubMetadata (JObj [(''user'', JStr ''u'')]) = JObj [(''user'', JStr ''u'')]"
proof -
  have "clean (JObj [(''user'', JStr ''u'')])" by code_simp
  with scrubbing_complete [of "JObj [(''user'', JStr ''u'')]"]
    scrubbing_complete [of "JObj [(''a'', JArr [JObj [(''apiKEY'', JStr ''x'')]])]"] show ?thesis by blast
qed

text \<open>A flush writes the whole queue as a hash chain: it appends exactly the queued events, in order,
  each linked to its predecessor, the first to the last hash of the log (or to the genesis block), and
  empties the queue.\<close>

theorem flush_extends_chain:
  assumes "aead_ok enc dec" and "db_open w" and "\<And>p m. sha p m \<noteq> []" and "\<not> auditBusy w"
  shows "\<exists>rows evs. audit_log (processQueue sha enc dec now w) = audit_log w @ rows \<and>
     map (row_event dec) rows = map Some evs \<and>
     linked sha (chain_head (fetchLastEventHash dec w)) evs \<and>
     map unchained evs = map unchained (auditQueue w) \<and>
     auditQueue (processQueue sha enc dec now w) = []"
proof (cases "auditQueue w = []")
  case True
  then show ?thesis by (intro exI [of _ "[]"]) (simp add: processQueue_def)
next
  case False
  have "db_open (w\<lparr>auditQueue := []\<rparr>)" using assms(2) by simp
  from writeBatch_linked [of enc dec "w\<lparr>auditQueue := []\<rparr>" sha now "fetchLastEventHash dec w" "auditQueue w",
      OF assms(1) this assms(3)] False assms(4)
  show ?thesis by (simp add: processQueue_def)
qed

definition sample_sha :: "string \<Rightarrow> jsval \<Rightarrow> string" where
  "sample_sha prev meta = ''h'' @ prev"

definition queued_acp :: "(string \<times> document) acp" where
  "queued_acp = writeSecurityEvent ''LOGIN'' ''INFO'' (JObj [(''token'', JStr ''t'')])
     (writeSecurityEvent ''BOOT'' ''INFO'' (JObj []) fresh_acp)"

theorem flush_extends_chain_witness:
  "\<exists>rows evs. audit_log (processQueue sample_sha tag_enc tag_dec 9 queued_acp) = audit_log queued_acp @ rows \<and>
     map (row_event tag_dec) rows = map Some evs \<and>
     linked sample_sha (chain_head (fetchLastEventHash tag_dec queued_acp)) evs \<and>
     map unchained evs = map unchained (auditQueue queued_acp) \<and>
     auditQueue (processQueue sample_sha tag_enc tag_dec 9 queued_acp) = []"
  by (rule flush_extends_chain [OF tag_aead_ok])
    (simp_all add: queued_acp_def writeSecurityEvent_def fresh_acp_def sample_sha_def)

text \<open>An event written directly by the state engine carries no hash and cuts the chain: the flush that
  follows it links its first event to the genesis block, whatever the chain before it was.\<close>

theorem direct_event_cuts_chain:
  assumes "aead_ok enc dec" and "db_open w" and "event_hash ev = None"
  shows "chain_head (fetchLastEventHash dec (writeEvent enc now ev w)) = ''GENESIS_BLOCK''"
proof -
  obtain row where "audit_log (writeEvent enc now ev w) = audit_log w @ [row]" "row_event dec row = Some ev"
    using writeEvent_row [OF assms(1,2)] by blast
  with assms(2,3) have "fetchLastEventHash dec (writeEvent enc now ev w) = None"
    by (auto simp: fetchLastEventHash_def row_event_def Let_def split: option.splits document.splits)
  then show ?thesis by (simp add: chain_head_def)
qed

theorem direct_event_cuts_chain_witness:
  "chain_head (fetchLastEventHash tag_dec (writeEvent tag_enc 10
     \<lparr>event_type = ''STATE_TRANSITION'', severity = ''INFO'', event_result = JStr ''SUCCESS'',
      event_hash = None, prev_event_hash = None, event_metadata = JObj []\<rparr>
     (processQueue sample_sha tag_enc tag_dec 9 queued_acp))) = ''GENESIS_BLOCK'' \<and>
   chain_head (fetchLastEventHash tag_dec (processQueue sample_sha tag_enc tag_dec 9 queued_acp)) =
     ''hhGENESIS_BLOCK''"
proof
  have "db_open (processQueue sample_sha tag_enc tag_dec 9 queued_acp)" by code_simp
  then show "chain_head (fetchLastEventHash tag_dec (writeEvent tag_enc 10
     \<lparr>event_type = ''STATE_TRANSITION'', severity = ''INFO'', event_result = JStr ''SUCCESS'',
      event_hash = None, prev_event_hash = None, event_metadata = JObj []\<rparr>
     (processQueue sample_sha tag_enc tag_dec 9 queued_acp))) = ''GENESIS_BLOCK''"
    by (intro direct_event_cuts_chain [OF tag_aead_ok]) simp_all
  show "chain_head (fetchLastEventHash tag_dec (processQueue sample_sha tag_enc tag_dec 9 queued_acp)) =
     ''hhGENESIS_BLOCK''" by code_simp
qed

end
