(* ===== verification/SecurityFacade.thy ===== *)
theory SecurityFacade
  imports TimeGuard AuditTrail
begin

text \<open>
  The public boundary of the security authority (\<^verbatim>\<open>facade.mjs\<close>) with the proxy registry it severs
  (\<^verbatim>\<open>execution/cdp-proxy.mjs\<close>). Every method of the facade is one operation over the world \<open>acp\<close>;
  \<open>now\<close> is the wall clock, \<open>hr\<close> the monotonic counter, \<open>facade_env\<close> what the process environment, the
  file system and the hardware answer while the method runs.
\<close>

record facade_env =
  licenseEnv :: license_env
  bootPath :: string
  bootExisted :: bool
  bootOpen :: open_outcome
  machineValid :: bool

record security_result =
  status :: string
  message :: "string option"

definition result_of :: "string \<Rightarrow> security_result" where
  "result_of s = \<lparr>status = s, message = None\<rparr>"

definition denied :: "string \<Rightarrow> security_result" where
  "denied m = \<lparr>status = ''DENIED'', message = Some m\<rparr>"

section \<open>CDP proxies\<close>

definition proxyStreams :: "nat \<Rightarrow> 'b acp \<Rightarrow> 'b acp" where
  "proxyStreams pid w =
     (if revoked w then w\<lparr>killedRuntimes := killedRuntimes w @ [pid]\<rparr>
      else w\<lparr>activeProxies := activeProxies w @ [pid]\<rparr>)"

text \<open>One chunk through an attached proxy, in either direction: whether it is forwarded.\<close>

definition proxyChunk :: "nat \<Rightarrow> 'b acp \<Rightarrow> bool \<times> 'b acp" where
  "proxyChunk pid w =
     (if revoked w
      then (False, w\<lparr>activeProxies := removeAll pid (activeProxies w),
                      killedRuntimes := killedRuntimes w @ [pid]\<rparr>)
      else (True, w))"

definition closeAll :: "'b acp \<Rightarrow> 'b acp" where
  "closeAll w = w\<lparr>activeProxies := [], killedRuntimes := killedRuntimes w @ activeProxies w\<rparr>"

section \<open>Boot and state queries\<close>

definition facadeInitialize ::
  "(string \<Rightarrow> document \<Rightarrow> 'b) \<Rightarrow> (string \<Rightarrow> 'b \<Rightarrow> document option) \<Rightarrow> facade_env \<Rightarrow> int \<Rightarrow> int
     \<Rightarrow> 'b acp \<Rightarrow> ('b, unit) op_result" where
  "facadeInitialize enc dec env now hr w =
     (case (if db_open w then (None, w)
            else initDatabase now (bootPath env) (bootExisted env) (bootOpen env) w) of
        (Some e, w1) \<Rightarrow> (Inl e, w1)
      | (None, w1) \<Rightarrow>
          (case clockInitialize enc dec now hr w1 of
             (Inl e, w2) \<Rightarrow> (Inl e, w2)
           | (Inr _, w2) \<Rightarrow> initialize enc dec now (machineValid env) w2))"

definition getSystemState :: "'b acp \<Rightarrow> security_state" where
  "getSystemState w = (case inMemoryState w of None \<Rightarrow> UNINITIALIZED | Some m \<Rightarrow> state m)"

definition isOperational :: "'b acp \<Rightarrow> bool" where
  "isOperational w \<longleftrightarrow> getSystemState w = OPERATIONAL"

definition isDegraded :: "'b acp \<Rightarrow> bool" where
  "isDegraded w \<longleftrightarrow>
     (let s = getSystemState w in
      if s = UNINITIALIZED then False else s \<noteq> OPERATIONAL \<and> s \<noteq> OFFLINE_GRACE)"

definition isSessionRevokedSync :: "'b acp \<Rightarrow> bool" where
  "isSessionRevokedSync w = revoked w"

definition logAuditEvent ::
  "string \<Rightarrow> string \<Rightarrow> jsval \<Rightarrow> 'b acp \<Rightarrow> ('b, unit) op_result" where
  "logAuditEvent eventType sev metadata w =
     (case inMemoryState w of
        None \<Rightarrow> (Inl EngineNotInitialized, w)
      | Some m \<Rightarrow> (Inr (), writeSecurityEvent eventType sev metadata w))"

section \<open>Revocation\<close>

text \<open>
  Three methods write their in-memory projection over the stored row at whatever version it has and
  swallow storage errors; \<open>persistOver\<close> is that block, with the states of the row for which it is
  skipped. It returns the new version when the commit took place.
\<close>

definition persistOver ::
  "(string \<Rightarrow> document \<Rightarrow> 'b) \<Rightarrow> (string \<Rightarrow> 'b \<Rightarrow> document option) \<Rightarrow> int \<Rightarrow> security_state list
     \<Rightarrow> security_data \<Rightarrow> string option \<Rightarrow> 'b acp \<Rightarrow> nat option \<times> 'b acp" where
  "persistOver enc dec now skip d ev w =
     (case getSecurityStateRow dec w of
        (Inr (Some row), w1) \<Rightarrow>
          if state row \<in> set skip then (None, w1)
          else (case commitTransitionWithOCC enc now (state_version row) d ev w1 of
                  (Inr True, w2) \<Rightarrow> (Some (state_version row + 1), w2)
                | (_, w2) \<Rightarrow> (None, w2))
      | (_, w1) \<Rightarrow> (None, w1))"

definition revoked_license :: "int \<Rightarrow> string \<Rightarrow> license_row" where
  "revoked_license now reason =
     \<lparr>licenseStatus = Some ''REVOKED'', licenseSignature = None, licenseExpiresAt = NoDate,
      licenseExpiration = None, licenseAccountId = None, keyVersion2 = False,
      strictCapabilities = False, revokedAt = Some now, revokeReason = Some reason\<rparr>"

definition revokeLicense ::
  "(string \<Rightarrow> document \<Rightarrow> 'b) \<Rightarrow> (string \<Rightarrow> 'b \<Rightarrow> document option) \<Rightarrow> int \<Rightarrow> string \<Rightarrow> 'b acp \<Rightarrow> 'b acp" where
  "revokeLicense enc dec now reason w =
     (let w1 = setRevokedSync True w;
          w2 = snd (dispatch enc dec now BACKEND_REVOCATION (Some (empty_payload\<lparr>nonceChecked := True\<rparr>)) w1);
          w3 = (case inMemoryState w2 of
                  None \<Rightarrow> w2
                | Some m \<Rightarrow>
                    let m' = m\<lparr>state := REVOKED, license := Some (revoked_license now reason)\<rparr>
                    in snd (persistOver enc dec now [REVOKED] m' (Some (event_name BACKEND_REVOCATION))
                              (w2\<lparr>inMemoryState := Some m'\<rparr>)));
          w4 = (closeAll w3)\<lparr>pipe_server := False\<rparr>
      in snd (logAuditEvent ''LICENSE_REVOKED'' ''CRITICAL'' (JObj [(''reason'', JStr reason)]) w4))"

section \<open>Sessions\<close>

record auth_payload =
  ap_sessionId :: "string option"
  ap_accountId :: "string option"
  ap_expiresInMs :: "int option"
  ap_capabilities :: "string list option"     \<comment> \<open>\<open>None\<close> when it is not an array\<close>
  ap_license :: "license_row option"

definition CAPABILITY_values :: "string list" where
  "CAPABILITY_values =
     [CAP_AUTOMATION_START, CAP_AUTOMATION_STOP, ''CAP_BROWSER_ALLOCATE'', ''CAP_FILE_UPLOAD'',
      ''CAP_FILE_DOWNLOAD'', CAP_CONFIG_MODIFY, ''CAP_UPDATE_INSTALL'', ''CAP_TACTICAL_BET'',
      ''CAP_CASH_OUT'', ''CAP_TACTICAL_BET'', CAP_CONFIG_MODIFY]"

text \<open>\<^verbatim>\<open>if (set.has(a)) set.add(b)\<close> on an insertion-ordered set.\<close>

definition add_when :: "string \<Rightarrow> string \<Rightarrow> string list \<Rightarrow> string list" where
  "add_when a b xs = (if a \<in> set xs \<and> b \<notin> set xs then xs @ [b] else xs)"

definition expandCapabilities :: "string list \<Rightarrow> string list" where
  "expandCapabilities rawCaps =
     add_when CAP_CONFIG_MODIFY ''CAP_ACCOUNT_MANAGE''
      (add_when ''CAP_BET_PLACE'' ''CAP_TACTICAL_BET''
       (add_when ''CAP_TACTICAL_BET'' ''CAP_BET_VALIDATE''
        (add_when ''CAP_TACTICAL_BET'' ''CAP_BET_PLACE''
         (add_when ''CAP_BET_CASHOUT'' ''CAP_CASH_OUT''
          (add_when ''CAP_CASH_OUT'' ''CAP_BET_CASHOUT'' (js_set rawCaps))))))"

definition default_license :: license_row where
  "default_license =
     \<lparr>licenseStatus = Some ''VALID'', licenseSignature = None, licenseExpiresAt = NoDate,
      licenseExpiration = None, licenseAccountId = None, keyVersion2 = False,
      strictCapabilities = False, revokedAt = None, revokeReason = None\<rparr>"

definition or_default :: "string option \<Rightarrow> string \<Rightarrow> string" where
  "or_default s d = (case present s of Some x \<Rightarrow> x | None \<Rightarrow> d)"

definition session_of :: "int \<Rightarrow> auth_payload \<Rightarrow> string \<Rightarrow> session_row" where
  "session_of now p sid =
     \<lparr>sessionId = sid, sessionStatus = ''AUTHENTICATED'',
      userId = or_default (ap_accountId p) ''authenticated-operator'', issuedAt = Some now,
      sessionExpiresAt = now + (case ap_expiresInMs p of
         None \<Rightarrow> 86400000 | Some ms \<Rightarrow> if ms = 0 then 86400000 else ms),
      renewAfter = None\<rparr>"

definition loginEligibleStates :: "security_state list" where
  "loginEligibleStates =
     [SECURITY_STATE_READY, UNAUTHENTICATED, REAUTHENTICATION_REQUIRED, LOGGED_OUT, AUTH_FAILED,
      AUTHZ_FAILURE, EXPIRED, AUTHENTICATED, OPERATIONAL]"

text \<open>The license decision of a login: whether the signature holds, whether the license is valid, and the
  authorization it gives.\<close>

definition signature_holds :: "facade_env \<Rightarrow> verifier \<Rightarrow> int \<Rightarrow> auth_payload \<Rightarrow> license_row \<Rightarrow> bool" where
  "signature_holds env verify now p lic =
     (if present (licenseSignature lic) \<noteq> None \<or> isProduction (licenseEnv env)
      then validateLicenseIntegrity (licenseEnv env) verify now (Some lic) None (ap_accountId p)
      else True)"

definition granted_caps :: "auth_payload \<Rightarrow> string list" where
  "granted_caps p =
     expandCapabilities (case ap_capabilities p of Some cs \<Rightarrow> cs | None \<Rightarrow> CAPABILITY_values)"

definition license_valid :: "facade_env \<Rightarrow> verifier \<Rightarrow> int \<Rightarrow> auth_payload \<Rightarrow> license_row \<Rightarrow> bool" where
  "license_valid env verify now p lic \<longleftrightarrow>
     licenseStatus lic = Some ''VALID'' \<and> signature_holds env verify now p lic \<and> granted_caps p \<noteq> []"

definition authorization_of :: "facade_env \<Rightarrow> verifier \<Rightarrow> int \<Rightarrow> auth_payload \<Rightarrow> license_row \<Rightarrow> authorization_row" where
  "authorization_of env verify now p lic =
     \<lparr>authStatus =
        (if license_valid env verify now p lic then ''VALID''
         else if \<not> signature_holds env verify now p lic then ''LICENSE_SIGNATURE_INVALID''
         else or_default (licenseStatus lic) ''PAYMENT_REQUIRED''),
      capability_set = Some (if license_valid env verify now p lic then granted_caps p else [])\<rparr>"

text \<open>The three dispatches of a login.\<close>

definition loginSequence ::
  "(string \<Rightarrow> document \<Rightarrow> 'b) \<Rightarrow> (string \<Rightarrow> 'b \<Rightarrow> document option) \<Rightarrow> facade_env \<Rightarrow> verifier \<Rightarrow> int
     \<Rightarrow> auth_payload \<Rightarrow> session_row \<Rightarrow> license_row \<Rightarrow> 'b acp \<Rightarrow> ('b, security_result) op_result" where
  "loginSequence enc dec env verify now p sess lic w =
     (let auth = authorization_of env verify now p lic;
          initEvent = (if getSystemState w = REAUTHENTICATION_REQUIRED then USER_REINITIATES else LOGIN_INTENT)
      in case dispatch enc dec now initEvent (Some (empty_payload\<lparr>sessionData := Some sess\<rparr>)) w of
           (Inl e, w1) \<Rightarrow> (Inl e, w1)
         | (Inr False, w1) \<Rightarrow> (Inr (denied ''Login intent rejected by state machine''), w1)
         | (Inr True, w1) \<Rightarrow>
             (case dispatch enc dec now BACKEND_AUTH_SUCCESS
                     (Some (empty_payload\<lparr>nonceValidated := True, sessionData := Some sess,
                              authorizationData := Some auth, licenseData := Some lic\<rparr>)) w1 of
                (Inl e, w2) \<Rightarrow> (Inl e, w2)
              | (Inr False, w2) \<Rightarrow> (Inr (denied ''Backend authentication transition rejected''), w2)
              | (Inr True, w2) \<Rightarrow>
                  if \<not> license_valid env verify now p lic
                  then (Inr \<lparr>status = ''AUTHENTICATED'',
                             message = Some (if \<not> signature_holds env verify now p lic
                               then ''License cryptographic signature verification failed''
                               else ''Active subscription/license required ('' @
                                    or_default (licenseStatus lic) ''PAYMENT_REQUIRED'' @ '')'')\<rparr>,
                        setRevokedSync False w2)
                  else (case dispatch enc dec now AUTHZ_LICENSE_RESOLVED
                               (Some (empty_payload\<lparr>backendConfirmed := True,
                                        authorizationData := Some auth, licenseData := Some lic\<rparr>)) w2 of
                          (Inl e, w3) \<Rightarrow> (Inl e, w3)
                        | (Inr True, w3) \<Rightarrow> (Inr (result_of ''OPERATIONAL''), setRevokedSync False w3)
                        | (Inr False, w3) \<Rightarrow>
                            (Inr \<lparr>status = ''PARTIAL'',
                                  message = Some ''Authenticated but Authorization failed''\<rparr>, w3))))"

definition establishWithSession ::
  "(string \<Rightarrow> document \<Rightarrow> 'b) \<Rightarrow> (string \<Rightarrow> 'b \<Rightarrow> document option) \<Rightarrow> facade_env \<Rightarrow> verifier \<Rightarrow> int
     \<Rightarrow> auth_payload \<Rightarrow> string \<Rightarrow> 'b acp \<Rightarrow> ('b, security_result) op_result" where
  "establishWithSession enc dec env verify now p sid w =
     (let lic = (case ap_license p of None \<Rightarrow> default_license | Some l \<Rightarrow> l);
          sess = session_of now p sid;
          currentState = getSystemState w
      in if licenseStatus lic = Some ''REVOKED''
         then (Inr (denied ''License is revoked''), revokeLicense enc dec now ''LICENSE_REVOKED_AT_AUTH'' w)
         else case (if currentState = OFFLINE_GRACE \<and> license_valid env verify now p lic
                    then dispatch enc dec now BACKEND_RECONNECTED
                           (Some (empty_payload\<lparr>handshakePassed := True,
                              authorizationData := Some (authorization_of env verify now p lic),
                              licenseData := Some lic, sessionData := Some sess\<rparr>)) w
                    else (Inr False, w)) of
                (Inl e, w1) \<Rightarrow> (Inl e, w1)
              | (Inr True, w1) \<Rightarrow> (Inr (result_of ''OPERATIONAL''), setRevokedSync False w1)
              | (Inr False, w1) \<Rightarrow>
                  if currentState \<in> set loginEligibleStates
                  then loginSequence enc dec env verify now p sess lic w1
                  else (Inr (result_of (state_name (getSystemState w1))), w1))"

definition establishSession ::
  "(string \<Rightarrow> document \<Rightarrow> 'b) \<Rightarrow> (string \<Rightarrow> 'b \<Rightarrow> document option) \<Rightarrow> facade_env \<Rightarrow> verifier \<Rightarrow> int \<Rightarrow> int
     \<Rightarrow> auth_payload option \<Rightarrow> 'b acp \<Rightarrow> ('b, security_result) op_result" where
  "establishSession enc dec env verify now hr authPayload w =
     (case (if inMemoryState w = None then facadeInitialize enc dec env now hr w else (Inr (), w)) of
        (Inl e, w1) \<Rightarrow> (Inl e, w1)
      | (Inr _, w1) \<Rightarrow>
          (case authPayload of
             None \<Rightarrow> (Inr (denied ''Invalid session payload''), w1)
           | Some p \<Rightarrow>
               (case present (ap_sessionId p) of
                  None \<Rightarrow> (Inr (denied ''Invalid session payload''), w1)
                | Some sid \<Rightarrow> establishWithSession enc dec env verify now p sid w1)))"

definition authenticate ::
  "(string \<Rightarrow> document \<Rightarrow> 'b) \<Rightarrow> (string \<Rightarrow> 'b \<Rightarrow> document option) \<Rightarrow> facade_env \<Rightarrow> verifier \<Rightarrow> int \<Rightarrow> int
     \<Rightarrow> auth_payload option \<Rightarrow> string option \<Rightarrow> 'b acp \<Rightarrow> ('b, security_result) op_result" where
  "authenticate enc dec env verify now hr credentials email w =
     (if (case credentials of None \<Rightarrow> False | Some p \<Rightarrow> present (ap_sessionId p) \<noteq> None)
      then establishSession enc dec env verify now hr credentials w
      else if isProduction (licenseEnv env)
      then (Inr (denied ''Unverified local session fabrication is forbidden in production''), w)
      else establishSession enc dec env verify now hr
             (Some \<lparr>ap_sessionId = Some (''sess_'' @ dec_string (nat now)),
                    ap_accountId = Some (or_default email ''operator''), ap_expiresInMs = None,
                    ap_capabilities = Some CAPABILITY_values, ap_license = None\<rparr>) w)"

definition logout ::
  "(string \<Rightarrow> document \<Rightarrow> 'b) \<Rightarrow> (string \<Rightarrow> 'b \<Rightarrow> document option) \<Rightarrow> int \<Rightarrow> 'b acp \<Rightarrow> ('b, unit) op_result" where
  "logout enc dec now w =
     (case dispatch enc dec now LOGOUT_INTENT (Some empty_payload) w of
        (Inl e, w1) \<Rightarrow> (Inl e, w1)
      | (Inr _, w1) \<Rightarrow>
          (case dispatch enc dec now LOGOUT_SEQUENCE_COMPLETE (Some (empty_payload\<lparr>allStepsCompleted := True\<rparr>)) w1 of
             (Inl e, w2) \<Rightarrow> (Inl e, w2)
           | (Inr _, w2) \<Rightarrow>
               (case inMemoryState w2 of
                  None \<Rightarrow> (Inr (), w2)
                | Some m \<Rightarrow>
                    let m' = m\<lparr>session := None, authorization := None, license := None\<rparr>
                    in case persistOver enc dec now [] (m'\<lparr>state := LOGGED_OUT\<rparr>)
                              (Some (event_name LOGOUT_SEQUENCE_COMPLETE)) (w2\<lparr>inMemoryState := Some m'\<rparr>) of
                         (None, w3) \<Rightarrow> (Inr (), w3)
                       | (Some v, w3) \<Rightarrow> (Inr (), w3\<lparr>inMemoryState := Some (m'\<lparr>state_version := v\<rparr>)\<rparr>))))"

definition transitionToUnauthenticated ::
  "(string \<Rightarrow> document \<Rightarrow> 'b) \<Rightarrow> (string \<Rightarrow> 'b \<Rightarrow> document option) \<Rightarrow> facade_env \<Rightarrow> int \<Rightarrow> int
     \<Rightarrow> 'b acp \<Rightarrow> ('b, unit) op_result" where
  "transitionToUnauthenticated enc dec env now hr w =
     (case (if inMemoryState w = None then facadeInitialize enc dec env now hr w else (Inr (), w)) of
        (Inl e, w1) \<Rightarrow> (Inl e, w1)
      | (Inr _, w1) \<Rightarrow>
          if getSystemState w1 \<notin> {SECURITY_STATE_READY, AUTH_FAILED, LOGGED_OUT} then (Inr (), w1)
          else case inMemoryState w1 of
            None \<Rightarrow> (Inr (), w1)
          | Some m \<Rightarrow>
              let m' = m\<lparr>state := UNAUTHENTICATED, session := None, authorization := None\<rparr>
              in case persistOver enc dec now [UNAUTHENTICATED] m' (Some ''TRANSITION_TO_UNAUTHENTICATED'')
                        (w1\<lparr>inMemoryState := Some m'\<rparr>) of
                   (None, w2) \<Rightarrow> (Inr (), w2)
                 | (Some v, w2) \<Rightarrow> (Inr (), w2\<lparr>inMemoryState := Some (m'\<lparr>state_version := v\<rparr>)\<rparr>))"

section \<open>Degradation\<close>

text \<open>\<open>lease\<close> overlays the members of \<^verbatim>\<open>leaseData\<close> on the payload; \<^verbatim>\<open>{}\<close> is the identity.\<close>

definition enterOfflineGrace ::
  "(string \<Rightarrow> document \<Rightarrow> 'b) \<Rightarrow> (string \<Rightarrow> 'b \<Rightarrow> document option) \<Rightarrow> int
     \<Rightarrow> (transition_payload \<Rightarrow> transition_payload) \<Rightarrow> 'b acp \<Rightarrow> ('b, bool) op_result" where
  "enterOfflineGrace enc dec now lease w =
     (if getSystemState w = SECURITY_STATE_READY \<or> getSystemState w = UNAUTHENTICATED
      then (case dispatch enc dec now ENTER_OFFLINE_GRACE (Some (lease (empty_payload\<lparr>isWithinGrace := True\<rparr>))) w of
              (Inl e, w1) \<Rightarrow> (Inl e, w1)
            | (Inr True, w1) \<Rightarrow> (Inr True, setRevokedSync False w1)
            | (Inr False, w1) \<Rightarrow> (Inr False, w1))
      else (Inr True, w))"

definition dropToGrace ::
  "(string \<Rightarrow> document \<Rightarrow> 'b) \<Rightarrow> (string \<Rightarrow> 'b \<Rightarrow> document option) \<Rightarrow> int \<Rightarrow> 'b acp \<Rightarrow> ('b, bool) op_result" where
  "dropToGrace enc dec now w =
     (case dispatch enc dec now RENEW_THRESHOLD_REACHED
             (Some (empty_payload\<lparr>p_now := Some (now + 10000), p_renewAfter := Some 0\<rparr>)) w of
        (Inl e, w1) \<Rightarrow> (Inl e, w1)
      | (Inr _, w1) \<Rightarrow> dispatch enc dec now RENEW_BACKEND_UNREACHABLE (Some empty_payload) w1)"

definition exhaustGrace ::
  "(string \<Rightarrow> document \<Rightarrow> 'b) \<Rightarrow> (string \<Rightarrow> 'b \<Rightarrow> document option) \<Rightarrow> int \<Rightarrow> 'b acp \<Rightarrow> ('b, bool) op_result" where
  "exhaustGrace enc dec now w =
     (case dispatch enc dec now OFFLINE_GRACE_EXHAUSTED
             (Some (empty_payload\<lparr>accumulatedMs := Some 7200001, offlineGraceMax := Some 7200000\<rparr>)) w of
        (Inl e, w1) \<Rightarrow> (Inl e, w1)
      | (Inr _, w1) \<Rightarrow> (Inr True, setRevokedSync True w1))"

definition transitionToDegraded ::
  "(string \<Rightarrow> document \<Rightarrow> 'b) \<Rightarrow> (string \<Rightarrow> 'b \<Rightarrow> document option) \<Rightarrow> int \<Rightarrow> string \<Rightarrow> 'b acp \<Rightarrow> ('b, bool) op_result" where
  "transitionToDegraded enc dec now reason w =
     (if reason = ''OFFLINE_GRACE''
      then (if getSystemState w = OPERATIONAL
            then (case dropToGrace enc dec now w of
                    (Inl e, w1) \<Rightarrow> (Inl e, w1)
                  | (Inr _, w1) \<Rightarrow> (Inr True, setRevokedSync False w1))
            else if getSystemState w = OFFLINE_GRACE then (Inr True, setRevokedSync False w)
            else enterOfflineGrace enc dec now (\<lambda>p. p) w)
      else if getSystemState w = OPERATIONAL
      then (case dropToGrace enc dec now w of
              (Inl e, w1) \<Rightarrow> (Inl e, w1)
            | (Inr _, w1) \<Rightarrow> exhaustGrace enc dec now w1)
      else if getSystemState w = OFFLINE_GRACE then exhaustGrace enc dec now w
      else (Inr True, setRevokedSync True w))"

section \<open>Gates\<close>

definition aliasMap :: "(string \<times> string) list" where
  "aliasMap =
     [(''CAP_BET_CASHOUT'', ''CAP_CASH_OUT''), (''CAP_CASH_OUT'', ''CAP_BET_CASHOUT''),
      (''CAP_BET_PLACE'', ''CAP_TACTICAL_BET''), (''CAP_TACTICAL_BET'', ''CAP_BET_PLACE''),
      (''CAP_BET_VALIDATE'', ''CAP_TACTICAL_BET'')]"

definition authorize :: "string \<Rightarrow> 'b acp \<Rightarrow> security_result" where
  "authorize capability w =
     (if capability = CAP_AUTOMATION_STOP then result_of ''OPERATIONAL''
      else if capability \<in> set (getCurrentCapabilities w) then result_of ''OPERATIONAL''
      else if (case map_of aliasMap capability of
                 None \<Rightarrow> False | Some a \<Rightarrow> a \<in> set (getCurrentCapabilities w))
      then result_of ''OPERATIONAL''
      else denied (''Missing capability: '' @ capability))"

definition AUTOMATED_EXECUTION_COMMANDS :: "string list" where
  "AUTOMATED_EXECUTION_COMMANDS =
     [''PLACE_BET'', ''CASH_OUT'', ''START_AUTOMATION'', ''VALIDATE'', ''ACTIVATE_ACCOUNT'',
      ''DEACTIVATE_ACCOUNT'', ''TEST_DEGRADED_BET'']"

definition isCommandPermitted :: "string \<Rightarrow> 'b acp \<Rightarrow> bool" where
  "isCommandPermitted commandType w =
     (let s = getSystemState w in
      if s = REVOKED \<or> s = COMPROMISED \<or> s = TAMPER_SUSPECTED \<or> isSessionRevokedSync w
      then commandType \<in> {''EMERGENCY_STOP'', ''STOP_AUTOMATION'', ''VIEW_STATUS'', ''GET_HEALTH''}
      else if isDegraded w \<and> commandType \<in> set AUTOMATED_EXECUTION_COMMANDS then False
      else True)"

section \<open>Reading back what was written\<close>

text \<open>
  A row the adapter accepts and keeps accepting: it reads, its columns agree with the document, and the
  DPAPI intent is at most one version ahead.
\<close>

definition row_readable :: "(string \<Rightarrow> 'b \<Rightarrow> document option) \<Rightarrow> 'b acp \<Rightarrow> bool" where
  "row_readable dec w \<longleftrightarrow>
     row_consistent dec w \<and> (dpapi_ok w \<longrightarrow> intent w \<le> int (store_version w) + 1) \<and>
     (\<exists>d. fst (getSecurityStateRow dec w) = Inr (Some d))"

definition is_some_row :: "auth_error + security_data option \<Rightarrow> bool" where
  "is_some_row r = (case r of Inr (Some d) \<Rightarrow> True | _ \<Rightarrow> False)"

lemma is_some_row_iff: "is_some_row r \<longleftrightarrow> (\<exists>d. r = Inr (Some d))"
  by (auto simp: is_some_row_def split: sum.splits option.splits)

lemma readable_row:
  assumes "row_readable dec w"
  obtains d w1 where "getSecurityStateRow dec w = (Inr (Some d), w1)" "state_version d = store_version w"
proof -
  from assms obtain d where "fst (getSecurityStateRow dec w) = Inr (Some d)" and rc: "row_consistent dec w"
    by (auto simp: row_readable_def)
  then have "getSecurityStateRow dec w = (Inr (Some d), snd (getSecurityStateRow dec w))"
    by (simp add: prod_eq_iff)
  with getRow_version [OF this rc] that show ?thesis by blast
qed

lemma readable_cong:
  assumes "singleton w' = singleton w" and "db_open w' = db_open w" and "dbPath w' = dbPath w"
    and "minValidStateVersion w' = minValidStateVersion w" and "pathMinVersions w' = pathMinVersions w"
    and "intent w' = intent w" and "dpapi_ok w' = dpapi_ok w"
  shows "row_readable dec w' = row_readable dec w"
  using getRow_depends [OF assms] assms
  by (simp add: row_readable_def row_consistent_def store_version_def cong: option.case_cong)

lemma readable_frame [simp]:
  "row_readable dec (writeEvent enc now a w) = row_readable dec w"
  "row_readable dec (setRevokedSync b w) = row_readable dec w"
  "row_readable dec (w\<lparr>inMemoryState := m\<rparr>) = row_readable dec w"
  by (rule readable_cong; simp)+

lemma getRow_unaffected [simp]:
  "fst (getSecurityStateRow dec (writeEvent enc now a w)) = fst (getSecurityStateRow dec w)"
  "fst (getSecurityStateRow dec (setRevokedSync b w)) = fst (getSecurityStateRow dec w)"
  "fst (getSecurityStateRow dec (w\<lparr>inMemoryState := m\<rparr>)) = fst (getSecurityStateRow dec w)"
  by (rule getRow_depends; simp)+

lemma readable_committed:
  assumes "aead_ok enc dec" and "db_open w" and "effectiveMinVersion w \<le> v"
    and "w' = afterCommit v (w\<lparr>singleton := Some (commitRow enc now v x ev)\<rparr>)"
  shows "row_readable dec w' \<and> (\<exists>d. fst (getSecurityStateRow dec w') = Inr (Some d) \<and> state d = state x \<and>
    session d = session x \<and> authorization d = authorization x \<and> license d = license x)"
proof -
  have "row_consistent dec w'"
    using assms(4) by (intro row_consistent_commit [OF assms(1)]) simp
  with getRow_afterCommit [OF assms(1-3), of now x ev] assms(4) show ?thesis
    by (simp add: row_readable_def store_version_def inject_commit)
qed

text \<open>Reading twice: the watermark and the intent left by a read do not make the next one fail.\<close>

lemma readable_again:
  assumes "row_readable dec w" and "getSecurityStateRow dec w = (Inr (Some d), w1)"
  shows "row_readable dec w1" "fst (getSecurityStateRow dec w1) = Inr (Some d)"
    "store_version w1 = store_version w"
proof -
  note fr = getRow_frame [OF assms(2)]
  from assms(2) obtain row data where row: "singleton w = Some row" "db_open w"
    "decryptPayload dec ''singleton'' (row_version row) (row_generation row) (row_blob row) = Some (StateDoc data)"
    and d: "d = injectColumns row data" by (rule getRow_Some)
  show sv: "store_version w1 = store_version w" using fr by (simp add: store_version_def)
  have rv: "store_version w = row_version row" using row by (simp add: store_version_def)
  have em: "effectiveMinVersion w1 \<le> row_version row"
    using getRow_effectiveMin [OF assms(2)] rv by simp
  have gen: "session_generation data = 0 \<or> row_generation row = session_generation data"
    using assms(2) row by (auto simp: getSecurityStateRow_def split: if_splits prod.splits sum.splits)
  have int1: "dpapi_ok w1 \<longrightarrow> intent w1 \<le> int (row_version row) + 1"
    using assms rv
    by (elim getRow_world)
      (auto simp: row_readable_def checkTransitionIntent_def raiseWatermark_def setTransitionIntent_def
         split: if_splits)
  then have "fst (checkTransitionIntent (row_version row) w1) = Inr ()"
    by (auto simp: checkTransitionIntent_def)
  then show read: "fst (getSecurityStateRow dec w1) = Inr (Some d)"
    using row fr em gen d
    by (cases "checkTransitionIntent (row_version row) w1") (auto simp: getSecurityStateRow_def)
  have "row_consistent dec w1"
    using assms(1) fr(5) by (simp add: row_readable_def row_consistent_def)
  with read int1 sv rv show "row_readable dec w1" by (simp add: row_readable_def)
qed

lemma readable_effectiveMin:
  "row_readable dec w \<Longrightarrow> getSecurityStateRow dec w = (Inr (Some d), w1) \<Longrightarrow>
     effectiveMinVersion w1 \<le> store_version w + 1"
  using getRow_effectiveMin by fastforce

text \<open>Writing the projection over the stored row.\<close>

lemma persistOver_done:
  assumes aead: "aead_ok enc dec" and rd: "row_readable dec w"
  obtains (skipped) row w1 where "persistOver enc dec now skip x ev w = (None, w1)"
      "fst (getSecurityStateRow dec w1) = Inr (Some row)" "state row \<in> set skip" "row_readable dec w1"
      "inMemoryState w1 = inMemoryState w" "revoked w1 = revoked w"
  | (written) w1 d where "persistOver enc dec now skip x ev w = (Some (store_version w1), w1)"
      "fst (getSecurityStateRow dec w1) = Inr (Some d)" "state d = state x" "session d = session x"
      "row_readable dec w1" "inMemoryState w1 = inMemoryState w" "revoked w1 = revoked w"
proof -
  obtain row w1 where g: "getSecurityStateRow dec w = (Inr (Some row), w1)"
    and v: "state_version row = store_version w" using rd by (rule readable_row)
  note fr = getRow_frame [OF g] and again = readable_again [OF rd g]
  show thesis
  proof (cases "state row \<in> set skip")
    case True
    with g again fr show thesis by (intro skipped [of w1 row]) (simp_all add: persistOver_def)
  next
    case False
    from g obtain r where r: "singleton w = Some r" "db_open w" by (rule getRow_Some)
    let ?w2 = "afterCommit (store_version w + 1) (w1\<lparr>singleton := Some (commitRow enc now (store_version w + 1) x ev)\<rparr>)"
    have "commitTransitionWithOCC enc now (state_version row) x ev w1 = (Inr True, ?w2)"
      using commit_current [of w1 r "state_version row" enc now x ev] r fr v by (simp add: store_version_def)
    with g False have p: "persistOver enc dec now skip x ev w = (Some (store_version ?w2), ?w2)"
      by (simp add: persistOver_def v store_version_def)
    have "db_open w1" using r fr by simp
    from readable_committed [OF aead this readable_effectiveMin [OF rd g] refl, of now x ev]
    obtain d where "row_readable dec ?w2" "fst (getSecurityStateRow dec ?w2) = Inr (Some d)"
      "state d = state x" "session d = session x" by blast
    with p fr show thesis by (intro written [of ?w2 d]) simp_all
  qed
qed

section \<open>A dispatch on a readable row\<close>

lemma executeTransition_cases:
  assumes ex: "executeTransition enc dec now cur ev p w = (r, w')"
    and g: "getSecurityStateRow dec w = (Inr (Some db), w1)"
  obtains (refused) "w' = w1 \<or> (\<exists>a. w' = writeEvent enc now a w1)" "\<And>n. r \<noteq> Inr (Applied n)"
  | (committed) t audit b where "getTransition (state cur) ev = Some t" "guard t p = Inr True"
      "store_version w = state_version cur"
      "w' = (if b then setRevokedSync (nextState t \<notin> set nonRevokedStates) else id)
         (writeEvent enc now audit (afterCommit (state_version cur + 1)
            (w1\<lparr>singleton := Some (commitRow enc now (state_version cur + 1)
                  (transition_data cur t p) (Some (event_name ev)))\<rparr>)))"
      "r = Inr (Applied (transition_data cur t p)) \<or> (\<exists>e. r = Inl e)"
proof (cases "singleton w' \<noteq> singleton w \<or> (\<exists>n. r = Inr (Applied n))")
  case True
  from ex True show thesis
  proof (rule executeTransition_committed, goal_cases)
    case (1 t db' w1' audit)
    with g have "w1' = w1" by simp
    with 1 show thesis by (intro committed) (auto split: option.splits)
  qed
next
  case False
  have "w' = w1 \<or> (\<exists>a. w' = writeEvent enc now a w1)"
  proof (cases "\<exists>t. state_version cur = state_version db \<and>
      getTransition (state cur) ev = Some t \<and> guard t p = Inr True")
    case False
    with ex g show ?thesis
      by (auto simp: executeTransition_def split: option.splits sum.splits if_splits bool.splits)
  next
    case True
    then obtain t where t: "state_version cur = state_version db"
      "getTransition (state cur) ev = Some t" "guard t p = Inr True" by blast
    obtain c w2 where c: "commitTransitionWithOCC enc now (state_version cur)
        (applyPayload p (cur\<lparr>state := nextState t\<rparr>)) (Some (event_name ev)) w1 = (c, w2)" by fastforce
    have "c \<noteq> Inr True"
    proof
      assume "c = Inr True"
      then have c': "commitTransitionWithOCC enc now (state_version cur)
        (applyPayload p (cur\<lparr>state := nextState t\<rparr>)) (Some (event_name ev)) w1 = (Inr True, w2)" using c by simp
      have sv: "store_version w2 = state_version cur + 1"
        using commit_True_state [OF c'] by (simp add: store_version_def)
      have sw: "store_version w = state_version cur"
        using arg_cong [OF c', of fst] getRow_frame(5) [OF g]
        by (simp add: commit_True_iff store_version_def split: option.splits)
      from ex g t c' have "singleton w' = singleton w2"
        by (auto simp: executeTransition_def Let_def split: option.splits)
      with sv sw \<open>\<not> (singleton w' \<noteq> singleton w \<or> (\<exists>n. r = Inr (Applied n)))\<close> show False
        by (simp add: store_version_def)
    qed
    with c have "w2 = w1" by (rule commit_False_unchanged)
    with ex g t c \<open>c \<noteq> Inr True\<close> show ?thesis
      by (auto simp: executeTransition_def Let_def split: sum.splits bool.splits)
  qed
  with False show thesis by (intro refused) blast+
qed

lemma dispatch_readable:
  assumes aead: "aead_ok enc dec" and rd: "row_readable dec w" and cur: "inMemoryState w = Some cur"
    and d: "dispatch enc dec now ev p w = (r, w')"
  obtains (refused) "row_readable dec w'" "fst (getSecurityStateRow dec w') = fst (getSecurityStateRow dec w)"
      "inMemoryState w' = Some cur" "r \<noteq> Inr True" "revoked w' = revoked w"
  | (committed) t x where "getTransition (state cur) ev = Some t" "guard t p = Inr True"
      "row_readable dec w'" "fst (getSecurityStateRow dec w') = Inr (Some x)" "state x = nextState t"
      "(r = Inr True \<and> inMemoryState w' = Some (transition_data cur t p)) \<or>
       ((\<exists>e. r = Inl e) \<and> inMemoryState w' = Some cur)"
proof -
  obtain db w1 where g: "getSecurityStateRow dec w = (Inr (Some db), w1)" using rd by (rule readable_row)
  note fr = getRow_frame [OF g] and again = readable_again [OF rd g]
  obtain rx wx where ex: "executeTransition enc dec now cur ev p w = (rx, wx)" by fastforce
  from ex g show thesis
  proof (cases rule: executeTransition_cases)
    case refused
    have same: "row_readable dec wx = row_readable dec w1"
      "fst (getSecurityStateRow dec wx) = fst (getSecurityStateRow dec w1)"
      using refused(1) by auto
    have rev: "revoked wx = revoked w" "inMemoryState wx = Some cur"
      using refused(1) fr cur by auto
    from d cur ex refused(2) have "w' = wx" "r \<noteq> Inr True"
      by (auto simp: dispatch_def split: sum.splits transition_outcome.splits)
    with same again g rev show thesis by (intro that(1)) simp_all
  next
    case (committed t audit b)
    let ?c = "afterCommit (state_version cur + 1) (w1\<lparr>singleton := Some (commitRow enc now (state_version cur + 1)
                  (transition_data cur t p) (Some (event_name ev)))\<rparr>)"
    have op: "db_open w1" using g getRow_Some [OF g] fr(3) by metis
    have em: "effectiveMinVersion w1 \<le> state_version cur + 1"
      using readable_effectiveMin [OF rd g] committed(3) by simp
    from readable_committed [OF aead op em refl] obtain x where x: "row_readable dec ?c"
      "fst (getSecurityStateRow dec ?c) = Inr (Some x)" "state x = nextState t" by fastforce
    have mem: "inMemoryState wx = Some cur" using executeTransition_frame(1) [OF ex] cur by simp
    have fx: "singleton wx = singleton ?c" "db_open wx = db_open ?c" "dbPath wx = dbPath ?c"
      "minValidStateVersion wx = minValidStateVersion ?c" "pathMinVersions wx = pathMinVersions ?c"
      "intent wx = intent ?c" "dpapi_ok wx = dpapi_ok ?c"
      using committed(4) by (simp_all add: setRevokedSync_def)
    have w': "(r = Inr True \<and> w' = wx\<lparr>inMemoryState := Some (transition_data cur t p)\<rparr>) \<or>
        ((\<exists>e. r = Inl e) \<and> w' = wx)"
      using d cur ex committed(5) by (auto simp: dispatch_def)
    then have f': "singleton w' = singleton ?c" "db_open w' = db_open ?c" "dbPath w' = dbPath ?c"
      "minValidStateVersion w' = minValidStateVersion ?c" "pathMinVersions w' = pathMinVersions ?c"
      "intent w' = intent ?c" "dpapi_ok w' = dpapi_ok ?c"
      using fx by auto
    show thesis
    proof (rule that(2) [OF committed(1,2)])
      show "row_readable dec w'" using readable_cong [OF f'] x(1) by simp
      show "fst (getSecurityStateRow dec w') = Inr (Some x)" using getRow_depends [OF f'] x(2) by simp
      show "state x = nextState t" by (rule x(3))
      show "(r = Inr True \<and> inMemoryState w' = Some (transition_data cur t p)) \<or>
        ((\<exists>e. r = Inl e) \<and> inMemoryState w' = Some cur)" using w' mem by auto
    qed
  qed
qed

lemma dispatch_succeeds:
  assumes aead: "aead_ok enc dec" and rd: "row_readable dec w" and cur: "inMemoryState w = Some cur"
    and v: "state_version cur = store_version w"
    and t: "getTransition (state cur) ev = Some t" "guard t p = Inr True"
    and inv: "assertStateMachineInvariants (transition_data cur t p) (capabilities_of (transition_data cur t p)) = None"
  obtains w' where "dispatch enc dec now ev p w = (Inr True, w')" "row_readable dec w'"
    "inMemoryState w' = Some (transition_data cur t p)" "store_version w' = state_version cur + 1"
    "revoked w' = (nextState t \<notin> set nonRevokedStates)"
proof -
  obtain db w1 where g: "getSecurityStateRow dec w = (Inr (Some db), w1)"
    and dv: "state_version db = store_version w" using rd by (rule readable_row)
  note fr = getRow_frame [OF g]
  from g obtain r where r: "singleton w = Some r" "db_open w" by (rule getRow_Some)
  have "commitTransitionWithOCC enc now (state_version cur) x e w1 =
      (Inr True, afterCommit (state_version cur + 1) (w1\<lparr>singleton := Some (commitRow enc now (state_version cur + 1) x e)\<rparr>))" for x e
    using commit_current [of w1 r "state_version cur"] r fr v by (simp add: store_version_def)
  with g t inv v dv have "\<exists>n wx. executeTransition enc dec now cur ev p w = (Inr (Applied n), wx)"
    by (simp add: executeTransition_def Let_def transition_data_def)
  then obtain w' where d: "dispatch enc dec now ev p w = (Inr True, w')"
    using cur by (auto simp: dispatch_def)
  from dispatch_readable [OF aead rd cur d] have rd': "row_readable dec w'" by cases auto
  from d show thesis
  proof (rule dispatch_True, goal_cases)
    case (1 cur' t' db' w1' audit)
    with cur t have "cur' = cur" "t' = t" by simp_all
    with 1 d rd' show thesis by (intro that [of w']) (simp_all add: store_version_def)
  qed
qed

lemma table_revocation: "list_all (\<lambda>t. on_event t = BACKEND_REVOCATION \<longrightarrow> nextState t = REVOKED) Transitions"
  by (simp add: Transitions_def)

text \<open>A revocation event never clears the native flag.\<close>

lemma dispatch_revocation_flag:
  assumes "dispatch enc dec now BACKEND_REVOCATION p (setRevokedSync True w) = (r, w')"
  shows "revoked w'"
proof -
  let ?w = "setRevokedSync True w"
  show ?thesis
  proof (cases "inMemoryState ?w")
    case None
    with assms show ?thesis by (auto simp: dispatch_def)
  next
    case (Some cur)
    obtain rx wx where ex: "executeTransition enc dec now cur BACKEND_REVOCATION p ?w = (rx, wx)" by fastforce
    have "revoked w' = revoked wx" using assms Some ex
      by (auto simp: dispatch_def split: sum.splits transition_outcome.splits)
    moreover have "revoked wx"
    proof (cases "\<exists>db w1. getSecurityStateRow dec ?w = (Inr (Some db), w1)")
      case False
      with ex show ?thesis
        by (auto simp: executeTransition_def split: prod.splits sum.splits option.splits
              dest!: getRow_frame(1))
    next
      case True
      then obtain db w1 where g: "getSecurityStateRow dec ?w = (Inr (Some db), w1)" by blast
      note rv = getRow_frame(1) [OF g]
      from ex g show ?thesis
      proof (cases rule: executeTransition_cases)
        case refused
        with rv show ?thesis by auto
      next
        case (committed t audit b)
        have "nextState t = REVOKED"
          using committed(1) table_revocation getTransition_mem [of "state cur" BACKEND_REVOCATION t]
          by (auto simp: list_all_iff)
        with committed(4) rv show ?thesis by (simp add: nonRevokedStates_def)
      qed
    qed
    ultimately show ?thesis by simp
  qed
qed

section \<open>Properties\<close>

text \<open>C11. Revoking a license is complete and survives a restart: whatever state the engine is in, afterwards
  the native flag is set, the pipe server is stopped, no proxy is attached, the in-memory state and the
  stored row are REVOKED.\<close>

theorem revocation_complete:
  assumes "aead_ok enc dec" and "row_readable dec w" and "inMemoryState w = Some m"
  shows "revoked (revokeLicense enc dec now reason w) \<and>
    \<not> pipe_server (revokeLicense enc dec now reason w) \<and>
    activeProxies (revokeLicense enc dec now reason w) = [] \<and>
    getSystemState (revokeLicense enc dec now reason w) = REVOKED \<and>
    (\<exists>d. fst (getSecurityStateRow dec (revokeLicense enc dec now reason w)) = Inr (Some d) \<and> state d = REVOKED)"
proof -
  let ?p = "Some (empty_payload\<lparr>nonceChecked := True\<rparr>)"
  let ?w1 = "setRevokedSync True w"
  obtain r w2 where d: "dispatch enc dec now BACKEND_REVOCATION ?p ?w1 = (r, w2)" by fastforce
  have rd1: "row_readable dec ?w1" "inMemoryState ?w1 = Some m" using assms by simp_all
  from dispatch_readable [OF assms(1) rd1 d]
  obtain m2 where rd2: "row_readable dec w2" and m2: "inMemoryState w2 = Some m2" by fastforce
  have rv2: "revoked w2" using dispatch_revocation_flag [OF d] by simp
  let ?m = "m2\<lparr>state := REVOKED, license := Some (revoked_license now reason)\<rparr>"
  let ?w = "w2\<lparr>inMemoryState := Some ?m\<rparr>"
  have "row_readable dec ?w" using rd2 by simp
  from persistOver_done [OF assms(1) this, of now "[REVOKED]" ?m "Some (event_name BACKEND_REVOCATION)"]
  obtain v w3 x where w3: "persistOver enc dec now [REVOKED] ?m (Some (event_name BACKEND_REVOCATION)) ?w = (v, w3)"
    "fst (getSecurityStateRow dec w3) = Inr (Some x)" "state x = REVOKED"
    "inMemoryState w3 = Some ?m" "revoked w3 = revoked w2"
    by (cases) auto
  let ?w4 = "(closeAll w3)\<lparr>pipe_server := False\<rparr>"
  have rl: "revokeLicense enc dec now reason w =
      writeSecurityEvent ''LICENSE_REVOKED'' ''CRITICAL'' (JObj [(''reason'', JStr reason)]) ?w4"
    using w3(4) by (simp add: revokeLicense_def Let_def d m2 w3(1) logAuditEvent_def closeAll_def del: event_name.simps)
  have "fst (getSecurityStateRow dec (revokeLicense enc dec now reason w)) = fst (getSecurityStateRow dec w3)"
    unfolding rl by (rule getRow_depends) (simp_all add: writeSecurityEvent_def closeAll_def Let_def)
  with w3 rv2 show ?thesis
    by (simp add: rl) (simp add: writeSecurityEvent_def closeAll_def Let_def getSystemState_def)
qed

definition session_acp :: "(string \<times> document) acp" where
  "session_acp = (snd (initialize tag_enc tag_dec 5 True fresh_acp))\<lparr>activeProxies := [3]\<rparr>"

lemma session_acp_ok:
  "row_readable tag_dec session_acp" "inMemoryState session_acp = Some (the (inMemoryState session_acp))"
  "state (the (inMemoryState session_acp)) = SECURITY_STATE_READY"
  "state_version (the (inMemoryState session_acp)) = store_version session_acp"
proof -
  let ?g = "getSecurityStateRow tag_dec session_acp"
  have "is_some_row (fst ?g)" "row_consistent tag_dec session_acp"
    "dpapi_ok session_acp \<longrightarrow> intent session_acp \<le> int (store_version session_acp) + 1" by code_simp+
  then show "row_readable tag_dec session_acp" by (auto simp: row_readable_def is_some_row_iff)
  show "inMemoryState session_acp = Some (the (inMemoryState session_acp))"
    "state (the (inMemoryState session_acp)) = SECURITY_STATE_READY"
    "state_version (the (inMemoryState session_acp)) = store_version session_acp" by code_simp+
qed

theorem revocation_complete_witness:
  "revoked (revokeLicense tag_enc tag_dec 8 ''fraud'' session_acp) \<and>
    \<not> pipe_server (revokeLicense tag_enc tag_dec 8 ''fraud'' session_acp) \<and>
    activeProxies (revokeLicense tag_enc tag_dec 8 ''fraud'' session_acp) = [] \<and>
    getSystemState (revokeLicense tag_enc tag_dec 8 ''fraud'' session_acp) = REVOKED \<and>
    (\<exists>d. fst (getSecurityStateRow tag_dec (revokeLicense tag_enc tag_dec 8 ''fraud'' session_acp)) = Inr (Some d) \<and>
      state d = REVOKED)"
  by (rule revocation_complete [OF tag_aead_ok session_acp_ok(1,2)])

section \<open>Logging in\<close>

lemma login_table:
  "list_all (\<lambda>s. \<exists>t. getTransition s (if s = REAUTHENTICATION_REQUIRED then USER_REINITIATES else LOGIN_INTENT) = Some t \<and>
     guard t p = Inr True \<and> nextState t = AUTHENTICATING) loginEligibleStates"
  by (simp add: loginEligibleStates_def getTransition_def Transitions_def)

lemma assert_quiet:
  "state d \<notin> {OPERATIONAL, COMPROMISED, REVOKED} \<Longrightarrow> assertStateMachineInvariants d caps = None"
  by (simp add: assertStateMachineInvariants_def)

lemma transition_data_payload [simp]:
  "session (transition_data cur t (Some q)) = override (sessionData q) (session cur)"
  "authorization (transition_data cur t (Some q)) = override (authorizationData q) (authorization cur)"
  "license (transition_data cur t (Some q)) = override (licenseData q) (license cur)"
  by (simp_all add: transition_data_def applyPayload_def)

lemma override_simps [simp]: "override None y = y" "override (Some x) y = Some x"
  by (simp_all add: override_def)

lemma payload_fields [simp]:
  "sessionData empty_payload = None" "authorizationData empty_payload = None" "licenseData empty_payload = None"
  by (simp_all add: empty_payload_def)

lemma loginSequence_succeeds:
  assumes aead: "aead_ok enc dec" and rd: "row_readable dec w" and m: "inMemoryState w = Some m"
    and v: "state_version m = store_version w" and el: "state m \<in> set loginEligibleStates"
    and lv: "license_valid env verify now p lic" and st: "sessionStatus sess = ''AUTHENTICATED''"
  obtains w' m' where "loginSequence enc dec env verify now p sess lic w = (Inr (result_of ''OPERATIONAL''), w')"
    "inMemoryState w' = Some m'" "state m' = OPERATIONAL" "session m' = Some sess"
    "authorization m' = Some (authorization_of env verify now p lic)" "license m' = Some lic" "\<not> revoked w'"
proof -
  let ?a = "authorization_of env verify now p lic"
  let ?ev = "if state m = REAUTHENTICATION_REQUIRED then USER_REINITIATES else LOGIN_INTENT"
  let ?p1 = "Some (empty_payload\<lparr>sessionData := Some sess\<rparr>)"
  let ?p2 = "Some (empty_payload\<lparr>nonceValidated := True, sessionData := Some sess,
                authorizationData := Some ?a, licenseData := Some lic\<rparr>)"
  let ?p3 = "Some (empty_payload\<lparr>backendConfirmed := True, authorizationData := Some ?a, licenseData := Some lic\<rparr>)"
  from login_table [of ?p1] el obtain t1 where t1: "getTransition (state m) ?ev = Some t1"
    "guard t1 ?p1 = Inr True" "nextState t1 = AUTHENTICATING" by (auto simp: list_all_iff)
  let ?m1 = "transition_data m t1 ?p1"
  obtain w1 where d1: "dispatch enc dec now ?ev ?p1 w = (Inr True, w1)" and rd1: "row_readable dec w1"
    and m1: "inMemoryState w1 = Some ?m1" and v1: "store_version w1 = state_version m + 1"
    by (rule dispatch_succeeds [OF aead rd m v t1(1,2), where now = now]) (simp_all add: assert_quiet t1(3))
  let ?t2 = "tdef AUTHENTICATING BACKEND_AUTH_SUCCESS (deref nonceValidated) AUTHENTICATED"
  have t2: "getTransition (state ?m1) BACKEND_AUTH_SUCCESS = Some ?t2" "guard ?t2 ?p2 = Inr True"
    by (simp_all add: t1(3) getTransition_eval(2))
  let ?m2 = "transition_data ?m1 ?t2 ?p2"
  obtain w2 where d2: "dispatch enc dec now BACKEND_AUTH_SUCCESS ?p2 w1 = (Inr True, w2)" and rd2: "row_readable dec w2"
    and m2: "inMemoryState w2 = Some ?m2" and v2: "store_version w2 = state_version ?m1 + 1"
    by (rule dispatch_succeeds [OF aead rd1 m1 _ t2, where now = now]) (simp_all add: assert_quiet v1)
  let ?t3 = "tdef AUTHENTICATED AUTHZ_LICENSE_RESOLVED (deref backendConfirmed) OPERATIONAL"
  have t3: "getTransition (state ?m2) AUTHZ_LICENSE_RESOLVED = Some ?t3" "guard ?t3 ?p3 = Inr True"
    by (simp_all add: getTransition_eval(3))
  let ?m3 = "transition_data ?m2 ?t3 ?p3"
  have inv: "assertStateMachineInvariants ?m3 (capabilities_of ?m3) = None"
    using lv st by (simp add: assertStateMachineInvariants_def authorization_of_def)
  obtain w3 where d3: "dispatch enc dec now AUTHZ_LICENSE_RESOLVED ?p3 w2 = (Inr True, w3)"
    and m3: "inMemoryState w3 = Some ?m3"
    by (rule dispatch_succeeds [OF aead rd2 m2 _ t3 inv, where now = now]) (simp add: v2)
  have "loginSequence enc dec env verify now p sess lic w = (Inr (result_of ''OPERATIONAL''), setRevokedSync False w3)"
    using d1 d2 d3 lv m by (simp add: loginSequence_def Let_def getSystemState_def)
  with m3 show ?thesis by (intro that [of "setRevokedSync False w3" ?m3]) simp_all
qed

text \<open>C16. A login with a valid license always reaches OPERATIONAL: from every login-eligible state of an
  engine in step with a readable row, establishing a session with a session id and a valid license runs
  the three transitions, ends OPERATIONAL with exactly that session, license and the expanded
  capabilities, and clears the native revocation flag.\<close>

theorem login_reaches_operational:
  assumes "aead_ok enc dec" and "row_readable dec w" and "inMemoryState w = Some m"
    and "state_version m = store_version w" and "state m \<in> set loginEligibleStates"
    and "ap_sessionId p = Some sid" and "sid \<noteq> []" and "ap_license p = Some lic"
    and "license_valid env verify now p lic"
  shows "\<exists>w' m'. establishSession enc dec env verify now hr (Some p) w = (Inr (result_of ''OPERATIONAL''), w') \<and>
    inMemoryState w' = Some m' \<and> state m' = OPERATIONAL \<and> session m' = Some (session_of now p sid) \<and>
    authorization m' = Some \<lparr>authStatus = ''VALID'', capability_set = Some (granted_caps p)\<rparr> \<and>
    license m' = Some lic \<and> \<not> revoked w'"
proof -
  have st: "sessionStatus (session_of now p sid) = ''AUTHENTICATED''" by (simp add: session_of_def)
  have nr: "licenseStatus lic \<noteq> Some ''REVOKED''" "getSystemState w \<noteq> OFFLINE_GRACE"
    using assms(3,5,9) by (auto simp: license_valid_def getSystemState_def loginEligibleStates_def)
  have a: "authorization_of env verify now p lic = \<lparr>authStatus = ''VALID'', capability_set = Some (granted_caps p)\<rparr>"
    using assms(9) by (simp add: authorization_of_def)
  have "establishSession enc dec env verify now hr (Some p) w =
      loginSequence enc dec env verify now p (session_of now p sid) lic w"
    using assms(3,5-8) nr by (simp add: establishSession_def establishWithSession_def Let_def getSystemState_def)
  with loginSequence_succeeds [OF assms(1-5,9) st] a show ?thesis by metis
qed

definition dev_env :: facade_env where
  "dev_env = \<lparr>licenseEnv = prod_env, bootPath = ''acp.db'', bootExisted = True, bootOpen = OpenedDb 2, machineValid = True\<rparr>"

definition sample_login :: auth_payload where
  "sample_login = \<lparr>ap_sessionId = Some ''s9'', ap_accountId = Some ''acc'', ap_expiresInMs = None,
     ap_capabilities = Some [''CAP_CASH_OUT''], ap_license = Some signed_license\<rparr>"

theorem login_reaches_operational_witness:
  "\<exists>w' m'. establishSession tag_enc tag_dec dev_env sample_verify 500 0 (Some sample_login) session_acp =
      (Inr (result_of ''OPERATIONAL''), w') \<and>
    inMemoryState w' = Some m' \<and> state m' = OPERATIONAL \<and> session m' = Some (session_of 500 sample_login ''s9'') \<and>
    authorization m' = Some \<lparr>authStatus = ''VALID'', capability_set = Some (granted_caps sample_login)\<rparr> \<and>
    license m' = Some signed_license \<and> \<not> revoked w'"
proof (rule login_reaches_operational [OF tag_aead_ok session_acp_ok(1,2,4)])
  show "state (the (inMemoryState session_acp)) \<in> set loginEligibleStates"
    by (simp add: session_acp_ok(3) loginEligibleStates_def)
  show "license_valid dev_env sample_verify 500 sample_login signed_license" by code_simp
qed (simp_all add: sample_login_def)

lemma table_resolved:
  "list_all (\<lambda>t. on_event t \<in> {AUTHZ_LICENSE_RESOLVED, BACKEND_RECONNECTED} \<longrightarrow> nextState t = OPERATIONAL) Transitions"
  by (simp add: Transitions_def)

lemma resolved_operational:
  assumes "dispatch enc dec now ev p w = (Inr True, w')" and "ev \<in> {AUTHZ_LICENSE_RESOLVED, BACKEND_RECONNECTED}"
  shows "getSystemState w' = OPERATIONAL"
  using assms(1)
proof (rule dispatch_True, goal_cases)
  case (1 cur t db w1 audit)
  from 1(2) have "nextState t = OPERATIONAL"
    using getTransition_mem [of "state cur" ev t] table_resolved assms(2) by (auto simp: list_all_iff)
  with 1(9) show ?case by (simp add: getSystemState_def)
qed

lemma state_name_OPERATIONAL: "state_name s = ''OPERATIONAL'' \<longleftrightarrow> s = OPERATIONAL"
  by (cases s) simp_all

lemma loginSequence_operational:
  assumes "loginSequence enc dec env verify now p sess lic w = (Inr r, w')" and "status r = ''OPERATIONAL''"
  shows "license_valid env verify now p lic \<and> getSystemState w' = OPERATIONAL \<and> \<not> revoked w'"
  using assms
  by (auto simp: loginSequence_def Let_def denied_def result_of_def getSystemState_def
        split: prod.splits sum.splits bool.splits if_splits dest!: resolved_operational [unfolded getSystemState_def])

lemma establish_operational:
  assumes e: "establishWithSession enc dec env verify now p sid w = (Inr r, w')" and r: "status r = ''OPERATIONAL''"
    and lic: "lic = (case ap_license p of None \<Rightarrow> default_license | Some l \<Rightarrow> l)"
  shows "license_valid env verify now p lic \<and> getSystemState w' = OPERATIONAL \<and> \<not> revoked w'"
proof -
  have nr: "licenseStatus lic \<noteq> Some ''REVOKED''"
    using e r unfolding lic establishWithSession_def by (auto simp: Let_def denied_def)
  let ?d = "if getSystemState w = OFFLINE_GRACE \<and> license_valid env verify now p lic
            then dispatch enc dec now BACKEND_RECONNECTED
                   (Some (empty_payload\<lparr>handshakePassed := True,
                      authorizationData := Some (authorization_of env verify now p lic),
                      licenseData := Some lic, sessionData := Some (session_of now p sid)\<rparr>)) w
            else (Inr False, w)"
  obtain b w1 where d: "?d = (b, w1)" by fastforce
  have e': "(case (b, w1) of (Inl e, w1) \<Rightarrow> (Inl e, w1)
      | (Inr True, w1) \<Rightarrow> (Inr (result_of ''OPERATIONAL''), setRevokedSync False w1)
      | (Inr False, w1) \<Rightarrow>
          if getSystemState w \<in> set loginEligibleStates
          then loginSequence enc dec env verify now p (session_of now p sid) lic w1
          else (Inr (result_of (state_name (getSystemState w1))), w1)) = (Inr r, w')"
    using e nr unfolding d [symmetric] unfolding establishWithSession_def lic [symmetric] Let_def by simp
  show ?thesis
  proof (cases "b = Inr True")
    case True
    with d have "license_valid env verify now p lic" "getSystemState w1 = OPERATIONAL"
      by (auto split: if_splits intro: resolved_operational)
    with True e' show ?thesis by (auto simp: getSystemState_def)
  next
    case False
    with e' have bF: "b = Inr False" by (auto split: sum.splits)
    show ?thesis
    proof (cases "getSystemState w \<in> set loginEligibleStates")
      case True
      with e' bF r show ?thesis by (auto dest: loginSequence_operational)
    next
      case ne: False
      have "getSystemState w1 = getSystemState w"
        using d bF by (auto simp: getSystemState_def split: if_splits dest!: dispatch_False)
      moreover from e' bF ne r have "getSystemState w1 = OPERATIONAL"
        by (auto simp: result_of_def state_name_OPERATIONAL)
      ultimately show ?thesis using ne by (simp add: loginEligibleStates_def)
    qed
  qed
qed

text \<open>C17. No session becomes operational without a valid license: establishing a session answers
  OPERATIONAL only for a license with status VALID whose signature was verified whenever it has one and
  always in production, a non-empty capability set and a session id; the engine is then OPERATIONAL and
  the native flag is clear.\<close>

theorem operational_needs_license:
  assumes "establishSession enc dec env verify now hr (Some p) w = (Inr r, w')" and "status r = ''OPERATIONAL''"
  shows "\<exists>lic. (ap_license p = Some lic \<or> ap_license p = None \<and> lic = default_license) \<and>
    licenseStatus lic = Some ''VALID'' \<and> granted_caps p \<noteq> [] \<and> present (ap_sessionId p) \<noteq> None \<and>
    (isProduction (licenseEnv env) \<or> present (licenseSignature lic) \<noteq> None \<longrightarrow>
       validateLicenseIntegrity (licenseEnv env) verify now (Some lic) None (ap_accountId p)) \<and>
    getSystemState w' = OPERATIONAL \<and> \<not> revoked w'"
proof -
  let ?lic = "case ap_license p of None \<Rightarrow> default_license | Some l \<Rightarrow> l"
  from assms obtain sid w1 where sid: "present (ap_sessionId p) = Some sid"
    and e: "establishWithSession enc dec env verify now p sid w1 = (Inr r, w')"
    by (auto simp: establishSession_def denied_def split: prod.splits sum.splits option.splits)
  have "license_valid env verify now p ?lic \<and> getSystemState w' = OPERATIONAL \<and> \<not> revoked w'"
    using establish_operational [OF e assms(2)] by simp
  then show ?thesis
    using sid by (intro exI [of _ ?lic])
      (auto simp: license_valid_def signature_holds_def split: option.splits if_splits)
qed

theorem operational_needs_license_witness:
  "\<exists>lic. (ap_license sample_login = Some lic \<or> ap_license sample_login = None \<and> lic = default_license) \<and>
    licenseStatus lic = Some ''VALID'' \<and> granted_caps sample_login \<noteq> [] \<and> present (ap_sessionId sample_login) \<noteq> None \<and>
    (isProduction (licenseEnv dev_env) \<or> present (licenseSignature lic) \<noteq> None \<longrightarrow>
       validateLicenseIntegrity (licenseEnv dev_env) sample_verify 500 (Some lic) None (ap_accountId sample_login)) \<and>
    getSystemState (snd (establishSession tag_enc tag_dec dev_env sample_verify 500 0 (Some sample_login) session_acp)) = OPERATIONAL \<and>
    \<not> revoked (snd (establishSession tag_enc tag_dec dev_env sample_verify 500 0 (Some sample_login) session_acp))"
proof (rule operational_needs_license)
  have "fst (establishSession tag_enc tag_dec dev_env sample_verify 500 0 (Some sample_login) session_acp) =
      Inr (result_of ''OPERATIONAL'')" by code_simp
  then show "establishSession tag_enc tag_dec dev_env sample_verify 500 0 (Some sample_login) session_acp =
      (Inr (result_of ''OPERATIONAL''),
       snd (establishSession tag_enc tag_dec dev_env sample_verify 500 0 (Some sample_login) session_acp))"
    by (simp add: prod_eq_iff)
qed (simp add: result_of_def)

section \<open>Gates and degradation\<close>

text \<open>The command gate: in a lockdown state, or whenever the native flag is set, exactly the two stop
  commands and the two status queries are permitted; otherwise an automated execution command passes
  only while the engine is OPERATIONAL, in OFFLINE_GRACE or not yet initialised, and every other command
  passes.\<close>

theorem command_gate:
  "isCommandPermitted c w \<longleftrightarrow>
     (if lockdown (getSystemState w) \<or> revoked w
      then c \<in> {''EMERGENCY_STOP'', ''STOP_AUTOMATION'', ''VIEW_STATUS'', ''GET_HEALTH''}
      else c \<in> set AUTOMATED_EXECUTION_COMMANDS \<longrightarrow>
           getSystemState w \<in> {OPERATIONAL, OFFLINE_GRACE, UNINITIALIZED})"
  by (auto simp: isCommandPermitted_def lockdown_def isSessionRevokedSync_def isDegraded_def Let_def)

theorem command_gate_witness:
  "isCommandPermitted ''PLACE_BET'' session_acp = False \<and> isCommandPermitted ''SAVE_CONFIG'' session_acp"
proof -
  have s: "getSystemState session_acp = SECURITY_STATE_READY"
    unfolding getSystemState_def by (subst session_acp_ok(2)) (simp add: session_acp_ok(3))
  have "\<not> revoked session_acp" by code_simp
  with s show ?thesis
    by (simp add: command_gate [of "''PLACE_BET''" session_acp] command_gate [of "''SAVE_CONFIG''" session_acp]
        lockdown_def AUTOMATED_EXECUTION_COMMANDS_def)
qed

text \<open>Authorization of a capability: the emergency stop always passes; any other capability passes only
  in OPERATIONAL or OFFLINE_GRACE under a VALID authorization, and only when it, or its alias in the
  other naming convention, is among the current capabilities.\<close>

theorem authorize_gate:
  "status (authorize CAP_AUTOMATION_STOP w) = ''OPERATIONAL'' \<and>
   (\<forall>c. c \<noteq> CAP_AUTOMATION_STOP \<and> status (authorize c w) = ''OPERATIONAL'' \<longrightarrow>
      (\<exists>m a. inMemoryState w = Some m \<and> (state m = OPERATIONAL \<or> state m = OFFLINE_GRACE) \<and>
         authorization m = Some a \<and> authStatus a = ''VALID'') \<and>
      (c \<in> set (getCurrentCapabilities w) \<or>
       (\<exists>c'. (c, c') \<in> set aliasMap \<and> c' \<in> set (getCurrentCapabilities w))))"
proof (intro conjI allI impI)
  show "status (authorize CAP_AUTOMATION_STOP w) = ''OPERATIONAL''" by (simp add: authorize_def result_of_def)
next
  fix c assume "c \<noteq> CAP_AUTOMATION_STOP \<and> status (authorize c w) = ''OPERATIONAL''"
  then show caps: "c \<in> set (getCurrentCapabilities w) \<or>
      (\<exists>c'. (c, c') \<in> set aliasMap \<and> c' \<in> set (getCurrentCapabilities w))"
    by (auto simp: authorize_def denied_def split: if_splits option.splits dest: map_of_SomeD)
  have al: "(c, c') \<in> set aliasMap \<Longrightarrow> c' \<noteq> CAP_AUTOMATION_STOP" for c'
    by (auto simp: aliasMap_def CAP_AUTOMATION_STOP_def)
  have "getCurrentCapabilities w = [CAP_AUTOMATION_STOP] \<or>
     (\<exists>m a. inMemoryState w = Some m \<and> (state m = OPERATIONAL \<or> state m = OFFLINE_GRACE) \<and>
        authorization m = Some a \<and> authStatus a = ''VALID'')"
    by (auto simp: getCurrentCapabilities_def split: option.splits if_splits)
  with caps al \<open>c \<noteq> CAP_AUTOMATION_STOP \<and> _\<close>
  show "\<exists>m a. inMemoryState w = Some m \<and> (state m = OPERATIONAL \<or> state m = OFFLINE_GRACE) \<and>
      authorization m = Some a \<and> authStatus a = ''VALID''" by auto
qed

theorem authorize_gate_witness:
  "status (authorize CAP_AUTOMATION_STOP session_acp) = ''OPERATIONAL'' \<and>
   status (authorize ''CAP_BET_PLACE'' session_acp) = ''DENIED'' \<and>
   status (authorize ''CAP_CASH_OUT''
     (snd (establishSession tag_enc tag_dec dev_env sample_verify 500 0 (Some sample_login) session_acp))) = ''OPERATIONAL'' \<and>
   (\<exists>m a. inMemoryState (snd (establishSession tag_enc tag_dec dev_env sample_verify 500 0 (Some sample_login) session_acp)) = Some m \<and>
      (state m = OPERATIONAL \<or> state m = OFFLINE_GRACE) \<and> authorization m = Some a \<and> authStatus a = ''VALID'')"
proof -
  let ?w = "snd (establishSession tag_enc tag_dec dev_env sample_verify 500 0 (Some sample_login) session_acp)"
  have c: "status (authorize ''CAP_CASH_OUT'' ?w) = ''OPERATIONAL''" by code_simp
  have "''CAP_CASH_OUT'' \<noteq> CAP_AUTOMATION_STOP" by code_simp
  with c authorize_gate [of ?w] have "\<exists>m a. inMemoryState ?w = Some m \<and>
      (state m = OPERATIONAL \<or> state m = OFFLINE_GRACE) \<and> authorization m = Some a \<and> authStatus a = ''VALID''" by blast
  moreover have "status (authorize ''CAP_BET_PLACE'' session_acp) = ''DENIED''" by code_simp
  ultimately show ?thesis using c authorize_gate [of session_acp] by blast
qed

text \<open>Degradation fails closed: for every reason but the explicit grace request, and from every state,
  a call that returns has set the native revocation flag and stopped the pipe server.\<close>

theorem degradation_fails_closed:
  assumes "transitionToDegraded enc dec now reason w = (Inr b, w')" and "reason \<noteq> ''OFFLINE_GRACE''"
  shows "b \<and> revoked w' \<and> \<not> pipe_server w'"
  using assms by (auto simp: transitionToDegraded_def exhaustGrace_def split: if_splits prod.splits sum.splits)

theorem degradation_fails_closed_witness:
  "fst (transitionToDegraded tag_enc tag_dec 9 ''BACKEND_UNREACHABLE'' session_acp) = Inr True \<and>
   revoked (snd (transitionToDegraded tag_enc tag_dec 9 ''BACKEND_UNREACHABLE'' session_acp))"
proof -
  let ?d = "transitionToDegraded tag_enc tag_dec 9 ''BACKEND_UNREACHABLE'' session_acp"
  have f: "fst ?d = Inr True" by code_simp
  then have "?d = (Inr True, snd ?d)" by (simp add: prod_eq_iff)
  from degradation_fails_closed [OF this] f show ?thesis by simp
qed

section \<open>Logout over a locked-down row\<close>

lemma dispatch_no_entry:
  assumes "row_readable dec w" and "inMemoryState w = Some cur" and "getTransition (state cur) ev = None"
  shows "fst (dispatch enc dec now ev p w) = Inr False"
proof -
  obtain d w1 where "getSecurityStateRow dec w = (Inr (Some d), w1)" using assms(1) by (rule readable_row)
  with assms(2,3) show ?thesis by (simp add: dispatch_def executeTransition_def)
qed

lemma dispatch_lockdown:
  assumes aead: "aead_ok enc dec" and rd: "row_readable dec w" and m: "inMemoryState w = Some m"
    and lk: "lockdown (state m)"
  obtains w' where "dispatch enc dec now ev p w = (Inr False, w')" "row_readable dec w'" "inMemoryState w' = Some m"
proof -
  obtain r w' where d: "dispatch enc dec now ev p w = (r, w')" by fastforce
  have "r = Inr False"
    using dispatch_no_entry [OF rd m lockdown_terminal [OF lk], of enc now ev p] d by simp
  with dispatch_readable [OF aead rd m d] d that lockdown_terminal [OF lk] show thesis
    by (metis (no_types, lifting) option.distinct(1))
qed

text \<open>What a boot makes of a readable row that is not locked down, on the right machine.\<close>

lemma boot_readable:
  assumes rd: "row_readable dec w" and d: "fst (getSecurityStateRow dec w) = Inr (Some d)"
    and st: "\<not> lockdown (state d)" "state d \<noteq> UNINITIALIZED"
  obtains w' where "initialize enc dec now True w = (Inr (), w')" "getSystemState w' = SECURITY_STATE_READY"
    "\<not> revoked w'"
proof -
  obtain w1 where g: "getSecurityStateRow dec w = (Inr (Some d), w1)" using d by (metis prod.collapse)
  show thesis
    by (rule that [of "syncBootFlag (w1\<lparr>inMemoryState := Some ((memory_projection d)\<lparr>state := SECURITY_STATE_READY\<rparr>)\<rparr>)"])
      (use g st in \<open>simp_all add: initialize_def establishRow_def resumePersisted_def Let_def
         getSystemState_def syncBootFlag_def bootFlagStates_def\<close>)
qed

text \<open>Logout erases a lockdown: on an engine in REVOKED, COMPROMISED or TAMPER_SUSPECTED the two
  logout transitions are refused, yet the stored row is overwritten with LOGGED_OUT; the next boot on
  the same machine then starts in SECURITY_STATE_READY with the revocation flag clear.\<close>

theorem logout_erases_lockdown:
  assumes "aead_ok enc dec" and "row_readable dec w" and "inMemoryState w = Some m" and "lockdown (state m)"
  shows "\<exists>w' w''. logout enc dec now w = (Inr (), w') \<and> lockdown (getSystemState w') \<and>
    (\<exists>d. fst (getSecurityStateRow dec w') = Inr (Some d) \<and> state d = LOGGED_OUT) \<and>
    initialize enc dec now' True (w'\<lparr>inMemoryState := None\<rparr>) = (Inr (), w'') \<and>
    getSystemState w'' = SECURITY_STATE_READY \<and> \<not> revoked w''"
proof -
  let ?c = "Some (empty_payload\<lparr>allStepsCompleted := True\<rparr>)"
  obtain w1 where d1: "dispatch enc dec now LOGOUT_INTENT (Some empty_payload) w = (Inr False, w1)"
    and rd1: "row_readable dec w1" "inMemoryState w1 = Some m"
    using assms by (rule dispatch_lockdown)
  obtain w2 where d2: "dispatch enc dec now LOGOUT_SEQUENCE_COMPLETE ?c w1 = (Inr False, w2)"
    and rd2: "row_readable dec w2" "inMemoryState w2 = Some m"
    using assms(1) rd1 assms(4) by (rule dispatch_lockdown)
  let ?m = "m\<lparr>session := None, authorization := None, license := None\<rparr>"
  let ?w = "w2\<lparr>inMemoryState := Some ?m\<rparr>"
  have rdw: "row_readable dec ?w" using rd2(1) by simp
  from persistOver_done [OF assms(1) rdw, where now = now and skip = "[]" and x = "?m\<lparr>state := LOGGED_OUT\<rparr>"
      and ev = "Some (event_name LOGOUT_SEQUENCE_COMPLETE)"]
  obtain v w3 x where w3: "persistOver enc dec now [] (?m\<lparr>state := LOGGED_OUT\<rparr>)
      (Some (event_name LOGOUT_SEQUENCE_COMPLETE)) ?w = (Some v, w3)"
    "fst (getSecurityStateRow dec w3) = Inr (Some x)" "state x = LOGGED_OUT" "row_readable dec w3"
    by cases auto
  let ?w' = "w3\<lparr>inMemoryState := Some (?m\<lparr>state_version := v\<rparr>)\<rparr>"
  have lo: "logout enc dec now w = (Inr (), ?w')"
    using d1 d2 rd2(2) w3(1) by (simp add: logout_def Let_def del: event_name.simps)
  have rdn: "row_readable dec (?w'\<lparr>inMemoryState := None\<rparr>)"
    and xn: "fst (getSecurityStateRow dec (?w'\<lparr>inMemoryState := None\<rparr>)) = Inr (Some x)"
    using w3 by (simp_all del: acp.update_convs)
  obtain w'' where "initialize enc dec now' True (?w'\<lparr>inMemoryState := None\<rparr>) = (Inr (), w'')"
    "getSystemState w'' = SECURITY_STATE_READY" "\<not> revoked w''"
    using boot_readable [OF rdn xn] w3(3) by (auto simp: lockdown_def)
  moreover have "lockdown (getSystemState ?w')" using assms(4) by (simp add: getSystemState_def)
  moreover have "fst (getSecurityStateRow dec ?w') = Inr (Some x)" using w3(2) by simp
  ultimately show ?thesis using lo w3(3) by blast
qed

theorem logout_erases_lockdown_witness:
  "\<exists>w' w''. logout tag_enc tag_dec 9 (revokeLicense tag_enc tag_dec 8 ''fraud'' session_acp) = (Inr (), w') \<and>
    lockdown (getSystemState w') \<and>
    (\<exists>d. fst (getSecurityStateRow tag_dec w') = Inr (Some d) \<and> state d = LOGGED_OUT) \<and>
    initialize tag_enc tag_dec 10 True (w'\<lparr>inMemoryState := None\<rparr>) = (Inr (), w'') \<and>
    getSystemState w'' = SECURITY_STATE_READY \<and> \<not> revoked w''"
proof -
  let ?w = "revokeLicense tag_enc tag_dec 8 ''fraud'' session_acp"
  have "is_some_row (fst (getSecurityStateRow tag_dec ?w))" "row_consistent tag_dec ?w"
    "dpapi_ok ?w \<longrightarrow> intent ?w \<le> int (store_version ?w) + 1" by code_simp+
  then have rd: "row_readable tag_dec ?w" by (auto simp: row_readable_def is_some_row_iff)
  have m: "inMemoryState ?w = Some (the (inMemoryState ?w))" and s: "state (the (inMemoryState ?w)) = REVOKED"
    by code_simp+
  from logout_erases_lockdown [OF tag_aead_ok rd m] s show ?thesis by (simp add: lockdown_def)
qed

end
