(* ===== verification/Recovery.thy ===== *)
theory Recovery
  imports SecurityFacade
begin

text \<open>
  Reconciliation with the backend (\<^verbatim>\<open>recovery/reconciliation.mjs\<close>): the local row is marked RECONCILING,
  the backend is asked, and its answer either wipes the local state or is applied over it. The answer of
  \<^verbatim>\<open>backendClient.reconcile\<close> is an argument; the reconcile mutex makes one run one operation.
\<close>

record authoritative_state =
  serverEpoch :: nat
  generation :: nat
  auth_capabilities :: "string list option"
  graceToken :: "grace_token option"

datatype reconcile_response = WIPE | SYNC authoritative_state | OtherAction | NetworkFailure

definition setReconcilingState ::
  "(string \<Rightarrow> document \<Rightarrow> 'b) \<Rightarrow> int \<Rightarrow> security_data \<Rightarrow> 'b acp \<Rightarrow> ('b, bool) op_result" where
  "setReconcilingState enc now cur w =
     commitTransitionWithOCC enc now (state_version cur) (cur\<lparr>state := RECONCILING\<rparr>)
       (Some ''RECONCILE_START'') w"

definition wiped :: "security_data \<Rightarrow> security_data" where
  "wiped row = row\<lparr>state := COMPROMISED, capabilities := Some [], session := None, authorization := None,
     license := None\<rparr>"

definition applyWipe ::
  "(string \<Rightarrow> document \<Rightarrow> 'b) \<Rightarrow> (string \<Rightarrow> 'b \<Rightarrow> document option) \<Rightarrow> int \<Rightarrow> 'b acp \<Rightarrow> ('b, unit) op_result" where
  "applyWipe enc dec now w =
     (case getSecurityStateRow dec w of
        (Inl e, w1) \<Rightarrow> (Inl e, w1)
      | (Inr None, w1) \<Rightarrow> (Inr (), w1)
      | (Inr (Some row), w1) \<Rightarrow>
          (case commitTransitionWithOCC enc now (state_version row) (wiped row) (Some ''TAMPER_DETECTED'') w1 of
             (Inl e, w2) \<Rightarrow> (Inl e, w2)
           | (Inr _, w2) \<Rightarrow>
               (Inr (), setRevokedSync True
                  (w2\<lparr>inMemoryState := map_option (\<lambda>m. m\<lparr>state := COMPROMISED, session := None,
                        authorization := None, license := None\<rparr>) (inMemoryState w2)\<rparr>))))"

definition synced :: "authoritative_state \<Rightarrow> security_data \<Rightarrow> security_data" where
  "synced a row =
     row\<lparr>state := OPERATIONAL, server_epoch := serverEpoch a, session_generation := generation a,
         capabilities := auth_capabilities a,
         graceTokenData := (case graceToken a of None \<Rightarrow> graceTokenData row | Some t \<Rightarrow> Some t)\<rparr>"

definition sync_event :: "authoritative_state \<Rightarrow> audit_event" where
  "sync_event a = audit_of ''RECONCILIATION_SUCCESS'' ''INFO'' ''SUCCESS''
     (JObj [(''newEpoch'', JNum (Fin (of_nat (serverEpoch a)))), (''newGen'', JNum (Fin (of_nat (generation a))))])"

fun applySync ::
  "nat \<Rightarrow> (string \<Rightarrow> document \<Rightarrow> 'b) \<Rightarrow> (string \<Rightarrow> 'b \<Rightarrow> document option) \<Rightarrow> int \<Rightarrow> authoritative_state
     \<Rightarrow> 'b acp \<Rightarrow> ('b, unit) op_result" where
  "applySync 0 enc dec now a w = (Inl OccExhausted, w)"
| "applySync (Suc retries) enc dec now a w =
     (case getSecurityStateRow dec w of
        (Inl e, w1) \<Rightarrow> (Inl e, w1)
      | (Inr None, w1) \<Rightarrow> (Inr (), w1)
      | (Inr (Some row), w1) \<Rightarrow>
          (case commitTransitionWithOCC enc now (state_version row) (synced a row) (Some ''RECONCILE_SYNC'') w1 of
             (Inl e, w2) \<Rightarrow> (Inl e, w2)
           | (Inr True, w2) \<Rightarrow>
               (Inr (), setRevokedSync False
                  (writeEvent enc now (sync_event a)
                     (w2\<lparr>inMemoryState := map_option (\<lambda>m. m\<lparr>state := OPERATIONAL\<rparr>) (inMemoryState w2)\<rparr>)))
           | (Inr False, w2) \<Rightarrow> applySync retries enc dec now a w2))"

definition SYNC_RETRIES :: nat where "SYNC_RETRIES = 3"

definition applyResponse ::
  "(string \<Rightarrow> document \<Rightarrow> 'b) \<Rightarrow> (string \<Rightarrow> 'b \<Rightarrow> document option) \<Rightarrow> int \<Rightarrow> reconcile_response \<Rightarrow> 'b acp \<Rightarrow> bool \<times> 'b acp" where
  "applyResponse enc dec now response w =
     (case response of
        WIPE \<Rightarrow> (False, snd (applyWipe enc dec now w))
      | SYNC a \<Rightarrow> (case applySync SYNC_RETRIES enc dec now a w of
                    (Inr _, w1) \<Rightarrow> (True, w1) | (Inl e, w1) \<Rightarrow> (False, w1))
      | OtherAction \<Rightarrow> (False, w)
      | NetworkFailure \<Rightarrow> (False, w))"

definition triggerReconciliation ::
  "(string \<Rightarrow> document \<Rightarrow> 'b) \<Rightarrow> (string \<Rightarrow> 'b \<Rightarrow> document option) \<Rightarrow> int \<Rightarrow> reconcile_response \<Rightarrow> 'b acp \<Rightarrow> bool \<times> 'b acp" where
  "triggerReconciliation enc dec now response w =
     (case getSecurityStateRow dec w of
        (Inr (Some cur), w1) \<Rightarrow>
          if state cur = REVOKED \<or> state cur = COMPROMISED then (False, w1)
          else (case setReconcilingState enc now cur w1 of
                  (Inl e, w2) \<Rightarrow> (False, w2)
                | (Inr _, w2) \<Rightarrow> applyResponse enc dec now response w2)
      | (_, w1) \<Rightarrow> (False, w1))"

section \<open>Lemmas\<close>

text \<open>Read the row and commit over the version just read.\<close>

lemma read_commit:
  assumes aead: "aead_ok enc dec" and rd: "row_readable dec w"
  obtains row w1 w2 d where "getSecurityStateRow dec w = (Inr (Some row), w1)"
    "state_version row = store_version w"
    "commitTransitionWithOCC enc now (state_version row) (f row) ev w1 = (Inr True, w2)"
    "row_readable dec w2" "store_version w2 = store_version w + 1"
    "fst (getSecurityStateRow dec w2) = Inr (Some d)" "state d = state (f row)" "session d = session (f row)"
    "authorization d = authorization (f row)" "license d = license (f row)"
    "inMemoryState w2 = inMemoryState w" "revoked w2 = revoked w"
proof -
  obtain row w1 where g: "getSecurityStateRow dec w = (Inr (Some row), w1)"
    and v: "state_version row = store_version w" using rd by (rule readable_row)
  note fr = getRow_frame [OF g]
  from g obtain r where r: "singleton w = Some r" "db_open w" by (rule getRow_Some)
  let ?w2 = "afterCommit (store_version w + 1) (w1\<lparr>singleton := Some (commitRow enc now (store_version w + 1) (f row) ev)\<rparr>)"
  have c: "commitTransitionWithOCC enc now (state_version row) (f row) ev w1 = (Inr True, ?w2)"
    using commit_current [of w1 r "state_version row" enc now "f row" ev] r fr v by (simp add: store_version_def)
  have "db_open w1" using r fr by simp
  from readable_committed [OF aead this readable_effectiveMin [OF rd g] refl, of now "f row" ev]
  obtain d where "row_readable dec ?w2" "fst (getSecurityStateRow dec ?w2) = Inr (Some d)"
    "state d = state (f row)" "session d = session (f row)" "authorization d = authorization (f row)"
    "license d = license (f row)" by blast
  with g v c fr show thesis by (intro that [of row w1 ?w2 d]) (simp_all add: store_version_def)
qed

text \<open>Everything up to the answer of the backend.\<close>

lemma reconcile_started:
  assumes aead: "aead_ok enc dec" and rd: "row_readable dec w"
    and cur: "fst (getSecurityStateRow dec w) = Inr (Some c)" "state c \<notin> {REVOKED, COMPROMISED}"
  obtains w2 where "triggerReconciliation enc dec now resp w = applyResponse enc dec now resp w2"
    "row_readable dec w2" "store_version w2 = store_version w + 1" "inMemoryState w2 = inMemoryState w"
    "revoked w2 = revoked w"
proof -
  from aead rd obtain row w1 w2 where g: "getSecurityStateRow dec w = (Inr (Some row), w1)"
    and s: "setReconcilingState enc now row w1 = (Inr True, w2)"
    and rd2: "row_readable dec w2" "store_version w2 = store_version w + 1" "inMemoryState w2 = inMemoryState w"
      "revoked w2 = revoked w"
    unfolding setReconcilingState_def
    by (rule read_commit [where now = now and f = "\<lambda>r. r\<lparr>state := RECONCILING\<rparr>" and ev = "Some ''RECONCILE_START''"])
  from g cur have "row = c" by simp
  with g s cur rd2 show thesis by (intro that [of w2]) (simp_all add: triggerReconciliation_def)
qed

section \<open>Properties\<close>

text \<open>A wipe commanded by the backend is total: on any readable row that is not already revoked or
  compromised, the run ends with the row COMPROMISED and without session, authorization or license, the
  in-memory state cleared in the same way, and the native flag set.\<close>

theorem wipe_is_total:
  assumes "aead_ok enc dec" and "row_readable dec w" and "inMemoryState w = Some m"
    and "fst (getSecurityStateRow dec w) = Inr (Some c)" and "state c \<notin> {REVOKED, COMPROMISED}"
  shows "\<exists>w' m' d. triggerReconciliation enc dec now WIPE w = (False, w') \<and> revoked w' \<and> \<not> pipe_server w' \<and>
    inMemoryState w' = Some m' \<and> state m' = COMPROMISED \<and> session m' = None \<and> authorization m' = None \<and>
    fst (getSecurityStateRow dec w') = Inr (Some d) \<and> state d = COMPROMISED \<and> session d = None \<and>
    authorization d = None \<and> license d = None"
proof -
  from assms(1,2,4,5) obtain w2 where t: "triggerReconciliation enc dec now WIPE w = applyResponse enc dec now WIPE w2"
    and rd2: "row_readable dec w2" and m2: "inMemoryState w2 = inMemoryState w" by (rule reconcile_started)
  from assms(1) rd2 obtain row w3 w4 d where g: "getSecurityStateRow dec w2 = (Inr (Some row), w3)"
    and c: "commitTransitionWithOCC enc now (state_version row) (wiped row) (Some ''TAMPER_DETECTED'') w3 = (Inr True, w4)"
    and rd4: "row_readable dec w4" "fst (getSecurityStateRow dec w4) = Inr (Some d)" "state d = state (wiped row)"
      "session d = session (wiped row)" "authorization d = authorization (wiped row)" "license d = license (wiped row)"
    and m4: "inMemoryState w4 = inMemoryState w2" by (rule read_commit)
  let ?m = "m\<lparr>state := COMPROMISED, session := None, authorization := None, license := None\<rparr>"
  let ?w = "setRevokedSync True (w4\<lparr>inMemoryState := Some ?m\<rparr>)"
  have "triggerReconciliation enc dec now WIPE w = (False, ?w)"
    using assms(3) by (simp add: t applyResponse_def applyWipe_def g c m4 m2)
  with rd4 show ?thesis by (intro exI [of _ ?w] exI [of _ ?m] exI [of _ d]) (simp add: wiped_def)
qed

lemma session_acp_row:
  "\<exists>c. fst (getSecurityStateRow tag_dec session_acp) = Inr (Some c) \<and> state c \<notin> {REVOKED, COMPROMISED}"
proof -
  have "(case fst (getSecurityStateRow tag_dec session_acp) of Inr (Some c) \<Rightarrow> state c = SECURITY_STATE_READY | _ \<Rightarrow> False)"
    by code_simp
  then show ?thesis by (auto split: sum.splits option.splits)
qed

theorem wipe_is_total_witness:
  "\<exists>w' m' d. triggerReconciliation tag_enc tag_dec 9 WIPE session_acp = (False, w') \<and> revoked w' \<and> \<not> pipe_server w' \<and>
    inMemoryState w' = Some m' \<and> state m' = COMPROMISED \<and> session m' = None \<and> authorization m' = None \<and>
    fst (getSecurityStateRow tag_dec w') = Inr (Some d) \<and> state d = COMPROMISED \<and> session d = None \<and>
    authorization d = None \<and> license d = None"
  using session_acp_row wipe_is_total [OF tag_aead_ok session_acp_ok(1,2)] by blast

text \<open>A synchronisation bypasses the state machine: it makes the engine OPERATIONAL whatever its state
  was, without any authorization when it had none, which is the invariant every transition checks, and
  it leaves the in-memory version two behind the row, so every later dispatch is refused.\<close>

theorem sync_bypasses_invariant:
  assumes "aead_ok enc dec" and "row_readable dec w" and "inMemoryState w = Some m" and "authorization m = None"
    and "state_version m = store_version w"
    and "fst (getSecurityStateRow dec w) = Inr (Some c)" and "state c \<notin> {REVOKED, COMPROMISED}"
  shows "\<exists>w' m'. triggerReconciliation enc dec now (SYNC a) w = (True, w') \<and> inMemoryState w' = Some m' \<and>
    state m' = OPERATIONAL \<and> authorization m' = None \<and> \<not> revoked w' \<and>
    assertStateMachineInvariants m' (capabilities_of m') \<noteq> None \<and>
    (\<forall>now' ev p. fst (dispatch enc dec now' ev p w') = Inr False)"
proof -
  from assms(1,2,6,7) obtain w2 where t: "triggerReconciliation enc dec now (SYNC a) w = applyResponse enc dec now (SYNC a) w2"
    and rd2: "row_readable dec w2" and v2: "store_version w2 = store_version w + 1"
    and m2: "inMemoryState w2 = inMemoryState w" by (rule reconcile_started)
  from assms(1) rd2 obtain row w3 w4 where g: "getSecurityStateRow dec w2 = (Inr (Some row), w3)"
    and c: "commitTransitionWithOCC enc now (state_version row) (synced a row) (Some ''RECONCILE_SYNC'') w3 = (Inr True, w4)"
    and rd4: "row_readable dec w4" and v4: "store_version w4 = store_version w2 + 1"
    and m4: "inMemoryState w4 = inMemoryState w2" by (rule read_commit)
  let ?m = "m\<lparr>state := OPERATIONAL\<rparr>"
  let ?w = "setRevokedSync False (writeEvent enc now (sync_event a) (w4\<lparr>inMemoryState := Some ?m\<rparr>))"
  have tr: "triggerReconciliation enc dec now (SYNC a) w = (True, ?w)"
    using assms(3) by (simp add: t applyResponse_def SYNC_RETRIES_def eval_nat_numeral g c m4 m2)
  have "row_readable dec ?w" using rd4 by simp
  then obtain d w5 where d: "getSecurityStateRow dec ?w = (Inr (Some d), w5)" "state_version d = store_version ?w"
    by (rule readable_row)
  have "store_version ?w = state_version m + 2" using v4 v2 assms(5) by (simp add: store_version_def)
  with d have "fst (dispatch enc dec now' ev p ?w) = Inr False" for now' ev p
    by (simp add: dispatch_def executeTransition_def)
  moreover have "assertStateMachineInvariants ?m (capabilities_of ?m) \<noteq> None"
    using assms(4) by (simp add: assertStateMachineInvariants_def)
  ultimately show ?thesis
    using tr assms(4) by (intro exI [of _ ?w] exI [of _ ?m]) simp
qed

definition sample_sync :: authoritative_state where
  "sample_sync = \<lparr>serverEpoch = 2, generation = 7, auth_capabilities = None, graceToken = None\<rparr>"

theorem sync_bypasses_invariant_witness:
  "\<exists>w' m'. triggerReconciliation tag_enc tag_dec 9 (SYNC sample_sync) session_acp = (True, w') \<and>
    inMemoryState w' = Some m' \<and> state m' = OPERATIONAL \<and> authorization m' = None \<and> \<not> revoked w' \<and>
    assertStateMachineInvariants m' (capabilities_of m') \<noteq> None \<and>
    (\<forall>now' ev p. fst (dispatch tag_enc tag_dec now' ev p w') = Inr False)"
proof -
  have "authorization (the (inMemoryState session_acp)) = None" by code_simp
  from session_acp_row sync_bypasses_invariant [OF tag_aead_ok session_acp_ok(1,2) this session_acp_ok(4)]
  show ?thesis by blast
qed

end
