(* ===== verification/IdempotencyLedger.thy ===== *)
theory IdempotencyLedger
  imports JsPrelude "HOL-Library.Multiset"
begin

text \<open>
  The financial idempotency ledger (\<^verbatim>\<open>runtime-manager/boundary/idempotencyLedger.mjs\<close>): an LRU map from
  idempotency keys to the state of an operation, mirrored in a SQLite table when an engine is given.
  Keys are JavaScript values, of which only non-empty strings are looked up. The mirror keeps the values
  themselves: they are JSON, which serialising and parsing reproduces.
\<close>

datatype ledger_status = IN_FLIGHT | COMPLETED | FAILED | UNCERTAIN

record ledger_record =
  rec_operationId :: jsval
  rec_status :: ledger_status
  createdAt :: int
  updatedAt :: int
  cachedResult :: jsval
  rec_metadata :: jsval

record ledger =
  maxAgeMs :: int
  maxEntries :: nat
  records :: "(jsval, ledger_record) jsmap"
  ledger_table :: "(jsval, ledger_record) jsmap option"  \<comment> \<open>\<open>None\<close> without an engine\<close>
  table_ok :: bool                                       \<comment> \<open>whether its statements succeed\<close>

section \<open>Operations\<close>

definition with_table ::
  "((jsval, ledger_record) jsmap \<Rightarrow> (jsval, ledger_record) jsmap) \<Rightarrow> ledger \<Rightarrow> ledger" where
  "with_table f l = (if table_ok l then l\<lparr>ledger_table := map_option f (ledger_table l)\<rparr> else l)"

definition persisted :: "ledger_record \<Rightarrow> ledger_record" where
  "persisted r = r\<lparr>cachedResult := (if truthy (cachedResult r) then cachedResult r else JNull)\<rparr>"

definition expired :: "int \<Rightarrow> ledger \<Rightarrow> ledger_record \<Rightarrow> bool" where
  "expired now l r \<longleftrightarrow> now - updatedAt r > maxAgeMs l"

definition hydrateFromPersistence :: "int \<Rightarrow> ledger \<Rightarrow> ledger" where
  "hydrateFromPersistence now l =
     (if \<not> table_ok l then l
      else case ledger_table l of
        None \<Rightarrow> l
      | Some t \<Rightarrow>
          l\<lparr>records := fold (\<lambda>(k, r). AList.update k r)
             (sort_key (\<lambda>(k, r). updatedAt r) (filter (\<lambda>(k, r). updatedAt r \<ge> now - maxAgeMs l) t))
             (records l)\<rparr>)"

definition new_ledger ::
  "int \<Rightarrow> int \<Rightarrow> nat \<Rightarrow> (jsval, ledger_record) jsmap option \<Rightarrow> bool \<Rightarrow> ledger" where
  "new_ledger now age entries table ok =
     hydrateFromPersistence now
       \<lparr>maxAgeMs = age, maxEntries = entries, records = [], ledger_table = table, table_ok = ok\<rparr>"

fun lookup_key :: "jsval \<Rightarrow> bool" where
  "lookup_key (JStr s) = (s \<noteq> [])"
| "lookup_key _ = False"

text \<open>\<open>None\<close> is the answer NEW; otherwise the record that was found.\<close>

definition check :: "int \<Rightarrow> jsval \<Rightarrow> ledger \<Rightarrow> ledger_record option \<times> ledger" where
  "check now idempotencyKey l =
     (if \<not> lookup_key idempotencyKey then (None, l)
      else case map_of (records l) idempotencyKey of
        None \<Rightarrow> (None, l)
      | Some r \<Rightarrow>
          if expired now l r then (None, l\<lparr>records := AList.delete idempotencyKey (records l)\<rparr>)
          else (Some r, l\<lparr>records := AList.update idempotencyKey r (AList.delete idempotencyKey (records l))\<rparr>))"

definition pruneExpired :: "int \<Rightarrow> ledger \<Rightarrow> nat \<times> ledger" where
  "pruneExpired now l =
     (let kept = filter (\<lambda>(k, r). \<not> expired now l r) (records l);
          pruned = length (records l) - length kept;
          l1 = l\<lparr>records := kept\<rparr>
      in (pruned, if pruned > 0
                  then with_table (filter (\<lambda>(k, r). \<not> updatedAt r < now - maxAgeMs l)) l1 else l1))"

definition evictOldest :: "ledger \<Rightarrow> ledger" where
  "evictOldest l =
     (if length (records l) \<ge> maxEntries l
      then (case records l of
              [] \<Rightarrow> l
            | (k, r) # _ \<Rightarrow> if truthy k then l\<lparr>records := AList.delete k (records l)\<rparr> else l)
      else l)"

definition in_flight :: "int \<Rightarrow> jsval \<Rightarrow> jsval \<Rightarrow> ledger_record" where
  "in_flight now operationId metadata =
     \<lparr>rec_operationId = operationId, rec_status = IN_FLIGHT, createdAt = now, updatedAt = now,
      cachedResult = JNull, rec_metadata = metadata\<rparr>"

definition recordInFlight :: "int \<Rightarrow> jsval \<Rightarrow> jsval \<Rightarrow> jsval \<Rightarrow> ledger \<Rightarrow> ledger" where
  "recordInFlight now idempotencyKey operationId metadata l =
     (let l1 = evictOldest (snd (pruneExpired now l));
          r = in_flight now operationId metadata;
          l2 = l1\<lparr>records := AList.update idempotencyKey r (records l1)\<rparr>
      in with_table (AList.update idempotencyKey (persisted r)) l2)"

definition recordTerminal :: "int \<Rightarrow> jsval \<Rightarrow> ledger_status \<Rightarrow> jsval \<Rightarrow> ledger \<Rightarrow> ledger" where
  "recordTerminal now idempotencyKey st result l =
     (case map_of (records l) idempotencyKey of
        Some e \<Rightarrow>
          let e' = e\<lparr>rec_status := st, cachedResult := result, updatedAt := now\<rparr>;
              l1 = l\<lparr>records := AList.update idempotencyKey e' (AList.delete idempotencyKey (records l))\<rparr>
          in with_table (\<lambda>t. case map_of t idempotencyKey of
                 None \<Rightarrow> t
               | Some r0 \<Rightarrow> AList.update idempotencyKey
                   (persisted (r0\<lparr>rec_status := st, cachedResult := result, updatedAt := now\<rparr>)) t) l1
      | None \<Rightarrow>
          let r = \<lparr>rec_operationId = js_or (js_get result ''operationId'') (JStr ''unknown''), rec_status = st,
                   createdAt = now, updatedAt = now, cachedResult = result, rec_metadata = JObj []\<rparr>;
              l1 = l\<lparr>records := AList.update idempotencyKey r (records l)\<rparr>
          in with_table (AList.update idempotencyKey (persisted r)) l1)"

definition clear_ledger :: "ledger \<Rightarrow> ledger" where
  "clear_ledger l = with_table (\<lambda>t. []) (l\<lparr>records := []\<rparr>)"

definition ledger_size :: "ledger \<Rightarrow> nat" where
  "ledger_size l = length (records l)"

section \<open>Lemmas\<close>

lemma with_table_frame [simp]:
  "records (with_table f l) = records l" "maxAgeMs (with_table f l) = maxAgeMs l"
  "maxEntries (with_table f l) = maxEntries l" "table_ok (with_table f l) = table_ok l"
  by (simp_all add: with_table_def)

lemma expired_cong: "maxAgeMs l' = maxAgeMs l \<Longrightarrow> expired now l' r = expired now l r"
  by (simp add: expired_def)

lemma pruneExpired_frame [simp]:
  "maxAgeMs (snd (pruneExpired now l)) = maxAgeMs l" "maxEntries (snd (pruneExpired now l)) = maxEntries l"
  "records (snd (pruneExpired now l)) = filter (\<lambda>(k, r). \<not> expired now l r) (records l)"
  "table_ok (snd (pruneExpired now l)) = table_ok l"
  by (simp_all add: pruneExpired_def Let_def)

lemma evictOldest_frame [simp]:
  "maxAgeMs (evictOldest l) = maxAgeMs l" "maxEntries (evictOldest l) = maxEntries l"
  "table_ok (evictOldest l) = table_ok l" "ledger_table (evictOldest l) = ledger_table l"
  by (simp_all add: evictOldest_def split: list.splits prod.splits)

lemma recordInFlight_frame [simp]:
  "maxAgeMs (recordInFlight now k op md l) = maxAgeMs l" "maxEntries (recordInFlight now k op md l) = maxEntries l"
  by (simp_all add: recordInFlight_def Let_def)

lemma recordTerminal_frame [simp]:
  "maxAgeMs (recordTerminal now k st res l) = maxAgeMs l" "maxEntries (recordTerminal now k st res l) = maxEntries l"
  by (simp_all add: recordTerminal_def Let_def split: option.splits)

lemma check_frame [simp]:
  "maxAgeMs (snd (check now k l)) = maxAgeMs l" "maxEntries (snd (check now k l)) = maxEntries l"
  by (simp_all add: check_def split: option.splits)

text \<open>The ledger is a map: its keys are distinct, and they stay so.\<close>

definition ledger_wf :: "ledger \<Rightarrow> bool" where
  "ledger_wf l \<longleftrightarrow> distinct (map fst (records l)) \<and> (\<forall>k \<in> set (map fst (records l)). truthy k)"

lemma wf_prune: "ledger_wf l \<Longrightarrow> ledger_wf (snd (pruneExpired now l))"
  by (auto simp: ledger_wf_def distinct_filter_keys)

lemma wf_evict: "ledger_wf l \<Longrightarrow> ledger_wf (evictOldest l)"
  by (auto simp: ledger_wf_def evictOldest_def delete_keys split: list.splits intro: distinct_delete)

lemma wf_update: "ledger_wf l \<Longrightarrow> truthy k \<Longrightarrow> ledger_wf (l\<lparr>records := AList.update k r (records l)\<rparr>)"
  by (auto simp: ledger_wf_def update_keys distinct_update)

lemma wf_delete: "ledger_wf l \<Longrightarrow> ledger_wf (l\<lparr>records := AList.delete k (records l)\<rparr>)"
  by (auto simp: ledger_wf_def delete_keys distinct_removeAll)

lemma wf_touch:
  "ledger_wf l \<Longrightarrow> truthy k \<Longrightarrow>
     ledger_wf (l\<lparr>records := AList.update k r (AList.delete k (records l))\<rparr>)"
  by (auto simp: ledger_wf_def delete_keys update_keys distinct_removeAll)

lemma wf_table [simp]: "ledger_wf (with_table f l) = ledger_wf l"
  by (simp add: ledger_wf_def)

lemma wf_recordInFlight: "ledger_wf l \<Longrightarrow> truthy k \<Longrightarrow> ledger_wf (recordInFlight now k op md l)"
  by (simp add: recordInFlight_def Let_def wf_update wf_evict wf_prune)

lemma wf_recordTerminal: "ledger_wf l \<Longrightarrow> truthy k \<Longrightarrow> ledger_wf (recordTerminal now k st res l)"
  by (simp add: recordTerminal_def Let_def wf_touch wf_update split: option.splits)

lemma wf_check: "ledger_wf l \<Longrightarrow> ledger_wf (snd (check now k l))"
  by (cases k) (auto simp: check_def wf_touch wf_delete split: option.splits)

section \<open>Lookups after an operation\<close>

text \<open>What a check at \<open>now\<close> would answer.\<close>

definition seen :: "int \<Rightarrow> jsval \<Rightarrow> ledger \<Rightarrow> ledger_record option" where
  "seen now k l = fst (check now k l)"

lemma seen_eq:
  "seen now k l = (if lookup_key k then (case map_of (records l) k of
     None \<Rightarrow> None | Some r \<Rightarrow> if expired now l r then None else Some r) else None)"
  by (auto simp: seen_def check_def split: option.splits)

lemma seen_table [simp]: "seen now k (with_table f l) = seen now k l"
  by (simp add: seen_eq expired_def cong: option.case_cong)

text \<open>Checking never changes what later checks answer: it only moves or forgets records that every later
  check would ignore.\<close>

lemma seen_check:
  assumes "now \<le> now'" and "ledger_wf l"
  shows "seen now' k (snd (check now k' l)) = seen now' k l"
  using assms
  by (cases "k' = k")
    (auto simp: seen_eq check_def update_conv' delete_conv' expired_def split: option.splits)

lemma seen_recordInFlight:
  assumes "lookup_key k" and "now \<le> now'" and "now' \<le> now + maxAgeMs l"
  shows "seen now' k (recordInFlight now k op md l) = Some (in_flight now op md)"
  using assms by (simp add: seen_eq recordInFlight_def Let_def update_conv' expired_def in_flight_def)

lemma seen_recordTerminal:
  assumes "lookup_key k" and "now \<le> now'" and "now' \<le> now + maxAgeMs l"
  shows "\<exists>r. seen now' k (recordTerminal now k st res l) = Some r \<and> rec_status r = st \<and> cachedResult r = res"
  using assms by (auto simp: seen_eq recordTerminal_def Let_def update_conv' expired_def split: option.splits)

text \<open>
  The contract the command boundary relies on: a key once recorded answers every check of its window with
  the last recorded status, and checks disturb nothing.
\<close>

locale dedup =
  fixes ask :: "int \<Rightarrow> 'k \<Rightarrow> 'l \<Rightarrow> 's option \<times> 'l"
    and start :: "int \<Rightarrow> 'k \<Rightarrow> 'o \<Rightarrow> 'd \<Rightarrow> 'l \<Rightarrow> 'l"
    and window :: "'l \<Rightarrow> int"
    and good :: "'l \<Rightarrow> bool"
    and key_ok :: "'k \<Rightarrow> bool"
    and flying :: "'s \<Rightarrow> bool"
  assumes ask_keeps: "good l \<Longrightarrow> now \<le> now' \<Longrightarrow> fst (ask now' k (snd (ask now k' l))) = fst (ask now' k l)"
    and ask_good: "good l \<Longrightarrow> good (snd (ask now k l))"
    and ask_window: "window (snd (ask now k l)) = window l"
    and start_asked: "key_ok k \<Longrightarrow> now \<le> now' \<Longrightarrow> now' \<le> now + window l \<Longrightarrow>
      \<exists>s. fst (ask now' k (start now k op md l)) = Some s \<and> flying s"
    and start_good: "good l \<Longrightarrow> key_ok k \<Longrightarrow> good (start now k op md l)"
    and start_window: "window (start now k op md l) = window l"
begin

fun ask_all :: "(int \<times> 'k) list \<Rightarrow> 'l \<Rightarrow> 'l" where
  "ask_all [] l = l"
| "ask_all ((now, k) # qs) l = ask_all qs (snd (ask now k l))"

lemma ask_all_keeps:
  "good l \<Longrightarrow> \<forall>(t, q) \<in> set qs. t \<le> now' \<Longrightarrow> fst (ask now' k (ask_all qs l)) = fst (ask now' k l)"
proof (induction qs arbitrary: l)
  case (Cons x qs)
  obtain t q where x: "x = (t, q)" by (cases x)
  from Cons.prems x have t: "t \<le> now'" and qs: "\<forall>(t, q) \<in> set qs. t \<le> now'" by auto
  have "fst (ask now' k (ask_all qs (snd (ask t q l)))) = fst (ask now' k (snd (ask t q l)))"
    by (rule Cons.IH [OF ask_good [OF Cons.prems(1)] qs])
  with ask_keeps [OF Cons.prems(1) t] x show ?case by simp
qed simp

text \<open>However many duplicates of a started operation are checked, each finds it in flight.\<close>

lemma duplicates_found:
  assumes "good l" and "key_ok k" and "now \<le> now'" and "now' \<le> now + window l"
    and "\<forall>(t, q) \<in> set qs. t \<le> now'"
  shows "\<exists>s. fst (ask now' k (ask_all qs (start now k op md l))) = Some s \<and> flying s"
  using start_asked [OF assms(2-4), of op md] ask_all_keeps [OF start_good [OF assms(1,2)] assms(5), of k now op md]
  by simp

end

interpretation ledger: dedup check recordInFlight maxAgeMs ledger_wf lookup_key "\<lambda>r. rec_status r = IN_FLIGHT"
proof
  fix l :: ledger and now now' k k' op md
  show "ledger_wf l \<Longrightarrow> now \<le> now' \<Longrightarrow> fst (check now' k (snd (check now k' l))) = fst (check now' k l)"
    using seen_check by (simp add: seen_def)
  show "ledger_wf l \<Longrightarrow> ledger_wf (snd (check now k l))" by (rule wf_check)
  show "maxAgeMs (snd (check now k l)) = maxAgeMs l" by simp
  show "lookup_key k \<Longrightarrow> now \<le> now' \<Longrightarrow> now' \<le> now + maxAgeMs l \<Longrightarrow>
      \<exists>s. fst (check now' k (recordInFlight now k op md l)) = Some s \<and> rec_status s = IN_FLIGHT"
    using seen_recordInFlight [of k now now' l op md] by (simp add: seen_def in_flight_def)
  show "ledger_wf l \<Longrightarrow> lookup_key k \<Longrightarrow> ledger_wf (recordInFlight now k op md l)"
    by (cases k) (simp_all add: wf_recordInFlight)
  show "maxAgeMs (recordInFlight now k op md l) = maxAgeMs l" by simp
qed

section \<open>Eviction\<close>

text \<open>\<open>n\<close> bounds how many entries are more recent than \<open>k\<close>.\<close>

definition recent :: "jsval \<Rightarrow> ledger_record \<Rightarrow> nat \<Rightarrow> (jsval, ledger_record) jsmap \<Rightarrow> bool" where
  "recent k r n m \<longleftrightarrow> (\<exists>A B. m = A @ (k, r) # B \<and> length B \<le> n)"

lemma recent_filter: "recent k r n m \<Longrightarrow> P (k, r) \<Longrightarrow> recent k r n (filter P m)"
  by (auto simp: recent_def) (metis append_Cons append_Nil length_filter_le order_trans)

lemma recent_delete: "recent k r n m \<Longrightarrow> k' \<noteq> k \<Longrightarrow> recent k r n (AList.delete k' m)"
  unfolding AList.delete_eq by (rule recent_filter) auto

lemma recent_update:
  assumes "recent k r n m" and "k' \<noteq> k"
  shows "recent k r (Suc n) (AList.update k' v m)"
proof -
  from assms(1) obtain A B where m: "m = A @ (k, r) # B" and B: "length B \<le> n"
    by (auto simp: recent_def)
  have "\<exists>A' B'. AList.update k' v (A @ (k, r) # B) = A' @ (k, r) # B' \<and> length B' \<le> Suc (length B)"
  proof (induction A)
    case Nil
    have "length (AList.update k' v B) \<le> Suc (length B)"
      by (induction B) auto
    with assms(2) show ?case by (intro exI [of _ "[]"] exI [of _ "AList.update k' v B"]) simp
  next
    case (Cons a A)
    obtain x y where a: "a = (x, y)" by (cases a)
    show ?case
    proof (cases "x = k'")
      case True
      with a show ?thesis by (intro exI [of _ "(x, v) # A"] exI [of _ B]) simp
    next
      case False
      with a Cons show ?thesis by simp (metis append_Cons)
    qed
  qed
  with m B show ?thesis unfolding recent_def by (metis Suc_le_mono order_trans)
qed

lemma recent_mono: "recent k r n m \<Longrightarrow> n \<le> n' \<Longrightarrow> recent k r n' m"
  unfolding recent_def by (elim exE conjE, intro exI conjI, assumption) simp

lemma recent_lookup: "recent k r n m \<Longrightarrow> distinct (map fst m) \<Longrightarrow> map_of m k = Some r"
  by (auto simp: recent_def map_add_def split: option.splits dest!: map_of_SomeD)

lemma recent_evict:
  assumes "recent k r n (records l)" and "ledger_wf l" and "Suc n < maxEntries l"
  shows "recent k r n (records (evictOldest l))"
proof (cases "records l")
  case (Cons x m)
  obtain k0 r0 where x: "x = (k0, r0)" by (cases x)
  have "k0 \<noteq> k" if "length (records l) \<ge> maxEntries l"
  proof
    assume "k0 = k"
    from assms(1) obtain A B where AB: "records l = A @ (k, r) # B" "length B \<le> n" by (auto simp: recent_def)
    with assms(2) Cons x \<open>k0 = k\<close> have "A = []"
      by (cases A) (auto simp: ledger_wf_def)
    with AB that assms(3) show False by simp
  qed
  with recent_delete [OF assms(1), of k0] assms(1) Cons x show ?thesis by (auto simp: evictOldest_def)
qed (use assms(1) in \<open>simp add: recent_def\<close>)

datatype ledger_op =
    OpCheck jsval
  | OpInFlight jsval jsval jsval
  | OpTerminal jsval ledger_status jsval

fun op_key :: "ledger_op \<Rightarrow> jsval" where
  "op_key (OpCheck k) = k"
| "op_key (OpInFlight k op md) = k"
| "op_key (OpTerminal k st res) = k"

fun ledger_step :: "int \<times> ledger_op \<Rightarrow> ledger \<Rightarrow> ledger" where
  "ledger_step (now, OpCheck k) l = snd (check now k l)"
| "ledger_step (now, OpInFlight k op md) l = recordInFlight now k op md l"
| "ledger_step (now, OpTerminal k st res) l = recordTerminal now k st res l"

lemma ledger_step_frame [simp]:
  "maxAgeMs (ledger_step x l) = maxAgeMs l" "maxEntries (ledger_step x l) = maxEntries l"
  by (cases "(x, l)" rule: ledger_step.cases; simp)+

lemma wf_step: "ledger_wf l \<Longrightarrow> truthy (op_key (snd x)) \<Longrightarrow> ledger_wf (ledger_step x l)"
  by (cases "(x, l)" rule: ledger_step.cases)
    (auto intro: wf_check wf_recordInFlight wf_recordTerminal)

lemma recent_step:
  assumes "recent k r n (records l)" and "ledger_wf l" and "op_key (snd x) \<noteq> k" and "\<not> expired (fst x) l r"
    and "Suc n < maxEntries l"
  shows "recent k r (Suc n) (records (ledger_step x l))"
proof (cases "(x, l)" rule: ledger_step.cases)
  case (1 now k' l')
  then show ?thesis
    using assms recent_delete [of k r n "records l" k'] recent_mono [of k r n _ "Suc n"]
    by (auto simp: check_def intro: recent_update split: option.splits)
next
  case (2 now k' op md l')
  have "recent k r n (records (snd (pruneExpired now l)))"
    using assms 2 by (auto intro: recent_filter)
  then have "recent k r n (records (evictOldest (snd (pruneExpired now l))))"
    using assms(2,5) by (intro recent_evict) (simp_all add: wf_prune)
  with 2 assms(3) show ?thesis by (simp add: recordInFlight_def Let_def recent_update)
next
  case (3 now k' st res l')
  then show ?thesis
    using assms(1,3) by (auto simp: recordTerminal_def Let_def intro: recent_update recent_delete split: option.splits)
qed

lemma recent_run:
  assumes "recent k r n (records l)" and "ledger_wf l" and "n + length ops < maxEntries l"
    and "\<forall>x \<in> set ops. op_key (snd x) \<noteq> k \<and> truthy (op_key (snd x)) \<and> \<not> expired (fst x) l r"
  shows "recent k r (n + length ops) (records (fold ledger_step ops l)) \<and> ledger_wf (fold ledger_step ops l) \<and>
    maxAgeMs (fold ledger_step ops l) = maxAgeMs l"
  using assms
proof (induction ops arbitrary: n l)
  case (Cons x ops)
  have "recent k r (Suc n) (records (ledger_step x l))" "ledger_wf (ledger_step x l)"
    using Cons.prems by (auto intro: recent_step wf_step)
  from Cons.IH [OF this] Cons.prems expired_cong [of "ledger_step x l" l] show ?case by simp
qed simp

text \<open>After a check of \<open>k\<close>, no entry is more recent than it, and recording it keeps it so.\<close>

definition last_only :: "jsval \<Rightarrow> (jsval, ledger_record) jsmap \<Rightarrow> bool" where
  "last_only k m \<longleftrightarrow> (\<exists>A. k \<notin> fst ` set A \<and> (m = A \<or> (\<exists>r. m = A @ [(k, r)])))"

lemma last_only_filter: "last_only k m \<Longrightarrow> last_only k (filter P m)"
  unfolding last_only_def
proof (elim exE conjE)
  fix A assume "k \<notin> fst ` set A" "m = A \<or> (\<exists>r. m = A @ [(k, r)])"
  then show "\<exists>B. k \<notin> fst ` set B \<and> (filter P m = B \<or> (\<exists>r. filter P m = B @ [(k, r)]))"
    by (intro exI [of _ "filter P A"]) auto
qed

lemma evictOldest_filter: "\<exists>P. records (evictOldest l) = filter P (records l)"
proof (cases "records (evictOldest l) = records l")
  case True
  then show ?thesis by (intro exI [of _ "\<lambda>_. True"]) simp
next
  case False
  then have "\<exists>k. records (evictOldest l) = AList.delete k (records l)"
    by (auto simp: evictOldest_def split: list.splits prod.splits if_splits)
  then show ?thesis by (auto simp: AList.delete_eq)
qed

lemma update_absent: "k \<notin> fst ` set A \<Longrightarrow> AList.update k r A = A @ [(k, r)]"
  by (induction A) auto

lemma update_at_end: "k \<notin> fst ` set A \<Longrightarrow> AList.update k r (A @ [(k, r0)]) = A @ [(k, r)]"
  by (induction A) auto

lemma update_last_only: "last_only k m \<Longrightarrow> \<exists>A. AList.update k r m = A @ [(k, r)]"
  by (auto simp: last_only_def update_absent update_at_end)

lemma check_last:
  assumes "lookup_key k"
  shows "last_only k (records (snd (check now k l)))"
proof (cases "map_of (records l) k")
  case None
  then have "k \<notin> fst ` set (records l)" by (simp add: map_of_eq_None_iff)
  with None assms show ?thesis by (auto simp: check_def last_only_def)
next
  case (Some r)
  let ?d = "AList.delete k (records l)"
  have "k \<notin> fst ` set ?d" by (auto simp: AList.delete_eq)
  moreover from this have "AList.update k r ?d = ?d @ [(k, r)]" by (rule update_absent)
  ultimately have "last_only k ?d" "last_only k (AList.update k r ?d)" unfolding last_only_def by blast+
  with Some assms show ?thesis by (simp add: check_def)
qed

lemma evict_room:
  assumes "ledger_wf l" and "1 \<le> maxEntries l" and "length (records l) \<le> maxEntries l"
  shows "length (records (evictOldest l)) < maxEntries l"
proof (cases "records l")
  case Nil
  with assms(2) show ?thesis by (simp add: evictOldest_def)
next
  case (Cons x m)
  obtain k0 r0 where x: "x = (k0, r0)" by (cases x)
  have "truthy k0" "k0 \<notin> fst ` set m" using assms(1) Cons x by (simp_all add: ledger_wf_def)
  then show ?thesis using assms(3) Cons x by (simp add: evictOldest_def delete_idem)
qed

lemma recordInFlight_last:
  assumes "last_only k (records l)"
  shows "recent k (in_flight now op md) 0 (records (recordInFlight now k op md l))"
proof -
  obtain P where "records (evictOldest (snd (pruneExpired now l))) = filter P (records (snd (pruneExpired now l)))"
    using evictOldest_filter by blast
  then have "last_only k (records (evictOldest (snd (pruneExpired now l))))"
    using assms by (simp add: last_only_filter)
  from update_last_only [OF this, of "in_flight now op md"] show ?thesis
    by (auto simp: recent_def recordInFlight_def Let_def)
qed

section \<open>Properties\<close>

text \<open>Duplicate suppression survives traffic: once an operation was checked and recorded in flight, any
  sequence of fewer than \<open>maxEntries\<close> further ledger operations on other keys, at times inside the
  window, leaves it in the ledger, and a check of the key at any time of the window finds it in flight.\<close>

theorem in_flight_survives_traffic:
  assumes "ledger_wf l" and "lookup_key k" and "length ops < maxEntries l"
    and "\<forall>(t, op) \<in> set ops. op_key op \<noteq> k \<and> truthy (op_key op) \<and> t \<le> now + maxAgeMs l"
    and "now' \<le> now + maxAgeMs l"
  shows "fst (check now' k (fold ledger_step ops (recordInFlight now k opId md (snd (check now k l))))) =
    Some (in_flight now opId md)"
proof -
  let ?l = "recordInFlight now k opId md (snd (check now k l))"
  have k: "truthy k" using assms(2) by (cases k) simp_all
  have wf: "ledger_wf ?l" using assms(1) k by (simp add: wf_check wf_recordInFlight)
  have rc: "recent k (in_flight now opId md) 0 (records ?l)"
    using check_last [OF assms(2)] by (rule recordInFlight_last)
  have "\<forall>x \<in> set ops. op_key (snd x) \<noteq> k \<and> truthy (op_key (snd x)) \<and> \<not> expired (fst x) ?l (in_flight now opId md)"
    using assms(4) by (auto simp: expired_def in_flight_def)
  from recent_run [OF rc wf _ this] assms(3)
  have run: "recent k (in_flight now opId md) (length ops) (records (fold ledger_step ops ?l))"
    "ledger_wf (fold ledger_step ops ?l)" "maxAgeMs (fold ledger_step ops ?l) = maxAgeMs l"
    by simp_all
  then have "map_of (records (fold ledger_step ops ?l)) k = Some (in_flight now opId md)"
    using recent_lookup [OF run(1)] by (simp add: ledger_wf_def)
  with run(3) assms(2,5) have "seen now' k (fold ledger_step ops ?l) = Some (in_flight now opId md)"
    by (simp add: seen_eq expired_def in_flight_def)
  then show ?thesis by (simp add: seen_def)
qed

definition sample_ledger :: ledger where
  "sample_ledger = new_ledger 0 1000 3 (Some []) True"

theorem in_flight_survives_traffic_witness:
  "fst (check 900 (JStr ''a'') (fold ledger_step
      [(10, OpInFlight (JStr ''b'') (JStr ''o2'') (JObj [])), (20, OpTerminal (JStr ''c'') COMPLETED JNull)]
      (recordInFlight 5 (JStr ''a'') (JStr ''o1'') (JObj []) (snd (check 5 (JStr ''a'') sample_ledger))))) =
    Some (in_flight 5 (JStr ''o1'') (JObj []))"
  by (rule in_flight_survives_traffic)
    (simp_all add: sample_ledger_def new_ledger_def hydrateFromPersistence_def ledger_wf_def)

text \<open>The ledger is bounded: recording an operation in flight never leaves more than \<open>maxEntries\<close>
  entries, and checks, and terminal records of known keys, never add one.\<close>

theorem ledger_bounded:
  assumes "ledger_wf l" and "1 \<le> maxEntries l" and "ledger_size l \<le> maxEntries l"
  shows "ledger_size (recordInFlight now k op md l) \<le> maxEntries l \<and>
    ledger_size (snd (check now k l)) \<le> ledger_size l \<and>
    (map_of (records l) k \<noteq> None \<longrightarrow> ledger_size (recordTerminal now k st res l) = ledger_size l)"
proof (intro conjI impI)
  let ?p = "snd (pruneExpired now l)"
  let ?e = "evictOldest ?p"
  have wf: "ledger_wf ?p" using assms(1) by (rule wf_prune)
  have len: "length (records ?p) \<le> maxEntries l"
    using assms(3) le_trans [OF length_filter_le [of "\<lambda>(k, r). \<not> expired now l r" "records l"]]
    by (simp add: ledger_size_def)
  have "length (records ?e) < maxEntries l"
    using evict_room [OF wf] assms(2) len by simp
  moreover have "length (AList.update k v m) \<le> Suc (length m)" for v and m :: "(jsval, ledger_record) jsmap"
    by (induction m) auto
  from this [of "in_flight now op md" "records ?e"]
  have "ledger_size (recordInFlight now k op md l) \<le> Suc (length (records ?e))"
    by (simp add: ledger_size_def recordInFlight_def Let_def)
  ultimately show "ledger_size (recordInFlight now k op md l) \<le> maxEntries l" by simp
next
  have touch: "length (AList.update k v (AList.delete k m)) = length m"
    if "distinct (map fst m)" "map_of m k = Some r0" for v r0 and m :: "(jsval, ledger_record) jsmap"
  proof -
    have "k \<notin> fst ` set (AList.delete k m)" by (auto simp: AList.delete_eq)
    then have "length (AList.update k v (AList.delete k m)) = Suc (length (map fst (AList.delete k m)))"
      by (simp add: update_absent)
    also have "\<dots> = length (map fst m)"
      using that jm.get_None [of m k] by (intro jm.length_del) auto
    finally show ?thesis by simp
  qed
  show "ledger_size (snd (check now k l)) \<le> ledger_size l"
    using assms(1) touch [of "records l"]
    by (auto simp: check_def ledger_size_def ledger_wf_def length_delete_le split: option.splits)
  show "map_of (records l) k \<noteq> None \<Longrightarrow> ledger_size (recordTerminal now k st res l) = ledger_size l"
    using assms(1) touch [of "records l"]
    by (auto simp: recordTerminal_def ledger_size_def ledger_wf_def Let_def)
qed

theorem ledger_bounded_witness:
  "ledger_size (recordInFlight 7 (JStr ''z'') (JStr ''o'') JNull
      (recordInFlight 5 (JStr ''a'') (JStr ''o'') JNull (sample_ledger\<lparr>maxEntries := 1\<rparr>))) \<le> 1"
proof -
  let ?l = "recordInFlight 5 (JStr ''a'') (JStr ''o'') JNull (sample_ledger\<lparr>maxEntries := 1\<rparr>)"
  have "ledger_wf ?l" "1 \<le> maxEntries ?l" "ledger_size ?l \<le> maxEntries ?l" "maxEntries ?l = 1" by code_simp+
  from ledger_bounded [OF this(1-3)] this(4) show ?thesis by simp
qed

section \<open>Restart\<close>

lemma hydrated_lookup:
  assumes "distinct (map fst t)"
  shows "map_of (records (new_ledger now age n (Some t) True)) k =
    (case map_of t k of None \<Rightarrow> None | Some r \<Rightarrow> if updatedAt r \<ge> now - age then Some r else None)"
proof -
  let ?f = "filter (\<lambda>(k, r). updatedAt r \<ge> now - age) t"
  let ?s = "sort_key (\<lambda>(k, r). updatedAt r) ?f"
  have d: "distinct (map fst ?f)" using assms by (rule distinct_filter_keys)
  have "mset (map fst ?s) = mset (map fst ?f)" by simp
  then have ds: "distinct (map fst ?s)" using d by (metis mset_eq_imp_distinct_iff)
  have "map_of (rev ?s) = map_of ?f"
    using ds d by (subst map_of_inject_set) (simp_all add: rev_map [symmetric])
  then show ?thesis
    by (simp add: new_ledger_def hydrateFromPersistence_def fold_update_lookup map_of_filter_distinct [OF assms]
        split: option.splits)
qed

text \<open>An in-flight operation survives a crash: after it was recorded with a working storage engine, a
  ledger rebuilt from the table at any later time of the window answers the check with the same
  in-flight record.\<close>

theorem in_flight_survives_restart:
  assumes "ledger_table l = Some t" and "table_ok l" and "distinct (map fst t)" and "lookup_key k"
    and "now' \<le> now + maxAgeMs l"
  shows "\<exists>t'. ledger_table (recordInFlight now k op md l) = Some t' \<and>
    fst (check now' k (new_ledger now' (maxAgeMs l) n (Some t') True)) = Some (in_flight now op md)"
proof -
  obtain t1 where t1: "ledger_table (evictOldest (snd (pruneExpired now l))) = Some t1" "distinct (map fst t1)"
  proof (cases "0 < fst (pruneExpired now l)")
    case True
    let ?t = "filter (\<lambda>(k, r). \<not> updatedAt r < now - maxAgeMs l) t"
    show thesis
      by (rule that [of ?t]) (use True assms(1-3) distinct_filter_keys in \<open>simp_all add: pruneExpired_def Let_def with_table_def\<close>)
  next
    case False
    show thesis
      by (rule that [of t]) (use False assms(1-3) in \<open>simp_all add: pruneExpired_def Let_def with_table_def\<close>)
  qed
  let ?t = "AList.update k (in_flight now op md) t1"
  have tbl: "ledger_table (recordInFlight now k op md l) = Some ?t"
    using t1(1) assms(2) by (simp add: recordInFlight_def Let_def with_table_def persisted_def in_flight_def)
  have "distinct (map fst ?t)" using t1(2) by (rule distinct_update)
  from hydrated_lookup [OF this, of now' "maxAgeMs l" n k] assms(5)
  have "map_of (records (new_ledger now' (maxAgeMs l) n (Some ?t) True)) k = Some (in_flight now op md)"
    by (simp add: update_conv' in_flight_def)
  moreover have "maxAgeMs (new_ledger now' (maxAgeMs l) n (Some ?t) True) = maxAgeMs l"
    by (simp add: new_ledger_def hydrateFromPersistence_def)
  ultimately have "seen now' k (new_ledger now' (maxAgeMs l) n (Some ?t) True) = Some (in_flight now op md)"
    using assms(4,5) by (simp add: seen_eq expired_def in_flight_def)
  with tbl show ?thesis by (auto simp: seen_def)
qed

theorem in_flight_survives_restart_witness:
  "\<exists>t'. ledger_table (recordInFlight 5 (JStr ''a'') (JStr ''o1'') (JObj []) sample_ledger) = Some t' \<and>
    fst (check 800 (JStr ''a'') (new_ledger 800 (maxAgeMs sample_ledger) 3 (Some t') True)) =
      Some (in_flight 5 (JStr ''o1'') (JObj []))"
  by (rule in_flight_survives_restart [where t = "[]"])
    (simp_all add: sample_ledger_def new_ledger_def hydrateFromPersistence_def)

end
