(* ===== verification/UncertainOperations.thy ===== *)
theory UncertainOperations
  imports JsPrelude
begin

text \<open>
  The coordinator of operations with an unknown outcome
  (\<^verbatim>\<open>runtime-manager/boundary/reconciliationCoordinator.mjs\<close>): frozen accounts, pending tasks, and their
  tables when a storage engine is given. Identifiers are JavaScript values as they arrive in messages.
\<close>

datatype task_status = QUEUED | IN_PROGRESS | PENDING_RETRY | TASK_COMPLETED | TASK_FAILED

datatype resolution = RESOLVED_COMMITTED | RESOLVED_LOST | STILL_PENDING

record frozen_record =
  frz_operationId :: jsval
  frz_idempotencyKey :: jsval
  frozenAt :: int
  frz_reason :: jsval

record rec_task =
  task_accountId :: jsval
  task_idempotencyKey :: jsval
  task_status :: task_status
  enqueuedAt :: int
  attempts :: nat
  details :: jsval

record coordinator =
  frozenAccounts :: "(jsval, frozen_record) jsmap"
  pendingReconciliations :: "(jsval, rec_task) jsmap"
  frozen_table :: "(jsval, frozen_record) jsmap option"    \<comment> \<open>\<open>None\<close> without an engine\<close>
  queue_table :: "(jsval, rec_task) jsmap option"
  storage_ok :: bool

section \<open>Operations\<close>

definition with_frozen ::
  "((jsval, frozen_record) jsmap \<Rightarrow> (jsval, frozen_record) jsmap) \<Rightarrow> coordinator \<Rightarrow> coordinator" where
  "with_frozen f c = (if storage_ok c then c\<lparr>frozen_table := map_option f (frozen_table c)\<rparr> else c)"

definition with_queue ::
  "((jsval, rec_task) jsmap \<Rightarrow> (jsval, rec_task) jsmap) \<Rightarrow> coordinator \<Rightarrow> coordinator" where
  "with_queue f c = (if storage_ok c then c\<lparr>queue_table := map_option f (queue_table c)\<rparr> else c)"

text \<open>A value SQLite accepts in a NOT NULL column.\<close>

definition sql_value :: "jsval \<Rightarrow> bool" where
  "sql_value v \<longleftrightarrow> v \<noteq> JUndef \<and> v \<noteq> JNull"

definition hydrate :: "coordinator \<Rightarrow> coordinator" where
  "hydrate c =
     (if \<not> storage_ok c then c
      else c\<lparr>frozenAccounts := (case frozen_table c of
               None \<Rightarrow> frozenAccounts c
             | Some t \<Rightarrow> fold (\<lambda>(k, r). AList.update k r) t (frozenAccounts c)),
            pendingReconciliations := (case queue_table c of
               None \<Rightarrow> pendingReconciliations c
             | Some t \<Rightarrow> fold (\<lambda>(k, r). AList.update k r)
                 (filter (\<lambda>(k, r). task_status r \<notin> {TASK_COMPLETED, TASK_FAILED}) t)
                 (pendingReconciliations c))\<rparr>)"

definition freezeAccount :: "int \<Rightarrow> jsval \<Rightarrow> jsval \<Rightarrow> jsval \<Rightarrow> jsval \<Rightarrow> coordinator \<Rightarrow> coordinator" where
  "freezeAccount now accountId operationId idempotencyKey reason c =
     (if \<not> truthy accountId then c
      else let r = \<lparr>frz_operationId = operationId, frz_idempotencyKey = idempotencyKey, frozenAt = now,
                    frz_reason = reason\<rparr>;
               c1 = c\<lparr>frozenAccounts := AList.update accountId r (frozenAccounts c)\<rparr>
           in if sql_value operationId then with_frozen (AList.update accountId r) c1 else c1)"

definition isAccountFrozen :: "jsval \<Rightarrow> coordinator \<Rightarrow> bool" where
  "isAccountFrozen accountId c \<longleftrightarrow> map_of (frozenAccounts c) accountId \<noteq> None"

definition unfreezeAccount :: "jsval \<Rightarrow> coordinator \<Rightarrow> bool \<times> coordinator" where
  "unfreezeAccount accountId c =
     (if \<not> truthy accountId \<or> \<not> isAccountFrozen accountId c then (False, c)
      else (True, with_frozen (AList.delete accountId)
              (c\<lparr>frozenAccounts := AList.delete accountId (frozenAccounts c)\<rparr>)))"

definition enqueueUncertainOperation ::
  "int \<Rightarrow> jsval \<Rightarrow> jsval \<Rightarrow> jsval \<Rightarrow> jsval \<Rightarrow> jsval \<Rightarrow> coordinator \<Rightarrow> coordinator" where
  "enqueueUncertainOperation now operationId accountId idempotencyKey reason det c =
     (let c1 = freezeAccount now accountId operationId idempotencyKey reason c;
          task = \<lparr>task_accountId = accountId, task_idempotencyKey = idempotencyKey, task_status = QUEUED,
                  enqueuedAt = now, attempts = 0, details = det\<rparr>;
          c2 = c1\<lparr>pendingReconciliations := AList.update operationId task (pendingReconciliations c1)\<rparr>
      in if sql_value accountId \<and> operationId \<noteq> JUndef then with_queue (AList.update operationId task) c2 else c2)"

definition update_row :: "jsval \<Rightarrow> (rec_task \<Rightarrow> rec_task) \<Rightarrow> (jsval, rec_task) jsmap \<Rightarrow> (jsval, rec_task) jsmap" where
  "update_row k f t = (case map_of t k of None \<Rightarrow> t | Some r \<Rightarrow> AList.update k (f r) t)"

definition createReconcileRequest :: "jsval \<Rightarrow> coordinator \<Rightarrow> rec_task option \<times> coordinator" where
  "createReconcileRequest operationId c =
     (case map_of (pendingReconciliations c) operationId of
        None \<Rightarrow> (None, c)
      | Some task \<Rightarrow>
          let task' = task\<lparr>task_status := IN_PROGRESS, attempts := attempts task + 1\<rparr>
          in (Some task',
              with_queue (update_row operationId (\<lambda>r. r\<lparr>task_status := IN_PROGRESS, attempts := attempts task'\<rparr>))
                (c\<lparr>pendingReconciliations := AList.update operationId task' (pendingReconciliations c)\<rparr>)))"

definition resolveTask :: "jsval \<Rightarrow> rec_task \<Rightarrow> task_status \<Rightarrow> coordinator \<Rightarrow> coordinator" where
  "resolveTask operationId task st c =
     (let c1 = snd (unfreezeAccount (task_accountId task) c)
      in with_queue (update_row operationId (\<lambda>r. r\<lparr>task_status := st\<rparr>))
           (c1\<lparr>pendingReconciliations := AList.delete operationId (pendingReconciliations c1)\<rparr>))"

text \<open>The outcome is \<open>None\<close> when no task is pending for the operation.\<close>

definition handleReconciliationReport ::
  "jsval \<Rightarrow> resolution \<Rightarrow> coordinator \<Rightarrow> task_status option \<times> coordinator" where
  "handleReconciliationReport operationId resolutionStatus c =
     (case map_of (pendingReconciliations c) operationId of
        None \<Rightarrow> (None, c)
      | Some task \<Rightarrow>
          (case resolutionStatus of
             RESOLVED_COMMITTED \<Rightarrow> (Some TASK_COMPLETED, resolveTask operationId task TASK_COMPLETED c)
           | RESOLVED_LOST \<Rightarrow> (Some TASK_FAILED, resolveTask operationId task TASK_FAILED c)
           | STILL_PENDING \<Rightarrow>
               (Some PENDING_RETRY,
                with_queue (update_row operationId (\<lambda>r. r\<lparr>task_status := PENDING_RETRY, attempts := attempts task\<rparr>))
                  (c\<lparr>pendingReconciliations :=
                      AList.update operationId (task\<lparr>task_status := PENDING_RETRY\<rparr>) (pendingReconciliations c)\<rparr>))))"

definition manualResolve :: "jsval \<Rightarrow> task_status \<Rightarrow> coordinator \<Rightarrow> coordinator" where
  "manualResolve operationId forcedOutcome c =
     (let c1 = (case map_of (pendingReconciliations c) operationId of
                  None \<Rightarrow> c
                | Some task \<Rightarrow>
                    if truthy (task_accountId task) then snd (unfreezeAccount (task_accountId task) c) else c)
      in with_queue (update_row operationId (\<lambda>r. r\<lparr>task_status := forcedOutcome\<rparr>))
           (c1\<lparr>pendingReconciliations := AList.delete operationId (pendingReconciliations c1)\<rparr>))"

section \<open>Lemmas\<close>

lemma with_frame [simp]:
  "frozenAccounts (with_frozen f c) = frozenAccounts c"
  "pendingReconciliations (with_frozen f c) = pendingReconciliations c"
  "frozenAccounts (with_queue g c) = frozenAccounts c"
  "pendingReconciliations (with_queue g c) = pendingReconciliations c"
  "storage_ok (with_frozen f c) = storage_ok c" "storage_ok (with_queue g c) = storage_ok c"
  "frozen_table (with_queue g c) = frozen_table c" "queue_table (with_frozen f c) = queue_table c"
  by (simp_all add: with_frozen_def with_queue_def)

lemma frozen_cong [simp]:
  "isAccountFrozen a (with_frozen f c) = isAccountFrozen a c"
  "isAccountFrozen a (with_queue g c) = isAccountFrozen a c"
  "isAccountFrozen a (c\<lparr>pendingReconciliations := p\<rparr>) = isAccountFrozen a c"
  by (simp_all add: isAccountFrozen_def)

lemma frozen_freeze [simp]:
  "isAccountFrozen a (freezeAccount now a' op ik rs c) \<longleftrightarrow> isAccountFrozen a c \<or> (truthy a' \<and> a = a')"
  by (auto simp: freezeAccount_def Let_def isAccountFrozen_def update_conv')

lemma pending_freeze [simp]:
  "pendingReconciliations (freezeAccount now a' op ik rs c) = pendingReconciliations c"
  by (simp add: freezeAccount_def Let_def)

lemma frozen_unfreeze [simp]:
  "isAccountFrozen a (snd (unfreezeAccount a' c)) \<longleftrightarrow> isAccountFrozen a c \<and> \<not> (truthy a' \<and> a = a')"
  by (auto simp: unfreezeAccount_def isAccountFrozen_def delete_conv')

lemma pending_unfreeze [simp]:
  "pendingReconciliations (snd (unfreezeAccount a' c)) = pendingReconciliations c"
  by (simp add: unfreezeAccount_def)

lemma frozen_enqueue [simp]:
  "isAccountFrozen a (enqueueUncertainOperation now op a' ik rs dt c) \<longleftrightarrow>
     isAccountFrozen a c \<or> (truthy a' \<and> a = a')"
  by (simp add: enqueueUncertainOperation_def Let_def)

lemma frozen_resolve [simp]:
  "isAccountFrozen a (resolveTask op t st c) \<longleftrightarrow>
     isAccountFrozen a c \<and> \<not> (truthy (task_accountId t) \<and> a = task_accountId t)"
  by (simp add: resolveTask_def Let_def)

section \<open>Runs\<close>

datatype coord_op =
    Enqueue int jsval jsval jsval jsval jsval  \<comment> \<open>time, operation, account, key, reason, details\<close>
  | Request jsval
  | Report jsval resolution
  | Manual jsval task_status

fun coord_step :: "coord_op \<Rightarrow> coordinator \<Rightarrow> coordinator" where
  "coord_step (Enqueue now op a ik rs dt) c = enqueueUncertainOperation now op a ik rs dt c"
| "coord_step (Request op) c = snd (createReconcileRequest op c)"
| "coord_step (Report op res) c = snd (handleReconciliationReport op res c)"
| "coord_step (Manual op st) c = manualResolve op st c"

text \<open>The operation whose task a step resolves, if it resolves one.\<close>

fun resolves :: "coord_op \<Rightarrow> jsval option" where
  "resolves (Report op res) = (if res = STILL_PENDING then None else Some op)"
| "resolves (Manual op st) = Some op"
| "resolves _ = None"

definition releases :: "jsval \<Rightarrow> coord_op \<Rightarrow> coordinator \<Rightarrow> bool" where
  "releases a x c \<longleftrightarrow>
     (case resolves x of
        None \<Rightarrow> False
      | Some op \<Rightarrow> (case map_of (pendingReconciliations c) op of None \<Rightarrow> False | Some t \<Rightarrow> task_accountId t = a))"

fun enqueues :: "jsval \<Rightarrow> coord_op \<Rightarrow> bool" where
  "enqueues a (Enqueue now op a' ik rs dt) = (a' = a)"
| "enqueues a _ = False"

lemma frozen_step:
  assumes "truthy a"
  shows "isAccountFrozen a (coord_step x c) \<longleftrightarrow> (isAccountFrozen a c \<and> \<not> releases a x c) \<or> enqueues a x"
  using assms
  by (cases x)
    (auto simp: createReconcileRequest_def handleReconciliationReport_def manualResolve_def releases_def Let_def
       split: option.splits resolution.splits)

fun never_released :: "jsval \<Rightarrow> coord_op list \<Rightarrow> coordinator \<Rightarrow> bool" where
  "never_released a [] c = True"
| "never_released a (x # xs) c = (\<not> releases a x c \<and> never_released a xs (coord_step x c))"

lemma frozen_run:
  "truthy a \<Longrightarrow> isAccountFrozen a c \<Longrightarrow> never_released a xs c \<Longrightarrow> isAccountFrozen a (fold coord_step xs c)"
  by (induction xs arbitrary: c) (auto simp: frozen_step)

text \<open>No pending task names the account, and without an enqueue none ever will.\<close>

definition unnamed :: "jsval \<Rightarrow> coordinator \<Rightarrow> bool" where
  "unnamed a c \<longleftrightarrow> (\<forall>op t. map_of (pendingReconciliations c) op = Some t \<longrightarrow> task_accountId t \<noteq> a)"

lemma unnamed_step: "unnamed a c \<Longrightarrow> \<not> enqueues a x \<Longrightarrow> unnamed a (coord_step x c)"
  by (cases x)
    (auto simp: unnamed_def enqueueUncertainOperation_def createReconcileRequest_def handleReconciliationReport_def
       manualResolve_def resolveTask_def Let_def update_conv' delete_conv'
       split: option.splits resolution.splits if_splits)

lemma unnamed_releases: "unnamed a c \<Longrightarrow> \<not> releases a x c"
  by (auto simp: releases_def unnamed_def split: option.splits)

lemma unnamed_never_released:
  "unnamed a c \<Longrightarrow> \<forall>x \<in> set xs. \<not> enqueues a x \<Longrightarrow> never_released a xs c"
  by (induction xs arbitrary: c) (auto simp: unnamed_releases unnamed_step)

lemma pending_enqueue:
  "map_of (pendingReconciliations (enqueueUncertainOperation now op a ik rs dt c)) k =
     (if k = op then Some \<lparr>task_accountId = a, task_idempotencyKey = ik, task_status = QUEUED, enqueuedAt = now,
                           attempts = 0, details = dt\<rparr>
      else map_of (pendingReconciliations c) k)"
  by (simp add: enqueueUncertainOperation_def Let_def update_conv')

lemma pending_resolve:
  "map_of (pendingReconciliations (resolveTask op task st c)) k = (if k = op then None else map_of (pendingReconciliations c) k)"
  by (simp add: resolveTask_def Let_def delete_conv')

section \<open>Properties\<close>

text \<open>The single-flight freeze: an uncertain operation freezes its account at once, and the account
  stays frozen through any sequence of coordinator operations until one resolves a pending task of that
  account; reports that the order is still pending never lift the freeze.\<close>

theorem frozen_until_resolved:
  assumes "truthy a" and "never_released a xs (enqueueUncertainOperation now op a ik rs dt c)"
  shows "isAccountFrozen a (fold coord_step xs (enqueueUncertainOperation now op a ik rs dt c))"
  using assms by (intro frozen_run) simp_all

definition empty_coordinator :: coordinator where
  "empty_coordinator = \<lparr>frozenAccounts = [], pendingReconciliations = [], frozen_table = Some [],
     queue_table = Some [], storage_ok = True\<rparr>"

theorem frozen_until_resolved_witness:
  "isAccountFrozen (JStr ''acc'') (fold coord_step
     [Request (JStr ''o1''), Report (JStr ''o1'') STILL_PENDING, Enqueue 9 (JStr ''o2'') (JStr ''b'') JNull JNull JNull,
      Report (JStr ''o2'') RESOLVED_LOST]
     (enqueueUncertainOperation 5 (JStr ''o1'') (JStr ''acc'') JNull JNull JNull empty_coordinator))"
proof (rule frozen_until_resolved)
  show "never_released (JStr ''acc'')
     [Request (JStr ''o1''), Report (JStr ''o1'') STILL_PENDING, Enqueue 9 (JStr ''o2'') (JStr ''b'') JNull JNull JNull,
      Report (JStr ''o2'') RESOLVED_LOST]
     (enqueueUncertainOperation 5 (JStr ''o1'') (JStr ''acc'') JNull JNull JNull empty_coordinator)" by code_simp
qed simp

text \<open>A freeze is lifted too early: when two uncertain operations are pending on one account,
  resolving either of them unfreezes the account while the other is still pending.\<close>

theorem freeze_lifted_early:
  assumes "truthy a" and "op1 \<noteq> op2" and "res \<noteq> STILL_PENDING"
    and "c2 = enqueueUncertainOperation t2 op2 a ik2 rs2 dt2 (enqueueUncertainOperation t1 op1 a ik1 rs1 dt1 c)"
  shows "\<not> isAccountFrozen a (snd (handleReconciliationReport op1 res c2)) \<and>
    map_of (pendingReconciliations (snd (handleReconciliationReport op1 res c2))) op2 \<noteq> None"
proof -
  have p1: "map_option task_accountId (map_of (pendingReconciliations c2) op1) = Some a"
    and p2: "map_of (pendingReconciliations c2) op2 \<noteq> None"
    using assms(2) by (simp_all add: assms(4) pending_enqueue)
  then obtain task where t: "map_of (pendingReconciliations c2) op1 = Some task" "task_accountId task = a" by auto
  have "snd (handleReconciliationReport op1 res c2) \<in> {resolveTask op1 task TASK_COMPLETED c2, resolveTask op1 task TASK_FAILED c2}"
    using assms(3) t(1) by (cases res) (simp_all add: handleReconciliationReport_def)
  moreover have "\<not> isAccountFrozen a (resolveTask op1 task st c2)" for st using assms(1) t(2) by simp
  moreover have "map_of (pendingReconciliations (resolveTask op1 task st c2)) op2 = map_of (pendingReconciliations c2) op2" for st
    using assms(2) by (simp add: pending_resolve)
  ultimately show ?thesis using p2 by auto
qed

theorem freeze_lifted_early_witness:
  "\<exists>c2. c2 = enqueueUncertainOperation 2 (JStr ''o2'') (JStr ''a'') JNull JNull JNull
          (enqueueUncertainOperation 1 (JStr ''o1'') (JStr ''a'') JNull JNull JNull empty_coordinator) \<and>
    \<not> isAccountFrozen (JStr ''a'') (snd (handleReconciliationReport (JStr ''o1'') RESOLVED_LOST c2)) \<and>
    map_of (pendingReconciliations (snd (handleReconciliationReport (JStr ''o1'') RESOLVED_LOST c2))) (JStr ''o2'') \<noteq> None"
  using freeze_lifted_early [OF _ _ _ refl, of "JStr ''a''" "JStr ''o1''" "JStr ''o2''" RESOLVED_LOST] by fastforce

text \<open>An account is stranded: when one operation is uncertain on two accounts, the pending task of the
  first is overwritten by that of the second, and no sequence of requests, reports and manual
  resolutions ever unfreezes the first account.\<close>

theorem account_stranded:
  assumes "truthy a1" and "a1 \<noteq> a2" and "pendingReconciliations c = []" and "\<forall>x \<in> set xs. \<not> enqueues a1 x"
  shows "isAccountFrozen a1 (fold coord_step xs
    (enqueueUncertainOperation t2 op a2 ik rs dt2 (enqueueUncertainOperation t1 op a1 ik rs dt1 c)))"
proof -
  let ?c = "enqueueUncertainOperation t2 op a2 ik rs dt2 (enqueueUncertainOperation t1 op a1 ik rs dt1 c)"
  have "unnamed a1 ?c"
    using assms(2,3) by (auto simp: unnamed_def enqueueUncertainOperation_def Let_def split: if_splits)
  with assms(1,4) show ?thesis by (intro frozen_run unnamed_never_released) simp_all
qed

theorem account_stranded_witness:
  "isAccountFrozen (JStr ''a1'') (fold coord_step [Report (JStr ''o'') RESOLVED_COMMITTED, Manual (JStr ''o'') TASK_FAILED]
    (enqueueUncertainOperation 1 (JStr ''o'') (JStr ''a2'') JNull JNull JNull
      (enqueueUncertainOperation 1 (JStr ''o'') (JStr ''a1'') JNull JNull JNull empty_coordinator)))"
  by (rule account_stranded) (simp_all add: empty_coordinator_def)

end
