(* ===== verification/Watchdog.thy ===== *)
theory Watchdog
  imports JsPrelude
begin

text \<open>
  The liveness watchdog of the execution plane
  (\<^verbatim>\<open>runtime-manager/boundary/watchdogMonitor.mjs\<close>). The events an operation emits are returned with
  the new state, in order.
\<close>

datatype liveness = OFFLINE | HEALTHY | UNRESPONSIVE | DEGRADED | QUARANTINE_REQUIRED

datatype watchdog_event =
    LivenessRecovered liveness
  | HeartbeatSeen
  | LivenessWarning
  | LivenessDegraded
  | QuarantineRequired

record watchdog =
  warningTimeoutMs :: int
  degradedTimeoutMs :: int
  quarantineTimeoutMs :: int
  livenessState :: liveness
  lastHeartbeatTimestamp :: int
  timer_running :: bool

definition default_watchdog :: watchdog where
  "default_watchdog = \<lparr>warningTimeoutMs = 6000, degradedTimeoutMs = 12000, quarantineTimeoutMs = 25000,
     livenessState = OFFLINE, lastHeartbeatTimestamp = 0, timer_running = False\<rparr>"

definition reset :: "watchdog \<Rightarrow> watchdog" where
  "reset w = w\<lparr>livenessState := OFFLINE, lastHeartbeatTimestamp := 0\<rparr>"

definition start :: "watchdog \<Rightarrow> watchdog" where
  "start w = (reset w)\<lparr>timer_running := True\<rparr>"

definition stop :: "watchdog \<Rightarrow> watchdog" where
  "stop w = reset (w\<lparr>timer_running := False\<rparr>)"

definition recordHeartbeat :: "int \<Rightarrow> watchdog \<Rightarrow> watchdog_event list \<times> watchdog" where
  "recordHeartbeat now w =
     ((if livenessState w \<in> {UNRESPONSIVE, DEGRADED, QUARANTINE_REQUIRED}
       then [LivenessRecovered (livenessState w)] else []) @ [HeartbeatSeen],
      w\<lparr>lastHeartbeatTimestamp := now, livenessState := HEALTHY\<rparr>)"

definition checkLiveness :: "int \<Rightarrow> watchdog \<Rightarrow> watchdog_event list \<times> watchdog" where
  "checkLiveness now w =
     (if lastHeartbeatTimestamp w = 0 then ([], w)
      else let elapsed = now - lastHeartbeatTimestamp w in
           if elapsed \<ge> quarantineTimeoutMs w
           then (if livenessState w \<noteq> QUARANTINE_REQUIRED
                 then ([QuarantineRequired], w\<lparr>livenessState := QUARANTINE_REQUIRED\<rparr>) else ([], w))
           else if elapsed \<ge> degradedTimeoutMs w
           then (if livenessState w \<noteq> DEGRADED \<and> livenessState w \<noteq> QUARANTINE_REQUIRED
                 then ([LivenessDegraded], w\<lparr>livenessState := DEGRADED\<rparr>) else ([], w))
           else if elapsed \<ge> warningTimeoutMs w
           then (if livenessState w = HEALTHY
                 then ([LivenessWarning], w\<lparr>livenessState := UNRESPONSIVE\<rparr>) else ([], w))
           else ([], w))"

definition isHealthy :: "watchdog \<Rightarrow> bool" where
  "isHealthy w \<longleftrightarrow> livenessState w = HEALTHY"

definition watchdogDegraded :: "watchdog \<Rightarrow> bool" where
  "watchdogDegraded w \<longleftrightarrow> livenessState w = DEGRADED \<or> livenessState w = QUARANTINE_REQUIRED"

section \<open>Severity order\<close>

fun severity_rank :: "liveness \<Rightarrow> nat" where
  "severity_rank OFFLINE = 0"
| "severity_rank HEALTHY = 1"
| "severity_rank UNRESPONSIVE = 2"
| "severity_rank DEGRADED = 3"
| "severity_rank QUARANTINE_REQUIRED = 4"

lemma severity_rank_inject [simp]: "severity_rank a = severity_rank b \<longleftrightarrow> a = b"
  by (cases a; cases b) simp_all

instantiation liveness :: linorder
begin

definition less_eq_liveness :: "liveness \<Rightarrow> liveness \<Rightarrow> bool" where
  "less_eq_liveness a b \<longleftrightarrow> severity_rank a \<le> severity_rank b"

definition less_liveness :: "liveness \<Rightarrow> liveness \<Rightarrow> bool" where
  "less_liveness a b \<longleftrightarrow> severity_rank a < severity_rank b"

instance
  by standard (auto simp: less_eq_liveness_def less_liveness_def)

end

section \<open>The tier a silence deserves\<close>

definition tier :: "watchdog \<Rightarrow> int \<Rightarrow> liveness" where
  "tier w elapsed =
     (if elapsed \<ge> quarantineTimeoutMs w then QUARANTINE_REQUIRED
      else if elapsed \<ge> degradedTimeoutMs w then DEGRADED
      else if elapsed \<ge> warningTimeoutMs w then UNRESPONSIVE
      else HEALTHY)"

fun alert_of :: "liveness \<Rightarrow> watchdog_event list" where
  "alert_of UNRESPONSIVE = [LivenessWarning]"
| "alert_of DEGRADED = [LivenessDegraded]"
| "alert_of QUARANTINE_REQUIRED = [QuarantineRequired]"
| "alert_of _ = []"

definition ordered_timeouts :: "watchdog \<Rightarrow> bool" where
  "ordered_timeouts w \<longleftrightarrow> 0 < warningTimeoutMs w \<and> warningTimeoutMs w \<le> degradedTimeoutMs w \<and>
     degradedTimeoutMs w \<le> quarantineTimeoutMs w"

lemma tier_mono: "ordered_timeouts w \<Longrightarrow> a \<le> b \<Longrightarrow> tier w a \<le> tier w b"
  by (auto simp: tier_def less_eq_liveness_def ordered_timeouts_def)

lemma liveness_frame [simp]:
  "warningTimeoutMs (snd (checkLiveness now w)) = warningTimeoutMs w"
  "degradedTimeoutMs (snd (checkLiveness now w)) = degradedTimeoutMs w"
  "quarantineTimeoutMs (snd (checkLiveness now w)) = quarantineTimeoutMs w"
  "lastHeartbeatTimestamp (snd (checkLiveness now w)) = lastHeartbeatTimestamp w"
  by (simp_all add: checkLiveness_def Let_def)

lemma tier_check [simp]: "tier (snd (checkLiveness now w)) = tier w"
  by (simp add: tier_def fun_eq_iff)

text \<open>One check moves the state from the tier of the last check to the tier of this one, and raises the
  alert of the new tier exactly when it changes.\<close>

lemma check_tier:
  assumes "ordered_timeouts w" and "lastHeartbeatTimestamp w \<noteq> 0"
    and "livenessState w = tier w e" and "e \<le> now - lastHeartbeatTimestamp w"
  shows "livenessState (snd (checkLiveness now w)) = tier w (now - lastHeartbeatTimestamp w)"
    and "fst (checkLiveness now w) =
      (if tier w e = tier w (now - lastHeartbeatTimestamp w) then []
       else alert_of (tier w (now - lastHeartbeatTimestamp w)))"
  using assms by (auto simp: checkLiveness_def tier_def ordered_timeouts_def Let_def)

fun checks :: "int list \<Rightarrow> watchdog \<Rightarrow> watchdog_event list \<times> watchdog" where
  "checks [] w = ([], w)"
| "checks (t # ts) w =
     (case checkLiveness t w of (ev, w1) \<Rightarrow> (case checks ts w1 of (evs, w2) \<Rightarrow> (ev @ evs, w2)))"

fun event_rank :: "watchdog_event \<Rightarrow> nat" where
  "event_rank LivenessWarning = 2"
| "event_rank LivenessDegraded = 3"
| "event_rank QuarantineRequired = 4"
| "event_rank _ = 0"

lemma alert_rank: "x \<in> set (alert_of s) \<Longrightarrow> event_rank x = severity_rank s"
  by (cases s) simp_all

lemma checks_tier:
  assumes "ordered_timeouts w" and "lastHeartbeatTimestamp w \<noteq> 0"
    and "livenessState w = tier w e" and "sorted ts" and "\<forall>t \<in> set ts. e \<le> t - lastHeartbeatTimestamp w"
  shows "livenessState (snd (checks ts w)) =
      tier w (if ts = [] then e else last ts - lastHeartbeatTimestamp w) \<and>
    sorted_wrt (<) (map event_rank (fst (checks ts w))) \<and>
    (\<forall>x \<in> set (fst (checks ts w)). severity_rank (tier w e) < event_rank x)"
  using assms
proof (induction ts arbitrary: w e)
  case (Cons t ts)
  obtain ev w1 where c: "checkLiveness t w = (ev, w1)" by fastforce
  let ?e = "t - lastHeartbeatTimestamp w"
  have fr: "ordered_timeouts w1" "lastHeartbeatTimestamp w1 = lastHeartbeatTimestamp w" "tier w1 = tier w"
    using Cons.prems(1) liveness_frame [of t w] tier_check [of t w] c by (simp_all add: ordered_timeouts_def)
  have e: "e \<le> ?e" using Cons.prems(5) by simp
  have st: "livenessState w1 = tier w ?e"
    and ev: "ev = (if tier w e = tier w ?e then [] else alert_of (tier w ?e))"
    using check_tier [OF Cons.prems(1-3) e] c by simp_all
  have le: "severity_rank (tier w e) \<le> severity_rank (tier w ?e)"
    using tier_mono [OF Cons.prems(1) e] by (simp add: less_eq_liveness_def)
  have ih: "livenessState (snd (checks ts w1)) =
      tier w (if ts = [] then ?e else last ts - lastHeartbeatTimestamp w) \<and>
    sorted_wrt (<) (map event_rank (fst (checks ts w1))) \<and>
    (\<forall>x \<in> set (fst (checks ts w1)). severity_rank (tier w ?e) < event_rank x)"
    using Cons.IH [of w1 ?e] fr st Cons.prems(2,4) by simp
  have "\<forall>x \<in> set ev. event_rank x = severity_rank (tier w ?e) \<and> severity_rank (tier w e) < event_rank x"
    using ev alert_rank le by (auto simp: le_less)
  moreover have "length ev \<le> 1" using ev by (cases "tier w ?e") simp_all
  then have "sorted_wrt (<) (map event_rank ev)"
    by (cases ev) simp_all
  moreover have "\<forall>x \<in> set (fst (checks ts w1)). severity_rank (tier w e) < event_rank x"
    using ih le by fastforce
  ultimately show ?case
    using ih c by (auto simp: sorted_wrt_append split: prod.splits)
qed simp

section \<open>Properties\<close>

text \<open>The watchdog classifies silence exactly: after a heartbeat, whatever sequence of periodic checks
  ran, the liveness state is the tier of the time elapsed at the last check, and the alerts raised on the
  way are each raised once, in order of severity.\<close>

theorem watchdog_classifies_silence:
  assumes "ordered_timeouts w" and "t0 \<noteq> 0" and "sorted (t0 # ts)" and "ts \<noteq> []"
  shows "livenessState (snd (checks ts (snd (recordHeartbeat t0 w)))) = tier w (last ts - t0) \<and>
    sorted_wrt (<) (map event_rank (fst (checks ts (snd (recordHeartbeat t0 w)))))"
proof -
  let ?w = "snd (recordHeartbeat t0 w)"
  have "ordered_timeouts ?w" "lastHeartbeatTimestamp ?w = t0" "livenessState ?w = tier ?w 0" "tier ?w = tier w"
    using assms(1) by (auto simp: recordHeartbeat_def ordered_timeouts_def tier_def fun_eq_iff)
  with checks_tier [of ?w 0 ts] assms(2-4) show ?thesis by auto
qed

theorem watchdog_classifies_silence_witness:
  "livenessState (snd (checks [5600, 6100, 12500, 30000] (snd (recordHeartbeat 100 default_watchdog)))) =
     tier default_watchdog (last [5600, 6100, 12500, 30000] - 100) \<and>
   sorted_wrt (<) (map event_rank (fst (checks [5600, 6100, 12500, 30000] (snd (recordHeartbeat 100 default_watchdog)))))"
  by (rule watchdog_classifies_silence) (simp_all add: ordered_timeouts_def default_watchdog_def)

end
