(* ===== verification/ExecutionBoundary.thy ===== *)
theory ExecutionBoundary
  imports IdempotencyLedger UncertainOperations Watchdog
begin

text \<open>
  The boundary to the execution plane: the pipe transport (\<^verbatim>\<open>pipeTransport.mjs\<close>), the envelope check of
  \<^verbatim>\<open>executionProtocol.mjs\<close>, and the boundary manager (\<^verbatim>\<open>executionBoundaryManager.mjs\<close>) that composes the
  ledger, the coordinator and the watchdog.

  Arguments stand for what the surroundings answer: \<open>degraded\<close> for the security facade, \<open>io\<close> for the
  native pipe, message identifiers for \<^verbatim>\<open>ulid()\<close>. Notifications to listeners carry no state of these
  components and are left out, except the two watchdog alerts that set the engine status.
\<close>

section \<open>Pipe transport\<close>

record pipe_io =
  server_starts :: bool            \<comment> \<open>\<^verbatim>\<open>startSecurePipeServer\<close> does not throw\<close>
  write_succeeds :: "nat \<Rightarrow> bool"   \<comment> \<open>\<^verbatim>\<open>writePipe\<close> per connection\<close>

record transport =
  activeConnections :: "nat list"
  isListening :: bool
  wire :: "(nat \<times> string \<times> jsval) list"   \<comment> \<open>successful writes: connection, message type, payload\<close>

definition transportStart :: "pipe_io \<Rightarrow> transport \<Rightarrow> transport option" where
  "transportStart io t =
     (if isListening t then Some t
      else if server_starts io then Some (t\<lparr>isListening := True\<rparr>) else None)"

definition transportStop :: "transport \<Rightarrow> transport" where
  "transportStop t = (if \<not> isListening t then t else t\<lparr>activeConnections := [], isListening := False\<rparr>)"

definition broadcast :: "pipe_io \<Rightarrow> string \<Rightarrow> jsval \<Rightarrow> transport \<Rightarrow> nat \<times> transport" where
  "broadcast io ty payload t =
     (let reached = filter (write_succeeds io) (activeConnections t)
      in (length reached, t\<lparr>wire := wire t @ map (\<lambda>c. (c, ty, payload)) reached\<rparr>))"

definition onConnect :: "nat \<Rightarrow> transport \<Rightarrow> transport" where
  "onConnect c t = (if c \<in> set (activeConnections t) then t else t\<lparr>activeConnections := activeConnections t @ [c]\<rparr>)"

definition onDisconnect :: "nat \<Rightarrow> transport \<Rightarrow> transport" where
  "onDisconnect c t = t\<lparr>activeConnections := removeAll c (activeConnections t)\<rparr>"

section \<open>Envelopes\<close>

definition nonempty_string :: "jsval \<Rightarrow> bool" where
  "nonempty_string v = (case v of JStr s \<Rightarrow> s \<noteq> [] | _ \<Rightarrow> False)"

definition positive_number :: "jsval \<Rightarrow> bool" where
  "positive_number v = (case v of JNum n \<Rightarrow> n \<noteq> NaN \<and> num_less (Fin 0) n | _ \<Rightarrow> False)"

definition validateExecutionEnvelope :: "jsval \<Rightarrow> bool" where
  "validateExecutionEnvelope raw \<longleftrightarrow>
     truthy raw \<and> typeof_object raw \<and>
     nonempty_string (js_get raw ''msgId'') \<and> nonempty_string (js_get raw ''traceId'') \<and>
     nonempty_string (js_get raw ''type'') \<and> positive_number (js_get raw ''timestamp'') \<and>
     js_get raw ''source'' \<in> {JStr ''CONTROL_PLANE'', JStr ''EXECUTION_PLANE''} \<and>
     js_get raw ''payload'' \<noteq> JNull \<and> typeof_object (js_get raw ''payload'')"

section \<open>State of the manager\<close>

record pending_reply =
  pend_type :: string
  pend_traceId :: string

record in_flight_op =
  ifo_idempotencyKey :: jsval
  ifo_accountId :: jsval
  ifo_targetAccounts :: "jsval list"

record boundary =
  transport :: transport
  idempotency :: ledger
  reconciliation :: coordinator
  watch :: watchdog
  engineStatus :: jsval
  activeBrowserCount :: jsnum
  pendingCorrelations :: "(string, pending_reply) jsmap"
  inFlightOperations :: "(jsval, in_flight_op) jsmap"

datatype boundary_error =
    SystemDegraded | WatchdogAlert | AccountFrozen string | BetCycleDisabled | InvalidStake | InvalidOdds
  | ServerStartFailed | NothingToReconcile | HandshakeFailed

text \<open>What a dispatch returns: whether it reached a client, a promise that waits for the reply, or a
  promise already rejected for want of a connection.\<close>

datatype dispatched = SentNow bool | AwaitingReply | NoConnection

section \<open>Lifecycle and dispatch\<close>

definition startServer :: "pipe_io \<Rightarrow> boundary \<Rightarrow> boundary option" where
  "startServer io b =
     (case transportStart io (transport b) of
        None \<Rightarrow> None
      | Some t \<Rightarrow> Some (b\<lparr>transport := t, watch := start (watch b)\<rparr>))"

definition stopServer :: "boundary \<Rightarrow> boundary" where
  "stopServer b =
     b\<lparr>watch := stop (watch b), transport := transportStop (transport b), pendingCorrelations := [],
       engineStatus := JStr ''OFFLINE'', activeBrowserCount := Fin 0\<rparr>"

definition dispatchEnvelope ::
  "pipe_io \<Rightarrow> string \<Rightarrow> string \<Rightarrow> bool \<Rightarrow> string \<Rightarrow> jsval \<Rightarrow> boundary \<Rightarrow> (boundary_error + dispatched) \<times> boundary" where
  "dispatchEnvelope io msgId traceId waitForAck ty payload b =
     (case startServer io b of
        None \<Rightarrow> (Inl ServerStartFailed, b)
      | Some b1 \<Rightarrow>
          (case broadcast io ty payload (transport b1) of
             (sent, t) \<Rightarrow>
               let b2 = b1\<lparr>transport := t\<rparr> in
               if \<not> waitForAck then (Inr (SentNow (sent > 0)), b2)
               else let b3 = b2\<lparr>pendingCorrelations :=
                          AList.update msgId \<lparr>pend_type = ty, pend_traceId = traceId\<rparr> (pendingCorrelations b2)\<rparr>
                    in if sent = 0
                       then (Inr NoConnection, b3\<lparr>pendingCorrelations := AList.delete msgId (pendingCorrelations b3)\<rparr>)
                       else (Inr AwaitingReply, b3)))"

definition commandTimeout :: "string \<Rightarrow> boundary \<Rightarrow> boundary" where
  "commandTimeout msgId b = b\<lparr>pendingCorrelations := AList.delete msgId (pendingCorrelations b)\<rparr>"

definition stopCluster ::
  "pipe_io \<Rightarrow> string \<Rightarrow> string \<Rightarrow> bool \<Rightarrow> int \<Rightarrow> boundary \<Rightarrow> (boundary_error + dispatched) \<times> boundary" where
  "stopCluster io msgId traceId waitForAck timeoutMs b =
     dispatchEnvelope io msgId traceId waitForAck ''LIFECYCLE:STOP_CLUSTER''
       (JObj [(''timeoutMs'', JNum (Fin (of_int timeoutMs)))]) (b\<lparr>watch := stop (watch b)\<rparr>)"

definition watchdogTick :: "int \<Rightarrow> boundary \<Rightarrow> boundary" where
  "watchdogTick now b =
     (case checkLiveness now (watch b) of
        (evs, w) \<Rightarrow>
          b\<lparr>watch := w,
            engineStatus := (if QuarantineRequired \<in> set evs then JStr ''DEGRADED_HALTED''
                             else if LivenessDegraded \<in> set evs then JStr ''DEGRADED'' else engineStatus b)\<rparr>)"

section \<open>Bets\<close>

record bet_payload =
  bp_idempotencyKey :: "string option"
  bp_operationId :: "string option"
  bp_accountId :: "string option"
  bp_targetAccounts :: "string list option"
  bp_stake :: jsval
  bp_odds :: jsval
  bp_forceRetry :: bool
  bp_rest :: "(string \<times> jsval) list"

definition truthy_or :: "string option \<Rightarrow> string \<Rightarrow> string" where
  "truthy_or s d = (case s of Some (c # cs) \<Rightarrow> c # cs | _ \<Rightarrow> d)"

definition bet_key :: "int \<Rightarrow> string option \<Rightarrow> string option \<Rightarrow> string" where
  "bet_key now key operationId =
     truthy_or key (''idem_'' @ truthy_or operationId (dec_string (nat now)))"

definition bet_operation :: "int \<Rightarrow> string option \<Rightarrow> string" where
  "bet_operation now operationId = truthy_or operationId (''op_'' @ dec_string (nat now))"

definition bet_targets :: "bet_payload \<Rightarrow> string list" where
  "bet_targets p =
     (case bp_targetAccounts p of
        Some xs \<Rightarrow> xs
      | None \<Rightarrow> (case bp_accountId p of Some (c # cs) \<Rightarrow> [c # cs] | _ \<Rightarrow> []))"

definition json_of :: "string option \<Rightarrow> jsval" where
  "json_of s = (case s of None \<Rightarrow> JUndef | Some x \<Rightarrow> JStr x)"

text \<open>\<^verbatim>\<open>{ ...base, k: v, ... }\<close>.\<close>

definition spread :: "(string \<times> jsval) list \<Rightarrow> (string \<times> jsval) list \<Rightarrow> jsval" where
  "spread base members = JObj (fold (\<lambda>(k, v). AList.update k v) members base)"

definition bet_json :: "bet_payload \<Rightarrow> string \<Rightarrow> string \<Rightarrow> jsval" where
  "bet_json p opId key =
     spread (bp_rest p)
       [(''accountId'', json_of (bp_accountId p)), (''stake'', bp_stake p), (''odds'', bp_odds p),
        (''forceRetry'', JBool (bp_forceRetry p)), (''operationId'', JStr opId), (''idempotencyKey'', JStr key),
        (''targetAccounts'', JArr (map JStr (bet_targets p)))]"

datatype bet_outcome = Duplicate ledger_status jsval | Dispatched dispatched

text \<open>The duplicate answer for a known key; \<open>None\<close> lets the bet go on.\<close>

definition duplicate_answer :: "bool \<Rightarrow> ledger_record option \<Rightarrow> bet_outcome option" where
  "duplicate_answer forceRetry chk =
     (case chk of
        None \<Rightarrow> None
      | Some r \<Rightarrow>
          (case rec_status r of
             IN_FLIGHT \<Rightarrow> Some (Duplicate IN_FLIGHT JUndef)
           | COMPLETED \<Rightarrow> Some (Duplicate COMPLETED (cachedResult r))
           | UNCERTAIN \<Rightarrow> Some (Duplicate UNCERTAIN (cachedResult r))
           | FAILED \<Rightarrow> if forceRetry then None else Some (Duplicate FAILED (cachedResult r))))"

text \<open>The accounts of the state store with their bet-cycle override; \<open>None\<close> without a store.\<close>

record bet_account =
  acc_id :: string
  acc_username :: string
  betCycleEnabled :: bool

definition bet_cycle_ok :: "bet_account list option \<Rightarrow> string list \<Rightarrow> bool" where
  "bet_cycle_ok accounts targets =
     (case accounts of
        None \<Rightarrow> True
      | Some xs \<Rightarrow>
          let toCheck = (if targets \<noteq> []
                         then filter (\<lambda>a. acc_id a \<in> set targets \<or> acc_username a \<in> set targets) xs else xs)
          in toCheck = [] \<or> list_ex betCycleEnabled toCheck)"

definition stake_ok :: "jsval \<Rightarrow> bool" where
  "stake_ok v = (case v of JUndef \<Rightarrow> True | JNum n \<Rightarrow> is_finite_num n \<and> num_less (Fin 0) n | _ \<Rightarrow> False)"

definition odds_ok :: "jsval \<Rightarrow> bool" where
  "odds_ok v = (case v of JUndef \<Rightarrow> True | JNum n \<Rightarrow> is_finite_num n \<and> num_less (Fin 1) n | _ \<Rightarrow> False)"

definition launch ::
  "pipe_io \<Rightarrow> string \<Rightarrow> string \<Rightarrow> bool \<Rightarrow> int \<Rightarrow> string \<Rightarrow> string \<Rightarrow> string \<Rightarrow> jsval \<Rightarrow> jsval \<Rightarrow> string list
     \<Rightarrow> boundary \<Rightarrow> (boundary_error + bet_outcome) \<times> boundary" where
  "launch io msgId traceId waitForAck now ty key opId payload account targets b =
     (let b1 = b\<lparr>idempotency := recordInFlight now (JStr key) (JStr opId) payload (idempotency b),
                 inFlightOperations := AList.update (JStr opId)
                   \<lparr>ifo_idempotencyKey = JStr key, ifo_accountId = account, ifo_targetAccounts = map JStr targets\<rparr>
                   (inFlightOperations b)\<rparr>
      in case dispatchEnvelope io msgId traceId waitForAck ty payload b1 of
           (Inl e, b2) \<Rightarrow> (Inl e, b2)
         | (Inr d, b2) \<Rightarrow> (Inr (Dispatched d), b2))"

definition placeBet ::
  "pipe_io \<Rightarrow> string \<Rightarrow> string \<Rightarrow> bool \<Rightarrow> bool \<Rightarrow> bet_account list option \<Rightarrow> int \<Rightarrow> bet_payload
     \<Rightarrow> boundary \<Rightarrow> (boundary_error + bet_outcome) \<times> boundary" where
  "placeBet io msgId traceId waitForAck degraded accounts now p b =
     (if degraded then (Inl SystemDegraded, b)
      else if watchdogDegraded (watch b) then (Inl WatchdogAlert, b)
      else let targets = bet_targets p;
               key = bet_key now (bp_idempotencyKey p) (bp_operationId p);
               opId = bet_operation now (bp_operationId p)
           in case check now (JStr key) (idempotency b) of
                (chk, l1) \<Rightarrow>
                  let b1 = b\<lparr>idempotency := l1\<rparr> in
                  (case duplicate_answer (bp_forceRetry p) chk of
                     Some out \<Rightarrow> (Inr out, b1)
                   | None \<Rightarrow>
                       (case find (\<lambda>a. isAccountFrozen (JStr a) (reconciliation b)) targets of
                          Some a \<Rightarrow> (Inl (AccountFrozen a), b1)
                        | None \<Rightarrow>
                            if \<not> bet_cycle_ok accounts targets then (Inl BetCycleDisabled, b1)
                            else if \<not> stake_ok (bp_stake p) then (Inl InvalidStake, b1)
                            else if \<not> odds_ok (bp_odds p) then (Inl InvalidOdds, b1)
                            else launch io msgId traceId waitForAck now ''TACTICAL:PLACE_BET'' key opId
                                   (bet_json p opId key) (json_of (bp_accountId p)) targets b1)))"

record cashout_payload =
  co_idempotencyKey :: "string option"
  co_operationId :: "string option"
  co_accountId :: "string option"
  co_targetAccount :: "string option"
  co_forceRetry :: bool
  co_rest :: "(string \<times> jsval) list"

definition cashout_target :: "cashout_payload \<Rightarrow> string option" where
  "cashout_target p =
     (case co_accountId p of Some (c # cs) \<Rightarrow> Some (c # cs) | _ \<Rightarrow> co_targetAccount p)"

definition cashOut ::
  "pipe_io \<Rightarrow> string \<Rightarrow> string \<Rightarrow> bool \<Rightarrow> bool \<Rightarrow> int \<Rightarrow> cashout_payload
     \<Rightarrow> boundary \<Rightarrow> (boundary_error + bet_outcome) \<times> boundary" where
  "cashOut io msgId traceId waitForAck degraded now p b =
     (if degraded then (Inl SystemDegraded, b)
      else if watchdogDegraded (watch b) then (Inl WatchdogAlert, b)
      else let target = cashout_target p;
               key = bet_key now (co_idempotencyKey p) (co_operationId p);
               opId = bet_operation now (co_operationId p);
               named = (case target of Some (c # cs) \<Rightarrow> [c # cs] | _ \<Rightarrow> [])
           in case check now (JStr key) (idempotency b) of
                (chk, l1) \<Rightarrow>
                  let b1 = b\<lparr>idempotency := l1\<rparr> in
                  (case duplicate_answer (co_forceRetry p) chk of
                     Some out \<Rightarrow> (Inr out, b1)
                   | None \<Rightarrow>
                       (case find (\<lambda>a. isAccountFrozen (JStr a) (reconciliation b)) named of
                          Some a \<Rightarrow> (Inl (AccountFrozen a), b1)
                        | None \<Rightarrow>
                            launch io msgId traceId waitForAck now ''TACTICAL:CASH_OUT'' key opId
                              (spread (co_rest p) [(''operationId'', JStr opId), (''idempotencyKey'', JStr key),
                                 (''accountId'', json_of target)])
                              (json_of target) named b1)))"

section \<open>Other commands\<close>

definition guardedDispatch ::
  "pipe_io \<Rightarrow> string \<Rightarrow> string \<Rightarrow> bool \<Rightarrow> bool \<Rightarrow> string \<Rightarrow> jsval \<Rightarrow> boundary
     \<Rightarrow> (boundary_error + dispatched) \<times> boundary" where
  "guardedDispatch io msgId traceId waitForAck degraded ty payload b =
     (if degraded then (Inl SystemDegraded, b)
      else dispatchEnvelope io msgId traceId waitForAck ty payload b)"

definition validateTactical where
  "validateTactical io msgId traceId waitForAck degraded payload b =
     guardedDispatch io msgId traceId waitForAck degraded ''TACTICAL:VALIDATE'' payload b"

definition deactivateAccount where
  "deactivateAccount io msgId traceId waitForAck degraded payload b =
     guardedDispatch io msgId traceId waitForAck degraded ''FLEET:DEACTIVATE_ACCOUNT'' payload b"

definition setBetCycle where
  "setBetCycle io msgId traceId waitForAck degraded targetBrowserId isEnabled b =
     guardedDispatch io msgId traceId waitForAck degraded ''FLEET:SET_BET_CYCLE''
       (JObj [(''targetBrowserId'', targetBrowserId), (''isEnabled'', isEnabled)]) b"

text \<open>The policy commands; \<open>accountId\<close>, \<open>target\<close>, \<open>browserId\<close> and \<open>operationId\<close> are members of the options.\<close>

definition updatePolicy where
  "updatePolicy io msgId traceId waitForAck degraded now options category vals b =
     guardedDispatch io msgId traceId waitForAck degraded ''CONFIG:UPDATE_POLICY''
       (JObj [(''target'', js_or (js_get options ''accountId'') (js_or (js_get options ''target'')
                            (js_or (js_get options ''browserId'') (JStr ''ALL'')))),
              (''category'', category), (''values'', vals),
              (''operationId'', js_or (js_get options ''operationId'') (JStr (''op_pol_'' @ dec_string (nat now))))]) b"

definition resetPolicy where
  "resetPolicy io msgId traceId waitForAck degraded now options target b =
     guardedDispatch io msgId traceId waitForAck degraded ''CONFIG:RESET_POLICY''
       (JObj [(''target'', js_or target (js_or (js_get options ''accountId'') (js_get options ''target''))),
              (''operationId'', js_or (js_get options ''operationId'') (JStr (''op_rst_'' @ dec_string (nat now))))]) b"

definition captureSnapshot where
  "captureSnapshot io msgId traceId waitForAck b =
     dispatchEnvelope io msgId traceId waitForAck ''DIAGNOSTIC:CAPTURE_SNAPSHOT'' (JObj []) b"

definition initialize_plane where
  "initialize_plane io msgId traceId waitForAck payload b =
     dispatchEnvelope io msgId traceId waitForAck ''LIFECYCLE:INITIALIZE'' payload
       (b\<lparr>engineStatus := JStr ''INITIALIZING''\<rparr>)"

text \<open>\<open>handshake\<close> is how the wait for a client ends when none is connected yet.\<close>

definition startCluster where
  "startCluster io msgId traceId waitForAck degraded handshake payload b =
     (if degraded then (Inl SystemDegraded, b)
      else if activeConnections (transport b) = [] \<and> \<not> handshake then (Inl HandshakeFailed, b)
      else initialize_plane io msgId traceId waitForAck payload b)"

definition reconcileOperation ::
  "pipe_io \<Rightarrow> string \<Rightarrow> string \<Rightarrow> bool \<Rightarrow> jsval \<Rightarrow> boundary \<Rightarrow> (boundary_error + dispatched) \<times> boundary" where
  "reconcileOperation io msgId traceId waitForAck operationId b =
     (case createReconcileRequest operationId (reconciliation b) of
        (None, c) \<Rightarrow> (Inl NothingToReconcile, b)
      | (Some task, c) \<Rightarrow>
          dispatchEnvelope io msgId traceId waitForAck ''TACTICAL:RECONCILE_ORDER''
            (JObj [(''operationId'', operationId), (''accountId'', task_accountId task),
                   (''idempotencyKey'', task_idempotencyKey task),
                   (''attempts'', JNum (Fin (of_nat (attempts task)))), (''details'', details task)])
            (b\<lparr>reconciliation := c\<rparr>))"

section \<open>Inbound messages\<close>

definition handleClientConnected :: "pipe_io \<Rightarrow> string \<Rightarrow> nat \<Rightarrow> boundary \<Rightarrow> boundary" where
  "handleClientConnected io msgId connId b =
     snd (captureSnapshot io msgId (''reconnect-snap-'' @ dec_string connId) False
            (b\<lparr>transport := onConnect connId (transport b)\<rparr>))"

definition handleClientDisconnected :: "nat \<Rightarrow> boundary \<Rightarrow> boundary" where
  "handleClientDisconnected connId b =
     (let b1 = b\<lparr>transport := onDisconnect connId (transport b)\<rparr>
      in if activeConnections (transport b1) \<noteq> [] then b1
         else b1\<lparr>engineStatus := JStr ''STOPPED'', activeBrowserCount := Fin 0, pendingCorrelations := []\<rparr>)"

text \<open>The pending command an envelope answers: by its \<open>msgId\<close>, else the first one whose trace or message
  identifier the envelope quotes.\<close>

definition matching_reply :: "jsval \<Rightarrow> (string, pending_reply) jsmap \<Rightarrow> string option" where
  "matching_reply env pend =
     (let payload = js_get env ''payload'';
          candidates = filter truthy [js_get env ''traceId'', js_get payload ''correlationId'',
                                      js_get payload ''traceId'', js_get payload ''msgId'']
      in case filter (\<lambda>(m, p). JStr m = js_get env ''msgId'') pend of
           (m, p) # _ \<Rightarrow> Some m
         | [] \<Rightarrow> map_option fst
             (find (\<lambda>(m, p). JStr (pend_traceId p) \<in> set candidates \<or> JStr m \<in> set candidates) pend))"

definition settle_reply :: "jsval \<Rightarrow> boundary \<Rightarrow> boundary" where
  "settle_reply env b =
     (case matching_reply env (pendingCorrelations b) of
        None \<Rightarrow> b
      | Some m \<Rightarrow> b\<lparr>pendingCorrelations := AList.delete m (pendingCorrelations b)\<rparr>)"

definition browser_count :: "jsval \<Rightarrow> jsnum \<Rightarrow> jsnum" where
  "browser_count v old = (case v of JNum n \<Rightarrow> n | _ \<Rightarrow> old)"

definition onHeartbeat :: "int \<Rightarrow> jsval \<Rightarrow> boundary \<Rightarrow> boundary" where
  "onHeartbeat now payload b =
     b\<lparr>watch := snd (recordHeartbeat now (watch b)),
       activeBrowserCount := browser_count (js_get payload ''activeBrowsers'') (activeBrowserCount b),
       engineStatus := js_or (js_get payload ''engineStatus'') (engineStatus b)\<rparr>"

definition array_elements :: "jsval \<Rightarrow> jsval list" where
  "array_elements v = (case v of JArr xs \<Rightarrow> xs | _ \<Rightarrow> [])"

definition is_uncertain :: "jsval \<Rightarrow> bool" where
  "is_uncertain payload \<longleftrightarrow>
     js_get payload ''status'' \<in> {JStr ''UNCERTAIN'', JStr ''UNKNOWN'', JStr ''TIMEOUT''} \<or>
     js_get payload ''code'' = JStr ''EP_TX_001''"

text \<open>The ledger status a result gives its key; \<open>None\<close> leaves the key as it is.\<close>

definition result_status :: "jsval \<Rightarrow> ledger_status option" where
  "result_status payload =
     (if is_uncertain payload then Some UNCERTAIN
      else if js_get payload ''status'' \<in> {JStr ''COMPLETED'', JStr ''SUCCESS''} then Some COMPLETED
      else if js_get payload ''status'' \<in> {JStr ''FAILED'', JStr ''ABORTED''} then Some FAILED
      else None)"

text \<open>The accounts of an uncertain result, \<open>None\<close> when reading a null outcome throws.\<close>

definition affected_accounts :: "jsval \<Rightarrow> jsval \<Rightarrow> jsval \<Rightarrow> jsval list option" where
  "affected_accounts accountId targetAccounts targetOutcomes =
     (if JNull \<in> set (array_elements targetOutcomes) then None
      else let accs = js_set ((if truthy accountId then [accountId] else []) @ array_elements targetAccounts @
                 map (\<lambda>v. js_get v ''targetId'')
                   (filter (\<lambda>v. js_get v ''status'' = JStr ''UNCERTAIN'' \<and> truthy (js_get v ''targetId''))
                      (array_elements targetOutcomes)))
           in Some (if accs = [] then [JStr ''unknown''] else accs))"

definition freeze_all :: "int \<Rightarrow> jsval \<Rightarrow> jsval \<Rightarrow> jsval \<Rightarrow> jsval \<Rightarrow> jsval list \<Rightarrow> coordinator \<Rightarrow> coordinator" where
  "freeze_all now op key reason payload accs c =
     fold (\<lambda>a. enqueueUncertainOperation now op a key reason payload) accs c"

text \<open>A result is matched with the operation in flight, whose key, account and targets stand in for those
  the execution plane left out.\<close>

definition correlated :: "jsval \<Rightarrow> boundary \<Rightarrow> in_flight_op option" where
  "correlated payload b =
     (let op = js_get payload ''operationId''
      in if truthy op then map_of (inFlightOperations b) op else None)"

definition or_in_flight :: "jsval \<Rightarrow> (in_flight_op \<Rightarrow> jsval) \<Rightarrow> in_flight_op option \<Rightarrow> jsval" where
  "or_in_flight v get inFlight = (case inFlight of None \<Rightarrow> v | Some f \<Rightarrow> js_or v (get f))"

definition record_outcome :: "int \<Rightarrow> jsval \<Rightarrow> jsval \<Rightarrow> boundary \<Rightarrow> boundary" where
  "record_outcome now key payload b =
     (case result_status payload of
        Some st \<Rightarrow> if truthy key then b\<lparr>idempotency := recordTerminal now key st payload (idempotency b)\<rparr> else b
      | None \<Rightarrow> b)"

definition freeze_uncertain :: "int \<Rightarrow> jsval \<Rightarrow> jsval \<Rightarrow> jsval \<Rightarrow> jsval \<Rightarrow> boundary \<Rightarrow> boundary" where
  "freeze_uncertain now key account targets payload b =
     (if \<not> is_uncertain payload then b
      else case affected_accounts account targets (js_get payload ''targetOutcomes'') of
        None \<Rightarrow> b
      | Some accs \<Rightarrow> b\<lparr>reconciliation :=
          freeze_all now (js_or (js_get payload ''operationId'') (JStr ''unknown_op'')) (js_or key (JStr []))
            (js_or (js_get payload ''error'') (JStr ''Atomic bet commitment unconfirmed'')) payload
            accs (reconciliation b)\<rparr>)"

definition onOperationResult :: "int \<Rightarrow> jsval \<Rightarrow> boundary \<Rightarrow> boundary" where
  "onOperationResult now payload b =
     (let inFlight = correlated payload b;
          key = or_in_flight (js_get payload ''idempotencyKey'') ifo_idempotencyKey inFlight;
          account = or_in_flight (js_get payload ''accountId'') ifo_accountId inFlight;
          targets = or_in_flight (js_get payload ''targetAccounts'') (\<lambda>f. JArr (ifo_targetAccounts f)) inFlight;
          b1 = (case inFlight of
                  None \<Rightarrow> b
                | Some f \<Rightarrow> b\<lparr>inFlightOperations :=
                    AList.delete (js_get payload ''operationId'') (inFlightOperations b)\<rparr>)
      in freeze_uncertain now key account targets payload (record_outcome now key payload b1))"

definition resolution_of :: "jsval \<Rightarrow> resolution" where
  "resolution_of v =
     (if v = JStr ''RESOLVED_COMMITTED'' then RESOLVED_COMMITTED
      else if v = JStr ''RESOLVED_LOST'' then RESOLVED_LOST else STILL_PENDING)"

definition onReconciliationReport :: "jsval \<Rightarrow> boundary \<Rightarrow> boundary" where
  "onReconciliationReport payload b =
     b\<lparr>reconciliation := snd (handleReconciliationReport (js_get payload ''operationId'')
         (resolution_of (js_get payload ''resolutionStatus'')) (reconciliation b))\<rparr>"

definition unresolved_run :: "jsval \<Rightarrow> bool" where
  "unresolved_run run \<longleftrightarrow>
     js_get run ''status'' \<in> {JStr ''UNCERTAIN'', JStr ''PROCESSING'', JStr ''UNKNOWN''}"

text \<open>A default parameter replaces \<open>undefined\<close> only.\<close>

definition default_param :: "jsval \<Rightarrow> jsval \<Rightarrow> jsval" where
  "default_param v d = (if v = JUndef then d else v)"

definition enqueue_run :: "int \<Rightarrow> jsval \<Rightarrow> coordinator \<Rightarrow> coordinator" where
  "enqueue_run now run c =
     (if unresolved_run run
      then enqueueUncertainOperation now (js_or (js_get run ''operationId'') (js_get run ''runId''))
             (js_get run ''accountId'') (default_param (js_get run ''idempotencyKey'') (JStr [])) (JStr ''RECONNECT_UNRESOLVED_WAL_RUN'') run c
      else c)"

text \<open>Reading the status of a null run throws and abandons the runs after it.\<close>

definition onSnapshotDump :: "int \<Rightarrow> jsval \<Rightarrow> boundary \<Rightarrow> boundary" where
  "onSnapshotDump now payload b =
     b\<lparr>engineStatus := js_or (js_get payload ''engineStatus'') (engineStatus b),
       activeBrowserCount := browser_count (js_get payload ''activeBrowserCount'') (activeBrowserCount b),
       reconciliation := fold (enqueue_run now)
         (takeWhile (\<lambda>r. r \<noteq> JNull) (array_elements (js_get payload ''unresolvedRuns''))) (reconciliation b)\<rparr>"

definition demultiplex :: "int \<Rightarrow> jsval \<Rightarrow> jsval \<Rightarrow> boundary \<Rightarrow> boundary" where
  "demultiplex now ty payload b =
     (if ty = JStr ''TELEMETRY:HEARTBEAT'' then onHeartbeat now payload b
      else if ty = JStr ''LIFECYCLE:STATE_CHANGED''
      then b\<lparr>engineStatus := js_or (js_get payload ''state'') (engineStatus b)\<rparr>
      else if ty = JStr ''TACTICAL:OPERATION_RESULT'' then onOperationResult now payload b
      else if ty = JStr ''TACTICAL:RECONCILIATION_REPORT'' then onReconciliationReport payload b
      else if ty = JStr ''DATA:SNAPSHOT_DUMP'' then onSnapshotDump now payload b
      else b)"

text \<open>\<open>None\<close> is a frame that is not JSON.\<close>

definition handleIncomingData :: "int \<Rightarrow> jsval option \<Rightarrow> boundary \<Rightarrow> boundary" where
  "handleIncomingData now data b =
     (case data of
        None \<Rightarrow> b
      | Some raw \<Rightarrow>
          if \<not> validateExecutionEnvelope raw
          then (if js_get raw ''type'' = JStr ''HEARTBEAT'' \<and> truthy (js_get raw ''pid'')
                then b\<lparr>watch := snd (recordHeartbeat now (watch b))\<rparr> else b)
          else demultiplex now (js_get raw ''type'') (js_get raw ''payload'') (settle_reply raw b))"

definition MAX_IPC_PAYLOAD_BYTES :: nat where
  "MAX_IPC_PAYLOAD_BYTES = 10 * 1024 * 1024"

text \<open>A frame of \<open>bytes\<close> bytes: one over the cap drops its connection unread.\<close>

definition onData :: "int \<Rightarrow> nat \<Rightarrow> nat \<Rightarrow> jsval option \<Rightarrow> boundary \<Rightarrow> boundary" where
  "onData now connId bytes data b =
     (if bytes > MAX_IPC_PAYLOAD_BYTES then handleClientDisconnected connId b
      else handleIncomingData now data b)"

section \<open>Runs of the boundary\<close>

datatype boundary_op =
    Bet pipe_io string string bool bool "bet_account list option" bet_payload
  | CashOut pipe_io string string bool bool cashout_payload
  | Incoming nat nat "jsval option"
  | Tick
  | Connected pipe_io string nat
  | Disconnected nat
  | TimedOut string
  | Reconcile pipe_io string string bool jsval
  | StopCluster pipe_io string string bool int

fun boundary_step :: "int \<times> boundary_op \<Rightarrow> boundary \<Rightarrow> boundary" where
  "boundary_step (now, Bet io m tr ack deg accounts p) b = snd (placeBet io m tr ack deg accounts now p b)"
| "boundary_step (now, CashOut io m tr ack deg p) b = snd (cashOut io m tr ack deg now p b)"
| "boundary_step (now, Incoming c bytes data) b = onData now c bytes data b"
| "boundary_step (now, Tick) b = watchdogTick now b"
| "boundary_step (now, Connected io m c) b = handleClientConnected io m c b"
| "boundary_step (now, Disconnected c) b = handleClientDisconnected c b"
| "boundary_step (now, TimedOut m) b = commandTimeout m b"
| "boundary_step (now, Reconcile io m tr ack op) b = snd (reconcileOperation io m tr ack op b)"
| "boundary_step (now, StopCluster io m tr ack t) b = snd (stopCluster io m tr ack t b)"

fun forced :: "boundary_op \<Rightarrow> bool" where
  "forced (Bet io m tr ack deg accounts p) = bp_forceRetry p"
| "forced (CashOut io m tr ack deg p) = co_forceRetry p"
| "forced _ = False"

text \<open>The financial commands for a key that were written to a client.\<close>

definition bets_on_wire :: "string \<Rightarrow> boundary \<Rightarrow> (nat \<times> string \<times> jsval) list" where
  "bets_on_wire k b =
     filter (\<lambda>(c, ty, p). ty \<in> {''TACTICAL:PLACE_BET'', ''TACTICAL:CASH_OUT''} \<and>
                          js_get p ''idempotencyKey'' = JStr k) (wire (transport b))"

section \<open>Lemmas\<close>

lemma spread_get:
  "js_get (spread base members) k =
     (case map_of (rev members) k of None \<Rightarrow> obj_get base k | Some v \<Rightarrow> v)"
  unfolding spread_def js_get.simps obj_get_def fold_update_lookup by (simp split: option.split)

lemma bet_json_key [simp]: "js_get (bet_json p opId key) ''idempotencyKey'' = JStr key"
  by (simp add: bet_json_def spread_get del: js_get.simps)

lemma startServer_frame:
  assumes "startServer io b = Some b1"
  shows "idempotency b1 = idempotency b" "reconciliation b1 = reconciliation b"
    "inFlightOperations b1 = inFlightOperations b" "wire (transport b1) = wire (transport b)"
    "activeConnections (transport b1) = activeConnections (transport b)" "watch b1 = start (watch b)"
  using assms by (auto simp: startServer_def transportStart_def split: option.splits if_splits)

lemma dispatch_frame [simp]:
  "idempotency (snd (dispatchEnvelope io m tr ack ty p b)) = idempotency b"
  "reconciliation (snd (dispatchEnvelope io m tr ack ty p b)) = reconciliation b"
  "inFlightOperations (snd (dispatchEnvelope io m tr ack ty p b)) = inFlightOperations b"
  by (auto simp: dispatchEnvelope_def Let_def startServer_frame split: option.splits prod.splits)

text \<open>A dispatch appends copies of its own message and nothing else.\<close>

lemma dispatch_wire:
  "\<exists>cs. wire (transport (snd (dispatchEnvelope io m tr ack ty p b))) =
     wire (transport b) @ map (\<lambda>c. (c, ty, p)) cs \<and> set cs \<subseteq> set (activeConnections (transport b))"
proof (cases "startServer io b")
  case None
  then show ?thesis by (intro exI [of _ "[]"]) (simp add: dispatchEnvelope_def)
next
  case (Some b1)
  then show ?thesis
    by (intro exI [of _ "filter (write_succeeds io) (activeConnections (transport b))"])
      (simp add: dispatchEnvelope_def broadcast_def Let_def startServer_frame [OF Some])
qed

lemma dispatch_bets:
  assumes "ty \<notin> {''TACTICAL:PLACE_BET'', ''TACTICAL:CASH_OUT''} \<or> js_get p ''idempotencyKey'' \<noteq> JStr k"
  shows "bets_on_wire k (snd (dispatchEnvelope io m tr ack ty p b)) = bets_on_wire k b"
proof -
  obtain cs where "wire (transport (snd (dispatchEnvelope io m tr ack ty p b))) =
      wire (transport b) @ map (\<lambda>c. (c, ty, p)) cs" using dispatch_wire by blast
  with assms show ?thesis by (simp add: bets_on_wire_def filter_map o_def)
qed

lemma bets_cong: "wire (transport b') = wire (transport b) \<Longrightarrow> bets_on_wire k b' = bets_on_wire k b"
  by (simp add: bets_on_wire_def)

definition launched ::
  "int \<Rightarrow> string \<Rightarrow> string \<Rightarrow> jsval \<Rightarrow> jsval \<Rightarrow> string list \<Rightarrow> boundary \<Rightarrow> boundary" where
  "launched now key op p acc ts b =
     b\<lparr>idempotency := recordInFlight now (JStr key) (JStr op) p (idempotency b),
       inFlightOperations := AList.update (JStr op)
         \<lparr>ifo_idempotencyKey = JStr key, ifo_accountId = acc, ifo_targetAccounts = map JStr ts\<rparr>
         (inFlightOperations b)\<rparr>"

lemma launch_dispatch:
  "launch io m tr ack now ty key op p acc ts b =
     map_prod (map_sum id Dispatched) id (dispatchEnvelope io m tr ack ty p (launched now key op p acc ts b))"
  by (auto simp: launch_def launched_def split: prod.splits sum.splits)

lemma launched_frame [simp]:
  "transport (launched now key op p acc ts b) = transport b"
  "reconciliation (launched now key op p acc ts b) = reconciliation b"
  "watch (launched now key op p acc ts b) = watch b"
  by (simp_all add: launched_def)

lemma launch_frame [simp]:
  "idempotency (snd (launch io m tr ack now ty key op p acc ts b)) =
     recordInFlight now (JStr key) (JStr op) p (idempotency b)"
  "reconciliation (snd (launch io m tr ack now ty key op p acc ts b)) = reconciliation b"
  "inFlightOperations (snd (launch io m tr ack now ty key op p acc ts b)) =
     AList.update (JStr op) \<lparr>ifo_idempotencyKey = JStr key, ifo_accountId = acc, ifo_targetAccounts = map JStr ts\<rparr>
       (inFlightOperations b)"
  by (simp_all add: launch_dispatch) (simp_all add: launched_def)

lemma launch_bets:
  assumes "js_get p ''idempotencyKey'' \<noteq> JStr k"
  shows "bets_on_wire k (snd (launch io m tr ack now ty key op p acc ts b)) = bets_on_wire k b"
proof -
  have "bets_on_wire k (snd (launch io m tr ack now ty key op p acc ts b)) =
      bets_on_wire k (launched now key op p acc ts b)"
    unfolding launch_dispatch using assms by (simp add: dispatch_bets)
  also have "\<dots> = bets_on_wire k b" by (rule bets_cong) simp
  finally show ?thesis .
qed

lemma bet_key_nonempty [simp]: "bet_key now key op \<noteq> []"
  by (auto simp: bet_key_def truthy_or_def split: option.splits list.splits)

section \<open>A key stays in the ledger\<close>

text \<open>The ledger holds a record of \<open>k\<close> no older than \<open>t0\<close>, with at most \<open>n\<close> more recent entries.\<close>

definition held :: "jsval \<Rightarrow> int \<Rightarrow> nat \<Rightarrow> ledger \<Rightarrow> bool" where
  "held k t0 n l \<longleftrightarrow> ledger_wf l \<and> (\<exists>r. recent k r n (records l) \<and> t0 \<le> updatedAt r)"

lemma held_mono: "held k t0 n l \<Longrightarrow> n \<le> n' \<Longrightarrow> held k t0 n' l"
  unfolding held_def using recent_mono by blast

lemma recent_touch: "recent k r 0 (AList.update k r (AList.delete k m))"
proof -
  have "k \<notin> fst ` set (AList.delete k m)" by (auto simp: AList.delete_eq)
  from update_absent [OF this] show ?thesis by (auto simp: recent_def)
qed

lemma held_check:
  assumes "held k t0 n l" and "lookup_key k" and "now \<le> t0 + maxAgeMs l"
  shows "\<exists>r. fst (check now k l) = Some r \<and> t0 \<le> updatedAt r"
proof -
  from assms(1) obtain r where r: "recent k r n (records l)" "t0 \<le> updatedAt r" "ledger_wf l"
    by (auto simp: held_def)
  then have "map_of (records l) k = Some r" using recent_lookup by (simp add: ledger_wf_def)
  with assms(2,3) r(2) show ?thesis by (simp add: check_def expired_def)
qed

lemma held_step:
  assumes "held k t0 n l" and "truthy (op_key (snd x))" and "t0 \<le> fst x" and "fst x \<le> t0 + maxAgeMs l"
    and "Suc n < maxEntries l" and "\<forall>op md. snd x \<noteq> OpInFlight k op md"
  shows "held k t0 (Suc n) (ledger_step x l)"
proof -
  from assms(1) obtain r where r: "recent k r n (records l)" "t0 \<le> updatedAt r" and wf: "ledger_wf l"
    by (auto simp: held_def)
  have alive: "\<not> expired (fst x) l r" using assms(4) r(2) by (simp add: expired_def)
  have found: "map_of (records l) k = Some r" using recent_lookup [OF r(1)] wf by (simp add: ledger_wf_def)
  have wf': "ledger_wf (ledger_step x l)" using wf assms(2) by (rule wf_step)
  have "\<exists>r'. recent k r' (Suc n) (records (ledger_step x l)) \<and> t0 \<le> updatedAt r'"
  proof (cases "op_key (snd x) = k")
    case False
    with recent_step [OF r(1) wf] alive assms(5) r(2) show ?thesis by blast
  next
    case True
    consider "snd x = OpCheck k" | st res where "snd x = OpTerminal k st res"
      using True assms(6) by (cases "snd x") auto
    then show ?thesis
    proof cases
      case 1
      then have "ledger_step x l = snd (check (fst x) k l)" by (cases x) simp
      then have "records (ledger_step x l) = records l \<or>
          records (ledger_step x l) = AList.update k r (AList.delete k (records l))"
        using found alive by (simp add: check_def)
      with r(2) recent_mono [OF r(1), of "Suc n"] recent_mono [OF recent_touch, of "Suc n" k r "records l"]
      show ?thesis by (intro exI [of _ r]) auto
    next
      case 2
      let ?e = "r\<lparr>rec_status := st, cachedResult := res, updatedAt := fst x\<rparr>"
      from 2 have "ledger_step x l = recordTerminal (fst x) k st res l" by (cases x) simp
      then have "records (ledger_step x l) = AList.update k ?e (AList.delete k (records l))"
        using found by (simp add: recordTerminal_def Let_def)
      with recent_mono [OF recent_touch, of "Suc n" k ?e "records l"] assms(3) show ?thesis
        by (intro exI [of _ ?e]) simp
    qed
  qed
  with wf' show ?thesis by (simp add: held_def)
qed

text \<open>Every boundary step acts on the ledger by at most two ledger operations, and a key that is held is
  recorded in flight again only by a forced retry.\<close>

lemma freeze_uncertain_frame [simp]:
  "idempotency (freeze_uncertain now key a ts p b) = idempotency b"
  "transport (freeze_uncertain now key a ts p b) = transport b"
  by (simp_all add: freeze_uncertain_def split: option.splits)

lemma record_outcome_frame [simp]:
  "transport (record_outcome now key p b) = transport b"
  "reconciliation (record_outcome now key p b) = reconciliation b"
  by (simp_all add: record_outcome_def split: option.splits)

lemma record_outcome_ledger:
  "idempotency (record_outcome now key p b) = idempotency b \<or>
   (\<exists>st. truthy key \<and> idempotency (record_outcome now key p b) = recordTerminal now key st p (idempotency b))"
  by (auto simp: record_outcome_def split: option.splits)

lemma onOperationResult_ledger:
  "idempotency (onOperationResult now p b) = idempotency b \<or>
   (\<exists>key st. truthy key \<and> idempotency (onOperationResult now p b) = recordTerminal now key st p (idempotency b))"
proof (cases "correlated p b")
  case None
  then show ?thesis
    using record_outcome_ledger unfolding onOperationResult_def Let_def by (simp del: truthy.simps) blast
next
  case (Some f)
  let ?b = "b\<lparr>inFlightOperations := AList.delete (js_get p ''operationId'') (inFlightOperations b)\<rparr>"
  have "idempotency ?b = idempotency b" by simp
  with Some record_outcome_ledger [of now _ p ?b] show ?thesis
    unfolding onOperationResult_def Let_def by (simp del: truthy.simps) blast
qed

lemma settle_frame [simp]:
  "idempotency (settle_reply env b) = idempotency b" "transport (settle_reply env b) = transport b"
  "reconciliation (settle_reply env b) = reconciliation b"
  "inFlightOperations (settle_reply env b) = inFlightOperations b"
  by (simp_all add: settle_reply_def split: option.splits)

lemma onOperationResult_transport [simp]: "transport (onOperationResult now p b) = transport b"
  unfolding onOperationResult_def Let_def by (simp split: option.split)

lemma incoming_transport [simp]: "transport (handleIncomingData now data b) = transport b"
  by (simp add: handleIncomingData_def demultiplex_def onHeartbeat_def onReconciliationReport_def onSnapshotDump_def
      split: option.splits)

lemma incoming_ledger:
  "idempotency (handleIncomingData now data b) = idempotency b \<or>
   (\<exists>key st p. truthy key \<and> idempotency (handleIncomingData now data b) = recordTerminal now key st p (idempotency b))"
proof (cases data)
  case (Some raw)
  show ?thesis
    using onOperationResult_ledger [of now "js_get raw ''payload''" "settle_reply raw b"] Some
    by (auto simp: handleIncomingData_def demultiplex_def onHeartbeat_def onReconciliationReport_def onSnapshotDump_def
        simp del: js_get.simps truthy.simps)
qed (simp add: handleIncomingData_def)

text \<open>The two financial commands share their shape: a refusal leaves the state alone, any other answer has
  checked the key, and only an unknown or forcibly retried key is launched.\<close>

inductive financial :: "int \<Rightarrow> string \<Rightarrow> bool \<Rightarrow> boundary \<Rightarrow> (boundary_error + bet_outcome) \<times> boundary \<Rightarrow> bool"
  for now :: int and key :: string and force :: bool and b :: boundary where
  refused_early: "financial now key force b (Inl e, b)"
| duplicate: "check now (JStr key) (idempotency b) = (chk, l) \<Longrightarrow> duplicate_answer force chk = Some out \<Longrightarrow>
    financial now key force b (Inr out, b\<lparr>idempotency := l\<rparr>)"
| refused: "check now (JStr key) (idempotency b) = (chk, l) \<Longrightarrow>
    financial now key force b (Inl e, b\<lparr>idempotency := l\<rparr>)"
| launched: "check now (JStr key) (idempotency b) = (chk, l) \<Longrightarrow> duplicate_answer force chk = None \<Longrightarrow>
    js_get payload ''idempotencyKey'' = JStr key \<Longrightarrow>
    financial now key force b (launch io m tr ack now ty key op payload acc ts (b\<lparr>idempotency := l\<rparr>))"

lemma placeBet_financial:
  "financial now (bet_key now (bp_idempotencyKey p) (bp_operationId p)) (bp_forceRetry p) b
     (placeBet io m tr ack deg accounts now p b)"
  unfolding placeBet_def Let_def
  by (auto split: prod.split option.split intro: financial.intros simp del: js_get.simps)

lemma cashOut_financial:
  "financial now (bet_key now (co_idempotencyKey p) (co_operationId p)) (co_forceRetry p) b
     (cashOut io m tr ack deg now p b)"
proof -
  have key: "js_get (spread base [(''operationId'', JStr o'), (''idempotencyKey'', JStr k), (''accountId'', a)])
      ''idempotencyKey'' = JStr k" for base o' k a by (simp add: spread_get del: js_get.simps)
  show ?thesis
    unfolding cashOut_def Let_def
    by (auto split: prod.split option.split intro!: refused_early intro: duplicate refused launched key simp del: js_get.simps)
qed

lemma duplicate_answer_None: "duplicate_answer False chk = None \<Longrightarrow> chk = None"
  by (auto simp: duplicate_answer_def split: option.splits ledger_status.splits)

lemma financial_held:
  assumes "financial now key' False b res" and "held (JStr k) t0 n (idempotency b)" and "k \<noteq> []" and "key' \<noteq> []"
    and "t0 \<le> now" and "now \<le> t0 + maxAgeMs (idempotency b)" and "n + 2 < maxEntries (idempotency b)"
  shows "held (JStr k) t0 (n + 2) (idempotency (snd res)) \<and> bets_on_wire k (snd res) = bets_on_wire k b \<and>
    maxAgeMs (idempotency (snd res)) = maxAgeMs (idempotency b) \<and>
    maxEntries (idempotency (snd res)) = maxEntries (idempotency b)"
proof -
  have chk: "held (JStr k) t0 (Suc n) l" if "check now (JStr key') (idempotency b) = (c, l)" for c l
    using held_step [OF assms(2), of "(now, OpCheck (JStr key'))"] assms(4-7) that by simp
  have frame: "maxAgeMs l = maxAgeMs (idempotency b)" "maxEntries l = maxEntries (idempotency b)"
    if "check now (JStr key') (idempotency b) = (c, l)" for c l
    using check_frame [of now "JStr key'" "idempotency b"] that by simp_all
  have kept: "held (JStr k) t0 (n + 2) l \<and> bets_on_wire k (b\<lparr>idempotency := l\<rparr>) = bets_on_wire k b"
    if "check now (JStr key') (idempotency b) = (c, l)" for c l
    using held_mono [OF chk [OF that], of "n + 2"] bets_cong [of "b\<lparr>idempotency := l\<rparr>" b k] by simp
  show ?thesis
    using assms(1)
  proof cases
    case (refused_early e)
    then show ?thesis using held_mono [OF assms(2), of "n + 2"] by simp
  next
    case (duplicate c l out)
    then show ?thesis using kept [OF duplicate(2)] frame [OF duplicate(2)] by simp
  next
    case (refused c l e)
    then show ?thesis using kept [OF refused(2)] frame [OF refused(2)] by simp
  next
    case (launched c l payload io m tr ack ty op acc ts)
    have ne: "key' \<noteq> k"
    proof
      assume "key' = k"
      with held_check [OF assms(2), of now] assms(3,6) launched duplicate_answer_None [of c]
      show False by simp
    qed
    then have "held (JStr k) t0 (n + 2) (recordInFlight now (JStr key') (JStr op) payload l)"
      using held_step [OF chk [OF launched(2)], of "(now, OpInFlight (JStr key') (JStr op) payload)"]
        frame [OF launched(2)] assms(4-7) by simp
    then show ?thesis using launched(1,4) ne frame [OF launched(2)] kept [OF launched(2)]
      by (simp add: launch_bets)
  qed
qed

lemma held_terminal:
  assumes "held k t0 n l" and "truthy key" and "t0 \<le> now" and "now \<le> t0 + maxAgeMs l" and "n + 2 < maxEntries l"
  shows "held k t0 (n + 2) (recordTerminal now key st res l)"
  using held_mono [OF held_step [OF assms(1), of "(now, OpTerminal key st res)"], of "n + 2"] assms(2-5) by simp

text \<open>The steps other than the financial commands change the ledger at most by a terminal record, and
  write nothing financial.\<close>

lemma quiet_step:
  assumes "\<forall>io m tr ack deg accounts p. op \<noteq> Bet io m tr ack deg accounts p"
    and "\<forall>io m tr ack deg p. op \<noteq> CashOut io m tr ack deg p"
  shows "bets_on_wire k (boundary_step (now, op) b) = bets_on_wire k b \<and>
    (idempotency (boundary_step (now, op) b) = idempotency b \<or>
     (\<exists>key st p. truthy key \<and>
        idempotency (boundary_step (now, op) b) = recordTerminal now key st p (idempotency b)))"
proof (cases op)
  case (Incoming c bytes data)
  have "wire (transport (handleClientDisconnected c b)) = wire (transport b)"
    by (simp add: handleClientDisconnected_def onDisconnect_def Let_def)
  from bets_cong [OF this] have "bets_on_wire k (handleClientDisconnected c b) = bets_on_wire k b" .
  moreover have "idempotency (handleClientDisconnected c b) = idempotency b"
    by (simp add: handleClientDisconnected_def Let_def)
  ultimately show ?thesis
    using Incoming incoming_ledger [of now data b] bets_cong [of "handleIncomingData now data b" b k]
    by (simp add: onData_def)
next
  case Tick
  then show ?thesis using bets_cong [of "watchdogTick now b" b k] by (simp add: watchdogTick_def split: prod.splits)
next
  case (Connected io m c)
  let ?b = "b\<lparr>transport := onConnect c (transport b)\<rparr>"
  have "bets_on_wire k ?b = bets_on_wire k b" by (rule bets_cong) (simp add: onConnect_def)
  with Connected show ?thesis by (simp add: handleClientConnected_def captureSnapshot_def dispatch_bets)
next
  case (Disconnected c)
  have "wire (transport (handleClientDisconnected c b)) = wire (transport b)"
    by (simp add: handleClientDisconnected_def onDisconnect_def Let_def)
  from bets_cong [OF this] Disconnected show ?thesis by (simp add: handleClientDisconnected_def Let_def)
next
  case (TimedOut m)
  then show ?thesis using bets_cong [of "commandTimeout m b" b k] by (simp add: commandTimeout_def)
next
  case (Reconcile io m tr ack oid)
  then show ?thesis
    using bets_cong [of "b\<lparr>reconciliation := c\<rparr>" b k for c]
    by (auto simp: reconcileOperation_def dispatch_bets split: prod.splits option.splits)
next
  case (StopCluster io m tr ack t)
  then show ?thesis
    using bets_cong [of "b\<lparr>watch := stop (watch b)\<rparr>" b k] by (simp add: stopCluster_def dispatch_bets)
qed (use assms in auto)

lemma held_boundary_step:
  assumes "held (JStr k) t0 n (idempotency b)" and "k \<noteq> []" and "\<not> forced op"
    and "t0 \<le> now" and "now \<le> t0 + maxAgeMs (idempotency b)" and "n + 2 < maxEntries (idempotency b)"
  defines "b' \<equiv> boundary_step (now, op) b"
  shows "held (JStr k) t0 (n + 2) (idempotency b') \<and> bets_on_wire k b' = bets_on_wire k b \<and>
    maxAgeMs (idempotency b') = maxAgeMs (idempotency b) \<and> maxEntries (idempotency b') = maxEntries (idempotency b)"
proof -
  consider io m tr ack deg accounts p where "op = Bet io m tr ack deg accounts p"
    | io m tr ack deg p where "op = CashOut io m tr ack deg p"
    | "\<forall>io m tr ack deg accounts p. op \<noteq> Bet io m tr ack deg accounts p"
      "\<forall>io m tr ack deg p. op \<noteq> CashOut io m tr ack deg p"
    by blast
  then show ?thesis
  proof cases
    case 1
    with assms(3) placeBet_financial [of now p b io m tr ack deg accounts] show ?thesis
      unfolding b'_def using financial_held [OF _ assms(1,2) bet_key_nonempty assms(4-6)] by simp
  next
    case 2
    with assms(3) cashOut_financial [of now p b io m tr ack deg] show ?thesis
      unfolding b'_def using financial_held [OF _ assms(1,2) bet_key_nonempty assms(4-6)] by simp
  next
    case 3
    from quiet_step [OF this, of k now b] show ?thesis
      unfolding b'_def using held_mono [OF assms(1), of "n + 2"] held_terminal [OF assms(1) _ assms(4-6)] by auto
  qed
qed

lemma held_run:
  assumes "held (JStr k) t0 n (idempotency b)" and "k \<noteq> []" and "n + 2 * length ops < maxEntries (idempotency b)"
    and "\<forall>(now, op) \<in> set ops. \<not> forced op \<and> t0 \<le> now \<and> now \<le> t0 + maxAgeMs (idempotency b)"
  shows "bets_on_wire k (fold boundary_step ops b) = bets_on_wire k b \<and>
    held (JStr k) t0 (n + 2 * length ops) (idempotency (fold boundary_step ops b)) \<and>
    maxAgeMs (idempotency (fold boundary_step ops b)) = maxAgeMs (idempotency b)"
  using assms
proof (induction ops arbitrary: n b)
  case (Cons x ops)
  obtain now op where x: "x = (now, op)" by (cases x)
  have step: "held (JStr k) t0 (n + 2) (idempotency (boundary_step x b))"
    "bets_on_wire k (boundary_step x b) = bets_on_wire k b"
    "maxAgeMs (idempotency (boundary_step x b)) = maxAgeMs (idempotency b)"
    "maxEntries (idempotency (boundary_step x b)) = maxEntries (idempotency b)"
    using held_boundary_step [OF Cons.prems(1,2), of op now] Cons.prems(3,4) x by auto
  have "(n + 2) + 2 * length ops < maxEntries (idempotency (boundary_step x b))"
    "\<forall>(now, op) \<in> set ops. \<not> forced op \<and> t0 \<le> now \<and> now \<le> t0 + maxAgeMs (idempotency (boundary_step x b))"
    using Cons.prems(3,4) step(3,4) by auto
  from Cons.IH [OF step(1) Cons.prems(2) this] step(2,3) show ?case by simp
qed simp

text \<open>A dispatched command has just been recorded in flight.\<close>

lemma financial_launched:
  assumes "financial now key force b (Inr (Dispatched d), b')" and "ledger_wf (idempotency b)" and "key \<noteq> []"
  shows "held (JStr key) now 0 (idempotency b') \<and> maxAgeMs (idempotency b') = maxAgeMs (idempotency b) \<and>
    maxEntries (idempotency b') = maxEntries (idempotency b)"
  using assms(1)
proof cases
  case (duplicate c l)
  then show ?thesis by (auto simp: duplicate_answer_def split: option.splits ledger_status.splits if_splits)
next
  case (launched c l payload io m tr ack ty op acc ts)
  have l: "l = snd (check now (JStr key) (idempotency b))" using launched(2) by simp
  have "recent (JStr key) (in_flight now (JStr op) payload) 0
      (records (recordInFlight now (JStr key) (JStr op) payload l))"
    unfolding l using assms(3) by (intro recordInFlight_last check_last) simp
  moreover have "ledger_wf (recordInFlight now (JStr key) (JStr op) payload l)"
    unfolding l using assms(2,3) by (simp add: wf_check wf_recordInFlight)
  moreover have "idempotency b' = recordInFlight now (JStr key) (JStr op) payload l"
    using arg_cong [OF launched(1), of "\<lambda>r. idempotency (snd r)"] by simp
  ultimately show ?thesis unfolding held_def l by (auto simp: in_flight_def)
qed

section \<open>Properties\<close>


definition sample_io :: pipe_io where
  "sample_io = \<lparr>server_starts = True, write_succeeds = (\<lambda>c. True)\<rparr>"

definition sample_boundary :: "nat list \<Rightarrow> boundary" where
  "sample_boundary conns =
     \<lparr>transport = \<lparr>activeConnections = conns, isListening = True, wire = []\<rparr>,
      idempotency = \<lparr>maxAgeMs = 1000, maxEntries = 10, records = [], ledger_table = None, table_ok = True\<rparr>,
      reconciliation = empty_coordinator, watch = default_watchdog, engineStatus = JStr ''RUNNING'',
      activeBrowserCount = Fin 1, pendingCorrelations = [], inFlightOperations = []\<rparr>"

definition sample_bet :: "string \<Rightarrow> bet_payload" where
  "sample_bet key = \<lparr>bp_idempotencyKey = Some key, bp_operationId = Some ''op1'', bp_accountId = Some ''acc'',
     bp_targetAccounts = None, bp_stake = JNum (Fin 5), bp_odds = JNum (Fin 2), bp_forceRetry = False, bp_rest = []\<rparr>"

abbreviation place_sample :: "int \<Rightarrow> string \<Rightarrow> boundary \<Rightarrow> (boundary_error + bet_outcome) \<times> boundary" where
  "place_sample now key \<equiv> placeBet sample_io ''m'' ''t'' False False None now (sample_bet key)"

lemma result_pair: "fst r = x \<Longrightarrow> r = (x, snd r)"
  by (simp add: prod_eq_iff)

lemma sample_dispatched:
  "place_sample 5 ''k'' (sample_boundary [7]) =
     (Inr (Dispatched (SentNow True)), snd (place_sample 5 ''k'' (sample_boundary [7])))"
  by (rule result_pair) code_simp

lemma sample_key: "bet_key now (bp_idempotencyKey (sample_bet ''k'')) (bp_operationId (sample_bet ''k'')) = ''k''"
  by (simp add: bet_key_def sample_bet_def truthy_or_def)

lemma sample_facts [simp]:
  "ledger_wf (idempotency (sample_boundary c))" "maxEntries (idempotency (sample_boundary c)) = 10"
  "maxAgeMs (idempotency (sample_boundary c)) = 1000" "bp_forceRetry (sample_bet k) = False"
  "activeConnections (transport (sample_boundary c)) = c" "isListening (transport (sample_boundary c))"
  by (simp_all add: sample_boundary_def sample_bet_def ledger_wf_def)


lemma dispatch_accepts:
  "(\<exists>d. fst (dispatchEnvelope io m tr ack ty p b) = Inr d) \<longleftrightarrow> isListening (transport b) \<or> server_starts io"
  by (auto simp: dispatchEnvelope_def startServer_def transportStart_def broadcast_def Let_def)

lemma dispatch_rejects:
  "fst (dispatchEnvelope io m tr ack ty p b) = Inl e \<Longrightarrow> snd (dispatchEnvelope io m tr ack ty p b) = b"
  by (auto simp: dispatchEnvelope_def broadcast_def Let_def split: option.splits if_splits prod.splits)

lemma launch_accepts:
  "(\<exists>d. fst (launch io m tr ack now ty key op p acc ts b) = Inr (Dispatched d)) \<longleftrightarrow>
     isListening (transport b) \<or> server_starts io"
  using dispatch_accepts [of io m tr ack ty p "launched now key op p acc ts b"]
  by (cases "fst (dispatchEnvelope io m tr ack ty p (launched now key op p acc ts b))")
    (auto simp: launch_dispatch)

lemma launch_quiet:
  "(\<exists>d. fst (launch io m tr ack now ty key op p acc ts b) = Inr (Dispatched d)) \<or>
   wire (transport (snd (launch io m tr ack now ty key op p acc ts b))) = wire (transport b)"
  using dispatch_rejects [of io m tr ack ty p "launched now key op p acc ts b"]
  by (cases "fst (dispatchEnvelope io m tr ack ty p (launched now key op p acc ts b))")
    (auto simp: launch_dispatch)

lemma not_dispatched: "duplicate_answer f chk = Some out \<Longrightarrow> out \<noteq> Dispatched d"
  by (auto simp: duplicate_answer_def split: option.splits ledger_status.splits if_splits)

definition bet_allowed :: "pipe_io \<Rightarrow> bool \<Rightarrow> bet_account list option \<Rightarrow> int \<Rightarrow> bet_payload \<Rightarrow> boundary \<Rightarrow> bool" where
  "bet_allowed io degraded accounts now p b \<longleftrightarrow>
     \<not> degraded \<and> \<not> watchdogDegraded (watch b) \<and>
     duplicate_answer (bp_forceRetry p)
       (seen now (JStr (bet_key now (bp_idempotencyKey p) (bp_operationId p))) (idempotency b)) = None \<and>
     \<not> list_ex (\<lambda>a. isAccountFrozen (JStr a) (reconciliation b)) (bet_targets p) \<and>
     bet_cycle_ok accounts (bet_targets p) \<and> stake_ok (bp_stake p) \<and> odds_ok (bp_odds p) \<and>
     (isListening (transport b) \<or> server_starts io)"

lemma find_frozen: "(find P xs = None) = (\<not> list_ex P xs)"
  by (auto simp: find_None_iff list_ex_iff)

lemma bet_gate:
  "((\<exists>d. fst (placeBet io m tr ack deg accounts now p b) = Inr (Dispatched d)) \<longleftrightarrow>
      bet_allowed io deg accounts now p b) \<and>
   (bet_allowed io deg accounts now p b \<or>
      wire (transport (snd (placeBet io m tr ack deg accounts now p b))) = wire (transport b))"
proof -
  obtain chk l where c: "check now (JStr (bet_key now (bp_idempotencyKey p) (bp_operationId p))) (idempotency b) = (chk, l)"
    by fastforce
  have quiet: "server_starts io"
    if "\<not> isListening (transport b)"
      "wire (transport (snd (launch io m tr ack now ''TACTICAL:PLACE_BET'' key op pl acc ts (b\<lparr>idempotency := l\<rparr>)))) \<noteq>
        wire (transport b)" for key op pl acc ts
    using launch_quiet [of io m tr ack now "''TACTICAL:PLACE_BET''" key op pl acc ts "b\<lparr>idempotency := l\<rparr>"] that
    by (simp add: launch_accepts)
  show ?thesis
    unfolding bet_allowed_def placeBet_def Let_def seen_def c fst_conv snd_conv prod.case
    by (auto simp: launch_accepts find_frozen [symmetric] dest: quiet not_dispatched split: option.splits)
qed

text \<open>C3. The gate of a bet is exact: a bet is handed to the transport if and only if the system is not
  degraded, the watchdog raised no alert, the key is unknown to the ledger (or failed and retried by
  force), no target account is frozen, some target takes part in the bet cycle, stake and odds are valid
  and the pipe server runs; in every other case nothing is written to a client.\<close>

theorem bet_gate_exact:
  "((\<exists>d. fst (placeBet io m tr ack deg accounts now p b) = Inr (Dispatched d)) \<longleftrightarrow>
      bet_allowed io deg accounts now p b) \<and>
   (bet_allowed io deg accounts now p b \<or>
      wire (transport (snd (placeBet io m tr ack deg accounts now p b))) = wire (transport b))"
  by (rule bet_gate)

lemma freeze_all_frozen:
  "isAccountFrozen a (freeze_all now op key reason p accs c) \<longleftrightarrow> isAccountFrozen a c \<or> (truthy a \<and> a \<in> set accs)"
  unfolding freeze_all_def by (induction accs arbitrary: c) auto

lemma placeBet_dispatched:
  assumes "placeBet io m tr ack deg accounts now p b = (Inr (Dispatched d), b1)"
  obtains l ty where
    "snd (check now (JStr (bet_key now (bp_idempotencyKey p) (bp_operationId p))) (idempotency b)) = l"
    "(Inr (Dispatched d), b1) = launch io m tr ack now ''TACTICAL:PLACE_BET''
       (bet_key now (bp_idempotencyKey p) (bp_operationId p)) (bet_operation now (bp_operationId p))
       (bet_json p (bet_operation now (bp_operationId p)) (bet_key now (bp_idempotencyKey p) (bp_operationId p)))
       (json_of (bp_accountId p)) (bet_targets p) (b\<lparr>idempotency := l\<rparr>)"
  using assms unfolding placeBet_def Let_def
  by (auto split: if_splits prod.splits option.splits dest: not_dispatched)

lemma placeBet_effects:
  assumes "placeBet io m tr ack deg accounts now p b = (Inr (Dispatched d), b1)"
  shows "inFlightOperations b1 = AList.update (JStr (bet_operation now (bp_operationId p)))
      \<lparr>ifo_idempotencyKey = JStr (bet_key now (bp_idempotencyKey p) (bp_operationId p)),
       ifo_accountId = json_of (bp_accountId p), ifo_targetAccounts = map JStr (bet_targets p)\<rparr>
      (inFlightOperations b)"
    and "maxAgeMs (idempotency b1) = maxAgeMs (idempotency b)"
proof -
  obtain l where l: "snd (check now (JStr (bet_key now (bp_idempotencyKey p) (bp_operationId p))) (idempotency b)) = l"
    and la: "(Inr (Dispatched d), b1) = launch io m tr ack now ''TACTICAL:PLACE_BET''
       (bet_key now (bp_idempotencyKey p) (bp_operationId p)) (bet_operation now (bp_operationId p))
       (bet_json p (bet_operation now (bp_operationId p)) (bet_key now (bp_idempotencyKey p) (bp_operationId p)))
       (json_of (bp_accountId p)) (bet_targets p) (b\<lparr>idempotency := l\<rparr>)"
    using placeBet_dispatched [OF assms] .
  note b1 = arg_cong [OF la, of snd, unfolded snd_conv]
  show "inFlightOperations b1 = AList.update (JStr (bet_operation now (bp_operationId p)))
      \<lparr>ifo_idempotencyKey = JStr (bet_key now (bp_idempotencyKey p) (bp_operationId p)),
       ifo_accountId = json_of (bp_accountId p), ifo_targetAccounts = map JStr (bet_targets p)\<rparr>
      (inFlightOperations b)" unfolding b1 by simp
  show "maxAgeMs (idempotency b1) = maxAgeMs (idempotency b)" unfolding b1 l [symmetric] by simp
qed

lemma affected_targets:
  assumes "JNull \<notin> set (array_elements outs)"
  obtains accs where "affected_accounts acct (JArr ts) outs = Some accs" "set ts \<subseteq> set accs"
proof -
  define accs where "accs = js_set ((if truthy acct then [acct] else []) @ ts @
    map (\<lambda>v. js_get v ''targetId'')
      (filter (\<lambda>v. js_get v ''status'' = JStr ''UNCERTAIN'' \<and> truthy (js_get v ''targetId'')) (array_elements outs)))"
  have "set ts \<subseteq> set accs" unfolding accs_def by auto
  moreover have "affected_accounts acct (JArr ts) outs = Some (if accs = [] then [JStr ''unknown''] else accs)"
    unfolding affected_accounts_def accs_def Let_def using assms by (simp add: array_elements_def [of "JArr ts"])
  ultimately show ?thesis using that by (cases "accs = []") auto
qed

lemma frozen_refused:
  assumes "isAccountFrozen (JStr a) (reconciliation b)" and "a \<in> set (bet_targets q)"
  shows "fst (placeBet io m tr ack deg accounts now q b) \<noteq> Inr (Dispatched d)"
proof -
  have "find (\<lambda>a. isAccountFrozen (JStr a) (reconciliation b)) (bet_targets q) \<noteq> None"
    using assms unfolding find_frozen by (auto simp: list_ex_iff)
  then show ?thesis
    unfolding placeBet_def Let_def by (auto split: prod.splits option.splits dest: not_dispatched)
qed

lemma onOperationResult_correlated:
  assumes "js_get pl ''operationId'' = JStr op" and "op \<noteq> []" and "map_of (inFlightOperations b) (JStr op) = Some f"
    and "\<not> truthy (js_get pl ''idempotencyKey'')" and "\<not> truthy (js_get pl ''targetAccounts'')"
    and "is_uncertain pl" and "truthy (ifo_idempotencyKey f)"
    and "JNull \<notin> set (array_elements (js_get pl ''targetOutcomes''))"
  shows "idempotency (onOperationResult now pl b) =
      recordTerminal now (ifo_idempotencyKey f) UNCERTAIN pl (idempotency b) \<and>
    (\<forall>a. truthy a \<and> a \<in> set (ifo_targetAccounts f) \<longrightarrow> isAccountFrozen a (reconciliation (onOperationResult now pl b)))"
proof -
  have c: "correlated pl b = Some f" using assms(1-3) by (simp add: correlated_def)
  have st: "result_status pl = Some UNCERTAIN" using assms(6) by (simp add: result_status_def)
  have key: "or_in_flight (js_get pl ''idempotencyKey'') ifo_idempotencyKey (Some f) = ifo_idempotencyKey f"
    "or_in_flight (js_get pl ''targetAccounts'') (\<lambda>f. JArr (ifo_targetAccounts f)) (Some f) = JArr (ifo_targetAccounts f)"
    using assms(4,5) by (simp_all add: or_in_flight_def js_or_def)
  obtain accs where acc: "affected_accounts (or_in_flight (js_get pl ''accountId'') ifo_accountId (Some f))
      (JArr (ifo_targetAccounts f)) (js_get pl ''targetOutcomes'') = Some accs" "set (ifo_targetAccounts f) \<subseteq> set accs"
    using affected_targets [OF assms(8)] by metis
  show ?thesis
    unfolding onOperationResult_def Let_def c key
    using assms(6,7) st acc
    by (auto simp: record_outcome_def freeze_uncertain_def freeze_all_frozen simp del: js_get.simps truthy.simps)
qed


definition sample_result :: "string \<Rightarrow> jsval" where
  "sample_result st =
     JObj [(''msgId'', JStr ''r''), (''traceId'', JStr ''r''), (''type'', JStr ''TACTICAL:OPERATION_RESULT''),
       (''timestamp'', JNum (Fin 8)), (''source'', JStr ''EXECUTION_PLANE''),
       (''payload'', JObj [(''operationId'', JStr ''op1''), (''status'', JStr st)])]"


lemma dispatch_watch:
  "fst (dispatchEnvelope io m tr ack ty p b) = Inr d \<Longrightarrow>
     watch (snd (dispatchEnvelope io m tr ack ty p b)) = start (watch b)"
  by (auto simp: dispatchEnvelope_def broadcast_def Let_def startServer_frame split: option.splits)

lemma offline_ticks: "lastHeartbeatTimestamp (watch b) = 0 \<Longrightarrow> fold watchdogTick ts b = b"
  by (induction ts) (simp_all add: watchdogTick_def checkLiveness_def)

text \<open>Every dispatch disarms the watchdog: a plane whose silence raised an alert refuses bets, but any
  message sent to it resets the watchdog to OFFLINE without a heartbeat, and no number of ticks raises the
  alert again, so that the next bet is no longer refused on its account.\<close>

theorem dispatch_disarms_watchdog:
  assumes "watchdogDegraded (watch b)" and "dispatchEnvelope io m tr ack ty payload b = (Inr d, b')"
  shows "placeBet io m tr ack False accounts now p b = (Inl WatchdogAlert, b) \<and>
    livenessState (watch (fold watchdogTick ts b')) = OFFLINE \<and>
    fst (placeBet io m tr ack False accounts now p (fold watchdogTick ts b')) \<noteq> Inl WatchdogAlert"
proof -
  have w: "watch b' = start (watch b)" using dispatch_watch [of io m tr ack ty payload b d] assms(2) by simp
  then have off: "livenessState (watch b') = OFFLINE" "fold watchdogTick ts b' = b'"
    by (simp_all add: start_def reset_def offline_ticks)
  have e: "e \<noteq> WatchdogAlert" if "fst (launch io m tr ack now ty' key op pl acc ts' b'') = Inl e" for ty' key op pl acc ts' b'' e
    using that by (auto simp: launch_dispatch dispatchEnvelope_def broadcast_def Let_def split: option.splits if_splits prod.splits)
  from off have "fst (placeBet io m tr ack False accounts now p b') \<noteq> Inl WatchdogAlert"
    unfolding placeBet_def Let_def
    by (auto simp: watchdogDegraded_def split: prod.splits option.splits if_splits dest: e)
  with off assms(1) show ?thesis by (simp add: placeBet_def)
qed

definition silent_plane :: boundary where
  "silent_plane = (sample_boundary [7])\<lparr>watch := default_watchdog\<lparr>livenessState := QUARANTINE_REQUIRED,
     lastHeartbeatTimestamp := 1\<rparr>\<rparr>"

theorem dispatch_disarms_watchdog_witness:
  "fst (place_sample 40000 ''k'' silent_plane) = Inl WatchdogAlert \<and>
   fst (place_sample 40000 ''k'' (fold watchdogTick [30000, 60000]
     (snd (validateTactical sample_io ''m'' ''t'' False False (JObj []) silent_plane)))) \<noteq> Inl WatchdogAlert"
proof -
  have d: "fst (dispatchEnvelope sample_io ''m'' ''t'' False ''TACTICAL:VALIDATE'' (JObj []) silent_plane) = Inr (SentNow True)"
    by code_simp
  have w: "watchdogDegraded (watch silent_plane)" by code_simp
  from dispatch_disarms_watchdog [OF w result_pair [OF d], of None 40000 "sample_bet ''k''" "[30000, 60000]"]
  show ?thesis
    using d by (simp add: validateTactical_def guardedDispatch_def placeBet_def w)
qed

text \<open>A bet that reached nobody still counts as in flight: without a connected client the bet is recorded,
  written to no one and reported as unsent, and from then on, for the whole window, every retry with its
  key, forced or not, is answered as a duplicate in flight without being sent.\<close>

theorem undelivered_bet_blocks_retry:
  assumes "placeBet io m tr ack deg accounts t0 p b = (Inr (Dispatched d), b1)" and "activeConnections (transport b) = []"
    and "ledger_wf (idempotency b)" and "t0 \<le> t1" and "t1 \<le> t0 + maxAgeMs (idempotency b)"
    and "bet_key t1 (bp_idempotencyKey q) (bp_operationId q) = bet_key t0 (bp_idempotencyKey p) (bp_operationId p)"
  shows "d \<in> {SentNow False, NoConnection} \<and> wire (transport b1) = wire (transport b) \<and>
    fst (placeBet io' m' tr' ack' False accounts' t1 q b1) = Inr (Duplicate IN_FLIGHT JUndef) \<and>
    wire (transport (snd (placeBet io' m' tr' ack' False accounts' t1 q b1))) = wire (transport b)"
proof -
  let ?k = "bet_key t0 (bp_idempotencyKey p) (bp_operationId p)" and ?o = "bet_operation t0 (bp_operationId p)"
  obtain l where l: "snd (check t0 (JStr ?k) (idempotency b)) = l"
    and la: "(Inr (Dispatched d), b1) = launch io m tr ack t0 ''TACTICAL:PLACE_BET'' ?k ?o (bet_json p ?o ?k)
       (json_of (bp_accountId p)) (bet_targets p) (b\<lparr>idempotency := l\<rparr>)"
    using placeBet_dispatched [OF assms(1)] .
  let ?b = "launched t0 ?k ?o (bet_json p ?o ?k) (json_of (bp_accountId p)) (bet_targets p) (b\<lparr>idempotency := l\<rparr>)"
  let ?r = "dispatchEnvelope io m tr ack ''TACTICAL:PLACE_BET'' (bet_json p ?o ?k) ?b"
  have d: "fst ?r = Inr d" "b1 = snd ?r"
    using la unfolding launch_dispatch by (cases ?r; cases "fst ?r"; simp)+
  have wire: "wire (transport b1) = wire (transport b)"
    using dispatch_wire [of io m tr ack "''TACTICAL:PLACE_BET''" "bet_json p ?o ?k" ?b] assms(2) d(2) by auto
  have unsent: "d \<in> {SentNow False, NoConnection}"
    using d(1) assms(2)
    by (auto simp: dispatchEnvelope_def broadcast_def Let_def startServer_frame split: option.splits if_splits)
  have w: "\<not> watchdogDegraded (watch b1)"
    using dispatch_watch [OF d(1)] d(2) by (simp add: start_def reset_def watchdogDegraded_def)
  have "seen t1 (JStr ?k) (idempotency b1) = Some (in_flight t0 (JStr ?o) (bet_json p ?o ?k))"
    using seen_recordInFlight [of "JStr ?k" t0 t1 l "JStr ?o" "bet_json p ?o ?k"] assms(4,5) d(2) l
    by (auto simp: launched_def)
  then obtain l' where "check t1 (JStr ?k) (idempotency b1) = (Some (in_flight t0 (JStr ?o) (bet_json p ?o ?k)), l')"
    unfolding seen_def by (metis prod.collapse)
  with w assms(6) have "placeBet io' m' tr' ack' False accounts' t1 q b1 =
      (Inr (Duplicate IN_FLIGHT JUndef), b1\<lparr>idempotency := l'\<rparr>)"
    by (simp add: placeBet_def Let_def duplicate_answer_def in_flight_def)
  with unsent wire show ?thesis by simp
qed

theorem undelivered_bet_blocks_retry_witness:
  "fst (place_sample 5 ''k'' (sample_boundary [])) = Inr (Dispatched (SentNow False)) \<and>
   fst (place_sample 900 ''k'' (snd (place_sample 5 ''k'' (sample_boundary [])))) = Inr (Duplicate IN_FLIGHT JUndef)"
proof -
  have d: "fst (place_sample 5 ''k'' (sample_boundary [])) = Inr (Dispatched (SentNow False))" by code_simp
  from undelivered_bet_blocks_retry [OF result_pair [OF d], of 900 "sample_bet ''k''" sample_io "''m''" "''t''" False None]
  show ?thesis by (simp add: d sample_key)
qed

end
