(* ===== verification/IpcFraming.thy ===== *)
theory IpcFraming
  imports ExecutionBoundary "HOL-Library.Word"
begin

text \<open>
  The framed byte stream between the planes (\<^verbatim>\<open>runtime-manager/ipc-client.mjs\<close>): messages are UTF-8
  JSON behind a 4-byte big-endian length, and a socket delivers them in chunks of any size. \<open>encode\<close> and
  \<open>decode\<close> stand for \<^verbatim>\<open>JSON.stringify\<close> and \<^verbatim>\<open>JSON.parse\<close> with UTF-8, \<open>hmac\<close> for
  the native HMAC-SHA256.
\<close>

type_synonym byte = "8 word"

section \<open>Length prefix\<close>

text \<open>\<^verbatim>\<open>Buffer.writeUInt32BE\<close> throws when the value does not fit.\<close>

definition writeUInt32BE :: "nat \<Rightarrow> byte list option" where
  "writeUInt32BE n =
     (if n < 2 ^ 32
      then Some [word_of_nat (n div 2 ^ 24), word_of_nat (n div 2 ^ 16), word_of_nat (n div 2 ^ 8), word_of_nat n]
      else None)"

fun readUInt32BE :: "byte list \<Rightarrow> nat" where
  "readUInt32BE (a # b # c # d # rest) = unat a * 2 ^ 24 + unat b * 2 ^ 16 + unat c * 2 ^ 8 + unat d"
| "readUInt32BE _ = 0"

section \<open>The client\<close>

datatype ipc_error = NotConnected | BadSessionKey | ConnectionFailed | FrameTooLong

datatype ipc_event = EnvelopeEvent jsval | MessageEvent jsval | CorruptedFrame

record ipc_client =
  rxBuffer :: "byte list"
  socketOpen :: bool
  authenticated :: bool
  heartbeatRunning :: bool
  sent :: "byte list"    \<comment> \<open>bytes written to the socket\<close>

fun readSessionKey :: "byte list \<Rightarrow> byte list list \<Rightarrow> byte list option" where
  "readSessionKey acc [] = (if length acc \<ge> 32 then Some (take 32 acc) else None)"
| "readSessionKey acc (c # cs) =
     (let acc' = acc @ c in if length acc' \<ge> 32 then Some (take 32 acc') else readSessionKey acc' cs)"

definition connect ::
  "(byte list \<Rightarrow> string \<Rightarrow> byte list) \<Rightarrow> bool \<Rightarrow> nat \<Rightarrow> byte list \<Rightarrow> ipc_client \<Rightarrow> (ipc_error + unit) \<times> ipc_client" where
  "connect hmac ok pid sessionKey c =
     (if length sessionKey \<noteq> 32 then (Inl BadSessionKey, c)
      else if \<not> ok then (Inl ConnectionFailed, c)
      else (Inr (), c\<lparr>sent := sent c @ hmac sessionKey (''IPC_AUTH'' @ dec_string pid),
                      authenticated := True, socketOpen := True\<rparr>))"

definition send :: "(jsval \<Rightarrow> byte list) \<Rightarrow> jsval \<Rightarrow> ipc_client \<Rightarrow> (ipc_error + unit) \<times> ipc_client" where
  "send encode msg c =
     (if \<not> socketOpen c \<or> \<not> authenticated c then (Inl NotConnected, c)
      else case writeUInt32BE (length (encode msg)) of
        None \<Rightarrow> (Inl FrameTooLong, c)
      | Some header \<Rightarrow> (Inr (), c\<lparr>sent := sent c @ header @ encode msg\<rparr>))"

definition startHeartbeat :: "ipc_client \<Rightarrow> ipc_client" where
  "startHeartbeat c = c\<lparr>heartbeatRunning := True\<rparr>"

text \<open>One beat of the timer; a failed send is ignored.\<close>

definition heartbeatTick :: "(jsval \<Rightarrow> byte list) \<Rightarrow> jsval \<Rightarrow> ipc_client \<Rightarrow> ipc_client" where
  "heartbeatTick encode envelope c =
     (if heartbeatRunning c \<and> authenticated c then snd (send encode envelope c) else c)"

definition onClose :: "ipc_client \<Rightarrow> ipc_client" where
  "onClose c = c\<lparr>authenticated := False, socketOpen := False, heartbeatRunning := False\<rparr>"

definition disconnect :: "ipc_client \<Rightarrow> ipc_client" where
  "disconnect c = c\<lparr>heartbeatRunning := False, socketOpen := False, authenticated := False\<rparr>"

text \<open>The frames at the front of the buffer, and what is left.\<close>

function drain :: "byte list \<Rightarrow> byte list list \<times> byte list" where
  "drain buf =
     (if length buf < 4 then ([], buf)
      else let msgLen = readUInt32BE buf in
           if length buf < 4 + msgLen then ([], buf)
           else case drain (drop (4 + msgLen) buf) of
                  (frames, rest) \<Rightarrow> (take msgLen (drop 4 buf) # frames, rest))"
  by pat_completeness auto
termination
  by (relation "measure length") auto

declare drain.simps [simp del]

definition frame_events :: "(byte list \<Rightarrow> jsval option) \<Rightarrow> byte list \<Rightarrow> ipc_event list" where
  "frame_events decode frameData =
     (case decode frameData of
        None \<Rightarrow> [CorruptedFrame]
      | Some raw \<Rightarrow> if validateExecutionEnvelope raw then [EnvelopeEvent raw, MessageEvent raw] else [MessageEvent raw])"

definition handleData ::
  "(byte list \<Rightarrow> jsval option) \<Rightarrow> byte list \<Rightarrow> ipc_client \<Rightarrow> ipc_event list \<times> ipc_client" where
  "handleData decode chunk c =
     (case drain (rxBuffer c @ chunk) of
        (frames, rest) \<Rightarrow> (concat (map (frame_events decode) frames), c\<lparr>rxBuffer := rest\<rparr>))"

fun feed :: "(byte list \<Rightarrow> jsval option) \<Rightarrow> byte list list \<Rightarrow> ipc_client \<Rightarrow> ipc_event list \<times> ipc_client" where
  "feed decode [] c = ([], c)"
| "feed decode (chunk # chunks) c =
     (case handleData decode chunk c of
        (evs, c1) \<Rightarrow> (case feed decode chunks c1 of (evs', c2) \<Rightarrow> (evs @ evs', c2)))"

section \<open>Lemmas\<close>

lemma unat_byte: "unat (word_of_nat n :: byte) = n mod 256"
  by (simp add: unat_of_nat)

lemma split_length: "n < 2 ^ 32 \<Longrightarrow>
   n div 2 ^ 24 mod 256 * 2 ^ 24 + n div 2 ^ 16 mod 256 * 2 ^ 16 + n div 2 ^ 8 mod 256 * 2 ^ 8 + n mod 256 = (n :: nat)"
proof -
  assume "n < 2 ^ 32"
  define a b c where "a = n div 256" and "b = a div 256" and "c = b div 256"
  note abc = this
  from \<open>n < 2 ^ 32\<close> have c: "c mod 256 = c" unfolding abc by (simp add: less_mult_imp_div_less)
  have q: "n div 2 ^ 8 = a" "n div 2 ^ 16 = b" "n div 2 ^ 24 = c"
    unfolding abc by (simp_all add: div_mult2_eq [symmetric])
  have "256 * a + n mod 256 = n" "256 * b + a mod 256 = a" "256 * c + b mod 256 = b"
    unfolding abc by simp_all
  then have "c * 16777216 + b mod 256 * 65536 + a mod 256 * 256 + n mod 256 = n" by linarith
  then show ?thesis unfolding q c by simp
qed

lemma read_write:
  assumes "writeUInt32BE n = Some h"
  shows "readUInt32BE (h @ rest) = n" "length h = 4"
  using assms split_length [of n] by (auto simp: writeUInt32BE_def unat_byte simp del: of_nat_numeral split: if_splits)

lemma writeUInt32BE_Some: "n < 2 ^ 32 \<Longrightarrow> \<exists>h. writeUInt32BE n = Some h"
  by (simp add: writeUInt32BE_def)

lemma read_append: "length xs \<ge> 4 \<Longrightarrow> readUInt32BE (xs @ ys) = readUInt32BE xs"
  by (cases xs rule: readUInt32BE.cases) auto

lemma drain_append:
  "drain (xs @ ys) = (case drain xs of (fs, r) \<Rightarrow> case drain (r @ ys) of (gs, r') \<Rightarrow> (fs @ gs, r'))"
proof (induction xs rule: drain.induct)
  case (1 xs)
  show ?case
  proof (cases "length xs < 4 \<or> length xs < 4 + readUInt32BE xs")
    case True
    then have "drain xs = ([], xs)" by (auto simp: drain.simps [of xs] Let_def)
    then show ?thesis by (simp split: prod.splits)
  next
    case False
    let ?n = "readUInt32BE xs"
    from False have n: "4 \<le> length xs" "4 + ?n \<le> length xs" by simp_all
    have "drain (xs @ ys) = (case drain (drop (4 + ?n) xs @ ys) of (fs, r) \<Rightarrow> (take ?n (drop 4 xs) # fs, r))"
      using n by (simp add: drain.simps [of "xs @ ys"] read_append Let_def)
    moreover have "drain xs = (case drain (drop (4 + ?n) xs) of (fs, r) \<Rightarrow> (take ?n (drop 4 xs) # fs, r))"
      using n by (simp add: drain.simps [of xs] Let_def)
    ultimately show ?thesis using "1.IH" n by (simp split: prod.splits)
  qed
qed

lemma drain_rest: "drain buf = (fs, r) \<Longrightarrow> drain r = ([], r)"
proof (induction buf arbitrary: fs rule: drain.induct)
  case (1 buf)
  show ?case
  proof (cases "length buf < 4 \<or> length buf < 4 + readUInt32BE buf")
    case True
    then have "drain buf = ([], buf)" by (auto simp: drain.simps [of buf] Let_def)
    with "1.prems" show ?thesis by simp
  next
    case False
    with "1.prems" obtain gs where "drain (drop (4 + readUInt32BE buf) buf) = (gs, r)"
      by (auto simp: drain.simps [of buf] Let_def split: prod.splits)
    with "1.IH" False show ?thesis by simp
  qed
qed

lemma drain_frame:
  assumes "writeUInt32BE (length m) = Some h"
  shows "drain (h @ m @ rest) = (case drain rest of (fs, r) \<Rightarrow> (m # fs, r))"
  using read_write [OF assms] by (simp add: drain.simps [of "h @ m @ rest"] Let_def)

lemma feed_concat:
  assumes "drain (rxBuffer c) = ([], rxBuffer c)"
  shows "feed decode chunks c =
    (case drain (rxBuffer c @ concat chunks) of (fs, r) \<Rightarrow> (concat (map (frame_events decode) fs), c\<lparr>rxBuffer := r\<rparr>))"
  using assms
proof (induction chunks arbitrary: c)
  case Nil
  then show ?case by simp
next
  case (Cons x xs)
  obtain fs r where d: "drain (rxBuffer c @ x) = (fs, r)" by fastforce
  then have r: "drain r = ([], r)" by (rule drain_rest)
  obtain gs r' where e: "drain (r @ concat xs) = (gs, r')" by fastforce
  have "drain (rxBuffer c @ concat (x # xs)) = (fs @ gs, r')"
    using drain_append [of "rxBuffer c @ x" "concat xs"] d e by simp
  with d e r Cons.IH [of "c\<lparr>rxBuffer := r\<rparr>"] show ?case by (simp add: handleData_def)
qed

lemma drain_short [simp]: "drain [] = ([], [])"
  by (simp add: drain.simps)

definition send_all :: "(jsval \<Rightarrow> byte list) \<Rightarrow> jsval list \<Rightarrow> ipc_client \<Rightarrow> ipc_client" where
  "send_all encode vs c = fold (\<lambda>v c. snd (send encode v c)) vs c"

lemma sent_drains:
  assumes "\<forall>v \<in> set vs. length (encode v) < 2 ^ 32" and "socketOpen c" and "authenticated c"
  shows "\<exists>bs. sent (send_all encode vs c) = sent c @ bs \<and> drain bs = (map encode vs, [])"
  using assms
proof (induction vs arbitrary: c)
  case Nil
  then show ?case by (simp add: send_all_def)
next
  case (Cons v vs)
  then obtain h where h: "writeUInt32BE (length (encode v)) = Some h"
    using writeUInt32BE_Some [of "length (encode v)"] by auto
  let ?c = "c\<lparr>sent := sent c @ h @ encode v\<rparr>"
  obtain bs where "sent (send_all encode vs ?c) = sent ?c @ bs" "drain bs = (map encode vs, [])"
    using Cons.IH [of ?c] Cons.prems by auto
  moreover have "snd (send encode v c) = ?c" using Cons.prems h by (simp add: send_def)
  ultimately show ?case
    using drain_frame [OF h, of bs] by (intro exI [of _ "h @ encode v @ bs"]) (simp add: send_all_def)
qed

lemma readSessionKey_concat:
  "readSessionKey acc cs = (let bs = acc @ concat cs in if length bs \<ge> 32 then Some (take 32 bs) else None)"
  by (induction acc cs rule: readSessionKey.induct) (auto simp: Let_def)

section \<open>Properties\<close>

text \<open>The framed stream loses, merges and splits nothing: whatever messages one client sends, and however
  the socket cuts the bytes into chunks, the other side emits exactly those messages in order and keeps
  nothing in its buffer, for messages shorter than \<open>2 ^ 32\<close> bytes that JSON reproduces.\<close>

theorem framing_roundtrip:
  assumes "\<forall>v \<in> set vs. length (encode v) < 2 ^ 32 \<and> decode (encode v) = Some v"
    and "socketOpen c" and "authenticated c" and "rxBuffer d = []"
    and "sent (send_all encode vs c) = sent c @ concat chunks"
  shows "feed decode chunks d = (concat (map (\<lambda>v. frame_events decode (encode v)) vs), d) \<and>
    (\<forall>v \<in> set vs. MessageEvent v \<in> set (frame_events decode (encode v)))"
proof -
  have "drain (concat chunks) = (map encode vs, [])"
    using sent_drains [of vs encode c] assms(1-3,5) by auto
  then have "feed decode chunks d = (concat (map (\<lambda>v. frame_events decode (encode v)) vs), d\<lparr>rxBuffer := []\<rparr>)"
    using feed_concat [of d decode chunks] assms(4) by (simp add: o_def)
  with assms(1,4) show ?thesis by (simp add: frame_events_def)
qed

definition sample_client :: ipc_client where
  "sample_client = \<lparr>rxBuffer = [], socketOpen = True, authenticated = True, heartbeatRunning = False, sent = []\<rparr>"

definition sample_encode :: "jsval \<Rightarrow> byte list" where
  "sample_encode v = (if v = JNull then [110] else [49, 50])"

definition sample_decode :: "byte list \<Rightarrow> jsval option" where
  "sample_decode bs = (if bs = [110] then Some JNull else if bs = [49, 50] then Some (JNum (Fin 12)) else None)"

theorem framing_roundtrip_witness:
  "feed sample_decode [[0, 0], [0, 2, 49], [50, 0, 0, 0, 1], [110]] sample_client =
     ([MessageEvent (JNum (Fin 12)), MessageEvent JNull], sample_client)"
  using framing_roundtrip [of "[JNum (Fin 12), JNull]" sample_encode sample_decode sample_client sample_client
      "[[0, 0], [0, 2, 49], [50, 0, 0, 0, 1], [110]]"]
  by (simp add: sample_encode_def sample_decode_def sample_client_def send_all_def send_def writeUInt32BE_def
      frame_events_def validateExecutionEnvelope_def)

text \<open>C37. Chunking is invisible: from any reachable buffer, reading a stream in pieces emits the same events
  and leaves the same buffer as reading it at once, and the session key is the first 32 bytes however
  they arrive.\<close>

theorem chunking_invisible:
  assumes "drain buf = (fs, rxBuffer c)"
  shows "feed decode chunks c = handleData decode (concat chunks) c \<and>
    readSessionKey [] chunks = readSessionKey [] [concat chunks]"
  using feed_concat [of c decode chunks] drain_rest [OF assms]
  by (simp add: handleData_def readSessionKey_concat)

theorem chunking_invisible_witness:
  "feed sample_decode [[1], [110, 0]] (sample_client\<lparr>rxBuffer := [0, 0, 0]\<rparr>) =
     handleData sample_decode [1, 110, 0] (sample_client\<lparr>rxBuffer := [0, 0, 0]\<rparr>)"
  using chunking_invisible [of "[0, 0, 0]" "[]" "sample_client\<lparr>rxBuffer := [0, 0, 0]\<rparr>" sample_decode "[[1], [110, 0]]"]
  by (simp add: drain.simps)

end
