(* ===== verification/Locks.thy ===== *)
theory Locks
  imports JsPrelude
begin

text \<open>
  The two mutexes of the control plane: \<^verbatim>\<open>shared/mutex.mjs\<close> (a queue of waiters, woken by a timer) and
  \<^verbatim>\<open>shared/AsyncMutex.mjs\<close> (a chain of promises). Each acquisition is a number; a state lists the
  acquisitions that hold the lock and those that wait. Both are interpretations of one contract, a lock
  that serves in order, from which exclusion and progress follow once.
\<close>

section \<open>The contract\<close>

text \<open>\<open>order\<close> is the line of those inside and waiting; \<open>tick\<close> lets the event loop run.\<close>

locale fifo_lock =
  fixes good :: "'m \<Rightarrow> bool"
    and inside :: "'m \<Rightarrow> nat list"
    and waiting :: "'m \<Rightarrow> nat list"
    and acquire :: "nat \<Rightarrow> 'm \<Rightarrow> 'm"
    and ticket :: "nat \<Rightarrow> 'm \<Rightarrow> nat"
    and release :: "nat \<Rightarrow> 'm \<Rightarrow> 'm"
    and tick :: "'m \<Rightarrow> 'm"
  assumes one_inside: "good m \<Longrightarrow> length (inside m) \<le> 1"
    and acquire_good: "good m \<Longrightarrow> good (acquire t m)"
    and acquire_order: "good m \<Longrightarrow> inside (acquire t m) @ waiting (acquire t m) = inside m @ waiting m @ [ticket t m]"
    and release_good: "good m \<Longrightarrow> inside m = [t] \<Longrightarrow> good (release t m)"
    and release_order: "good m \<Longrightarrow> inside m = [t] \<Longrightarrow> inside (release t m) = [] \<and> waiting (release t m) = waiting m"
    and tick_good: "good m \<Longrightarrow> good (tick m)"
    and tick_order: "good m \<Longrightarrow> inside (tick m) @ waiting (tick m) = inside m @ waiting m"
    and tick_keeps: "good m \<Longrightarrow> inside m \<noteq> [] \<Longrightarrow> inside (tick m) = inside m"
    and tick_serves: "good m \<Longrightarrow> inside m = [] \<Longrightarrow> waiting m \<noteq> [] \<Longrightarrow> inside (tick m) \<noteq> []"
begin

text \<open>The event loop runs, and whoever is inside leaves.\<close>

definition round :: "'m \<Rightarrow> 'm" where
  "round m = (case inside (tick m) of [] \<Rightarrow> tick m | t # _ \<Rightarrow> release t (tick m))"

lemma tick_head:
  assumes "good m" and "inside m @ waiting m = t # ts"
  shows "inside (tick m) = [t] \<and> waiting (tick m) = ts"
proof -
  have "inside (tick m) \<noteq> []"
    using assms tick_keeps tick_serves by (cases "inside m") auto
  then show ?thesis
    using tick_order [OF assms(1)] assms(2) one_inside [OF tick_good [OF assms(1)]]
    by (cases "inside (tick m)") auto
qed

lemma round_order:
  assumes "good m" and "inside m @ waiting m = t # ts"
  shows "good (round m) \<and> inside (round m) @ waiting (round m) = ts"
  using tick_head [OF assms] release_good [OF tick_good [OF assms(1)], of t]
    release_order [OF tick_good [OF assms(1)], of t]
  by (simp add: round_def)

text \<open>Whoever is in line gets in once those ahead have left.\<close>

lemma served:
  assumes "good m" and "inside m @ waiting m = before @ t # after"
  shows "inside (tick ((round ^^ length before) m)) = [t]"
  using assms
proof (induction before arbitrary: m)
  case Nil
  then show ?case using tick_head by simp
next
  case (Cons b before)
  from round_order [OF Cons.prems(1)] Cons.prems(2)
  have "good (round m)" "inside (round m) @ waiting (round m) = before @ t # after" by simp_all
  from Cons.IH [OF this] show ?case by (simp add: funpow_swap1)
qed

end

section \<open>Mutex\<close>

record mutex =
  mutexQueue :: "nat list"
  mutexLocked :: bool
  scheduled :: "nat list"    \<comment> \<open>woken by \<^verbatim>\<open>setTimeout\<close>, not yet run\<close>
  holders :: "nat list"      \<comment> \<open>resolved acquisitions that have not called release\<close>

definition new_mutex :: mutex where
  "new_mutex = \<lparr>mutexQueue = [], mutexLocked = False, scheduled = [], holders = []\<rparr>"

definition mutexAcquire :: "nat \<Rightarrow> mutex \<Rightarrow> mutex" where
  "mutexAcquire t m =
     (if \<not> mutexLocked m then m\<lparr>mutexLocked := True, holders := holders m @ [t]\<rparr>
      else m\<lparr>mutexQueue := mutexQueue m @ [t]\<rparr>)"

definition mutexRelease :: "nat \<Rightarrow> mutex \<Rightarrow> mutex" where
  "mutexRelease t m =
     (let m1 = m\<lparr>holders := remove1 t (holders m)\<rparr>
      in case mutexQueue m1 of
           [] \<Rightarrow> m1\<lparr>mutexLocked := False\<rparr>
         | next # rest \<Rightarrow> m1\<lparr>mutexQueue := rest, scheduled := scheduled m1 @ [next]\<rparr>)"

definition mutexTimer :: "mutex \<Rightarrow> mutex" where
  "mutexTimer m =
     (case scheduled m of
        [] \<Rightarrow> m
      | t # ts \<Rightarrow> m\<lparr>scheduled := ts, mutexLocked := True, holders := holders m @ [t]\<rparr>)"

definition mutex_good :: "mutex \<Rightarrow> bool" where
  "mutex_good m \<longleftrightarrow>
     (if mutexLocked m then length (holders m) + length (scheduled m) = 1
      else holders m = [] \<and> scheduled m = [] \<and> mutexQueue m = [])"

definition mutex_waiting :: "mutex \<Rightarrow> nat list" where
  "mutex_waiting m = scheduled m @ mutexQueue m"

lemma mutex_cases:
  assumes "mutex_good m"
  obtains "\<not> mutexLocked m" "holders m = []" "scheduled m = []" "mutexQueue m = []"
    | t where "mutexLocked m" "holders m = [t]" "scheduled m = []"
    | t where "mutexLocked m" "holders m = []" "scheduled m = [t]"
  using assms
  by (cases "holders m"; cases "scheduled m") (auto simp: mutex_good_def split: if_splits)

interpretation mutex: fifo_lock mutex_good holders mutex_waiting mutexAcquire "\<lambda>t m. t" mutexRelease mutexTimer
proof
  fix m :: mutex and t
  assume g: "mutex_good m"
  then show "length (holders m) \<le> 1" by (rule mutex_cases) simp_all
  from g show "mutex_good (mutexAcquire t m)"
    by (rule mutex_cases) (simp_all add: mutex_good_def mutexAcquire_def)
  from g show "holders (mutexAcquire t m) @ mutex_waiting (mutexAcquire t m) = holders m @ mutex_waiting m @ [t]"
    by (rule mutex_cases) (simp_all add: mutexAcquire_def mutex_waiting_def)
  from g show "mutex_good (mutexTimer m)"
    by (rule mutex_cases) (simp_all add: mutex_good_def mutexTimer_def)
  from g show "holders (mutexTimer m) @ mutex_waiting (mutexTimer m) = holders m @ mutex_waiting m"
    by (rule mutex_cases) (simp_all add: mutexTimer_def mutex_waiting_def)
  from g show "holders m \<noteq> [] \<Longrightarrow> holders (mutexTimer m) = holders m"
    by (rule mutex_cases) (simp_all add: mutexTimer_def)
  from g show "holders m = [] \<Longrightarrow> mutex_waiting m \<noteq> [] \<Longrightarrow> holders (mutexTimer m) \<noteq> []"
    by (rule mutex_cases) (simp_all add: mutexTimer_def mutex_waiting_def)
  from g show "holders m = [t] \<Longrightarrow> mutex_good (mutexRelease t m)"
    by (rule mutex_cases) (simp_all add: mutex_good_def mutexRelease_def Let_def split: list.splits)
  from g show "holders m = [t] \<Longrightarrow>
      holders (mutexRelease t m) = [] \<and> mutex_waiting (mutexRelease t m) = mutex_waiting m"
    by (rule mutex_cases) (simp_all add: mutexRelease_def mutex_waiting_def Let_def split: list.splits)
qed

section \<open>AsyncMutex\<close>

record async_mutex =
  chain :: "bool list"      \<comment> \<open>the tickets of the promise chain, true once resolved\<close>
  awaiting :: "nat list"
  running :: "nat list"
  isLocked :: bool

definition new_async_mutex :: async_mutex where
  "new_async_mutex = \<lparr>chain = [], awaiting = [], running = [], isLocked = False\<rparr>"

definition asyncAcquire :: "async_mutex \<Rightarrow> async_mutex" where
  "asyncAcquire m = m\<lparr>chain := chain m @ [False], awaiting := awaiting m @ [length (chain m)]\<rparr>"

text \<open>The wait of an acquisition ends when every earlier ticket is resolved.\<close>

definition asyncResume :: "async_mutex \<Rightarrow> async_mutex" where
  "asyncResume m =
     (case awaiting m of
        [] \<Rightarrow> m
      | t # ts \<Rightarrow>
          if list_all (\<lambda>r. r) (take t (chain m))
          then m\<lparr>awaiting := ts, running := running m @ [t], isLocked := True\<rparr> else m)"

definition asyncRelease :: "nat \<Rightarrow> async_mutex \<Rightarrow> async_mutex" where
  "asyncRelease t m = m\<lparr>isLocked := False, chain := (chain m)[t := True], running := removeAll t (running m)\<rparr>"

text \<open>\<^verbatim>\<open>runExclusive\<close> once it was let in: the result of the task, thrown or returned, and the release.\<close>

definition runExclusive :: "nat \<Rightarrow> ('s \<Rightarrow> ('e + 'a) \<times> 's) \<Rightarrow> 's \<Rightarrow> async_mutex \<Rightarrow> ('e + 'a) \<times> 's \<times> async_mutex" where
  "runExclusive t task s m = (case task s of (r, s') \<Rightarrow> (r, s', asyncRelease t m))"

definition async_good :: "async_mutex \<Rightarrow> bool" where
  "async_good m \<longleftrightarrow>
     (\<exists>k \<le> length (chain m). awaiting m = [k ..< length (chain m)] \<and>
        (\<forall>i < length (chain m). chain m ! i \<longleftrightarrow> i < k \<and> i \<notin> set (running m)) \<and>
        (running m = [] \<or> (k > 0 \<and> running m = [k - 1])))"

lemma async_good_new: "async_good new_async_mutex"
  by (simp add: async_good_def new_async_mutex_def)

lemma resume_idle:
  assumes "async_good m" and "running m = []" and "awaiting m = t # ts"
  shows "asyncResume m = m\<lparr>awaiting := ts, running := [t], isLocked := True\<rparr>"
proof -
  from assms obtain k where k: "k \<le> length (chain m)" "t # ts = [k ..< length (chain m)]"
    "\<forall>i < length (chain m). chain m ! i \<longleftrightarrow> i < k" by (auto simp: async_good_def)
  then have "t = k" by (metis list.sel(1) upt_eq_Nil_conv upt_rec list.distinct(1))
  with k have "list_all (\<lambda>r. r) (take t (chain m))"
    by (auto simp: list_all_length)
  with assms show ?thesis by (simp add: asyncResume_def)
qed

lemma resume_busy:
  assumes "async_good m" and "running m = [r]"
  shows "asyncResume m = m"
proof (cases "awaiting m")
  case (Cons t ts)
  with assms obtain k where k: "k \<le> length (chain m)" "t # ts = [k ..< length (chain m)]" "k > 0" "r = k - 1"
    "\<forall>i < length (chain m). chain m ! i \<longleftrightarrow> i < k \<and> i \<noteq> r" by (auto simp: async_good_def)
  then have "t = k" by (metis list.sel(1) upt_eq_Nil_conv upt_rec list.distinct(1))
  moreover from k have "r < length (chain m)" "\<not> chain m ! r" by auto
  ultimately have "\<not> list_all (\<lambda>r. r) (take t (chain m))" using k(3,4) by (auto simp: list_all_length intro!: exI [of _ r])
  with Cons show ?thesis by (simp add: asyncResume_def)
qed (simp add: asyncResume_def)

lemma async_good_cases:
  assumes "async_good m"
  obtains "running m = []" | r where "running m = [r]"
  using assms by (auto simp: async_good_def)

lemma async_acquire_good: "async_good m \<Longrightarrow> async_good (asyncAcquire m)"
  by (auto simp: async_good_def asyncAcquire_def nth_append less_Suc_eq)

lemma async_resume_good:
  assumes "async_good m"
  shows "async_good (asyncResume m)"
  using assms
proof (rule async_good_cases)
  assume run: "running m = []"
  show ?thesis
  proof (cases "awaiting m")
    case Nil
    with assms show ?thesis by (simp add: asyncResume_def)
  next
    case (Cons t ts)
    from assms run Cons obtain k where k: "k \<le> length (chain m)" "t # ts = [k ..< length (chain m)]"
      "\<forall>i < length (chain m). chain m ! i \<longleftrightarrow> i < k" by (auto simp: async_good_def)
    have "k < length (chain m)" using k(2) by (cases "k < length (chain m)") auto
    then have "t = k \<and> ts = [Suc k ..< length (chain m)]" using k(2) by (simp add: upt_conv_Cons)
    with resume_idle [OF assms run Cons] k \<open>k < length (chain m)\<close> show ?thesis
      by (auto simp: async_good_def intro!: exI [of _ "Suc k"])
  qed
next
  fix r assume "running m = [r]"
  with resume_busy [OF assms] assms show ?thesis by simp
qed

lemma async_release_good:
  assumes "async_good m" and "running m = [t]"
  shows "async_good (asyncRelease t m)"
proof -
  from assms obtain k where "k \<le> length (chain m)" "awaiting m = [k ..< length (chain m)]" "k > 0" "t = k - 1"
    "\<forall>i < length (chain m). chain m ! i \<longleftrightarrow> i < k \<and> i \<noteq> t" by (auto simp: async_good_def)
  with assms(2) show ?thesis
    by (auto simp: async_good_def asyncRelease_def nth_list_update intro!: exI [of _ k])
qed

lemma async_line:
  assumes "async_good m"
  shows "running (asyncResume m) @ awaiting (asyncResume m) = running m @ awaiting m"
  using assms
proof (rule async_good_cases)
  assume "running m = []"
  with assms show ?thesis by (cases "awaiting m") (simp_all add: resume_idle asyncResume_def)
next
  fix r assume "running m = [r]"
  with assms show ?thesis by (simp add: resume_busy)
qed

interpretation async: fifo_lock async_good running awaiting "\<lambda>t. asyncAcquire" "\<lambda>t m. length (chain m)" asyncRelease
  asyncResume
proof
  fix m :: async_mutex and t
  assume g: "async_good m"
  then show "length (running m) \<le> 1" by (rule async_good_cases) simp_all
  from g show "async_good (asyncAcquire m)" by (rule async_acquire_good)
  show "running (asyncAcquire m) @ awaiting (asyncAcquire m) = running m @ awaiting m @ [length (chain m)]"
    by (simp add: asyncAcquire_def)
  from g show "running m = [t] \<Longrightarrow> async_good (asyncRelease t m)" by (rule async_release_good)
  show "running m = [t] \<Longrightarrow> running (asyncRelease t m) = [] \<and> awaiting (asyncRelease t m) = awaiting m"
    by (simp add: asyncRelease_def)
  from g show "async_good (asyncResume m)" by (rule async_resume_good)
  from g show "running (asyncResume m) @ awaiting (asyncResume m) = running m @ awaiting m" by (rule async_line)
  show "running m \<noteq> [] \<Longrightarrow> running (asyncResume m) = running m"
    using resume_busy [OF g] async_good_cases [OF g] by metis
  from g show "running m = [] \<Longrightarrow> awaiting m \<noteq> [] \<Longrightarrow> running (asyncResume m) \<noteq> []"
    by (cases "awaiting m") (simp_all add: resume_idle)
qed

section \<open>Runs\<close>

inductive mutex_step :: "mutex \<Rightarrow> mutex \<Rightarrow> bool" where
  "mutex_step m (mutexAcquire t m)"
| "holders m = [t] \<Longrightarrow> mutex_step m (mutexRelease t m)"
| "mutex_step m (mutexTimer m)"

inductive async_step :: "async_mutex \<Rightarrow> async_mutex \<Rightarrow> bool" where
  "async_step m (asyncAcquire m)"
| "running m = [t] \<Longrightarrow> async_step m (asyncRelease t m)"
| "async_step m (asyncResume m)"

interpretation mutex_runs: machine_invariant "\<lambda>m. m = new_mutex" mutex_step mutex_good
proof
  show "m = new_mutex \<Longrightarrow> mutex_good m" for m by (simp add: new_mutex_def mutex_good_def)
  show "mutex_step m m' \<Longrightarrow> mutex_good m \<Longrightarrow> mutex_good m'" for m m'
    by (erule mutex_step.cases) (auto intro: mutex.acquire_good mutex.release_good mutex.tick_good)
qed

interpretation async_runs: machine_invariant "\<lambda>m. m = new_async_mutex" async_step async_good
proof
  show "m = new_async_mutex \<Longrightarrow> async_good m" for m by (simp add: async_good_new)
  show "async_step m m' \<Longrightarrow> async_good m \<Longrightarrow> async_good m'" for m m'
    by (erule async_step.cases) (auto intro: async_acquire_good async_release_good async_resume_good)
qed

definition mutexRound :: "mutex \<Rightarrow> mutex" where
  "mutexRound m = (case holders (mutexTimer m) of [] \<Rightarrow> mutexTimer m | t # _ \<Rightarrow> mutexRelease t (mutexTimer m))"

definition asyncRound :: "async_mutex \<Rightarrow> async_mutex" where
  "asyncRound m = (case running (asyncResume m) of [] \<Rightarrow> asyncResume m | t # _ \<Rightarrow> asyncRelease t (asyncResume m))"

lemma round_eqs: "mutex.round = mutexRound" "async.round = asyncRound"
  by (auto simp: fun_eq_iff mutexRound_def asyncRound_def mutex.round_def async.round_def split: list.splits)

section \<open>Properties\<close>

text \<open>The mutex excludes and serves in order: in every state reached by acquisitions, timer runs and
  releases by the holder, at most one acquisition holds the lock, and each one in line holds it after
  exactly those ahead of it have been served.\<close>

theorem mutex_serves_in_order:
  assumes "reach (\<lambda>m. m = new_mutex) mutex_step m" and "holders m @ mutex_waiting m = before @ t # after"
  shows "length (holders m) \<le> 1 \<and> holders (mutexTimer ((mutexRound ^^ length before) m)) = [t]"
  using mutex_runs.reach_good [OF assms(1)] mutex.one_inside mutex.served [OF _ assms(2)]
  by (simp add: round_eqs)

theorem mutex_serves_in_order_witness:
  "holders (mutexTimer ((mutexRound ^^ 1) (mutexAcquire 5 (mutexAcquire 4 new_mutex)))) = [5]"
proof -
  have "reach (\<lambda>m. m = new_mutex) mutex_step new_mutex" by (rule reach_start) (rule refl)
  from reach_step [OF reach_step [OF this mutex_step.intros(1)] mutex_step.intros(1)]
  have "reach (\<lambda>m. m = new_mutex) mutex_step (mutexAcquire 5 (mutexAcquire 4 new_mutex))" .
  from mutex_serves_in_order [OF this, of "[4]" 5 "[]"] show ?thesis
    by (simp add: mutexAcquire_def new_mutex_def mutex_waiting_def)
qed

text \<open>The promise-chain mutex excludes and serves in order, and a task run exclusively releases it
  whether it returns or throws.\<close>

theorem async_mutex_serves_in_order:
  assumes "reach (\<lambda>m. m = new_async_mutex) async_step m" and "running m @ awaiting m = before @ t # after"
  shows "length (running m) \<le> 1 \<and> running (asyncResume ((asyncRound ^^ length before) m)) = [t] \<and>
    running (snd (snd (runExclusive t task s (asyncResume ((asyncRound ^^ length before) m))))) = []"
  using async_runs.reach_good [OF assms(1)] async.one_inside async.served [OF _ assms(2)]
  by (simp add: round_eqs runExclusive_def asyncRelease_def split: prod.splits)

theorem async_mutex_serves_in_order_witness:
  "running (asyncResume ((asyncRound ^^ 1) (asyncAcquire (asyncAcquire new_async_mutex)))) = [1]"
proof -
  have "reach (\<lambda>m. m = new_async_mutex) async_step new_async_mutex" by (rule reach_start) (rule refl)
  from reach_step [OF reach_step [OF this async_step.intros(1)] async_step.intros(1)]
  have "reach (\<lambda>m. m = new_async_mutex) async_step (asyncAcquire (asyncAcquire new_async_mutex))" .
  from async_mutex_serves_in_order [OF this, of "[0]" 1 "[]" "\<lambda>s :: unit. (Inr () :: unit + unit, s)" "()"] show ?thesis
    by (simp add: asyncAcquire_def new_async_mutex_def)
qed

end
