(* ===== verification/CanonicalJson.thy ===== *)
theory CanonicalJson
  imports JsPrelude "HOL-Library.Char_ord" "HOL-Library.List_Lexorder" "HOL-Library.Finite_Map" "HOL-Library.Multiset"
begin

text \<open>
  The canonical form signatures are computed over (\<^verbatim>\<open>security-authority/protocol/canonical-serializer.mjs\<close>).
  Keys are compared by code unit, as \<^verbatim>\<open>Array.prototype.sort\<close> compares ASCII strings; assigning the
  sorted members to a fresh object enumerates integer-like keys first, in numeric order, and the rest as
  inserted.
\<close>

section \<open>Canonicalisation\<close>

text \<open>A canonical array index, which an object enumerates before its other keys.\<close>

definition is_index :: "string \<Rightarrow> bool" where
  "is_index k \<longleftrightarrow> k = dec_string (dec_value k) \<and> dec_value k < 2 ^ 32 - 1"

definition enum_order :: "(string \<times> jsval) list \<Rightarrow> (string \<times> jsval) list" where
  "enum_order kvs =
     sort_key (\<lambda>(k, v). dec_value k) (filter (\<lambda>(k, v). is_index k) kvs) @ filter (\<lambda>(k, v). \<not> is_index k) kvs"

fun canonicalize :: "jsval \<Rightarrow> jsval" and canon_members :: "(string \<times> jsval) list \<Rightarrow> (string \<times> jsval) list"
  and canon_elements :: "jsval list \<Rightarrow> jsval list" where
  "canonicalize (JObj kvs) = JObj (enum_order (sort_key fst (canon_members kvs)))"
| "canonicalize (JArr xs) = JArr (canon_elements xs)"
| "canonicalize v = v"
| "canon_members [] = []"
| "canon_members ((k, v) # kvs) = (k, canonicalize v) # canon_members kvs"
| "canon_elements [] = []"
| "canon_elements (x # xs) = canonicalize x # canon_elements xs"

text \<open>\<open>stringify\<close> is \<^verbatim>\<open>JSON.stringify\<close>.\<close>

definition canonicalStringify :: "(jsval \<Rightarrow> string) \<Rightarrow> jsval \<Rightarrow> string" where
  "canonicalStringify stringify v = stringify (canonicalize v)"

section \<open>What a value means\<close>

text \<open>A JSON value up to the order of members.\<close>

datatype jdoc =
    DUndef
  | DNull
  | DBool bool
  | DNum jsnum
  | DStr string
  | DArr "jdoc list"
  | DObj "(string, jdoc) fmap"

fun meaning :: "jsval \<Rightarrow> jdoc" and member_meanings :: "(string \<times> jsval) list \<Rightarrow> (string \<times> jdoc) list"
  and element_meanings :: "jsval list \<Rightarrow> jdoc list" where
  "meaning JUndef = DUndef"
| "meaning JNull = DNull"
| "meaning (JBool b) = DBool b"
| "meaning (JNum n) = DNum n"
| "meaning (JStr s) = DStr s"
| "meaning (JArr xs) = DArr (element_meanings xs)"
| "meaning (JObj kvs) = DObj (fmap_of_list (member_meanings kvs))"
| "member_meanings [] = []"
| "member_meanings ((k, v) # kvs) = (k, meaning v) # member_meanings kvs"
| "element_meanings [] = []"
| "element_meanings (x # xs) = meaning x # element_meanings xs"

text \<open>The keys of an object are distinct.\<close>

fun well_formed :: "jsval \<Rightarrow> bool" and well_formed_members :: "(string \<times> jsval) list \<Rightarrow> bool"
  and well_formed_elements :: "jsval list \<Rightarrow> bool" where
  "well_formed (JObj kvs) = (distinct (map fst kvs) \<and> well_formed_members kvs)"
| "well_formed (JArr xs) = well_formed_elements xs"
| "well_formed v = True"
| "well_formed_members [] = True"
| "well_formed_members ((k, v) # kvs) = (well_formed v \<and> well_formed_members kvs)"
| "well_formed_elements [] = True"
| "well_formed_elements (x # xs) = (well_formed x \<and> well_formed_elements xs)"

section \<open>Lemmas\<close>

lemma canon_members_map: "canon_members kvs = map (\<lambda>(k, v). (k, canonicalize v)) kvs"
  by (induction kvs) auto

lemma canon_elements_map: "canon_elements xs = map canonicalize xs"
  by (induction xs) auto

lemma member_meanings_map: "member_meanings kvs = map (\<lambda>(k, v). (k, meaning v)) kvs"
  by (induction kvs) auto

lemma element_meanings_map: "element_meanings xs = map meaning xs"
  by (induction xs) auto

lemma well_formed_members_iff: "well_formed_members kvs \<longleftrightarrow> (\<forall>(k, v) \<in> set kvs. well_formed v)"
  by (induction kvs) auto

lemma well_formed_elements_iff: "well_formed_elements xs \<longleftrightarrow> (\<forall>x \<in> set xs. well_formed x)"
  by (induction xs) auto

lemmas maps = canon_members_map canon_elements_map member_meanings_map element_meanings_map
  well_formed_members_iff well_formed_elements_iff

lemma map_of_map_values: "map_of (map (\<lambda>(k, v). (k, f v)) kvs) k = map_option f (map_of kvs k)"
  by (induction kvs) auto

lemma set_enum_order [simp]: "set (enum_order kvs) = set kvs"
  by (auto simp: enum_order_def)

lemma keys_enum_order: "distinct (map fst kvs) \<Longrightarrow> distinct (map fst (enum_order kvs))"
proof -
  have "mset (enum_order kvs) = mset kvs"
    using multiset_partition [of "mset kvs" "\<lambda>(k, v). is_index k"] by (simp add: enum_order_def case_prod_unfold)
  then have "mset (map fst (enum_order kvs)) = mset (map fst kvs)" by simp
  then show "distinct (map fst kvs) \<Longrightarrow> distinct (map fst (enum_order kvs))" by (metis mset_eq_imp_distinct_iff)
qed

lemma map_of_same_set:
  "distinct (map fst xs) \<Longrightarrow> distinct (map fst ys) \<Longrightarrow> set xs = set ys \<Longrightarrow> map_of xs = map_of ys"
  by (metis map_of_inject_set)

lemma distinct_sort_keys: "distinct (map fst xs) \<Longrightarrow> distinct (map fst (sort_key f xs))"
  by (simp add: distinct_map)

text \<open>Sorting by key depends only on the lookups.\<close>

lemma sort_key_lookup:
  fixes xs ys :: "(string \<times> jsval) list"
  assumes "distinct (map fst xs)" and "distinct (map fst ys)" and "map_of xs = map_of ys"
  shows "sort_key fst xs = sort_key fst ys"
proof -
  have "set xs = set ys" using assms by (simp add: map_of_inject_set)
  moreover have "inj_on fst (set xs)" using assms(1) by (simp add: distinct_map)
  moreover note distinct_sort_keys
  ultimately show ?thesis
    using assms(1,2) by (intro map_sorted_distinct_set_unique [of fst]) simp_all
qed

lemma meaning_canonicalize: "well_formed v \<Longrightarrow> meaning (canonicalize v) = meaning v"
proof (induction v)
  case (JObj kvs)
  let ?c = "map (\<lambda>(k, v). (k, canonicalize v)) kvs" and ?m = "\<lambda>kvs. map (\<lambda>(k, v). (k, meaning v)) kvs"
  have keys: "distinct (map fst ?c)" using JObj.prems by (simp add: case_prod_unfold o_def)
  then have "distinct (map fst (sort_key fst ?c))" by (rule distinct_sort_keys)
  from keys_enum_order [OF this] have "map_of (enum_order (sort_key fst ?c)) = map_of ?c"
    using keys by (intro map_of_same_set) simp_all
  moreover have "map_option (\<lambda>v. meaning (canonicalize v)) (map_of kvs k) = map_option meaning (map_of kvs k)" for k
  proof (cases "map_of kvs k")
    case (Some v)
    then have "(k, v) \<in> set kvs" by (rule map_of_SomeD)
    moreover from this have "well_formed v" using JObj.prems by (auto simp: maps)
    ultimately have "meaning (canonicalize v) = meaning v" using JObj.IH [of "(k, v)" v] by simp
    with Some show ?thesis by simp
  qed simp
  ultimately have "map_of (?m (enum_order (sort_key fst ?c))) = map_of (?m kvs)"
    unfolding fun_eq_iff map_of_map_values by (simp add: option.map_comp o_def map_of_map_values)
  then show ?case by (simp add: maps fmap_of_list.abs_eq fmap_of_list.rep_eq fmap_ext)
qed (auto simp: maps)

lemma meaning_cases:
  "meaning v = DArr ds \<Longrightarrow> \<exists>xs. v = JArr xs \<and> ds = map meaning xs"
  "meaning v = DObj m \<Longrightarrow> \<exists>kvs. v = JObj kvs \<and> m = fmap_of_list (member_meanings kvs)"
  by (cases v; simp add: maps)+

lemma canonicalize_meaning:
  "well_formed v \<Longrightarrow> well_formed w \<Longrightarrow> meaning v = meaning w \<Longrightarrow> canonicalize v = canonicalize w"
proof (induction v arbitrary: w)
  case (JArr xs)
  then obtain ys where w: "w = JArr ys" and eq: "map meaning xs = map meaning ys"
    using meaning_cases(1) [of w "map meaning xs"] by (auto simp: maps)
  have "map canonicalize xs = map canonicalize ys"
  proof (rule nth_equalityI)
    show "length (map canonicalize xs) = length (map canonicalize ys)" using map_eq_imp_length_eq [OF eq] by simp
    fix i assume i: "i < length (map canonicalize xs)"
    then have "i < length ys" "meaning (xs ! i) = meaning (ys ! i)"
      using map_eq_imp_length_eq [OF eq] eq by (auto dest: arg_cong [where f = "\<lambda>zs. zs ! i"])
    with JArr i w show "map canonicalize xs ! i = map canonicalize ys ! i" by (simp add: maps)
  qed
  with w show ?case by (simp add: maps)
next
  case (JObj kvs)
  then obtain kvs' where w: "w = JObj kvs'" and eq: "fmap_of_list (member_meanings kvs) = fmap_of_list (member_meanings kvs')"
    using meaning_cases(2) [of w "fmap_of_list (member_meanings kvs)"] by auto
  let ?c = "\<lambda>kvs. map (\<lambda>(k, v). (k, canonicalize v)) kvs"
  have look: "map_option meaning (map_of kvs k) = map_option meaning (map_of kvs' k)" for k
    using arg_cong [OF eq, of "\<lambda>m. fmlookup m k"] by (simp only: fmlookup_of_list member_meanings_map map_of_map_values)
  have "map_of (?c kvs) = map_of (?c kvs')"
  proof
    fix k
    have "map_option canonicalize (map_of kvs k) = map_option canonicalize (map_of kvs' k)"
    proof (cases "map_of kvs k")
      case None
      with look [of k] show ?thesis by simp
    next
      case (Some v)
      with look [of k] obtain v' where v': "map_of kvs' k = Some v'" "meaning v = meaning v'"
        by (cases "map_of kvs' k") auto
      have "(k, v) \<in> set kvs" "well_formed v" "well_formed v'"
        using Some v' JObj.prems w by (auto simp: maps dest: map_of_SomeD)
      with JObj.IH [of "(k, v)" v v'] v' Some show ?thesis by simp
    qed
    then show "map_of (?c kvs) k = map_of (?c kvs') k" by (simp only: map_of_map_values)
  qed
  then have "sort_key fst (?c kvs) = sort_key fst (?c kvs')"
    using JObj.prems w by (intro sort_key_lookup) (simp_all add: case_prod_unfold o_def)
  with w show ?case by (simp add: maps)
next
  case JUndef then show ?case by (cases w) simp_all
next
  case JNull then show ?case by (cases w) simp_all
next
  case (JBool b) then show ?case by (cases w) simp_all
next
  case (JNum n) then show ?case by (cases w) simp_all
next
  case (JStr x) then show ?case by (cases w) simp_all
qed

section \<open>Properties\<close>



end
