(* ===== verification/ReplayProtection.thy ===== *)
theory ReplayProtection
  imports Licensing SecureStorage CanonicalJson
begin

text \<open>
  Replay protection of the backend protocol: the nonce cache backed by the database
  (\<^verbatim>\<open>protocol/replay-guard.mjs\<close>) and the envelope validator (\<^verbatim>\<open>protocol/envelope.mjs\<close>).
\<close>

section \<open>ReplayGuard\<close>

record replay_guard =
  initialized :: bool
  seenNonces :: "string list"

definition new_guard :: replay_guard where
  "new_guard = \<lparr>initialized = False, seenNonces = []\<rparr>"

definition guardInit :: "'b acp \<Rightarrow> replay_guard \<Rightarrow> replay_guard" where
  "guardInit w g = (if initialized g then g else \<lparr>initialized = True, seenNonces = js_set (loadSeenNonces w)\<rparr>)"

definition checkAndRemember :: "int \<Rightarrow> string \<Rightarrow> replay_guard \<times> 'b acp \<Rightarrow> bool \<times> replay_guard \<times> 'b acp" where
  "checkAndRemember now nonce s =
     (case s of (g0, w) \<Rightarrow>
        let g = guardInit w g0 in
        if nonce \<in> set (seenNonces g) then (False, g, w)
        else (True, g\<lparr>seenNonces := seenNonces g @ [nonce]\<rparr>, saveNonce nonce now w))"

definition isWithinTimeWindow :: "int \<Rightarrow> int \<Rightarrow> int \<Rightarrow> bool" where
  "isWithinTimeWindow now timestamp maxDriftMs \<longleftrightarrow> \<bar>now - timestamp\<bar> \<le> maxDriftMs"

definition guardEvict :: "int \<Rightarrow> replay_guard \<times> 'b acp \<Rightarrow> replay_guard \<times> 'b acp" where
  "guardEvict now s =
     (case s of (g, w) \<Rightarrow>
        let w1 = evictOldNonces (now - 30000) w in (g\<lparr>seenNonces := js_set (loadSeenNonces w1)\<rparr>, w1))"

datatype guard_op = GuardCheck string | GuardEvict | GuardRestart

fun guard_step :: "int \<times> guard_op \<Rightarrow> replay_guard \<times> 'b acp \<Rightarrow> replay_guard \<times> 'b acp" where
  "guard_step (now, GuardCheck n) s = snd (checkAndRemember now n s)"
| "guard_step (now, GuardEvict) s = guardEvict now s"
| "guard_step (now, GuardRestart) (g, w) = (new_guard, w)"

text \<open>The cache holds every stored nonce once it is loaded.\<close>

definition guard_ok :: "replay_guard \<times> 'b acp \<Rightarrow> bool" where
  "guard_ok s \<longleftrightarrow> db_open (snd s) \<and> (initialized (fst s) \<longrightarrow> fst ` set (nonce_table (snd s)) \<subseteq> set (seenNonces (fst s)))"

definition remembered :: "string \<Rightarrow> int \<Rightarrow> replay_guard \<times> 'b acp \<Rightarrow> bool" where
  "remembered n t0 s \<longleftrightarrow> guard_ok s \<and> (\<exists>t \<ge> t0. (n, t) \<in> set (nonce_table (snd s)))"

lemma remembered_rejects: "remembered n t0 s \<Longrightarrow> \<not> fst (checkAndRemember now n s)"
proof -
  assume r: "remembered n t0 s"
  obtain g w where s: "s = (g, w)" by (cases s)
  have "n \<in> fst ` set (nonce_table w)" using r s by (force simp: remembered_def)
  then have "n \<in> set (seenNonces (guardInit w g))"
    using r s by (auto simp: remembered_def guard_ok_def guardInit_def loadSeenNonces_def)
  with s show ?thesis by (simp add: checkAndRemember_def)
qed

lemma guard_ok_check: "guard_ok s \<Longrightarrow> guard_ok (snd (checkAndRemember now n s))"
  by (cases s) (auto simp: guard_ok_def checkAndRemember_def guardInit_def loadSeenNonces_def saveNonce_def Let_def)

lemma remembered_check: "remembered n t0 s \<Longrightarrow> remembered n t0 (snd (checkAndRemember now n' s))"
  using guard_ok_check [of s now n']
  by (cases s) (auto simp: remembered_def checkAndRemember_def saveNonce_def Let_def)

lemma remembered_step:
  assumes "remembered n t0 s" and "t \<le> t0 + 30000"
  shows "remembered n t0 (guard_step (t, x) s)"
proof (cases x)
  case (GuardCheck n')
  with assms show ?thesis by (simp add: remembered_check)
next
  case GuardEvict
  with assms show ?thesis
    by (cases s) (auto simp: remembered_def guard_ok_def guardEvict_def evictOldNonces_def loadSeenNonces_def Let_def)
next
  case GuardRestart
  with assms show ?thesis by (cases s) (auto simp: remembered_def guard_ok_def new_guard_def)
qed

lemma remembered_run:
  "remembered n t0 s \<Longrightarrow> \<forall>(t, x) \<in> set ops. t \<le> t0 + 30000 \<Longrightarrow> remembered n t0 (fold guard_step ops s)"
proof (induction ops arbitrary: s)
  case (Cons x ops)
  then have "remembered n t0 (guard_step x s)" using remembered_step [of n t0 s "fst x" "snd x"] by (cases x) auto
  with Cons show ?case by simp
qed simp

lemma accepted_remembered:
  assumes "guard_ok s" and "fst (checkAndRemember t0 n s)"
  shows "remembered n t0 (snd (checkAndRemember t0 n s))"
proof -
  obtain g w where s: "s = (g, w)" by (cases s)
  have "n \<notin> set (seenNonces (guardInit w g))" using assms(2) s by (auto simp: checkAndRemember_def Let_def split: if_splits)
  moreover have "fst ` set (nonce_table w) \<subseteq> set (seenNonces (guardInit w g))"
    using assms(1) s by (auto simp: guard_ok_def guardInit_def loadSeenNonces_def)
  ultimately have "map_of (nonce_table w) n = None" by (auto simp: map_of_eq_None_iff)
  with assms s guard_ok_check [OF assms(1), of t0 n] show ?thesis
    by (auto simp: remembered_def checkAndRemember_def saveNonce_def guard_ok_def Let_def split: if_splits)
qed

section \<open>EnvelopeValidator\<close>

text \<open>Conversions of the standard library the validator applies to untyped members.\<close>

record js_lib =
  toNumber :: "jsval \<Rightarrow> jsnum"
  toStr :: "jsval \<Rightarrow> string"
  dateMs :: "jsval \<Rightarrow> jsnum"     \<comment> \<open>\<^verbatim>\<open>new Date(v).getTime()\<close>\<close>

definition js_nullish :: "jsval \<Rightarrow> jsval \<Rightarrow> jsval" where
  "js_nullish a b = (if a = JUndef \<or> a = JNull then b else a)"

text \<open>Member read by a key that may index an array.\<close>

definition js_member :: "jsval \<Rightarrow> string \<Rightarrow> jsval" where
  "js_member v k =
     (case v of
        JArr xs \<Rightarrow> (case find (\<lambda>i. dec_string i = k) [0 ..< length xs] of Some i \<Rightarrow> xs ! i | None \<Rightarrow> JUndef)
      | _ \<Rightarrow> js_get v k)"

definition serializeBackendResponse :: "js_lib \<Rightarrow> jsval \<Rightarrow> jsval" where
  "serializeBackendResponse lib e =
     canonicalize (JObj
       ([(''version'', js_nullish (js_get e ''version'') (js_nullish (js_get e ''v'') (JNum (Fin 2)))),
         (''timestamp'', js_get e ''timestamp''),
         (''server_epoch'', JNum (toNumber lib (js_nullish (js_get e ''server_epoch'')
            (js_nullish (js_get e ''epoch'') (JNum (Fin 1)))))),
         (''payload'', js_get e ''payload''),
         (''generation'', JNum (toNumber lib (js_nullish (js_get e ''generation'') (JNum (Fin 1)))))] @
        (if truthy (js_get e ''nonce'') then [(''nonce'', JStr (toStr lib (js_get e ''nonce'')))] else [])))"

type_synonym consumed = "(jsval, int) jsmap"

definition cleanupNonces :: "int \<Rightarrow> consumed \<Rightarrow> consumed" where
  "cleanupNonces now m = (if length m > 2000 then filter (\<lambda>(n, expiresAt). \<not> expiresAt \<le> now) m else m)"

definition envelope_time :: "js_lib \<Rightarrow> jsval \<Rightarrow> jsnum" where
  "envelope_time lib ts = (case ts of JNum n \<Rightarrow> n | _ \<Rightarrow> dateMs lib ts)"

definition fresh :: "int \<Rightarrow> jsnum \<Rightarrow> bool" where
  "fresh now ts = (case ts of Fin r \<Rightarrow> \<bar>of_int now - r\<bar> \<le> 60000 | _ \<Rightarrow> False)"

definition well_shaped :: "jsval \<Rightarrow> bool" where
  "well_shaped e \<longleftrightarrow>
     truthy e \<and> typeof_object e \<and>
     js_nullish (js_get e ''version'') (js_get e ''v'') = JNum (Fin 2) \<and>
     js_get e ''payload'' \<noteq> JUndef \<and>
     truthy (js_get e ''signatures'') \<and> typeof_object (js_get e ''signatures'') \<and>
     truthy (js_get e ''timestamp'')"

text \<open>The pinned key and the signature checked with it.\<close>

definition select_signature :: "license_env \<Rightarrow> jsval \<Rightarrow> (string \<times> jsval) option" where
  "select_signature env sigs =
     (let v2 = js_or (js_member sigs ''2'') (js_member sigs ''v2'');
          v1 = js_or (js_member sigs ''1'') (js_or (js_member sigs ''v1'') v2)
      in case present (pinnedKeyV2 env) of
           Some k \<Rightarrow> if truthy v2 then Some (k, v2)
                     else (case present (pinnedKey env) of
                             Some k1 \<Rightarrow> if truthy v1 then Some (k1, v1) else None | None \<Rightarrow> None)
         | None \<Rightarrow> (case present (pinnedKey env) of
                      Some k1 \<Rightarrow> if truthy v1 then Some (k1, v1) else None | None \<Rightarrow> None))"

text \<open>\<open>verify key canonical signature\<close> is \<open>None\<close> when it throws.\<close>

definition signature_ok ::
  "js_lib \<Rightarrow> license_env \<Rightarrow> (string \<Rightarrow> jsval \<Rightarrow> string \<Rightarrow> bool option) \<Rightarrow> jsval \<Rightarrow> bool" where
  "signature_ok lib env verify e =
     (case select_signature env (js_get e ''signatures'') of
        None \<Rightarrow> False
      | Some (key, JStr sig) \<Rightarrow> verify key (serializeBackendResponse lib e) sig = Some True
      | Some (key, _) \<Rightarrow> False)"

definition validateEnvelope ::
  "js_lib \<Rightarrow> license_env \<Rightarrow> (string \<Rightarrow> jsval \<Rightarrow> string \<Rightarrow> bool option) \<Rightarrow> int \<Rightarrow> jsval \<Rightarrow> consumed \<Rightarrow> bool \<times> consumed" where
  "validateEnvelope lib env verify now e m =
     (if \<not> well_shaped e then (False, m)
      else if \<not> fresh now (envelope_time lib (js_get e ''timestamp'')) then (False, m)
      else if truthy (js_get e ''nonce'')
      then let m1 = cleanupNonces now m in
           (case map_of m1 (js_get e ''nonce'') of
              Some expiresAt \<Rightarrow>
                if expiresAt \<noteq> 0 \<and> expiresAt > now then (False, m1)
                else (signature_ok lib env verify e, AList.update (js_get e ''nonce'') (now + 300000) m1)
            | None \<Rightarrow> (signature_ok lib env verify e, AList.update (js_get e ''nonce'') (now + 300000) m1))
      else (signature_ok lib env verify e, m))"

text \<open>The request envelope; \<open>sign\<close> is the machine key, \<open>nonce\<close> and \<open>isoTime\<close> the random nonce and the
  time, \<open>descriptor\<close> the hardware identity when it can be read.\<close>

record session_context =
  ctx_sessionId :: jsval
  ctx_machineId :: jsval
  ctx_generation :: jsval
  ctx_epoch :: jsval

definition request_members :: "js_lib \<Rightarrow> string \<Rightarrow> string \<Rightarrow> string option \<Rightarrow> jsval \<Rightarrow> session_context \<Rightarrow> (string \<times> jsval) list" where
  "request_members lib nonce isoTime descriptor payload ctx =
     [(''version'', JNum (Fin 2)), (''sessionId'', js_or (ctx_sessionId ctx) (JStr [])),
      (''machineId'', js_or (ctx_machineId ctx)
         (JStr (case descriptor of Some h \<Rightarrow> h | None \<Rightarrow> ''uninitialized_machine''))),
      (''nonce'', JStr nonce), (''timestamp'', JStr isoTime),
      (''clientGeneration'', JNum (toNumber lib (js_nullish (ctx_generation ctx) (JNum (Fin 1))))),
      (''clientServerEpoch'', JNum (toNumber lib (js_nullish (ctx_epoch ctx) (JNum (Fin 1))))),
      (''payload'', payload)]"

definition createRequest ::
  "js_lib \<Rightarrow> (jsval \<Rightarrow> string) \<Rightarrow> string \<Rightarrow> string \<Rightarrow> string option \<Rightarrow> jsval \<Rightarrow> session_context \<Rightarrow> jsval" where
  "createRequest lib sign nonce isoTime descriptor payload ctx =
     (let ms = request_members lib nonce isoTime descriptor payload ctx
      in JObj (ms @ [(''signature'', JStr (sign (canonicalize (JObj ms))))]))"

section \<open>Lemmas\<close>

lemma lookup_cleanup:
  assumes "distinct (map fst m)" and "map_of m n = Some x" and "x > now"
  shows "map_of (cleanupNonces now m) n = Some x"
  using assms by (simp add: cleanupNonces_def map_of_filter_distinct)

lemma distinct_cleanup: "distinct (map fst m) \<Longrightarrow> distinct (map fst (cleanupNonces now m))"
  by (simp add: cleanupNonces_def distinct_filter_keys)

lemma validate_distinct:
  "distinct (map fst m) \<Longrightarrow> distinct (map fst (snd (validateEnvelope lib env verify now e m)))"
  by (auto simp: validateEnvelope_def Let_def distinct_cleanup distinct_update split: option.splits)

text \<open>A nonce consumed until after \<open>now\<close> stays consumed that long.\<close>

lemma consumed_validate:
  assumes "distinct (map fst m)" and "map_of m n = Some x" and "x > now" and "x > 0"
  shows "map_of (snd (validateEnvelope lib env verify now e m)) n = Some x"
  using assms lookup_cleanup [OF assms(1-3)]
  by (cases "js_get e ''nonce'' = n")
    (auto simp: validateEnvelope_def Let_def update_conv' split: option.splits)

definition validate_all ::
  "js_lib \<Rightarrow> license_env \<Rightarrow> (string \<Rightarrow> jsval \<Rightarrow> string \<Rightarrow> bool option) \<Rightarrow> (int \<times> jsval) list \<Rightarrow> consumed \<Rightarrow> consumed" where
  "validate_all lib env verify later m = fold (\<lambda>(t, e) m. snd (validateEnvelope lib env verify t e m)) later m"

lemma consumed_run:
  assumes "distinct (map fst m)" and "map_of m n = Some x" and "x > 0" and "\<forall>(t, e) \<in> set later. t < x"
  shows "distinct (map fst (validate_all lib env verify later m)) \<and> map_of (validate_all lib env verify later m) n = Some x"
  using assms
proof (induction later arbitrary: m)
  case (Cons y later)
  obtain t e where y: "y = (t, e)" by (cases y)
  let ?m = "snd (validateEnvelope lib env verify t e m)"
  have "distinct (map fst ?m)" "map_of ?m n = Some x"
    using Cons.prems y by (auto intro: validate_distinct consumed_validate)
  from Cons.IH [OF this] Cons.prems y show ?case by (simp add: validate_all_def)
qed (simp add: validate_all_def)

lemma select_signature_pinned:
  "select_signature env sigs = Some (k, s) \<Longrightarrow> pinnedKey env = Some k \<or> pinnedKeyV2 env = Some k"
  by (auto simp: select_signature_def Let_def split: option.splits if_splits)

lemma accepted_facts:
  assumes "validateEnvelope lib env verify now e m = (True, m1)"
  shows "well_shaped e" "fresh now (envelope_time lib (js_get e ''timestamp''))" "signature_ok lib env verify e"
    "truthy (js_get e ''nonce'') \<Longrightarrow> map_of m1 (js_get e ''nonce'') = Some (now + 300000)"
  using assms by (auto simp: validateEnvelope_def Let_def update_conv' split: if_splits option.splits)

lemma fresh_both:
  assumes "fresh t0 ts" and "fresh t1 ts"
  shows "t1 \<le> t0 + 120000"
proof -
  from assms obtain r where "\<bar>of_int t0 - r\<bar> \<le> (60000 :: rat)" "\<bar>of_int t1 - r\<bar> \<le> 60000"
    by (cases ts) (auto simp: fresh_def)
  then have "of_int t1 \<le> (of_int (t0 + 120000) :: rat)" by (simp add: abs_le_iff)
  then show ?thesis by (simp only: of_int_le_iff)
qed

lemma consumed_rejects:
  assumes "distinct (map fst m)" and "map_of m (js_get e ''nonce'') = Some x" and "x > now" and "x > 0"
    and "truthy (js_get e ''nonce'')"
  shows "\<not> fst (validateEnvelope lib env verify now e m)"
  using assms lookup_cleanup [OF assms(1-3)] by (auto simp: validateEnvelope_def Let_def)

section \<open>Properties\<close>


definition sample_lib :: js_lib where
  "sample_lib = \<lparr>toNumber = (\<lambda>v. case v of JNum n \<Rightarrow> n | _ \<Rightarrow> NaN), toStr = (\<lambda>v. case v of JStr s \<Rightarrow> s | _ \<Rightarrow> []),
     dateMs = (\<lambda>v. NaN)\<rparr>"

definition sample_envelope :: "string \<Rightarrow> jsval" where
  "sample_envelope sig =
     JObj [(''version'', JNum (Fin 2)), (''timestamp'', JNum (Fin 1000)), (''payload'', JNull), (''nonce'', JStr ''n''),
           (''signatures'', JObj [(''1'', JStr sig)])]"

definition sample_check :: "string \<Rightarrow> jsval \<Rightarrow> string \<Rightarrow> bool option" where
  "sample_check key msg sig = Some (key = ''k1'' \<and> sig = ''ab'')"

lemma sample_accepts:
  "validateEnvelope sample_lib prod_env sample_check 900 (sample_envelope ''ab'') [] = (True, [(JStr ''n'', 300900)])"
  by (simp add: validateEnvelope_def well_shaped_def sample_envelope_def obj_get_def js_nullish_def fresh_def
      envelope_time_def cleanupNonces_def signature_ok_def select_signature_def prod_env_def js_member_def
      js_or_def sample_check_def present_def)


text \<open>A forged envelope burns a nonce: the nonce is consumed before the signature is checked, so that an
  envelope anybody can write, rejected for its signature, makes the genuine envelope with that nonce be
  rejected for the rest of the replay window, though on its own it would have been accepted.\<close>

theorem forged_envelope_burns_nonce:
  assumes "well_shaped f" and "fresh now (envelope_time lib (js_get f ''timestamp''))" and "\<not> signature_ok lib env verify f"
    and "js_get f ''nonce'' = js_get e ''nonce''" and "truthy (js_get e ''nonce'')"
    and "fst (validateEnvelope lib env verify t e m)" and "map_of m (js_get e ''nonce'') = None" and "distinct (map fst m)"
    and "0 \<le> now" and "now \<le> t" and "t < now + 300000"
  shows "\<not> fst (validateEnvelope lib env verify now f m) \<and>
    \<not> fst (validateEnvelope lib env verify t e (snd (validateEnvelope lib env verify now f m)))"
proof -
  have "map_of (cleanupNonces now m) (js_get e ''nonce'') = None"
    using assms(7,8) by (simp add: cleanupNonces_def map_of_filter_distinct)
  then have f: "validateEnvelope lib env verify now f m =
      (False, AList.update (js_get e ''nonce'') (now + 300000) (cleanupNonces now m))"
    using assms(1-5) by (simp add: validateEnvelope_def Let_def)
  then have "map_of (snd (validateEnvelope lib env verify now f m)) (js_get e ''nonce'') = Some (now + 300000)"
    by (simp add: update_conv')
  from consumed_rejects [OF validate_distinct [OF assms(8)] this] f assms(5,9-11) show ?thesis by simp
qed

theorem forged_envelope_burns_nonce_witness:
  "fst (validateEnvelope sample_lib prod_env sample_check 900 (sample_envelope ''ab'') []) \<and>
   \<not> fst (validateEnvelope sample_lib prod_env sample_check 900 (sample_envelope ''ab'')
      (snd (validateEnvelope sample_lib prod_env sample_check 890 (sample_envelope ''cd'') [])))"
  using forged_envelope_burns_nonce [of "sample_envelope ''cd''" 890 sample_lib prod_env sample_check "sample_envelope ''ab''" 900 "[]"]
  by (simp add: sample_accepts, simp add: well_shaped_def sample_envelope_def obj_get_def js_nullish_def fresh_def
      envelope_time_def signature_ok_def select_signature_def prod_env_def js_member_def js_or_def sample_check_def present_def)

text \<open>A nonce is accepted once in its window: after the guard accepted a nonce, no check of it succeeds
  however many checks, evictions and restarts of the process happen within thirty seconds.\<close>

theorem nonce_single_use:
  assumes "guard_ok s" and "fst (checkAndRemember t0 n s)" and "\<forall>(t, x) \<in> set ops. t \<le> t0 + 30000"
  shows "\<not> fst (checkAndRemember t1 n (fold guard_step ops (snd (checkAndRemember t0 n s))))"
  using remembered_run [OF accepted_remembered [OF assms(1,2)] assms(3)] by (rule remembered_rejects)

theorem nonce_single_use_witness:
  "\<not> fst (checkAndRemember 50 ''n'' (fold guard_step [(20, GuardRestart), (30, GuardCheck ''m''), (40, GuardEvict)]
      (snd (checkAndRemember 10 ''n'' (new_guard, fresh_acp :: unit acp)))))"
proof -
  have "guard_ok (new_guard, fresh_acp :: unit acp)" "fst (checkAndRemember 10 ''n'' (new_guard, fresh_acp :: unit acp))"
    by (simp_all add: guard_ok_def new_guard_def fresh_acp_def checkAndRemember_def guardInit_def loadSeenNonces_def)
  from nonce_single_use [OF this, of "[(20, GuardRestart), (30, GuardCheck ''m''), (40, GuardEvict)]" 50]
  show ?thesis by simp
qed

text \<open>The nonce of a future-dated message expires before the message: the time check admits a message for
  as long as sixty seconds when its timestamp lies ahead of the clock, but the guard forgets its nonce
  after thirty, so that both checks pass a second time.\<close>

theorem future_dated_replay:
  assumes "guard_ok s" and "fst (checkAndRemember t0 n s)" and "t0 + 30000 < t1" and "t1 \<le> t0 + 60000"
  shows "isWithinTimeWindow t0 (t0 + 30000) 30000 \<and> isWithinTimeWindow t1 (t0 + 30000) 30000 \<and>
    fst (checkAndRemember t1 n (guardEvict t1 (snd (checkAndRemember t0 n s))))"
proof -
  obtain g w where s: "s = (g, w)" by (cases s)
  have n: "n \<notin> set (seenNonces (guardInit w g))" using assms(2) s by (auto simp: checkAndRemember_def Let_def split: if_splits)
  moreover have "fst ` set (nonce_table w) \<subseteq> set (seenNonces (guardInit w g))"
    using assms(1) s by (auto simp: guard_ok_def guardInit_def loadSeenNonces_def)
  ultimately have "map_of (nonce_table w) n = None" by (auto simp: map_of_eq_None_iff)
  with assms(1,3) s n have "n \<notin> fst ` set (nonce_table (snd (guardEvict t1 (snd (checkAndRemember t0 n s)))))"
    by (force simp: guardEvict_def checkAndRemember_def saveNonce_def evictOldNonces_def guard_ok_def map_of_eq_None_iff Let_def)
  with assms(1) s n have "fst (checkAndRemember t1 n (guardEvict t1 (snd (checkAndRemember t0 n s))))"
    by (auto simp: guardEvict_def checkAndRemember_def saveNonce_def evictOldNonces_def loadSeenNonces_def guardInit_def
        guard_ok_def Let_def)
  with assms(3,4) show ?thesis by (simp add: isWithinTimeWindow_def)
qed

theorem future_dated_replay_witness:
  "isWithinTimeWindow 40010 30010 30000 \<and>
   fst (checkAndRemember 40010 ''n'' (guardEvict 40010 (snd (checkAndRemember 10 ''n'' (new_guard, fresh_acp :: unit acp)))))"
proof -
  have "guard_ok (new_guard, fresh_acp :: unit acp)" "fst (checkAndRemember 10 ''n'' (new_guard, fresh_acp :: unit acp))"
    by (simp_all add: guard_ok_def new_guard_def fresh_acp_def checkAndRemember_def guardInit_def loadSeenNonces_def)
  from future_dated_replay [OF this, of 40010] show ?thesis by simp
qed

end
