(* ===== verification/OperatorView.thy ===== *)
theory OperatorView
  imports SecurityFacade
begin

text \<open>
  What the control plane tells its operator: the tracker of tactical operations
  (\<^verbatim>\<open>state/operationTracker.mjs\<close>), the flags and reasons of the operator's controls
  (\<^verbatim>\<open>state/capabilityResolver.mjs\<close>) and the life-cycle shown by the front end
  (\<^verbatim>\<open>state/lifecycleStateResolver.mjs\<close>). The events the tracker emits are returned with the new state,
  in order; the identifier \<^verbatim>\<open>op_<ulid>\<close> of a new operation is an argument.
\<close>

section \<open>Operation tracker\<close>

record operation =
  opId :: string
  actionType :: string
  opStatus :: string
  startTime :: int
  opMetadata :: jsval
  opResult :: "jsval option"
  errorReason :: "string option"
  uncertainReason :: "string option"
  uncertainDetails :: "jsval option"
  completedTime :: "int option"

datatype tracker_event =
    OpStarted string
  | OpCompleted string
  | OpUpdated string
  | OpFailed string string
  | OpUncertain string string

record operation_tracker =
  currentPendingAction :: "string option"
  operations :: "(string, operation) jsmap"

definition new_tracker :: operation_tracker where
  "new_tracker = \<lparr>currentPendingAction = None, operations = []\<rparr>"

definition startOperation ::
  "string \<Rightarrow> int \<Rightarrow> string \<Rightarrow> jsval \<Rightarrow> operation_tracker \<Rightarrow> tracker_event list \<times> operation_tracker" where
  "startOperation newId now action metadata t =
     ([OpStarted newId],
      t\<lparr>currentPendingAction := Some action,
        operations := AList.update newId
          \<lparr>opId = newId, actionType = action, opStatus = ''QUEUED'', startTime = now, opMetadata = metadata,
           opResult = None, errorReason = None, uncertainReason = None, uncertainDetails = None,
           completedTime = None\<rparr> (operations t)\<rparr>)"

definition getOperation :: "string \<Rightarrow> operation_tracker \<Rightarrow> operation option" where
  "getOperation i t = map_of (operations t) i"

text \<open>\<^verbatim>\<open>const op = this.operations.get(id); if (op) { ... }\<close>: the object is changed in place.\<close>

definition mutate_op :: "(operation \<Rightarrow> operation) \<Rightarrow> string \<Rightarrow> operation_tracker \<Rightarrow> operation_tracker" where
  "mutate_op f i t =
     (case getOperation i t of
        None \<Rightarrow> t
      | Some op \<Rightarrow> t\<lparr>operations := AList.update i (f op) (operations t)\<rparr>)"

definition completeOperation ::
  "int \<Rightarrow> string \<Rightarrow> jsval \<Rightarrow> operation_tracker \<Rightarrow> tracker_event list \<times> operation_tracker" where
  "completeOperation now i result t =
     ([OpCompleted i],
      (mutate_op (\<lambda>op. op\<lparr>opStatus := ''COMPLETED'', opResult := Some result, completedTime := Some now\<rparr>) i t)
        \<lparr>currentPendingAction := None\<rparr>)"

definition updateStatus :: "string \<Rightarrow> string \<Rightarrow> operation_tracker \<Rightarrow> tracker_event list \<times> operation_tracker" where
  "updateStatus i newStatus t =
     (if getOperation i t = None then [] else [OpUpdated i], mutate_op (\<lambda>op. op\<lparr>opStatus := newStatus\<rparr>) i t)"

definition failed_op :: "int \<Rightarrow> string \<Rightarrow> operation \<Rightarrow> operation" where
  "failed_op now reason op = op\<lparr>opStatus := ''FAILED'', errorReason := Some reason, completedTime := Some now\<rparr>"

definition failOperation ::
  "int \<Rightarrow> string \<Rightarrow> string \<Rightarrow> operation_tracker \<Rightarrow> tracker_event list \<times> operation_tracker" where
  "failOperation now i reason t =
     ([OpFailed i reason], (mutate_op (failed_op now reason) i t)\<lparr>currentPendingAction := None\<rparr>)"

definition uncertain_op :: "int \<Rightarrow> string \<Rightarrow> jsval \<Rightarrow> operation \<Rightarrow> operation" where
  "uncertain_op now reason details op =
     op\<lparr>opStatus := ''UNCERTAIN'', uncertainReason := Some reason, uncertainDetails := Some details,
        completedTime := Some now\<rparr>"

definition markUncertain ::
  "int \<Rightarrow> string \<Rightarrow> string \<Rightarrow> jsval \<Rightarrow> operation_tracker \<Rightarrow> tracker_event list \<times> operation_tracker" where
  "markUncertain now i reason details t =
     ([OpUncertain i reason], (mutate_op (uncertain_op now reason details) i t)\<lparr>currentPendingAction := None\<rparr>)"

text \<open>The loops over \<^verbatim>\<open>operations.entries()\<close>: no iteration adds or removes a key, so the keys visited are those
  at the start; the operation is read when it is visited.\<close>

fun quarantine_entries ::
  "int \<Rightarrow> string \<Rightarrow> string list \<Rightarrow> operation_tracker \<Rightarrow> operation list \<times> tracker_event list \<times> operation_tracker" where
  "quarantine_entries now reason [] t = ([], [], t)"
| "quarantine_entries now reason (i # is) t =
     (case getOperation i t of
        None \<Rightarrow> quarantine_entries now reason is t
      | Some op \<Rightarrow>
          if opStatus op = ''IN_FLIGHT'' \<or> opStatus op = ''PROCESSING''
          then (case markUncertain now i reason (JObj []) t of (ev, t1) \<Rightarrow>
                case quarantine_entries now reason is t1 of (ops, evs, t2) \<Rightarrow>
                  (uncertain_op now reason (JObj []) op # ops, ev @ evs, t2))
          else if opStatus op = ''QUEUED''
          then (case failOperation now i reason t of (ev, t1) \<Rightarrow>
                case quarantine_entries now reason is t1 of (ops, evs, t2) \<Rightarrow> (ops, ev @ evs, t2))
          else quarantine_entries now reason is t)"

definition quarantineAllPending ::
  "int \<Rightarrow> string \<Rightarrow> operation_tracker \<Rightarrow> operation list \<times> tracker_event list \<times> operation_tracker" where
  "quarantineAllPending now reason t =
     (case quarantine_entries now reason (map fst (operations t)) t of
        (ops, evs, t1) \<Rightarrow> (ops, evs, t1\<lparr>currentPendingAction := None\<rparr>))"

fun fail_entries ::
  "int \<Rightarrow> string \<Rightarrow> string list \<Rightarrow> operation_tracker \<Rightarrow> tracker_event list \<times> operation_tracker" where
  "fail_entries now reason [] t = ([], t)"
| "fail_entries now reason (i # is) t =
     (case getOperation i t of
        None \<Rightarrow> fail_entries now reason is t
      | Some op \<Rightarrow>
          if opStatus op = ''QUEUED'' \<or> opStatus op = ''IN_FLIGHT''
          then (case failOperation now i reason t of (ev, t1) \<Rightarrow>
                case fail_entries now reason is t1 of (evs, t2) \<Rightarrow> (ev @ evs, t2))
          else fail_entries now reason is t)"

definition failAllPending :: "int \<Rightarrow> string \<Rightarrow> operation_tracker \<Rightarrow> tracker_event list \<times> operation_tracker" where
  "failAllPending now reason t =
     (case fail_entries now reason (map fst (operations t)) t of
        (evs, t1) \<Rightarrow> (evs, t1\<lparr>currentPendingAction := None\<rparr>))"

section \<open>Controls of the operator\<close>

record capability_inputs =
  lifecycle :: string
  isAuthorized :: bool
  authorizationReason :: "string option"
  hasActiveRuntime :: bool
  activeBrowsers :: nat
  maxCapacity :: nat
  globalActionPending :: "string option"
  totalConfiguredAccounts :: nat

definition default_inputs :: capability_inputs where
  "default_inputs = \<lparr>lifecycle = ''STOPPED'', isAuthorized = True, authorizationReason = None, hasActiveRuntime = False,
     activeBrowsers = 0, maxCapacity = 2, globalActionPending = None, totalConfiguredAccounts = 0\<rparr>"

record capabilities =
  canStartAutomation :: bool
  startDisabledReason :: "string option"
  canStopAutomation :: bool
  stopDisabledReason :: "string option"
  canPlaceBet :: bool
  placeBetDisabledReason :: "string option"
  canCashOut :: bool
  cashOutDisabledReason :: "string option"
  canValidate :: bool
  validateDisabledReason :: "string option"
  canActivateAccount :: bool
  activateAccountDisabledReason :: "string option"
  canDeactivateAccount :: bool
  canIncreaseBrowserCount :: bool
  canDecreaseBrowserCount :: bool
  canEditProxy :: bool
  canEditPricing :: bool
  canToggleBetCycle :: bool
  canEditRisk :: bool
  canEditRebet :: bool
  canEditExecution :: bool
  rawCapabilities :: "string list"

definition is_running :: "capability_inputs \<Rightarrow> bool" where
  "is_running p \<longleftrightarrow> lifecycle p = ''RUNNING''"

definition is_stopped :: "capability_inputs \<Rightarrow> bool" where
  "is_stopped p \<longleftrightarrow> lifecycle p = ''STOPPED'' \<or> (lifecycle p = ''ERROR_DEGRADED'' \<and> activeBrowsers p = 0)"

definition has_pending :: "capability_inputs \<Rightarrow> bool" where
  "has_pending p \<longleftrightarrow> globalActionPending p \<noteq> None"

definition can_start :: "capability_inputs \<Rightarrow> bool" where
  "can_start p \<longleftrightarrow> isAuthorized p \<and> \<not> hasActiveRuntime p \<and> is_stopped p \<and> totalConfiguredAccounts p > 0 \<and> \<not> has_pending p"

definition start_reason :: "capability_inputs \<Rightarrow> string option" where
  "start_reason p =
     (if can_start p then None
      else if \<not> is_stopped p
      then Some (if is_running p then ''Automation is already running'' else ''Automation is currently transitioning'')
      else if hasActiveRuntime p then Some ''Automation runtime process is currently active''
      else if \<not> isAuthorized p
      then Some (case authorizationReason p of
                   None \<Rightarrow> ''Operation prohibited by Security Authority''
                 | Some r \<Rightarrow> if r = [] then ''Operation prohibited by Security Authority'' else r)
      else if totalConfiguredAccounts p = 0 then Some ''At least one account must be configured''
      else if has_pending p then Some ''Operation in progress''
      else None)"

definition can_stop :: "capability_inputs \<Rightarrow> bool" where
  "can_stop p \<longleftrightarrow> is_running p \<or> lifecycle p = ''STARTING''"

definition can_bet :: "capability_inputs \<Rightarrow> bool" where
  "can_bet p \<longleftrightarrow> is_running p \<and> activeBrowsers p > 0 \<and> \<not> has_pending p"

definition bet_reason :: "string \<Rightarrow> capability_inputs \<Rightarrow> string option" where
  "bet_reason notRunning p =
     (if can_bet p then None
      else Some (if \<not> is_running p then notRunning
                 else if activeBrowsers p = 0 then ''No active browsers available''
                 else ''Operation in progress''))"

definition can_validate :: "capability_inputs \<Rightarrow> bool" where
  "can_validate p \<longleftrightarrow> is_running p \<and> \<not> has_pending p"

definition can_activate :: "capability_inputs \<Rightarrow> bool" where
  "can_activate p \<longleftrightarrow> is_stopped p \<and> activeBrowsers p < maxCapacity p \<and> \<not> has_pending p"

definition activate_reason :: "capability_inputs \<Rightarrow> string option" where
  "activate_reason p =
     (if can_activate p then None
      else if is_running p then Some ''Cannot add accounts while automation is running''
      else if activeBrowsers p \<ge> maxCapacity p then Some ''Browser capacity limit reached''
      else if has_pending p then Some ''Operation in progress''
      else None)"

definition raw_tokens :: "capability_inputs \<Rightarrow> string list" where
  "raw_tokens p =
     (if can_start p then [CAP_AUTOMATION_START] else []) @
     (if can_stop p then [CAP_AUTOMATION_STOP] else []) @
     (if can_bet p then [''CAP_TACTICAL_BET'', ''CAP_CASH_OUT''] else []) @
     (if can_validate p then [''CAP_FILE_UPLOAD''] else []) @
     [CAP_CONFIG_MODIFY]"

definition resolve :: "capability_inputs \<Rightarrow> capabilities" where
  "resolve p =
     \<lparr>canStartAutomation = can_start p,
      startDisabledReason = start_reason p,
      canStopAutomation = can_stop p,
      stopDisabledReason = (if \<not> can_stop p \<and> is_stopped p then Some ''Automation is already stopped'' else None),
      canPlaceBet = can_bet p,
      placeBetDisabledReason = bet_reason ''Automation must be running to place bets'' p,
      canCashOut = can_bet p,
      cashOutDisabledReason = bet_reason ''Automation must be running to cash out'' p,
      canValidate = can_validate p,
      validateDisabledReason =
        (if can_validate p then None
         else Some (if \<not> is_running p then ''Automation must be running to validate sessions'' else ''Operation in progress'')),
      canActivateAccount = can_activate p,
      activateAccountDisabledReason = activate_reason p,
      canDeactivateAccount = (activeBrowsers p > 0 \<and> \<not> has_pending p),
      canIncreaseBrowserCount = (is_stopped p \<or> activeBrowsers p < maxCapacity p),
      canDecreaseBrowserCount = (activeBrowsers p > 1),
      canEditProxy = is_stopped p,
      canEditPricing = True,
      canToggleBetCycle = True,
      canEditRisk = True,
      canEditRebet = True,
      canEditExecution = True,
      rawCapabilities = raw_tokens p\<rparr>"

text \<open>The boolean members of the resolved object, by name, and the table of capability tokens.\<close>

definition flag_members :: "capabilities \<Rightarrow> (string \<times> bool) list" where
  "flag_members c =
     [(''canStartAutomation'', canStartAutomation c), (''canStopAutomation'', canStopAutomation c),
      (''canPlaceBet'', canPlaceBet c), (''canCashOut'', canCashOut c), (''canValidate'', canValidate c),
      (''canActivateAccount'', canActivateAccount c), (''canDeactivateAccount'', canDeactivateAccount c),
      (''canIncreaseBrowserCount'', canIncreaseBrowserCount c), (''canDecreaseBrowserCount'', canDecreaseBrowserCount c),
      (''canToggleBetCycle'', canToggleBetCycle c), (''canEditPricing'', canEditPricing c), (''canEditRisk'', canEditRisk c),
      (''canEditRebet'', canEditRebet c), (''canEditProxy'', canEditProxy c), (''canEditExecution'', canEditExecution c)]"

definition tokenMap :: "capabilities \<Rightarrow> (string \<times> bool) list" where
  "tokenMap c =
     [(''CAP_AUTOMATION_START'', canStartAutomation c), (''CAP_AUTOMATION_STOP'', canStopAutomation c),
      (''CAP_TACTICAL_BET'', canPlaceBet c), (''CAP_BET_PLACE'', canPlaceBet c), (''CAP_CASH_OUT'', canCashOut c),
      (''CAP_BET_CASHOUT'', canCashOut c), (''CAP_FILE_UPLOAD'', canValidate c), (''CAP_BET_VALIDATE'', canValidate c),
      (''CAP_CONFIG_MODIFY'', canEditPricing c)]"

definition cap_includes :: "capabilities \<Rightarrow> jsval \<Rightarrow> bool" where
  "cap_includes c cap =
     (case cap of
        JStr s \<Rightarrow>
          if s = [] then False
          else (case map_of (flag_members c) s of
                  Some b \<Rightarrow> b
                | None \<Rightarrow> (case map_of (tokenMap c) s of Some b \<Rightarrow> b | None \<Rightarrow> s \<in> set (rawCapabilities c)))
      | _ \<Rightarrow> False)"

section \<open>Life-cycle shown to the operator\<close>

datatype app_lifecycle = Initializing | Authentication_Required | Payment_Required | Authorized | Revoked_View | Offline_Fatal

definition getLicenseInfo :: "'b acp \<Rightarrow> license_row option" where
  "getLicenseInfo w = (case inMemoryState w of None \<Rightarrow> None | Some m \<Rightarrow> license m)"

text \<open>\<^verbatim>\<open>licenseInfo?.status\<close>\<close>

definition license_status :: "'b acp \<Rightarrow> string option" where
  "license_status w = (case getLicenseInfo w of None \<Rightarrow> None | Some l \<Rightarrow> licenseStatus l)"

definition resolveAuthoritativeLifecycleState :: "string option \<Rightarrow> 'b acp \<Rightarrow> app_lifecycle" where
  "resolveAuthoritativeLifecycleState billingStatus w =
     (let s = getSystemState w; lic = license_status w in
      if s = UNINITIALIZED \<or> s = INITIALIZING then Initializing
      else if s = REVOKED \<or> s = COMPROMISED \<or> lic = Some ''REVOKED'' then Revoked_View
      else if s = SECURITY_STATE_UNCERTAIN \<or> s = INTEGRITY_DEGRADED \<or> s = TAMPER_SUSPECTED then Offline_Fatal
      else if s = OPERATIONAL \<or> s = OFFLINE_GRACE \<or> s = RENEWING
      then (if billingStatus = Some ''Past_Due'' \<or> (billingStatus = Some ''Payment_Required'' \<and> lic \<noteq> Some ''VALID'')
            then Payment_Required else Authorized)
      else if s = AUTHENTICATED \<or> s = AUTHZ_FAILURE \<or> s = EXPIRED then Payment_Required
      else if s \<in> {UNAUTHENTICATED, SECURITY_STATE_READY, AUTHENTICATING, AUTH_FAILED, LOGGED_OUT, LOGGING_OUT,
                    REAUTHENTICATION_REQUIRED} then Authentication_Required
      else Offline_Fatal)"

section \<open>Lemmas\<close>

lemma getOperation_mutate [simp]:
  "getOperation k (mutate_op f i t) = (if k = i then map_option f (getOperation i t) else getOperation k t)"
  by (auto simp: mutate_op_def getOperation_def update_conv' split: option.splits)

lemma getOperation_pending [simp]: "getOperation k (t\<lparr>currentPendingAction := a\<rparr>) = getOperation k t"
  by (simp add: getOperation_def)

text \<open>What one visit of the loop does to an operation.\<close>

definition quarantined :: "int \<Rightarrow> string \<Rightarrow> operation \<Rightarrow> operation" where
  "quarantined now reason op =
     (if opStatus op \<in> {''IN_FLIGHT'', ''PROCESSING''} then uncertain_op now reason (JObj []) op
      else if opStatus op = ''QUEUED'' then failed_op now reason op else op)"

definition cancelled :: "int \<Rightarrow> string \<Rightarrow> operation \<Rightarrow> operation" where
  "cancelled now reason op = (if opStatus op \<in> {''QUEUED'', ''IN_FLIGHT''} then failed_op now reason op else op)"

lemma quarantined_cases:
  "opStatus op = ''IN_FLIGHT'' \<or> opStatus op = ''PROCESSING'' \<Longrightarrow> quarantined now reason op = uncertain_op now reason (JObj []) op"
  "opStatus op = ''QUEUED'' \<Longrightarrow> quarantined now reason op = failed_op now reason op"
  "\<not> (opStatus op = ''IN_FLIGHT'' \<or> opStatus op = ''PROCESSING'') \<Longrightarrow> opStatus op \<noteq> ''QUEUED'' \<Longrightarrow> quarantined now reason op = op"
  "quarantined now reason (uncertain_op now' reason' d op) = uncertain_op now' reason' d op"
  "quarantined now reason (failed_op now' reason' op) = failed_op now' reason' op"
  by (auto simp: quarantined_def uncertain_op_def failed_op_def)

lemma cancelled_cases:
  "opStatus op = ''QUEUED'' \<or> opStatus op = ''IN_FLIGHT'' \<Longrightarrow> cancelled now reason op = failed_op now reason op"
  "\<not> (opStatus op = ''QUEUED'' \<or> opStatus op = ''IN_FLIGHT'') \<Longrightarrow> cancelled now reason op = op"
  "cancelled now reason (failed_op now' reason' op) = failed_op now' reason' op"
  by (auto simp: cancelled_def failed_op_def)

lemma settled_status [simp]:
  "opStatus (uncertain_op now reason d op) = ''UNCERTAIN''" "opStatus (failed_op now reason op) = ''FAILED''"
  by (simp_all add: uncertain_op_def failed_op_def)

text \<open>One visit of each loop, by the status of the operation visited.\<close>

lemma quarantine_visit:
  assumes "getOperation i t = Some op"
  obtains (uncertain) t1 where "t1 = (mutate_op (uncertain_op now reason (JObj [])) i t)\<lparr>currentPendingAction := None\<rparr>"
      "opStatus op = ''IN_FLIGHT'' \<or> opStatus op = ''PROCESSING''"
      "fst (quarantine_entries now reason (i # is) t) = uncertain_op now reason (JObj []) op # fst (quarantine_entries now reason is t1)"
      "snd (snd (quarantine_entries now reason (i # is) t)) = snd (snd (quarantine_entries now reason is t1))"
  | (failed) t1 where "t1 = (mutate_op (failed_op now reason) i t)\<lparr>currentPendingAction := None\<rparr>" "opStatus op = ''QUEUED''"
      "fst (quarantine_entries now reason (i # is) t) = fst (quarantine_entries now reason is t1)"
      "snd (snd (quarantine_entries now reason (i # is) t)) = snd (snd (quarantine_entries now reason is t1))"
  | (settled) "\<not> (opStatus op = ''IN_FLIGHT'' \<or> opStatus op = ''PROCESSING'')" "opStatus op \<noteq> ''QUEUED''"
      "quarantine_entries now reason (i # is) t = quarantine_entries now reason is t"
proof (cases "opStatus op = ''IN_FLIGHT'' \<or> opStatus op = ''PROCESSING''")
  case True
  with assms show thesis
    by (intro uncertain [OF refl]) (simp_all add: markUncertain_def case_prod_beta)
next
  case False
  note other = this
  show thesis
  proof (cases "opStatus op = ''QUEUED''")
    case True
    with assms show thesis by (intro failed [OF refl]) (simp_all add: failOperation_def case_prod_beta)
  next
    case False
    with assms other show thesis by (intro settled) simp_all
  qed
qed

lemma quarantine_entries_lookup:
  "getOperation k (snd (snd (quarantine_entries now reason is t))) =
     (if k \<in> set is then map_option (quarantined now reason) (getOperation k t) else getOperation k t)"
proof (induction "is" arbitrary: t)
  case (Cons i "is")
  show ?case
  proof (cases "getOperation i t")
    case None
    with Cons.IH [of t] show ?thesis by simp
  next
    case (Some op)
    from Some show ?thesis
    proof (cases rule: quarantine_visit [of i t op now reason "is"])
      case (uncertain t1)
      with Some Cons.IH [of t1] show ?thesis by (simp add: quarantined_cases del: quarantine_entries.simps)
    next
      case (failed t1)
      with Some Cons.IH [of t1] show ?thesis by (simp add: quarantined_cases del: quarantine_entries.simps)
    next
      case settled
      with Some Cons.IH [of t] show ?thesis by (simp add: quarantined_cases del: quarantine_entries.simps)
    qed
  qed
qed simp

lemma quarantine_entries_reported:
  "set (fst (quarantine_entries now reason is t)) =
     {uncertain_op now reason (JObj []) op | op i. i \<in> set is \<and> getOperation i t = Some op \<and>
        (opStatus op = ''IN_FLIGHT'' \<or> opStatus op = ''PROCESSING'')}" (is "_ = ?R is t")
proof (induction "is" arbitrary: t)
  case (Cons i "is")
  show ?case
  proof (cases "getOperation i t")
    case None
    with Cons.IH [of t] show ?thesis by auto
  next
    case (Some op)
    from Some show ?thesis
    proof (cases rule: quarantine_visit [of i t op now reason "is"])
      case (uncertain t1)
      then have "?R is t1 = {uncertain_op now reason (JObj []) op | op j. j \<in> set is \<and> j \<noteq> i \<and> getOperation j t = Some op \<and>
          (opStatus op = ''IN_FLIGHT'' \<or> opStatus op = ''PROCESSING'')}" using Some by (auto split: if_splits)
      with uncertain Some Cons.IH [of t1] show ?thesis by (simp del: quarantine_entries.simps) fastforce
    next
      case (failed t1)
      then have "j \<in> set is \<and> getOperation j t1 = Some o1 \<and> (opStatus o1 = ''IN_FLIGHT'' \<or> opStatus o1 = ''PROCESSING'') \<longleftrightarrow>
          j \<in> set (i # is) \<and> getOperation j t = Some o1 \<and> (opStatus o1 = ''IN_FLIGHT'' \<or> opStatus o1 = ''PROCESSING'')" for j o1
        using Some by auto
      then show ?thesis unfolding failed(3) Cons.IH [of t1] by simp
    next
      case settled
      with Some Cons.IH [of t] show ?thesis by (auto simp del: quarantine_entries.simps)
    qed
  qed
qed simp

lemma fail_entries_lookup:
  "getOperation k (snd (fail_entries now reason is t)) =
     (if k \<in> set is then map_option (cancelled now reason) (getOperation k t) else getOperation k t)"
proof (induction "is" arbitrary: t)
  case (Cons i "is")
  show ?case
  proof (cases "getOperation i t")
    case None
    with Cons.IH [of t] show ?thesis by simp
  next
    case (Some op)
    show ?thesis
    proof (cases "opStatus op = ''QUEUED'' \<or> opStatus op = ''IN_FLIGHT''")
      case True
      with Some Cons.IH [of "(mutate_op (failed_op now reason) i t)\<lparr>currentPendingAction := None\<rparr>"] show ?thesis
        by (simp add: failOperation_def case_prod_beta cancelled_cases)
    next
      case False
      with Some Cons.IH [of t] show ?thesis by (simp add: cancelled_cases)
    qed
  qed
qed simp

lemma untracked_key: "i \<notin> set (map fst (operations t)) \<Longrightarrow> getOperation i t = None"
  by (simp add: getOperation_def map_of_eq_None_iff)

lemma quarantine_lookup:
  "getOperation k (snd (snd (quarantineAllPending now reason t))) = map_option (quarantined now reason) (getOperation k t)"
  using quarantine_entries_lookup [of k now reason "map fst (operations t)" t] untracked_key [of k t]
  by (cases "k \<in> set (map fst (operations t))")
    (simp_all add: quarantineAllPending_def case_prod_beta del: set_map)

lemma fail_all_lookup:
  "getOperation k (snd (failAllPending now reason t)) = map_option (cancelled now reason) (getOperation k t)"
  using fail_entries_lookup [of k now reason "map fst (operations t)" t] untracked_key [of k t]
  by (cases "k \<in> set (map fst (operations t))") (simp_all add: failAllPending_def case_prod_beta del: set_map)

section \<open>Properties\<close>

text \<open>C40. Quarantine leaves nothing pending and loses nothing: an operation that was in flight or processing
  becomes UNCERTAIN and is handed to the caller for reconciliation, a queued one FAILED, every other one is
  untouched, no operation is added or dropped, and no operation is pending afterwards.\<close>

theorem quarantine_settles_all:
  "(\<forall>k. getOperation k (snd (snd (quarantineAllPending now reason t))) =
      map_option (quarantined now reason) (getOperation k t)) \<and>
   set (fst (quarantineAllPending now reason t)) =
     {uncertain_op now reason (JObj []) op | op k. getOperation k t = Some op \<and>
        (opStatus op = ''IN_FLIGHT'' \<or> opStatus op = ''PROCESSING'')} \<and>
   (\<nexists>k op. getOperation k (snd (snd (quarantineAllPending now reason t))) = Some op \<and>
      opStatus op \<in> {''QUEUED'', ''IN_FLIGHT'', ''PROCESSING''}) \<and>
   currentPendingAction (snd (snd (quarantineAllPending now reason t))) = None"
proof (intro conjI allI)
  show "getOperation k (snd (snd (quarantineAllPending now reason t))) = map_option (quarantined now reason) (getOperation k t)" for k
    by (rule quarantine_lookup)
  have tracked: "(j \<in> set (map fst (operations t)) \<and> getOperation j t = Some op \<and> Q) \<longleftrightarrow> (getOperation j t = Some op \<and> Q)" for j op Q
    using untracked_key [of j t] by (cases "j \<in> set (map fst (operations t))") (simp_all del: set_map)
  have "fst (quarantineAllPending now reason t) = fst (quarantine_entries now reason (map fst (operations t)) t)"
    by (simp add: quarantineAllPending_def case_prod_beta)
  then show "set (fst (quarantineAllPending now reason t)) =
     {uncertain_op now reason (JObj []) op | op k. getOperation k t = Some op \<and>
        (opStatus op = ''IN_FLIGHT'' \<or> opStatus op = ''PROCESSING'')}"
    by (simp only: quarantine_entries_reported tracked)
  show "\<nexists>k op. getOperation k (snd (snd (quarantineAllPending now reason t))) = Some op \<and>
      opStatus op \<in> {''QUEUED'', ''IN_FLIGHT'', ''PROCESSING''}"
    by (auto simp: quarantine_lookup quarantined_def split: if_splits)
  show "currentPendingAction (snd (snd (quarantineAllPending now reason t))) = None"
    by (simp add: quarantineAllPending_def case_prod_beta)
qed

text \<open>The stop commands report bets in flight as failed: cancelling all pending operations turns an
  operation in flight into FAILED, not UNCERTAIN, hands nothing to reconciliation, and leaves a processing
  operation pending although the pending action is cleared.\<close>

theorem stop_fails_in_flight:
  assumes "getOperation i t = Some op" and "opStatus op = ''IN_FLIGHT''"
    and "getOperation j t = Some op'" and "opStatus op' = ''PROCESSING''"
  shows "getOperation i (snd (failAllPending now reason t)) = Some (failed_op now reason op) \<and>
    getOperation j (snd (failAllPending now reason t)) = Some op' \<and>
    currentPendingAction (snd (failAllPending now reason t)) = None"
  using assms by (simp add: fail_all_lookup cancelled_cases) (simp add: failAllPending_def case_prod_beta)

definition busy_tracker :: operation_tracker where
  "busy_tracker = snd (updateStatus ''op_b'' ''PROCESSING'' (snd (updateStatus ''op_a'' ''IN_FLIGHT''
     (snd (startOperation ''op_b'' 2 ''CASHING_OUT'' (JObj []) (snd (startOperation ''op_a'' 1 ''PLACING_BET'' (JObj []) new_tracker)))))))"

theorem stop_fails_in_flight_witness:
  "map_option opStatus (getOperation ''op_a'' (snd (failAllPending 9 ''EMERGENCY_STOP'' busy_tracker))) = Some ''FAILED'' \<and>
   map_option opStatus (getOperation ''op_b'' (snd (failAllPending 9 ''EMERGENCY_STOP'' busy_tracker))) = Some ''PROCESSING''"
proof -
  have st: "map_option opStatus (getOperation ''op_a'' busy_tracker) = Some ''IN_FLIGHT''"
    "map_option opStatus (getOperation ''op_b'' busy_tracker) = Some ''PROCESSING''" by code_simp+
  then obtain a b where ab: "getOperation ''op_a'' busy_tracker = Some a" "opStatus a = ''IN_FLIGHT''"
    "getOperation ''op_b'' busy_tracker = Some b" "opStatus b = ''PROCESSING''" by auto
  from stop_fails_in_flight [OF ab] ab(4) show ?thesis by simp
qed

text \<open>The controls come back too early: with two operations pending, the end of one clears the pending
  action, so that a running control plane offers bets again while the other is still under way.\<close>

theorem pending_gate_lifted_early:
  assumes "i \<noteq> j" and "getOperation j t = Some op" and "opStatus op \<in> {''QUEUED'', ''IN_FLIGHT''}"
    and "lifecycle p = ''RUNNING''" and "activeBrowsers p > 0"
    and "globalActionPending p = currentPendingAction (snd (completeOperation now i result t))"
  shows "getOperation j (snd (completeOperation now i result t)) = Some op \<and> canPlaceBet (resolve p)"
  using assms
  by (simp add: completeOperation_def resolve_def can_bet_def is_running_def has_pending_def)

theorem pending_gate_lifted_early_witness:
  "map_option opStatus (getOperation ''op_a'' (snd (completeOperation 9 ''op_b'' JNull busy_tracker))) = Some ''IN_FLIGHT'' \<and>
   canPlaceBet (resolve (default_inputs\<lparr>lifecycle := ''RUNNING'', activeBrowsers := 1,
     globalActionPending := currentPendingAction (snd (completeOperation 9 ''op_b'' JNull busy_tracker))\<rparr>))"
proof -
  have "map_option opStatus (getOperation ''op_a'' busy_tracker) = Some ''IN_FLIGHT''" by code_simp
  then obtain a where a: "getOperation ''op_a'' busy_tracker = Some a" "opStatus a = ''IN_FLIGHT''" by auto
  with pending_gate_lifted_early [of "''op_b''" "''op_a''" busy_tracker a "default_inputs\<lparr>lifecycle := ''RUNNING'', activeBrowsers := 1,
     globalActionPending := currentPendingAction (snd (completeOperation 9 ''op_b'' JNull busy_tracker))\<rparr>" 9 JNull]
  show ?thesis by (simp add: default_inputs_def)
qed

lemma token_answers:
  "cap_includes c (JStr CAP_AUTOMATION_START) = canStartAutomation c"
  "cap_includes c (JStr CAP_AUTOMATION_STOP) = canStopAutomation c"
  "cap_includes c (JStr ''CAP_TACTICAL_BET'') = canPlaceBet c"
  "cap_includes c (JStr ''CAP_CASH_OUT'') = canCashOut c"
  "cap_includes c (JStr ''CAP_FILE_UPLOAD'') = canValidate c"
  "cap_includes c (JStr CAP_CONFIG_MODIFY) = canEditPricing c"
  by (simp_all add: cap_includes_def flag_members_def tokenMap_def CAP_AUTOMATION_START_def CAP_AUTOMATION_STOP_def
      CAP_CONFIG_MODIFY_def)

text \<open>The two views of a capability agree and disabled controls explain themselves: the tokens the
  resolved object publishes are exactly the canonical tokens it answers for; start, bet, cash-out and validate
  carry a reason exactly when they are disabled; stop and activate are disabled without a reason in exactly
  the transitional cases named here.\<close>

theorem controls_consistent:
  "rawCapabilities (resolve p) = filter (\<lambda>cap. cap_includes (resolve p) (JStr cap))
     [CAP_AUTOMATION_START, CAP_AUTOMATION_STOP, ''CAP_TACTICAL_BET'', ''CAP_CASH_OUT'', ''CAP_FILE_UPLOAD'', CAP_CONFIG_MODIFY] \<and>
   (canStartAutomation (resolve p) \<longleftrightarrow> startDisabledReason (resolve p) = None) \<and>
   (canPlaceBet (resolve p) \<longleftrightarrow> placeBetDisabledReason (resolve p) = None) \<and>
   (canCashOut (resolve p) \<longleftrightarrow> cashOutDisabledReason (resolve p) = None) \<and>
   (canValidate (resolve p) \<longleftrightarrow> validateDisabledReason (resolve p) = None) \<and>
   (\<not> canStopAutomation (resolve p) \<and> stopDisabledReason (resolve p) = None \<longleftrightarrow>
      lifecycle p \<notin> {''RUNNING'', ''STARTING'', ''STOPPED''} \<and> \<not> (lifecycle p = ''ERROR_DEGRADED'' \<and> activeBrowsers p = 0)) \<and>
   (\<not> canActivateAccount (resolve p) \<and> activateAccountDisabledReason (resolve p) = None \<longleftrightarrow>
      lifecycle p \<notin> {''RUNNING'', ''STOPPED''} \<and> \<not> (lifecycle p = ''ERROR_DEGRADED'' \<and> activeBrowsers p = 0) \<and>
      activeBrowsers p < maxCapacity p \<and> globalActionPending p = None)"
proof (intro conjI)
  show "rawCapabilities (resolve p) = filter (\<lambda>cap. cap_includes (resolve p) (JStr cap))
     [CAP_AUTOMATION_START, CAP_AUTOMATION_STOP, ''CAP_TACTICAL_BET'', ''CAP_CASH_OUT'', ''CAP_FILE_UPLOAD'', CAP_CONFIG_MODIFY]"
    by (simp only: filter.simps token_answers) (simp add: resolve_def raw_tokens_def)
  show "canStartAutomation (resolve p) \<longleftrightarrow> startDisabledReason (resolve p) = None"
    by (auto simp: resolve_def start_reason_def can_start_def)
  show "canPlaceBet (resolve p) \<longleftrightarrow> placeBetDisabledReason (resolve p) = None"
    "canCashOut (resolve p) \<longleftrightarrow> cashOutDisabledReason (resolve p) = None"
    "canValidate (resolve p) \<longleftrightarrow> validateDisabledReason (resolve p) = None"
    by (simp_all add: resolve_def bet_reason_def)
  show "\<not> canStopAutomation (resolve p) \<and> stopDisabledReason (resolve p) = None \<longleftrightarrow>
      lifecycle p \<notin> {''RUNNING'', ''STARTING'', ''STOPPED''} \<and> \<not> (lifecycle p = ''ERROR_DEGRADED'' \<and> activeBrowsers p = 0)"
    by (auto simp: resolve_def can_stop_def is_running_def is_stopped_def)
  show "\<not> canActivateAccount (resolve p) \<and> activateAccountDisabledReason (resolve p) = None \<longleftrightarrow>
      lifecycle p \<notin> {''RUNNING'', ''STOPPED''} \<and> \<not> (lifecycle p = ''ERROR_DEGRADED'' \<and> activeBrowsers p = 0) \<and>
      activeBrowsers p < maxCapacity p \<and> globalActionPending p = None"
    by (auto simp: resolve_def activate_reason_def can_activate_def is_running_def is_stopped_def has_pending_def)
qed

text \<open>What the front end shows as authorized is not locked down, and the security authority permits automated
  commands there unless it is renewing or the native revocation flag is set.\<close>

lemma authorized_view:
  assumes "resolveAuthoritativeLifecycleState billing w = Authorized"
  shows "getSystemState w \<in> {OPERATIONAL, OFFLINE_GRACE, RENEWING} \<and> license_status w \<noteq> Some ''REVOKED'' \<and>
    (isDegraded w \<longleftrightarrow> getSystemState w = RENEWING)"
  using assms
  by (cases "getSystemState w")
    (simp_all add: resolveAuthoritativeLifecycleState_def isDegraded_def Let_def split: if_splits)

end
