(* ===== verification/CommandPipeline.thy ===== *)
theory CommandPipeline
  imports SecurityFacade
begin

text \<open>
  The ingress of commands: the payload contracts (\<^verbatim>\<open>command/commandSchema.mjs\<close>) and the router
  (\<^verbatim>\<open>command/commandRouter.mjs\<close>). Commands are untyped objects. \<open>parse\<close> is \<^verbatim>\<open>JSON.parse\<close>,
  \<open>numStr\<close> is \<^verbatim>\<open>Number.prototype.toString\<close>; handlers are numbers, and \<open>run\<close> says what calling
  one does to the rest of the system.
\<close>

section \<open>Payload contracts\<close>

datatype schema_error =
    NotAnObject | MissingIdentifier | InvalidCategory | InvalidType | BadStake | StakePrecision | BadOdds
  | OddsPrecision | BadPercentage | BadAmount | BadEnabled | ActivateNeedsAccount | DeactivateNeedsAccount
  | IntentNeedsType | BulkNeedsAccounts

definition VALID_CATEGORIES :: "jsval list" where
  "VALID_CATEGORIES = map JStr [''Execution'', ''Persistence'', ''Security'', ''Billing'', ''System'']"

text \<open>\<^verbatim>\<open>s.includes('.') && s.split('.')[1].length > n\<close>\<close>

definition too_precise :: "nat \<Rightarrow> string \<Rightarrow> bool" where
  "too_precise n s \<longleftrightarrow>
     CHR ''.'' \<in> set s \<and>
     length (takeWhile (\<lambda>c. c \<noteq> CHR ''.'') (tl (dropWhile (\<lambda>c. c \<noteq> CHR ''.'') s))) > n"

text \<open>A finite number that is above (or, when \<open>inclusive\<close>, at least) \<open>lo\<close> and at most \<open>hi\<close>.\<close>

definition number_in :: "bool \<Rightarrow> rat \<Rightarrow> rat option \<Rightarrow> jsval \<Rightarrow> bool" where
  "number_in inclusive lo hi v =
     (case v of
        JNum (Fin r) \<Rightarrow> (if inclusive then lo \<le> r else lo < r) \<and> (case hi of None \<Rightarrow> True | Some h \<Rightarrow> r \<le> h)
      | _ \<Rightarrow> False)"

definition amount_errors ::
  "(jsnum \<Rightarrow> string) \<Rightarrow> rat \<Rightarrow> rat \<Rightarrow> nat \<Rightarrow> schema_error \<Rightarrow> schema_error \<Rightarrow> jsval \<Rightarrow> schema_error list" where
  "amount_errors numStr lo hi digits bad precision v =
     (case v of
        JUndef \<Rightarrow> []
      | JNum n \<Rightarrow> if \<not> number_in False lo (Some hi) v then [bad]
                  else if too_precise digits (numStr n) then [precision] else []
      | _ \<Rightarrow> [bad])"

definition optional_number :: "bool \<Rightarrow> rat \<Rightarrow> rat option \<Rightarrow> schema_error \<Rightarrow> jsval \<Rightarrow> schema_error list" where
  "optional_number inclusive lo hi bad v = (if v = JUndef \<or> number_in inclusive lo hi v then [] else [bad])"

definition payload_of :: "jsval \<Rightarrow> jsval" where
  "payload_of cmd = js_or (js_get cmd ''payload'') (JObj [])"

definition payload_errors :: "(jsnum \<Rightarrow> string) \<Rightarrow> jsval \<Rightarrow> schema_error list" where
  "payload_errors numStr cmd =
     (let ty = js_get cmd ''type''; p = payload_of cmd; target = js_get cmd ''target'' in
      if ty = JStr ''PLACE_BET''
      then amount_errors numStr 0 1000000 2 BadStake StakePrecision (js_get p ''stake'') @
           amount_errors numStr 1 10000 4 BadOdds OddsPrecision (js_get p ''odds'')
      else if ty = JStr ''CASH_OUT''
      then optional_number True 1 (Some 100) BadPercentage (js_get p ''percentage'') @
           optional_number False 0 None BadAmount (js_get p ''amount'')
      else if ty = JStr ''TOGGLE_BET_CYCLE''
      then (case js_get p ''enabled'' of JBool b \<Rightarrow> [] | _ \<Rightarrow> [BadEnabled])
      else if ty = JStr ''ACTIVATE_ACCOUNT''
      then (if \<not> truthy (js_get p ''accountUsername'') \<and> \<not> truthy (js_get p ''id'') \<and> \<not> truthy target
            then [ActivateNeedsAccount] else [])
      else if ty = JStr ''DEACTIVATE_ACCOUNT''
      then (if \<not> truthy target \<and> \<not> truthy (js_get p ''id'') \<and> \<not> truthy (js_get p ''accountId'')
            then [DeactivateNeedsAccount] else [])
      else if ty = JStr ''SETTINGS_INTENT''
      then (if \<not> truthy (js_get p ''type'') then [IntentNeedsType] else [])
      else if ty = JStr ''BULK_ACTION''
      then (if \<not> truthy (js_get p ''type'') \<or> \<not> is_array (js_get p ''accountIds'') then [BulkNeedsAccounts] else [])
      else [])"

definition validate :: "(jsnum \<Rightarrow> string) \<Rightarrow> jsval \<Rightarrow> schema_error list" where
  "validate numStr cmd =
     (if \<not> truthy cmd \<or> \<not> typeof_object cmd then [NotAnObject]
      else (if \<not> truthy (js_get cmd ''id'') \<and> \<not> truthy (js_get cmd ''commandId'') then [MissingIdentifier] else []) @
           (if js_get cmd ''category'' \<notin> set VALID_CATEGORIES then [InvalidCategory] else []) @
           (if \<not> (is_string (js_get cmd ''type'') \<and> truthy (js_get cmd ''type'')) then [InvalidType] else []) @
           payload_errors numStr cmd)"

section \<open>Router\<close>

definition COMMAND_CAPABILITY_MAP :: "(string \<times> string) list" where
  "COMMAND_CAPABILITY_MAP =
     [(''START_AUTOMATION'', CAP_AUTOMATION_START), (''STOP_AUTOMATION'', CAP_AUTOMATION_STOP),
      (''EMERGENCY_STOP'', CAP_AUTOMATION_STOP), (''FREEZE_ACCOUNT'', CAP_AUTOMATION_STOP),
      (''CANCEL_ALL_BETS'', CAP_AUTOMATION_STOP), (''UPDATE_GLOBAL_CONFIG'', CAP_CONFIG_MODIFY),
      (''UPDATE_ACCOUNT_CONFIG'', CAP_CONFIG_MODIFY), (''RESET_ACCOUNT_CONFIG'', CAP_CONFIG_MODIFY),
      (''TOGGLE_BET_CYCLE'', CAP_CONFIG_MODIFY), (''PLACE_BET'', ''CAP_TACTICAL_BET''),
      (''CASH_OUT'', ''CAP_CASH_OUT''), (''VALIDATE'', ''CAP_TACTICAL_BET''),
      (''REGISTER_ACCOUNT'', CAP_CONFIG_MODIFY), (''ACCOUNT_ACTION'', CAP_CONFIG_MODIFY),
      (''BULK_ACTION'', CAP_CONFIG_MODIFY), (''ACTIVATE_ACCOUNT'', CAP_CONFIG_MODIFY),
      (''DEACTIVATE_ACCOUNT'', CAP_CONFIG_MODIFY), (''SYNC_ACCOUNTS'', CAP_CONFIG_MODIFY),
      (''UPDATE_PASSWORD'', CAP_CONFIG_MODIFY)]"

record router =
  handlers :: "(jsval, (jsval, nat list) jsmap) jsmap"
  received :: nat
  rejected :: nat
  routed :: nat

definition new_router :: router where
  "new_router = \<lparr>handlers = [], received = 0, rejected = 0, routed = 0\<rparr>"

definition lookup_handlers :: "jsval \<Rightarrow> (jsval, nat list) jsmap \<Rightarrow> nat list" where
  "lookup_handlers ty m = (case map_of m ty of None \<Rightarrow> [] | Some hs \<Rightarrow> hs)"

definition register :: "jsval \<Rightarrow> jsval \<Rightarrow> nat \<Rightarrow> router \<Rightarrow> router" where
  "register category ty handler r =
     (let categoryMap = (case map_of (handlers r) category of None \<Rightarrow> [] | Some m \<Rightarrow> m)
      in r\<lparr>handlers := AList.update category
             (AList.update ty (lookup_handlers ty categoryMap @ [handler]) categoryMap) (handlers r)\<rparr>)"

text \<open>\<open>None\<close> is the value null.\<close>

definition parsePayload :: "(string \<Rightarrow> jsval option) \<Rightarrow> jsval \<Rightarrow> jsval option" where
  "parsePayload parse raw =
     (if \<not> truthy raw then None
      else if typeof_object raw then Some raw
      else case raw of JStr s \<Rightarrow> parse s | _ \<Rightarrow> None)"

definition set_member :: "string \<Rightarrow> jsval \<Rightarrow> jsval \<Rightarrow> jsval" where
  "set_member k v obj = (case obj of JObj kvs \<Rightarrow> JObj (AList.update k v kvs) | _ \<Rightarrow> obj)"

definition fill_member :: "string \<Rightarrow> jsval \<Rightarrow> jsval \<Rightarrow> jsval" where
  "fill_member k v obj = (if truthy (js_get obj k) then obj else set_member k v obj)"

text \<open>Missing identifiers are generated; \<open>uuid1\<close> and \<open>uuid2\<close> are the random ones.\<close>

definition with_identifiers :: "string \<Rightarrow> string \<Rightarrow> jsval \<Rightarrow> jsval" where
  "with_identifiers uuid1 uuid2 command =
     (let c1 = (if \<not> truthy (js_get command ''id'') \<and> \<not> truthy (js_get command ''commandId'')
                then set_member ''id'' (JStr uuid1) command else command);
          c2 = fill_member ''commandId'' (js_get c1 ''id'') c1
      in fill_member ''traceId'' (JStr uuid2) c2)"

definition command_type :: "jsval \<Rightarrow> string" where
  "command_type cmd = (case js_get cmd ''type'' of JStr s \<Rightarrow> s | _ \<Rightarrow> [])"

text \<open>The security authority admits a command; \<open>None\<close> is a router without one.\<close>

definition capability_granted :: "'b acp option \<Rightarrow> jsval \<Rightarrow> bool" where
  "capability_granted sec cmd =
     (case (map_of COMMAND_CAPABILITY_MAP (command_type cmd), sec) of
        (Some cap, Some w) \<Rightarrow> status (authorize cap w) = ''OPERATIONAL''
      | _ \<Rightarrow> True)"

definition state_permits :: "'b acp option \<Rightarrow> jsval \<Rightarrow> bool" where
  "state_permits sec cmd = (case sec of None \<Rightarrow> True | Some w \<Rightarrow> isCommandPermitted (command_type cmd) w)"

definition command_category :: "jsval \<Rightarrow> jsval" where
  "command_category cmd =
     js_or (js_get cmd ''category'')
       (if js_get cmd ''type'' \<in> {JStr ''NAVIGATE'', JStr ''navigate''} then JStr ''Navigation'' else JStr ''Execution'')"

definition handlers_for :: "router \<Rightarrow> jsval \<Rightarrow> nat list" where
  "handlers_for r cmd =
     (case map_of (handlers r) (command_category cmd) of
        None \<Rightarrow> []
      | Some m \<Rightarrow> lookup_handlers (js_get cmd ''type'') m @ lookup_handlers (JStr ''*'') m)"

fun run_handlers ::
  "(nat \<Rightarrow> jsval \<Rightarrow> 's \<Rightarrow> ('e + jsval) \<times> 's) \<Rightarrow> nat list \<Rightarrow> jsval \<Rightarrow> 's \<Rightarrow> ('e + jsval list) \<times> 's" where
  "run_handlers run [] cmd s = (Inr [], s)"
| "run_handlers run (h # hs) cmd s =
     (case run h cmd s of
        (Inl e, s1) \<Rightarrow> (Inl e, s1)
      | (Inr v, s1) \<Rightarrow>
          (case run_handlers run hs cmd s1 of
             (Inl e, s2) \<Rightarrow> (Inl e, s2)
           | (Inr vs, s2) \<Rightarrow> (Inr (v # vs), s2)))"

datatype 'e route_error = Unparseable | SchemaViolation "schema_error list" | CapabilityDenied | StateForbids | HandlerThrew 'e

definition reject :: "router \<Rightarrow> router" where
  "reject r = r\<lparr>rejected := rejected r + 1\<rparr>"

definition route ::
  "(string \<Rightarrow> jsval option) \<Rightarrow> (jsnum \<Rightarrow> string) \<Rightarrow> (nat \<Rightarrow> jsval \<Rightarrow> 's \<Rightarrow> ('e + jsval) \<times> 's) \<Rightarrow> string \<Rightarrow> string
     \<Rightarrow> 'b acp option \<Rightarrow> jsval \<Rightarrow> router \<times> 's \<Rightarrow> ('e route_error + (bool \<times> jsval list)) \<times> router \<times> 's" where
  "route parse numStr run uuid1 uuid2 sec rawCommand rs =
     (case rs of (r0, s) \<Rightarrow>
      let r = r0\<lparr>received := received r0 + 1\<rparr> in
      case parsePayload parse rawCommand of
        None \<Rightarrow> (Inl Unparseable, reject r, s)
      | Some command \<Rightarrow>
          if \<not> truthy command \<or> \<not> typeof_object command then (Inl Unparseable, reject r, s)
          else if \<not> truthy (js_get command ''category'') \<and> \<not> truthy (js_get command ''type'')
          then (Inr (False, []), reject r, s)
          else
            let cmd = with_identifiers uuid1 uuid2 command in
            if validate numStr cmd \<noteq> [] then (Inl (SchemaViolation (validate numStr cmd)), reject r, s)
            else if \<not> capability_granted sec cmd then (Inl CapabilityDenied, reject r, s)
            else if \<not> state_permits sec cmd then (Inl StateForbids, reject r, s)
            else if handlers_for r cmd = [] then (Inr (False, []), r, s)
            else (case run_handlers run (handlers_for r cmd) cmd s of
                    (Inl e, s1) \<Rightarrow> (Inl (HandlerThrew e), r, s1)
                  | (Inr results, s1) \<Rightarrow> (Inr (True, results), r\<lparr>routed := routed r + 1\<rparr>, s1)))"

section \<open>Lemmas\<close>

text \<open>The command a raw payload stands for, when every gate admits it.\<close>

definition admitted ::
  "(string \<Rightarrow> jsval option) \<Rightarrow> (jsnum \<Rightarrow> string) \<Rightarrow> string \<Rightarrow> string \<Rightarrow> 'b acp option \<Rightarrow> jsval \<Rightarrow> jsval \<Rightarrow> bool" where
  "admitted parse numStr uuid1 uuid2 sec rawCommand cmd \<longleftrightarrow>
     (case parsePayload parse rawCommand of
        None \<Rightarrow> False
      | Some command \<Rightarrow>
          cmd = with_identifiers uuid1 uuid2 command \<and> truthy command \<and> typeof_object command \<and>
          (truthy (js_get command ''category'') \<or> truthy (js_get command ''type'')) \<and>
          validate numStr cmd = [] \<and> capability_granted sec cmd \<and> state_permits sec cmd)"

lemma handlers_received [simp]: "handlers_for (r\<lparr>received := n\<rparr>) cmd = handlers_for r cmd"
  by (simp add: handlers_for_def cong: option.case_cong)

lemma route_admitted:
  assumes "admitted parse numStr uuid1 uuid2 sec raw cmd"
  shows "route parse numStr run uuid1 uuid2 sec raw (r, s) =
    (if handlers_for r cmd = [] then (Inr (False, []), r\<lparr>received := received r + 1\<rparr>, s)
     else case run_handlers run (handlers_for r cmd) cmd s of
            (Inl e, s1) \<Rightarrow> (Inl (HandlerThrew e), r\<lparr>received := received r + 1\<rparr>, s1)
          | (Inr results, s1) \<Rightarrow>
              (Inr (True, results), r\<lparr>received := received r + 1, routed := routed r + 1\<rparr>, s1))"
  using assms unfolding admitted_def route_def
  by (auto simp: Let_def split: option.splits prod.splits sum.splits)

lemma route_refused:
  assumes "\<forall>cmd. \<not> admitted parse numStr uuid1 uuid2 sec raw cmd"
  shows "snd (route parse numStr run uuid1 uuid2 sec raw (r, s)) = (reject (r\<lparr>received := received r + 1\<rparr>), s) \<and>
    fst (route parse numStr run uuid1 uuid2 sec raw (r, s)) \<in>
      {Inl Unparseable, Inr (False, []), Inl CapabilityDenied, Inl StateForbids} \<union> range (\<lambda>es. Inl (SchemaViolation es))"
  using assms unfolding admitted_def route_def
  by (auto simp: Let_def split: option.splits)

lemma emergency_admitted:
  assumes "js_get command ''type'' = JStr ''EMERGENCY_STOP''" and "js_get command ''category'' \<in> set VALID_CATEGORIES"
    and "truthy (js_get command ''id'')" and "truthy (js_get command ''commandId'')" and "truthy (js_get command ''traceId'')"
  shows "admitted parse numStr uuid1 uuid2 sec command command"
proof -
  obtain kvs where c: "command = JObj kvs" using assms(1) by (cases command) simp_all
  have ids: "with_identifiers uuid1 uuid2 command = command"
    using assms(3-5) by (simp add: with_identifiers_def fill_member_def)
  have ty: "command_type command = ''EMERGENCY_STOP''" using assms(1) by (simp add: command_type_def)
  have "truthy command" "typeof_object command" by (simp_all add: c)
  then have p: "parsePayload parse command = Some command" by (simp add: parsePayload_def)
  have "payload_errors numStr command = []" using assms(1) by (simp add: payload_errors_def)
  then have v: "validate numStr command = []"
    using assms(1-3) \<open>truthy command\<close> \<open>typeof_object command\<close> by (simp add: validate_def)
  show ?thesis
    using p ids v ty assms(1) \<open>truthy command\<close> \<open>typeof_object command\<close>
    by (auto simp: admitted_def capability_granted_def state_permits_def COMMAND_CAPABILITY_MAP_def isCommandPermitted_def
        AUTOMATED_EXECUTION_COMMANDS_def authorize_def result_of_def Let_def split: option.splits)
qed

section \<open>Properties\<close>

text \<open>No handler runs unless every gate admits the command: a command that is not well-formed JSON, that
  violates its payload contract, whose capability the security authority does not grant or that the
  security state forbids leaves the system untouched, is answered with an error and counted as rejected;
  an admitted command runs exactly the handlers registered for it, in order.\<close>

theorem route_gate_exact:
  "(\<exists>cmd. admitted parse numStr uuid1 uuid2 sec raw cmd \<and>
      snd (snd (route parse numStr run uuid1 uuid2 sec raw (r, s))) =
        snd (run_handlers run (handlers_for r cmd) cmd s) \<and>
      rejected (fst (snd (route parse numStr run uuid1 uuid2 sec raw (r, s)))) = rejected r) \<or>
   ((\<nexists>cmd. admitted parse numStr uuid1 uuid2 sec raw cmd) \<and>
      snd (snd (route parse numStr run uuid1 uuid2 sec raw (r, s))) = s \<and>
      rejected (fst (snd (route parse numStr run uuid1 uuid2 sec raw (r, s)))) = rejected r + 1)"
proof (cases "\<exists>cmd. admitted parse numStr uuid1 uuid2 sec raw cmd")
  case True
  then obtain cmd where c: "admitted parse numStr uuid1 uuid2 sec raw cmd" by blast
  have "snd (snd (route parse numStr run uuid1 uuid2 sec raw (r, s))) = snd (run_handlers run (handlers_for r cmd) cmd s) \<and>
      rejected (fst (snd (route parse numStr run uuid1 uuid2 sec raw (r, s)))) = rejected r"
    unfolding route_admitted [OF c] by (auto split: prod.splits sum.splits)
  with c show ?thesis by blast
next
  case False
  then show ?thesis
    using route_refused [of parse numStr uuid1 uuid2 sec raw run r s] by (simp add: reject_def)
qed

text \<open>Lockdown reaches the ingress: while the security authority is revoked, compromised or suspects
  tampering, or the native revocation flag is set, no command except the stop and status commands has any
  effect, whatever it contains.\<close>

theorem lockdown_blocks_commands:
  assumes "getSystemState w \<in> {REVOKED, COMPROMISED, TAMPER_SUSPECTED} \<or> isSessionRevokedSync w"
    and "\<forall>command. parsePayload parse raw = Some command \<longrightarrow>
      command_type (with_identifiers uuid1 uuid2 command) \<notin> {''EMERGENCY_STOP'', ''STOP_AUTOMATION'', ''VIEW_STATUS'', ''GET_HEALTH''}"
  shows "snd (snd (route parse numStr run uuid1 uuid2 (Some w) raw (r, s))) = s \<and>
    (\<forall>results. fst (route parse numStr run uuid1 uuid2 (Some w) raw (r, s)) \<noteq> Inr (True, results))"
proof -
  have "\<forall>cmd. \<not> admitted parse numStr uuid1 uuid2 (Some w) raw cmd"
    using assms by (auto simp: admitted_def state_permits_def isCommandPermitted_def Let_def split: option.splits)
  from route_refused [OF this, of run r s] show ?thesis by auto
qed

definition sample_command :: "string \<Rightarrow> jsval" where
  "sample_command ty = JObj [(''id'', JStr ''c1''), (''commandId'', JStr ''c1''), (''traceId'', JStr ''t''),
     (''category'', JStr ''Execution''), (''type'', JStr ty), (''payload'', JObj [(''stake'', JNum (Fin 5))])]"

definition sample_router :: router where
  "sample_router = register (JStr ''Execution'') (JStr ''EMERGENCY_STOP'') 1
     (register (JStr ''Execution'') (JStr ''PLACE_BET'') 0 new_router)"

definition sample_run :: "nat \<Rightarrow> jsval \<Rightarrow> nat list \<Rightarrow> (unit + jsval) \<times> nat list" where
  "sample_run h cmd s = (Inr JNull, s @ [h])"

lemma sample_identified [simp]: "with_identifiers u1 u2 (sample_command ty) = sample_command ty"
  by (simp add: with_identifiers_def sample_command_def obj_get_def fill_member_def)

lemma sample_parsed [simp]: "parsePayload parse (sample_command ty) = Some (sample_command ty)"
  by (simp add: parsePayload_def sample_command_def)

lemma sample_type [simp]: "command_type (sample_command ty) = ty"
  by (simp add: command_type_def sample_command_def obj_get_def)

theorem lockdown_blocks_commands_witness:
  "snd (snd (route (\<lambda>s. None) (\<lambda>n. ''5'') sample_run ''u'' ''v'' (Some (fresh_acp\<lparr>revoked := True\<rparr> :: unit acp))
      (sample_command ''PLACE_BET'') (sample_router, []))) = []"
  using lockdown_blocks_commands [of "fresh_acp\<lparr>revoked := True\<rparr> :: unit acp" "\<lambda>s. None" "sample_command ''PLACE_BET''"
      "''u''" "''v''" "\<lambda>n. ''5''" sample_run sample_router "[]"]
  by (simp add: isSessionRevokedSync_def)

text \<open>Emergency stop is never gated: in every security state an emergency stop with a valid category
  runs every handler registered for it.\<close>

theorem emergency_stop_always_routed:
  assumes "js_get command ''type'' = JStr ''EMERGENCY_STOP''" and "js_get command ''category'' \<in> set VALID_CATEGORIES"
    and "truthy (js_get command ''id'')" and "truthy (js_get command ''commandId'')" and "truthy (js_get command ''traceId'')"
  shows "snd (snd (route parse numStr run uuid1 uuid2 sec command (r, s))) =
    snd (run_handlers run (handlers_for r command) command s)"
  unfolding route_admitted [OF emergency_admitted [OF assms]] by (auto split: prod.splits sum.splits)

theorem emergency_stop_always_routed_witness:
  "snd (snd (route (\<lambda>s. None) (\<lambda>n. ''5'') sample_run ''u'' ''v'' (Some (fresh_acp\<lparr>revoked := True\<rparr> :: unit acp))
      (sample_command ''EMERGENCY_STOP'') (sample_router, []))) = [1]"
  using emergency_stop_always_routed [of "sample_command ''EMERGENCY_STOP''" "\<lambda>s. None" "\<lambda>n. ''5''" sample_run "''u''" "''v''"
      "Some (fresh_acp\<lparr>revoked := True\<rparr> :: unit acp)" sample_router "[]"]
  by (simp add: sample_command_def obj_get_def VALID_CATEGORIES_def sample_router_def register_def new_router_def
      lookup_handlers_def handlers_for_def command_category_def js_or_def sample_run_def)

text \<open>The precision limit of a stake is not enforced below a millionth: such numbers print in exponent
  form without a decimal point, and the contract accepts them though they have more than two decimals.\<close>

theorem tiny_stake_accepted:
  assumes "numStr (Fin (1 / 10000000)) = ''1e-7''"
    and "js_get command ''type'' = JStr ''PLACE_BET''" and "js_get command ''payload'' = JObj [(''stake'', JNum (Fin (1 / 10000000)))]"
    and "js_get command ''category'' \<in> set VALID_CATEGORIES" and "truthy (js_get command ''id'')"
  shows "validate numStr command = []"
proof -
  obtain kvs where c: "command = JObj kvs" using assms(2) by (cases command) simp_all
  have "payload_errors numStr command = []"
    using assms(1-3) by (simp add: payload_errors_def payload_of_def js_or_def amount_errors_def number_in_def too_precise_def obj_get_def)
  with assms(2,4,5) c show ?thesis by (simp add: validate_def del: js_get.simps)
qed

theorem tiny_stake_accepted_witness:
  "validate (\<lambda>n. if n = Fin (1 / 10000000) then ''1e-7'' else ''1'')
     (JObj [(''id'', JStr ''c''), (''category'', JStr ''Execution''), (''type'', JStr ''PLACE_BET''),
            (''payload'', JObj [(''stake'', JNum (Fin (1 / 10000000)))])]) = []"
  by (rule tiny_stake_accepted) (simp_all add: obj_get_def VALID_CATEGORIES_def)

lemma granted_beyond_base:
  assumes "c \<in> set (getCurrentCapabilities w)" and "c \<notin> {CAP_AUTOMATION_STOP, CAP_CONFIG_MODIFY, ''CAP_ACCOUNT_MANAGE''}"
  shows "\<exists>m a cs. inMemoryState w = Some m \<and> state m \<in> {OPERATIONAL, OFFLINE_GRACE} \<and> authorization m = Some a \<and>
    authStatus a = ''VALID'' \<and> capability_set a = Some cs \<and> c \<in> set cs"
proof (cases "inMemoryState w")
  case None
  with assms show ?thesis by (simp add: getCurrentCapabilities_def)
next
  case (Some m)
  with assms have live: "state m \<in> {OPERATIONAL, OFFLINE_GRACE}"
    by (auto simp: getCurrentCapabilities_def split: if_splits)
  show ?thesis
  proof (cases "authorization m")
    case None
    with assms Some show ?thesis by (auto simp: getCurrentCapabilities_def split: if_splits)
  next
    case (Some a)
    note here = \<open>inMemoryState w = Some m\<close> Some live
    have valid: "authStatus a = ''VALID''"
      using assms here by (auto simp: getCurrentCapabilities_def split: if_splits)
    show ?thesis
    proof (cases "capability_set a")
      case None
      with assms here valid show ?thesis
        by (simp add: getCurrentCapabilities_def Let_def split: if_splits)
    next
      case (Some cs)
      with assms here valid have "c \<in> set cs"
        by (simp add: getCurrentCapabilities_def Let_def split: if_splits)
      with Some here valid show ?thesis by simp
    qed
  qed
qed

lemma granted_bet_capability:
  assumes "status (authorize cap w) = ''OPERATIONAL''" and "cap \<in> {''CAP_TACTICAL_BET'', ''CAP_CASH_OUT''}"
  shows "\<exists>m a cs c. inMemoryState w = Some m \<and> state m \<in> {OPERATIONAL, OFFLINE_GRACE} \<and> authorization m = Some a \<and>
    authStatus a = ''VALID'' \<and> capability_set a = Some cs \<and> c \<in> set cs \<and>
    c \<in> {''CAP_TACTICAL_BET'', ''CAP_BET_PLACE'', ''CAP_CASH_OUT'', ''CAP_BET_CASHOUT''}"
proof -
  obtain c where c: "c \<in> set (getCurrentCapabilities w)"
    "c \<in> {''CAP_TACTICAL_BET'', ''CAP_BET_PLACE'', ''CAP_CASH_OUT'', ''CAP_BET_CASHOUT''}"
    using assms by (auto simp: authorize_def denied_def aliasMap_def CAP_AUTOMATION_STOP_def split: if_splits)
  then have ne: "c \<notin> {CAP_AUTOMATION_STOP, CAP_CONFIG_MODIFY, ''CAP_ACCOUNT_MANAGE''}"
    by (auto simp: CAP_AUTOMATION_STOP_def CAP_CONFIG_MODIFY_def)
  from granted_beyond_base [OF c(1) ne] c(2) show ?thesis by blast
qed

lemma bet_capability:
  assumes "ty \<in> {''PLACE_BET'', ''CASH_OUT'', ''VALIDATE''}"
  shows "\<exists>cap\<in>{''CAP_TACTICAL_BET'', ''CAP_CASH_OUT''}. map_of COMMAND_CAPABILITY_MAP ty = Some cap"
proof -
  have "\<forall>ty\<in>{''PLACE_BET'', ''CASH_OUT'', ''VALIDATE''}. map_of COMMAND_CAPABILITY_MAP ty \<in>
    Some ` {''CAP_TACTICAL_BET'', ''CAP_CASH_OUT''}" by code_simp
  with assms show ?thesis by auto
qed

text \<open>What the admission of a betting command shows of the authority.\<close>

lemma admitted_bet_authorized:
  assumes "admitted parse numStr uuid1 uuid2 (Some w) raw cmd" and "command_type cmd \<in> {''PLACE_BET'', ''CASH_OUT'', ''VALIDATE''}"
  shows "\<not> revoked w \<and> (\<exists>m a cs c. inMemoryState w = Some m \<and> state m \<in> {OPERATIONAL, OFFLINE_GRACE} \<and>
    authorization m = Some a \<and> authStatus a = ''VALID'' \<and> capability_set a = Some cs \<and> c \<in> set cs \<and>
    c \<in> {''CAP_TACTICAL_BET'', ''CAP_BET_PLACE'', ''CAP_CASH_OUT'', ''CAP_BET_CASHOUT''})"
proof -
  from assms(1) have gates: "capability_granted (Some w) cmd" "state_permits (Some w) cmd"
    by (auto simp: admitted_def split: option.splits)
  have "\<not> revoked w"
    using gates(2) assms(2) by (auto simp: state_permits_def isCommandPermitted_def isSessionRevokedSync_def Let_def)
  moreover from bet_capability [OF assms(2)] obtain cap
    where "map_of COMMAND_CAPABILITY_MAP (command_type cmd) = Some cap" and "cap \<in> {''CAP_TACTICAL_BET'', ''CAP_CASH_OUT''}"
    by blast
  moreover from this gates(1) have "status (authorize cap w) = ''OPERATIONAL''" by (simp add: capability_granted_def)
  ultimately show ?thesis using granted_bet_capability by blast
qed

lemma effect_admitted:
  assumes "snd (snd (route parse numStr run uuid1 uuid2 sec raw (r, s))) \<noteq> s"
  obtains command where "parsePayload parse raw = Some command"
    "admitted parse numStr uuid1 uuid2 sec raw (with_identifiers uuid1 uuid2 command)"
    "snd (snd (route parse numStr run uuid1 uuid2 sec raw (r, s))) =
      snd (run_handlers run (handlers_for r (with_identifiers uuid1 uuid2 command)) (with_identifiers uuid1 uuid2 command) s)"
proof -
  have "\<exists>cmd. admitted parse numStr uuid1 uuid2 sec raw cmd"
  proof (rule ccontr)
    assume "\<not> ?thesis"
    then have "\<forall>cmd. \<not> admitted parse numStr uuid1 uuid2 sec raw cmd" by blast
    from route_refused [OF this, of run r s] assms show False by simp
  qed
  then obtain cmd where ad: "admitted parse numStr uuid1 uuid2 sec raw cmd" by blast
  then obtain command where "parsePayload parse raw = Some command" "cmd = with_identifiers uuid1 uuid2 command"
    by (auto simp: admitted_def split: option.splits)
  moreover have "snd (snd (route parse numStr run uuid1 uuid2 sec raw (r, s))) = snd (run_handlers run (handlers_for r cmd) cmd s)"
    unfolding route_admitted [OF ad] by (auto split: prod.splits sum.splits)
  ultimately show thesis using that ad by blast
qed

text \<open>A bet needs a live authorization end to end: if a bet, cash-out or validation command changes
  anything behind the router, then at that moment the engine was OPERATIONAL or in OFFLINE_GRACE, its
  authorization was VALID and granted a betting capability, and the native revocation flag was clear.\<close>

theorem bet_command_needs_authorization:
  assumes "parsePayload parse raw = Some command"
    and "command_type (with_identifiers uuid1 uuid2 command) \<in> {''PLACE_BET'', ''CASH_OUT'', ''VALIDATE''}"
    and "snd (snd (route parse numStr run uuid1 uuid2 (Some w) raw (r, s))) \<noteq> s"
  shows "\<not> revoked w \<and> (\<exists>m a cs c. inMemoryState w = Some m \<and> state m \<in> {OPERATIONAL, OFFLINE_GRACE} \<and>
    authorization m = Some a \<and> authStatus a = ''VALID'' \<and> capability_set a = Some cs \<and> c \<in> set cs \<and>
    c \<in> {''CAP_TACTICAL_BET'', ''CAP_BET_PLACE'', ''CAP_CASH_OUT'', ''CAP_BET_CASHOUT''})"
proof -
  from effect_admitted [OF assms(3)] assms(1)
  have "admitted parse numStr uuid1 uuid2 (Some w) raw (with_identifiers uuid1 uuid2 command)" by auto
  from admitted_bet_authorized [OF this assms(2)] show ?thesis .
qed

definition betting_acp :: "(string \<times> document) acp" where
  "betting_acp = booted\<lparr>revoked := False, inMemoryState := Some ((sample_data OPERATIONAL 4)
     \<lparr>authorization := Some \<lparr>authStatus = ''VALID'', capability_set = Some [''CAP_BET_PLACE'']\<rparr>\<rparr>)\<rparr>"

theorem bet_command_needs_authorization_witness:
  "snd (snd (route (\<lambda>s. None) (\<lambda>n. ''5'') sample_run ''u'' ''v'' (Some betting_acp)
      (sample_command ''PLACE_BET'') (sample_router, []))) = [0] \<and>
   (\<exists>m a. inMemoryState betting_acp = Some m \<and> authorization m = Some a \<and> authStatus a = ''VALID'')"
proof -
  have r: "snd (snd (route (\<lambda>s. None) (\<lambda>n. ''5'') sample_run ''u'' ''v'' (Some betting_acp)
      (sample_command ''PLACE_BET'') (sample_router, []))) = [0]" by code_simp
  with bet_command_needs_authorization [of "\<lambda>s. None" "sample_command ''PLACE_BET''" "sample_command ''PLACE_BET''" "''u''" "''v''"
      "\<lambda>n. ''5''" sample_run betting_acp sample_router "[]"]
  show ?thesis by auto
qed

end
