(* ===== verification/AutomationLifecycle.thy ===== *)
theory AutomationLifecycle
  imports ExecutionBoundary OperatorView CommandPipeline
begin

text \<open>
  Starting and stopping automation: the persisted life-cycle row
  (\<^verbatim>\<open>state-store/persistence/adapters/LifecycleStateAdapter.mjs\<close>), the runtime manager
  (\<^verbatim>\<open>runtime-manager/runtime-manager.mjs\<close>, with \<^verbatim>\<open>heartbeat.mjs\<close> and
  \<^verbatim>\<open>execution-authorization.mjs\<close>), the workspace of the operator
  (\<^verbatim>\<open>state/workspaceAggregator.mjs\<close>) and the handlers of \<^verbatim>\<open>command/registerCommands.mjs\<close> that compose them
  with the execution boundary, the operation tracker and the security authority.

  A handler that awaits gives way to other events: what happens meanwhile is a list of events, an argument
  of the handler. The handlers of start, stop and emergency stop hold the life-cycle mutex, so none of them
  runs during another. \<open>alive\<close> holds the processes that were spawned, whose exit was not reported and that
  were not told to terminate.
\<close>

text \<open>\<^verbatim>\<open>Set.add\<close>: a new element goes to the end of the enumeration order.\<close>

definition set_add :: "'a \<Rightarrow> 'a list \<Rightarrow> 'a list" where
  "set_add x xs = (if x \<in> set xs then xs else xs @ [x])"

section \<open>Life-cycle row\<close>

record lifecycle_row =
  desiredState :: string
  observedState :: string
  generation :: nat
  lastTransitionAt :: int
  transitionReason :: string

definition lifecycle_get :: "int \<Rightarrow> lifecycle_row option \<Rightarrow> lifecycle_row" where
  "lifecycle_get now row =
     (case row of
        None \<Rightarrow> \<lparr>desiredState = ''STOPPED'', observedState = ''STOPPED'', generation = 1, lastTransitionAt = now,
                 transitionReason = ''FALLBACK_DEFAULT''\<rparr>
      | Some r \<Rightarrow> r)"

definition setDesiredState :: "int \<Rightarrow> string \<Rightarrow> string \<Rightarrow> lifecycle_row option \<Rightarrow> lifecycle_row option" where
  "setDesiredState now s reason row =
     Some (case row of
        None \<Rightarrow> \<lparr>desiredState = s, observedState = ''STOPPED'', generation = 1, lastTransitionAt = now, transitionReason = reason\<rparr>
      | Some r \<Rightarrow> r\<lparr>desiredState := s, generation := generation r + 1, lastTransitionAt := now, transitionReason := reason\<rparr>)"

definition setObservedState :: "int \<Rightarrow> string \<Rightarrow> string \<Rightarrow> lifecycle_row option \<Rightarrow> lifecycle_row option" where
  "setObservedState now s reason row =
     Some (case row of
        None \<Rightarrow> \<lparr>desiredState = ''STOPPED'', observedState = s, generation = 1, lastTransitionAt = now, transitionReason = reason\<rparr>
      | Some r \<Rightarrow> r\<lparr>observedState := s, generation := generation r + 1, lastTransitionAt := now, transitionReason := reason\<rparr>)"

definition resetObservedStateOnBoot :: "int \<Rightarrow> string \<Rightarrow> lifecycle_row option \<Rightarrow> lifecycle_row option" where
  "resetObservedStateOnBoot now reason row = setObservedState now ''STOPPED'' reason row"

section \<open>Runtime manager\<close>

record runtime_manager =
  activeRuntimes :: "nat list"
  rmConnections :: "nat list"
  serverStarted :: bool
  rmStatus :: string
  rmBrowsers :: jsnum
  latestFleetReadiness :: jsval
  currentStartingPid :: "nat option"
  lastSeen :: "(nat, int) jsmap"
  alive :: "nat list"

definition new_runtime_manager :: runtime_manager where
  "new_runtime_manager = \<lparr>activeRuntimes = [], rmConnections = [], serverStarted = False, rmStatus = ''OFFLINE'',
     rmBrowsers = Fin 0, latestFleetReadiness = JNull, currentStartingPid = None, lastSeen = [], alive = []\<rparr>"

definition getStalledProcesses :: "int \<Rightarrow> int \<Rightarrow> (nat, int) jsmap \<Rightarrow> nat list" where
  "getStalledProcesses now timeoutMs table = map fst (filter (\<lambda>(pid, t). now - t > timeoutMs) table)"

definition rmStopServer :: "runtime_manager \<Rightarrow> runtime_manager" where
  "rmStopServer m = (if \<not> serverStarted m then m\<lparr>rmConnections := []\<rparr> else m\<lparr>serverStarted := False, rmConnections := []\<rparr>)"

text \<open>The server of the manager itself is only started when the boundary has none.\<close>

definition ensureServerStarted :: "boundary \<Rightarrow> runtime_manager \<Rightarrow> runtime_manager" where
  "ensureServerStarted b m =
     (if serverStarted m then m
      else if isListening (transport b) \<or> activeConnections (transport b) \<noteq> [] then m
      else m\<lparr>serverStarted := True\<rparr>)"

definition canStartAutomation :: "'b acp \<Rightarrow> bool" where
  "canStartAutomation w \<longleftrightarrow> status (authorize CAP_AUTOMATION_START w) = ''OPERATIONAL''"

datatype lifecycle_error =
    ExecutionDegraded | AlreadyRunning | SpawnDenied | SpawnFailed | PipeServerFailed | ClusterFailed | NotAFunction

text \<open>\<open>spawn\<close> is the process the native core started, \<open>None\<close> when it refused the script or failed.\<close>

definition spawnRuntime ::
  "int \<Rightarrow> nat option \<Rightarrow> 'b acp \<Rightarrow> boundary \<Rightarrow> runtime_manager \<Rightarrow> (lifecycle_error + nat) \<times> runtime_manager" where
  "spawnRuntime now spawn w b m =
     (if isDegraded w \<or> \<not> canStartAutomation w then (Inl SpawnDenied, m)
      else let m1 = ensureServerStarted b m
           in case spawn of
                None \<Rightarrow> (Inl SpawnFailed, m1)
              | Some pid \<Rightarrow>
                  (Inr pid,
                   m1\<lparr>currentStartingPid :=
                        (if rmConnections m1 \<noteq> [] \<or> activeConnections (transport b) \<noteq> [] then None else Some pid),
                      activeRuntimes := set_add pid (activeRuntimes m1),
                      lastSeen := AList.update pid now (lastSeen m1),
                      rmStatus := ''STARTING'',
                      alive := set_add pid (alive m1)\<rparr>))"

definition terminateExecutionProcess :: "nat \<Rightarrow> runtime_manager \<Rightarrow> runtime_manager" where
  "terminateExecutionProcess pid m = m\<lparr>alive := removeAll pid (alive m)\<rparr>"

definition forget_starting :: "nat \<Rightarrow> runtime_manager \<Rightarrow> runtime_manager" where
  "forget_starting pid m = (if currentStartingPid m = Some pid then m\<lparr>currentStartingPid := None\<rparr> else m)"

definition terminateRuntime :: "nat \<Rightarrow> runtime_manager \<Rightarrow> runtime_manager" where
  "terminateRuntime pid m =
     (let m1 = terminateExecutionProcess pid (forget_starting pid m)
      in if pid \<in> set (activeRuntimes m)
         then m1\<lparr>activeRuntimes := removeAll pid (activeRuntimes m1), lastSeen := AList.delete pid (lastSeen m1)\<rparr>
         else m1)"

text \<open>The exit callback of a process; the lock files it removes are outside the model.\<close>

definition onRuntimeExited :: "nat \<Rightarrow> runtime_manager \<Rightarrow> runtime_manager" where
  "onRuntimeExited pid m =
     (let wasStarting = (currentStartingPid m = Some pid);
          wasActive = (pid \<in> set (activeRuntimes m));
          m1 = (forget_starting pid m)\<lparr>activeRuntimes := removeAll pid (activeRuntimes m),
                  lastSeen := AList.delete pid (lastSeen m), alive := removeAll pid (alive m)\<rparr>
      in if (wasActive \<or> wasStarting) \<and> rmStatus m1 \<noteq> ''ABORTED'' then m1\<lparr>rmStatus := ''STOPPED''\<rparr> else m1)"

definition onHandshakeTimeout :: "nat \<Rightarrow> runtime_manager \<Rightarrow> runtime_manager" where
  "onHandshakeTimeout pid m =
     (if rmConnections m = [] \<and> pid \<in> set (activeRuntimes m)
      then (terminateRuntime pid m)\<lparr>rmStatus := ''ABORTED''\<rparr> else m)"

text \<open>The first connection after a spawn ends its handshake.\<close>

definition onWorkerConnected :: "nat \<Rightarrow> nat \<Rightarrow> runtime_manager \<Rightarrow> runtime_manager" where
  "onWorkerConnected pid connId m =
     (forget_starting pid m)\<lparr>rmConnections := set_add connId (rmConnections m)\<rparr>"

definition terminate_each :: "nat list \<Rightarrow> runtime_manager \<Rightarrow> runtime_manager" where
  "terminate_each pids m = fold terminateExecutionProcess pids m"

definition all_pids :: "runtime_manager \<Rightarrow> nat list" where
  "all_pids m = activeRuntimes m @
     (case currentStartingPid m of Some p \<Rightarrow> if p \<noteq> 0 \<and> p \<notin> set (activeRuntimes m) then [p] else [] | None \<Rightarrow> [])"

definition terminateAll :: "runtime_manager \<Rightarrow> runtime_manager" where
  "terminateAll m =
     (let m1 = fold terminateRuntime (activeRuntimes m) (m\<lparr>currentStartingPid := None\<rparr>)
      in rmStopServer (m1\<lparr>activeRuntimes := [], lastSeen := [], rmStatus := ''OFFLINE''\<rparr>))"

section \<open>Workspace\<close>

record workspace =
  wsLifecycle :: string
  wsMessage :: "string option"
  activeAccountIds :: "string list"
  stagedAccountIds :: "string list"
  hasInitializedStaging :: bool
  wsFleetReadiness :: jsval

definition new_workspace :: workspace where
  "new_workspace = \<lparr>wsLifecycle = ''STOPPED'', wsMessage = None, activeAccountIds = [], stagedAccountIds = [],
     hasInitializedStaging = False, wsFleetReadiness = JNull\<rparr>"

record store_account =
  sa_id :: string
  sa_username :: string
  sa_backendState :: string
  sa_observedState :: string
  sa_reason :: "string option"

record 'b control_plane =
  authority :: "'b acp"
  bnd :: boundary
  tracker :: operation_tracker
  runtimes :: runtime_manager
  workspace :: workspace
  lifecycle_row :: "lifecycle_row option"
  store_accounts :: "store_account list"

definition setLifecycle :: "int \<Rightarrow> string \<Rightarrow> string option \<Rightarrow> 'b control_plane \<Rightarrow> 'b control_plane" where
  "setLifecycle now lc msg c =
     c\<lparr>workspace := (workspace c)\<lparr>wsLifecycle := lc, wsMessage := msg,
           wsFleetReadiness := (if lc = ''STOPPED'' then JNull else wsFleetReadiness (workspace c))\<rparr>,
       lifecycle_row := setObservedState now lc (truthy_or msg ''WORKSPACE_AGGREGATOR_UPDATE'') (lifecycle_row c)\<rparr>"

definition resetObservedStates :: "string \<Rightarrow> 'b control_plane \<Rightarrow> 'b control_plane" where
  "resetObservedStates reason c =
     c\<lparr>store_accounts := map (\<lambda>a. a\<lparr>sa_observedState := ''STOPPED'', sa_reason := Some reason\<rparr>) (store_accounts c)\<rparr>"

definition fail_all :: "int \<Rightarrow> string \<Rightarrow> 'b control_plane \<Rightarrow> 'b control_plane" where
  "fail_all now reason c = c\<lparr>tracker := snd (failAllPending now reason (tracker c))\<rparr>"

definition startAutomation :: "int \<Rightarrow> 'b control_plane \<Rightarrow> 'b control_plane" where
  "startAutomation now c =
     (let c1 = setLifecycle now ''RUNNING'' (Some ''Execution engine active and processing'') c
      in c1\<lparr>workspace := (workspace c1)\<lparr>activeAccountIds :=
              fold set_add (stagedAccountIds (workspace c1)) (activeAccountIds (workspace c1))\<rparr>\<rparr>)"

definition stopAutomation :: "int \<Rightarrow> 'b control_plane \<Rightarrow> 'b control_plane" where
  "stopAutomation now c =
     (let c1 = setLifecycle now ''STOPPED'' (Some ''Execution engine standby'') c;
          c2 = c1\<lparr>workspace := (workspace c1)\<lparr>activeAccountIds := []\<rparr>\<rparr>
      in resetObservedStates ''STOP_COMPLETED'' (fail_all now ''AUTOMATION_STOPPED'' c2))"

definition wsActivateAccount :: "string \<Rightarrow> workspace \<Rightarrow> workspace" where
  "wsActivateAccount a w = w\<lparr>hasInitializedStaging := True, stagedAccountIds := set_add a (stagedAccountIds w),
     activeAccountIds := set_add a (activeAccountIds w)\<rparr>"

definition wsDeactivateAccount :: "string \<Rightarrow> workspace \<Rightarrow> workspace" where
  "wsDeactivateAccount a w = w\<lparr>hasInitializedStaging := True, stagedAccountIds := removeAll a (stagedAccountIds w),
     activeAccountIds := removeAll a (activeAccountIds w)\<rparr>"

definition stageAccount :: "string \<Rightarrow> workspace \<Rightarrow> workspace" where
  "stageAccount a w = w\<lparr>hasInitializedStaging := True, stagedAccountIds := set_add a (stagedAccountIds w)\<rparr>"

definition unstageAccount :: "string \<Rightarrow> workspace \<Rightarrow> workspace" where
  "unstageAccount a w = wsDeactivateAccount a w"

section \<open>Other events\<close>

text \<open>What can happen at an await of a handler, or between handlers.\<close>

datatype 'b plane_event =
    BoundaryEvent int boundary_op
  | ProcessExited nat
  | HandshakeTimedOut nat
  | WorkerConnected nat nat
  | ExecutionQuarantined int string
  | AuthorityChanged "'b acp"

text \<open>\<open>quarantineExecution\<close> first sends a stop to the connections of the manager's own server, which are not
  those of the boundary; that message is outside the model.\<close>

definition quarantineExecution :: "int \<Rightarrow> string \<Rightarrow> 'b control_plane \<Rightarrow> 'b control_plane" where
  "quarantineExecution now reason c =
     c\<lparr>runtimes := (terminate_each (activeRuntimes (runtimes c)) (runtimes c))
                      \<lparr>rmStatus := ''DEGRADED_HALTED'', rmBrowsers := Fin 0, activeRuntimes := []\<rparr>,
       tracker := snd (snd (quarantineAllPending now (''Execution Quarantined: '' @ reason) (tracker c)))\<rparr>"

fun handle_event :: "'b plane_event \<Rightarrow> 'b control_plane \<Rightarrow> 'b control_plane" where
  "handle_event (BoundaryEvent now x) c = c\<lparr>bnd := boundary_step (now, x) (bnd c)\<rparr>"
| "handle_event (ProcessExited pid) c = c\<lparr>runtimes := onRuntimeExited pid (runtimes c)\<rparr>"
| "handle_event (HandshakeTimedOut pid) c = c\<lparr>runtimes := onHandshakeTimeout pid (runtimes c)\<rparr>"
| "handle_event (WorkerConnected pid connId) c = c\<lparr>runtimes := onWorkerConnected pid connId (runtimes c)\<rparr>"
| "handle_event (ExecutionQuarantined now reason) c = quarantineExecution now reason c"
| "handle_event (AuthorityChanged w) c = c\<lparr>authority := w\<rparr>"

definition await :: "'b plane_event list \<Rightarrow> 'b control_plane \<Rightarrow> 'b control_plane" where
  "await evs c = fold handle_event evs c"

text \<open>\<open>dying\<close> are the events while the exits are awaited; without a process nothing is awaited.\<close>

definition terminateAllAndWait :: "'b plane_event list \<Rightarrow> 'b control_plane \<Rightarrow> 'b control_plane" where
  "terminateAllAndWait dying c =
     (let m = runtimes c; pids = all_pids m;
          c1 = c\<lparr>runtimes := terminate_each pids (m\<lparr>currentStartingPid := None, activeRuntimes := [], lastSeen := []\<rparr>)\<rparr>;
          c2 = (if pids = [] then c1 else await dying c1)
      in c2\<lparr>runtimes := rmStopServer ((runtimes c2)\<lparr>rmStatus := ''OFFLINE''\<rparr>)\<rparr>)"

section \<open>Handlers\<close>

definition set_desired :: "int \<Rightarrow> string \<Rightarrow> string \<Rightarrow> 'b control_plane \<Rightarrow> 'b control_plane" where
  "set_desired now s reason c = c\<lparr>lifecycle_row := setDesiredState now s reason (lifecycle_row c)\<rparr>"

definition set_observed :: "int \<Rightarrow> string \<Rightarrow> string \<Rightarrow> 'b control_plane \<Rightarrow> 'b control_plane" where
  "set_observed now s reason c = c\<lparr>lifecycle_row := setObservedState now s reason (lifecycle_row c)\<rparr>"

text \<open>The accounts a start targets: those named by the command, else those staged, else the first two
  accounts that are not suspended when staging was never touched.\<close>

definition stage_for_start :: "string list \<Rightarrow> store_account list \<Rightarrow> workspace \<Rightarrow> workspace" where
  "stage_for_start named accounts w =
     (let w1 = (if named \<noteq> [] then w\<lparr>stagedAccountIds := fold set_add named [], hasInitializedStaging := True\<rparr> else w)
      in if \<not> hasInitializedStaging w1 \<and> stagedAccountIds w1 = []
         then w1\<lparr>stagedAccountIds := fold set_add
                   (map sa_id (take 2 (filter (\<lambda>a. sa_backendState a \<noteq> ''SUSPENDED'') accounts))) [],
                 hasInitializedStaging := True\<rparr>
         else w1)"

text \<open>What the surroundings answer to a start: \<open>refresh\<close> is what the refresh of missing
  credentials does to the accounts (the identity when none is missing) and \<open>refreshing\<close> the events meanwhile,
  \<open>waiting\<close> and \<open>acking\<close> the events during the wait for a connection and for the reply, \<open>acked\<close> whether the
  reply arrives.\<close>

record 'b start_env =
  se_io :: pipe_io
  se_msgId :: string
  se_traceId :: string
  se_refreshing :: "'b plane_event list"
  se_refresh :: "store_account list \<Rightarrow> store_account list"
  se_spawn :: "nat option"
  se_payload :: "string list \<Rightarrow> 'b control_plane \<Rightarrow> jsval"
  se_waiting :: "'b plane_event list"
  se_acking :: "'b plane_event list"
  se_acked :: bool

text \<open>The wait for a connection ends with the first event that connects a client or aborts the wait: the exit
  of the process being started, the end of its handshake time, or the quarantine alert. A list that runs out
  is the timeout.\<close>

definition connects :: "'b plane_event \<Rightarrow> bool" where
  "connects e = (case e of BoundaryEvent now (Connected io m k) \<Rightarrow> True | _ \<Rightarrow> False)"

definition aborts :: "'b plane_event \<Rightarrow> 'b control_plane \<Rightarrow> bool" where
  "aborts e c =
     (case e of
        ProcessExited pid \<Rightarrow> currentStartingPid (runtimes c) = Some pid
      | HandshakeTimedOut pid \<Rightarrow> rmConnections (runtimes c) = [] \<and> pid \<in> set (activeRuntimes (runtimes c))
      | BoundaryEvent now Tick \<Rightarrow> QuarantineRequired \<in> set (fst (checkLiveness now (watch (bnd c))))
      | _ \<Rightarrow> False)"

fun waitForConnection :: "'b plane_event list \<Rightarrow> 'b control_plane \<Rightarrow> bool \<times> 'b control_plane" where
  "waitForConnection [] c = (False, c)"
| "waitForConnection (e # es) c =
     (if connects e then (True, handle_event e c)
      else if aborts e c then (False, handle_event e c)
      else waitForConnection es (handle_event e c))"

text \<open>The cluster start: \<open>True\<close> when the execution plane acknowledged the initialisation.\<close>

definition start_cluster :: "'b start_env \<Rightarrow> string list \<Rightarrow> 'b control_plane \<Rightarrow> bool \<times> 'b control_plane" where
  "start_cluster env staged c =
     (if isDegraded (authority c) then (False, c)
      else case (if activeConnections (transport (bnd c)) = [] then waitForConnection (se_waiting env) c else (True, c)) of
        (False, c1) \<Rightarrow> (False, c1)
      | (True, c1) \<Rightarrow>
          (case startCluster (se_io env) (se_msgId env) (se_traceId env) True False True
                  (se_payload env staged c1) (bnd c1) of
             (Inr AwaitingReply, b) \<Rightarrow> (se_acked env, await (se_acking env) (c1\<lparr>bnd := b\<rparr>))
           | (_, b) \<Rightarrow> (False, c1\<lparr>bnd := b\<rparr>)))"

definition roll_back :: "int \<Rightarrow> nat \<Rightarrow> 'b control_plane \<Rightarrow> 'b control_plane" where
  "roll_back now pid c =
     setLifecycle now ''STOPPED'' (Some ''START_CLUSTER_FAILED'')
       (set_observed now ''STOPPED'' ''START_CLUSTER_FAILED''
         (set_desired now ''STOPPED'' ''START_CLUSTER_FAILED''
           (c\<lparr>runtimes := terminateRuntime pid (runtimes c), bnd := stopServer (bnd c)\<rparr>)))"

definition already_running :: "int \<Rightarrow> 'b control_plane \<Rightarrow> bool" where
  "already_running now c \<longleftrightarrow>
     observedState (lifecycle_get now (lifecycle_row c)) \<in> {''RUNNING'', ''STARTING_HANDSHAKE''} \<or>
     activeRuntimes (runtimes c) \<noteq> []"

definition settle_prior_run :: "int \<Rightarrow> 'b control_plane \<Rightarrow> 'b control_plane" where
  "settle_prior_run now c =
     (if observedState (lifecycle_get now (lifecycle_row c)) \<in> {''ERROR_DEGRADED'', ''ABORTED''}
      then setLifecycle now ''STOPPED'' None (set_observed now ''STOPPED'' ''PRE_START_RESET'' c) else c)"

text \<open>The handler up to the start of the pipe server.\<close>

definition prepare_start :: "'b start_env \<Rightarrow> int \<Rightarrow> string list \<Rightarrow> 'b control_plane \<Rightarrow> 'b control_plane" where
  "prepare_start env now named c =
     (let c1 = settle_prior_run now c;
          c2 = c1\<lparr>workspace := stage_for_start named (store_accounts c1) (workspace c1)\<rparr>
      in set_desired now ''RUNNING'' ''USER_COMMAND_START''
           ((await (se_refreshing env) c2)\<lparr>store_accounts := se_refresh env (store_accounts c2)\<rparr>))"

text \<open>The two-phase spawn: a process that cannot be initialised is terminated again.\<close>

definition spawn_and_commit ::
  "'b start_env \<Rightarrow> int \<Rightarrow> 'b control_plane \<Rightarrow> (lifecycle_error + nat) \<times> 'b control_plane" where
  "spawn_and_commit env now c =
     (case spawnRuntime now (se_spawn env) (authority c) (bnd c) (runtimes c) of
        (Inl e, m) \<Rightarrow>
          (Inl e, setLifecycle now ''STOPPED'' (Some ''SPAWN_FAILED'')
                    (set_observed now ''STOPPED'' ''SPAWN_FAILED''
                      (set_desired now ''STOPPED'' ''SPAWN_FAILED'' (c\<lparr>runtimes := m\<rparr>))))
      | (Inr pid, m) \<Rightarrow>
          let c1 = setLifecycle now ''STARTING'' None
                     (set_observed now ''STARTING_HANDSHAKE'' (''PID_'' @ dec_string pid @ ''_SPAWNED'') (c\<lparr>runtimes := m\<rparr>))
          in case start_cluster env (stagedAccountIds (workspace c)) c1 of
               (True, c2) \<Rightarrow> (Inr pid, c2)
             | (False, c2) \<Rightarrow> (Inl ClusterFailed, roll_back now pid c2))"

definition startAutomationHandler ::
  "'b start_env \<Rightarrow> int \<Rightarrow> string list \<Rightarrow> 'b control_plane \<Rightarrow> (lifecycle_error + nat) \<times> 'b control_plane" where
  "startAutomationHandler env now named c =
     (if isDegraded (authority c) then (Inl ExecutionDegraded, c)
      else if already_running now c then (Inl AlreadyRunning, c)
      else let c1 = prepare_start env now named c
           in case startServer (se_io env) (bnd c1) of
                None \<Rightarrow> (Inl PipeServerFailed, c1)
              | Some b \<Rightarrow> spawn_and_commit env now (c1\<lparr>bnd := b\<rparr>))"

record 'b stop_env =
  st_io :: pipe_io
  st_msgId :: string
  st_traceId :: string
  st_stopping :: "'b plane_event list"     \<comment> \<open>while the graceful stop is awaited\<close>
  st_dying :: "'b plane_event list"        \<comment> \<open>while the processes die\<close>
  st_snapshot :: "'b plane_event list"     \<comment> \<open>while the snapshot is taken\<close>

text \<open>\<open>hard\<close>: the emergency stop terminates at once when the graceful stop cannot be sent.\<close>

definition stop_everything :: "'b stop_env \<Rightarrow> int \<Rightarrow> int \<Rightarrow> bool \<Rightarrow> string \<Rightarrow> 'b control_plane \<Rightarrow> 'b control_plane" where
  "stop_everything env now timeoutMs hard reason c =
     (let c1 = set_observed now ''STOPPING'' reason (set_desired now ''STOPPED'' reason c);
          (r, b) = stopCluster (st_io env) (st_msgId env) (st_traceId env) False timeoutMs (bnd c1);
          c2 = await (st_stopping env) (c1\<lparr>bnd := b\<rparr>);
          c3 = (case r of Inl e \<Rightarrow> if hard then c2\<lparr>runtimes := terminateAll (runtimes c2)\<rparr> else c2 | Inr _ \<Rightarrow> c2);
          c4 = terminateAllAndWait (st_dying env) c3
      in c4\<lparr>runtimes := terminateAll (runtimes c4), bnd := stopServer (bnd c4)\<rparr>)"

definition settle_stopped :: "int \<Rightarrow> string \<Rightarrow> string \<Rightarrow> 'b control_plane \<Rightarrow> 'b control_plane" where
  "settle_stopped now failReason reason c =
     stopAutomation now (resetObservedStates reason (set_observed now ''STOPPED'' reason (fail_all now failReason c)))"

definition stopAutomationHandler :: "'b stop_env \<Rightarrow> int \<Rightarrow> 'b control_plane \<Rightarrow> 'b control_plane" where
  "stopAutomationHandler env now c =
     settle_stopped now ''AUTOMATION_STOPPED'' ''STOP_COMPLETED'' (stop_everything env now 3000 False ''USER_COMMAND_STOP'' c)"

text \<open>\<^verbatim>\<open>executionBoundaryManager.freezeAccountLease\<close> is not defined: the call throws, and the loop over the
  accounts of the snapshot is abandoned at its first element.\<close>

definition freezeAccountLease :: "string \<Rightarrow> boundary \<Rightarrow> (lifecycle_error + unit) \<times> boundary" where
  "freezeAccountLease account b = (Inl NotAFunction, b)"

fun freeze_leases :: "string list \<Rightarrow> boundary \<Rightarrow> boundary" where
  "freeze_leases [] b = b"
| "freeze_leases (a # as) b = (case freezeAccountLease a b of (Inl e, b1) \<Rightarrow> b1 | (Inr _, b1) \<Rightarrow> freeze_leases as b1)"

text \<open>Taking a snapshot stages the accounts of the first page when staging was never touched.\<close>

definition auto_stage :: "nat \<Rightarrow> 'b control_plane \<Rightarrow> 'b control_plane" where
  "auto_stage capacity c =
     (let eligible = filter (\<lambda>a. sa_backendState a \<noteq> ''SUSPENDED'') (take 50 (store_accounts c)); w = workspace c
      in if \<not> hasInitializedStaging w \<and> stagedAccountIds w = [] \<and> eligible \<noteq> []
         then c\<lparr>workspace := w\<lparr>stagedAccountIds := fold set_add (map sa_id (take capacity eligible)) [],
                                hasInitializedStaging := True\<rparr>\<rparr>
         else c)"

definition snapshot_accounts :: "'b control_plane \<Rightarrow> string list" where
  "snapshot_accounts c =
     map sa_id (filter (\<lambda>a. sa_backendState a \<noteq> ''SUSPENDED'' \<and> sa_id a \<in> set (stagedAccountIds (workspace c)))
       (take 50 (store_accounts c)))"

definition freeze_snapshot :: "nat \<Rightarrow> 'b control_plane \<Rightarrow> 'b control_plane" where
  "freeze_snapshot capacity c =
     (let c1 = auto_stage capacity c in c1\<lparr>bnd := freeze_leases (snapshot_accounts c1) (bnd c1)\<rparr>)"

definition emergencyStopHandler :: "'b stop_env \<Rightarrow> int \<Rightarrow> nat \<Rightarrow> 'b control_plane \<Rightarrow> 'b control_plane" where
  "emergencyStopHandler env now capacity c =
     settle_stopped now ''EMERGENCY_STOP'' ''EMERGENCY_STOP_COMPLETED''
       (freeze_snapshot capacity (await (st_snapshot env) (stop_everything env now 0 True ''EMERGENCY_STOP'' c)))"

definition cancelAllBetsHandler :: "nat \<Rightarrow> 'b control_plane \<Rightarrow> 'b control_plane" where
  "cancelAllBetsHandler capacity c = freeze_snapshot capacity c"

text \<open>\<open>Inr False\<close> is the answer without an account.\<close>

definition freezeAccountHandler :: "string option \<Rightarrow> 'b control_plane \<Rightarrow> (lifecycle_error + bool) \<times> 'b control_plane" where
  "freezeAccountHandler account c =
     (case account of
        Some (x # xs) \<Rightarrow>
          (case freezeAccountLease (x # xs) (bnd c) of
             (Inl e, b) \<Rightarrow> (Inl e, c\<lparr>bnd := b\<rparr>)
           | (Inr _, b) \<Rightarrow> (Inr True, c\<lparr>bnd := b\<rparr>))
      | _ \<Rightarrow> (Inr False, c))"

section \<open>Runs\<close>

inductive plane_step :: "'b control_plane \<Rightarrow> 'b control_plane \<Rightarrow> bool" where
  started: "plane_step c (snd (startAutomationHandler env now named c))"
| stopped: "plane_step c (stopAutomationHandler senv now c)"
| emergency: "plane_step c (emergencyStopHandler senv now capacity c)"
| cancelled_bets: "plane_step c (cancelAllBetsHandler capacity c)"
| froze: "plane_step c (snd (freezeAccountHandler account c))"
| happened: "plane_step c (handle_event e c)"

inductive_cases plane_stepE: "plane_step c c'"

definition plane_start :: "'b control_plane \<Rightarrow> bool" where
  "plane_start c \<longleftrightarrow> runtimes c = new_runtime_manager"

text \<open>At most one runtime is tracked, and no process runs untracked.\<close>

definition runtimes_good :: "runtime_manager \<Rightarrow> bool" where
  "runtimes_good m \<longleftrightarrow> length (activeRuntimes m) \<le> 1 \<and> set (alive m) \<subseteq> set (activeRuntimes m)"

definition plane_good :: "'b control_plane \<Rightarrow> bool" where
  "plane_good c \<longleftrightarrow> runtimes_good (runtimes c)"

section \<open>Lemmas\<close>

lemma set_add_set [simp]: "set (set_add x xs) = insert x (set xs)"
  by (auto simp: set_add_def)

lemma terminate_each_simps [simp]:
  "alive (terminate_each ps m) = filter (\<lambda>p. p \<notin> set ps) (alive m)"
  "activeRuntimes (terminate_each ps m) = activeRuntimes m"
  "currentStartingPid (terminate_each ps m) = currentStartingPid m"
  unfolding terminate_each_def
  by (induction ps arbitrary: m)
    (simp_all add: terminateExecutionProcess_def removeAll_filter_not_eq conj_commute eq_commute)

lemma rmStopServer_simps [simp]:
  "alive (rmStopServer m) = alive m" "activeRuntimes (rmStopServer m) = activeRuntimes m"
  "currentStartingPid (rmStopServer m) = currentStartingPid m"
  by (simp_all add: rmStopServer_def)

lemma forget_starting_simps [simp]:
  "alive (forget_starting p m) = alive m" "activeRuntimes (forget_starting p m) = activeRuntimes m"
  by (simp_all add: forget_starting_def)

lemma terminateRuntime_simps [simp]:
  "activeRuntimes (terminateRuntime p m) = removeAll p (activeRuntimes m)"
  "alive (terminateRuntime p m) = removeAll p (alive m)"
  by (simp_all add: terminateRuntime_def terminateExecutionProcess_def Let_def)

lemma terminateRuntime_starting:
  "currentStartingPid (terminateRuntime p m) \<in> {None, currentStartingPid m}"
  by (simp add: terminateRuntime_def terminateExecutionProcess_def forget_starting_def Let_def)

lemma fold_terminateRuntime:
  "alive (fold terminateRuntime ps m) = filter (\<lambda>p. p \<notin> set ps) (alive m)"
  "currentStartingPid m = None \<Longrightarrow> currentStartingPid (fold terminateRuntime ps m) = None"
proof (induction ps arbitrary: m)
  case (Cons p ps)
  { case 1 show ?case using Cons.IH(1) by (simp add: removeAll_filter_not_eq conj_commute eq_commute) }
  { case 2 then show ?case using Cons.IH(2) terminateRuntime_starting [of p m] by auto }
qed simp_all

lemma remove_good:
  assumes "runtimes_good m" "activeRuntimes m' = removeAll p (activeRuntimes m)" "alive m' = removeAll p (alive m)"
  shows "runtimes_good m'"
proof -
  have "length (filter ((\<noteq>) p) (activeRuntimes m)) \<le> length (activeRuntimes m)" by (rule length_filter_le)
  with assms(1) have "length (removeAll p (activeRuntimes m)) \<le> 1"
    unfolding removeAll_filter_not_eq runtimes_good_def by linarith
  with assms show ?thesis by (auto simp: runtimes_good_def)
qed

lemma terminateAll_clears:
  "activeRuntimes (terminateAll m) = []" "currentStartingPid (terminateAll m) = None"
  "runtimes_good m \<Longrightarrow> alive (terminateAll m) = []"
  by (auto simp: terminateAll_def Let_def fold_terminateRuntime runtimes_good_def filter_empty_conv)

text \<open>An event never adds a runtime, a process or a starting process.\<close>

definition shrinks :: "runtime_manager \<Rightarrow> runtime_manager \<Rightarrow> bool" where
  "shrinks m m' \<longleftrightarrow> (runtimes_good m \<longrightarrow> runtimes_good m') \<and> (activeRuntimes m = [] \<longrightarrow> activeRuntimes m' = []) \<and>
     set (activeRuntimes m') \<subseteq> set (activeRuntimes m) \<and>
     set (alive m') \<subseteq> set (alive m) \<and> currentStartingPid m' \<in> {None, currentStartingPid m}"

lemma shrinks_refl [simp]: "shrinks m m"
  by (simp add: shrinks_def)

lemma shrinks_trans: "shrinks m m' \<Longrightarrow> shrinks m' m'' \<Longrightarrow> shrinks m m''"
  by (auto simp: shrinks_def)

lemma exited_shrinks: "shrinks m (onRuntimeExited p m)"
proof -
  have "activeRuntimes (onRuntimeExited p m) = removeAll p (activeRuntimes m)" "alive (onRuntimeExited p m) = removeAll p (alive m)"
    "currentStartingPid (onRuntimeExited p m) \<in> {None, currentStartingPid m}"
    by (auto simp: onRuntimeExited_def forget_starting_def Let_def)
  with remove_good [of m "onRuntimeExited p m" p] show ?thesis by (auto simp: shrinks_def)
qed

lemma terminated_shrinks: "shrinks m (terminateRuntime p m)"
  using remove_good [of m "terminateRuntime p m" p] terminateRuntime_starting [of p m] by (auto simp: shrinks_def)

lemma event_shrinks: "shrinks (runtimes c) (runtimes (handle_event e c))"
proof (cases e)
  case (ProcessExited p)
  then show ?thesis by (simp add: exited_shrinks)
next
  case (HandshakeTimedOut p)
  have "shrinks (runtimes c) ((terminateRuntime p (runtimes c))\<lparr>rmStatus := ''ABORTED''\<rparr>)"
    using terminated_shrinks [of "runtimes c" p] by (simp add: shrinks_def runtimes_good_def)
  with HandshakeTimedOut show ?thesis by (simp add: onHandshakeTimeout_def)
next
  case (WorkerConnected p k)
  then show ?thesis by (simp add: onWorkerConnected_def shrinks_def runtimes_good_def forget_starting_def)
next
  case (ExecutionQuarantined now reason)
  then show ?thesis by (auto simp: quarantineExecution_def shrinks_def runtimes_good_def)
qed simp_all

lemma await_shrinks: "shrinks (runtimes c) (runtimes (await evs c))"
  unfolding await_def
proof (induction evs arbitrary: c)
  case (Cons e evs)
  from shrinks_trans [OF event_shrinks Cons] show ?case by simp
qed simp

lemma wait_shrinks: "shrinks (runtimes c) (runtimes (snd (waitForConnection evs c)))"
proof (induction evs arbitrary: c)
  case (Cons e evs)
  from shrinks_trans [OF event_shrinks Cons] event_shrinks [of c e] show ?case by simp
qed simp

lemma event_frame [simp]:
  "lifecycle_row (handle_event e c) = lifecycle_row c" "workspace (handle_event e c) = workspace c"
  by (cases e; simp add: quarantineExecution_def)+

lemma await_frame [simp]:
  "lifecycle_row (await evs c) = lifecycle_row c" "workspace (await evs c) = workspace c"
  unfolding await_def by (induction evs arbitrary: c) simp_all

lemma set_frame [simp]:
  "runtimes (set_desired now x r c) = runtimes c" "runtimes (set_observed now x r c) = runtimes c"
  "runtimes (setLifecycle now x msg c) = runtimes c" "runtimes (resetObservedStates r c) = runtimes c"
  "runtimes (fail_all now r c) = runtimes c" "runtimes (stopAutomation now c) = runtimes c"
  "runtimes (settle_prior_run now c) = runtimes c" "runtimes (settle_stopped now f r c) = runtimes c"
  by (simp_all add: set_desired_def set_observed_def setLifecycle_def resetObservedStates_def fail_all_def
      stopAutomation_def settle_prior_run_def settle_stopped_def Let_def)

lemma freeze_leases_nothing [simp]: "freeze_leases as b = b"
  by (cases as) (simp_all add: freezeAccountLease_def)

lemma freeze_frame [simp]:
  "runtimes (freeze_snapshot n c) = runtimes c" "lifecycle_row (freeze_snapshot n c) = lifecycle_row c"
  "bnd (freeze_snapshot n c) = bnd c"
  by (simp_all add: freeze_snapshot_def auto_stage_def Let_def)

lemma wait_all_clears:
  "activeRuntimes (runtimes (terminateAllAndWait evs c)) = []"
  "currentStartingPid (runtimes (terminateAllAndWait evs c)) = None"
  "runtimes_good (runtimes c) \<Longrightarrow> alive (runtimes (terminateAllAndWait evs c)) = []"
proof -
  define c1 where "c1 = c\<lparr>runtimes := terminate_each (all_pids (runtimes c))
    ((runtimes c)\<lparr>currentStartingPid := None, activeRuntimes := [], lastSeen := []\<rparr>)\<rparr>"
  let ?c2 = "if all_pids (runtimes c) = [] then c1 else await evs c1"
  have sh: "shrinks (runtimes c1) (runtimes ?c2)" by (simp add: await_shrinks)
  have eq: "activeRuntimes (runtimes (terminateAllAndWait evs c)) = activeRuntimes (runtimes ?c2)"
    "currentStartingPid (runtimes (terminateAllAndWait evs c)) = currentStartingPid (runtimes ?c2)"
    "alive (runtimes (terminateAllAndWait evs c)) = alive (runtimes ?c2)"
    by (simp_all add: terminateAllAndWait_def Let_def c1_def)
  have "activeRuntimes (runtimes c1) = []" "currentStartingPid (runtimes c1) = None" by (simp_all add: c1_def)
  with sh show "activeRuntimes (runtimes (terminateAllAndWait evs c)) = []"
    "currentStartingPid (runtimes (terminateAllAndWait evs c)) = None"
    unfolding eq by (simp_all add: shrinks_def)
  assume "runtimes_good (runtimes c)"
  then have "alive (runtimes c1) = []" by (auto simp: c1_def runtimes_good_def all_pids_def filter_empty_conv)
  with sh show "alive (runtimes (terminateAllAndWait evs c)) = []" unfolding eq by (simp add: shrinks_def)
qed

text \<open>After the kill of a stop handler nothing runs, whatever happens meanwhile.\<close>

lemma stop_everything_clears:
  "activeRuntimes (runtimes (stop_everything env now t hard r c)) = []"
  "currentStartingPid (runtimes (stop_everything env now t hard r c)) = None"
  "runtimes_good (runtimes c) \<Longrightarrow> alive (runtimes (stop_everything env now t hard r c)) = []"
proof -
  define c1 where "c1 = set_observed now ''STOPPING'' r (set_desired now ''STOPPED'' r c)"
  define res where "res = stopCluster (st_io env) (st_msgId env) (st_traceId env) False t (bnd c1)"
  define c2 where "c2 = await (st_stopping env) (c1\<lparr>bnd := snd res\<rparr>)"
  define c3 where "c3 = (case fst res of Inl e \<Rightarrow> if hard then c2\<lparr>runtimes := terminateAll (runtimes c2)\<rparr> else c2 | Inr _ \<Rightarrow> c2)"
  have eq: "runtimes (stop_everything env now t hard r c) = terminateAll (runtimes (terminateAllAndWait (st_dying env) c3))"
    unfolding stop_everything_def Let_def case_prod_beta c3_def c2_def res_def c1_def by simp
  show "activeRuntimes (runtimes (stop_everything env now t hard r c)) = []"
    "currentStartingPid (runtimes (stop_everything env now t hard r c)) = None"
    unfolding eq by (simp_all add: terminateAll_clears)
  assume g: "runtimes_good (runtimes c)"
  have "runtimes_good (runtimes c2)"
    using g await_shrinks [of "c1\<lparr>bnd := snd res\<rparr>" "st_stopping env"] by (simp add: shrinks_def c2_def c1_def)
  then have "runtimes_good (runtimes c3)"
    using terminateAll_clears [of "runtimes c2"] by (simp add: c3_def runtimes_good_def split: sum.splits)
  from wait_all_clears(1,2) [of "st_dying env" c3] wait_all_clears(3) [OF this, of "st_dying env"]
  show "alive (runtimes (stop_everything env now t hard r c)) = []"
    unfolding eq by (simp add: terminateAll_clears runtimes_good_def)
qed

lemma stopped_good: "activeRuntimes m = [] \<Longrightarrow> alive m = [] \<Longrightarrow> runtimes_good m"
  by (simp add: runtimes_good_def)

lemma emergency_clears:
  "activeRuntimes (runtimes (emergencyStopHandler env now n c)) = []"
  "currentStartingPid (runtimes (emergencyStopHandler env now n c)) = None"
  "runtimes_good (runtimes c) \<Longrightarrow> alive (runtimes (emergencyStopHandler env now n c)) = []"
  using await_shrinks [of "stop_everything env now 0 True ''EMERGENCY_STOP'' c" "st_snapshot env"]
    stop_everything_clears [where env = env and now = now and t = 0 and hard = True and r = "''EMERGENCY_STOP''" and c = c]
  by (simp_all add: emergencyStopHandler_def shrinks_def)

text \<open>A spawn from an empty table tracks what it starts.\<close>

lemma spawn_tracks:
  assumes "runtimes_good m" and "activeRuntimes m = []"
  shows "spawnRuntime now sp w b m = (Inr pid, m') \<Longrightarrow> activeRuntimes m' = [pid] \<and> alive m' = [pid]"
    and "spawnRuntime now sp w b m = (Inl e, m') \<Longrightarrow> activeRuntimes m' = [] \<and> alive m' = []"
  using assms
  by (auto simp: spawnRuntime_def ensureServerStarted_def runtimes_good_def set_add_def Let_def
      split: if_splits option.splits)

lemma start_cluster_shrinks: "shrinks (runtimes c) (runtimes (snd (start_cluster env staged c)))"
proof (cases "isDegraded (authority c)")
  case False
  define w where "w = (if activeConnections (transport (bnd c)) = [] then waitForConnection (se_waiting env) c else (True, c))"
  define d where "d = startCluster (se_io env) (se_msgId env) (se_traceId env) True False True (se_payload env staged (snd w)) (bnd (snd w))"
  have w: "shrinks (runtimes c) (runtimes (snd w))" by (simp add: w_def wait_shrinks)
  have "runtimes (snd (start_cluster env staged c)) \<in> {runtimes (snd w), runtimes (await (se_acking env) ((snd w)\<lparr>bnd := snd d\<rparr>))}"
    using False by (simp add: start_cluster_def w_def [symmetric] d_def split: prod.splits bool.splits sum.splits dispatched.splits)
  moreover have "shrinks (runtimes (snd w)) (runtimes (await (se_acking env) ((snd w)\<lparr>bnd := snd d\<rparr>)))"
    using await_shrinks [of "(snd w)\<lparr>bnd := snd d\<rparr>" "se_acking env"] by simp
  ultimately show ?thesis using w shrinks_trans by auto
qed (simp add: start_cluster_def)

lemma stopped_rows [simp]:
  "lifecycle_row (setLifecycle now l msg c) = setObservedState now l (truthy_or msg ''WORKSPACE_AGGREGATOR_UPDATE'') (lifecycle_row c)"
  "lifecycle_row (set_desired now x r c) = setDesiredState now x r (lifecycle_row c)"
  "lifecycle_row (set_observed now x r c) = setObservedState now x r (lifecycle_row c)"
  "wsLifecycle (workspace (setLifecycle now l msg c)) = l"
  by (simp_all add: setLifecycle_def set_desired_def set_observed_def)

lemma row_get [simp]:
  "desiredState (lifecycle_get t (setDesiredState now x r row)) = x"
  "observedState (lifecycle_get t (setObservedState now x r row)) = x"
  "row' = setDesiredState now x r row \<Longrightarrow> desiredState (lifecycle_get t (setObservedState now y r' row')) = x"
  by (auto simp: lifecycle_get_def setDesiredState_def setObservedState_def split: option.splits)

lemma row_kept:
  "row' \<noteq> None \<Longrightarrow> desiredState (lifecycle_get t (setObservedState now y r' row')) = desiredState (lifecycle_get t row')"
  "setObservedState now y r row \<noteq> None" "setDesiredState now y r row \<noteq> None"
  by (auto simp: lifecycle_get_def setObservedState_def setDesiredState_def split: option.splits)

text \<open>A failed start leaves the plane stopped.\<close>

definition stopped_plane :: "'b control_plane \<Rightarrow> bool" where
  "stopped_plane c \<longleftrightarrow> activeRuntimes (runtimes c) = [] \<and> alive (runtimes c) = [] \<and>
     desiredState (lifecycle_get 0 (lifecycle_row c)) = ''STOPPED'' \<and>
     observedState (lifecycle_get 0 (lifecycle_row c)) = ''STOPPED'' \<and> wsLifecycle (workspace c) = ''STOPPED''"

lemma spawn_error: "spawnRuntime now sp w b m = (Inl e, m') \<Longrightarrow> e \<in> {SpawnDenied, SpawnFailed}"
  by (auto simp: spawnRuntime_def Let_def split: if_splits option.splits)

lemma roll_back_stops:
  assumes "set (activeRuntimes (runtimes c)) \<subseteq> {pid}" and "set (alive (runtimes c)) \<subseteq> {pid}"
  shows "stopped_plane (roll_back now pid c)"
  using assms by (auto simp: stopped_plane_def roll_back_def row_kept removeAll_filter_not_eq filter_empty_conv)

lemma commit_outcome:
  assumes "runtimes_good (runtimes c)" and "activeRuntimes (runtimes c) = []" and "spawn_and_commit env now c = (r, c')"
  shows "case r of Inl e \<Rightarrow> e \<in> {SpawnDenied, SpawnFailed, ClusterFailed} \<and> stopped_plane c'
    | Inr pid \<Rightarrow> runtimes_good (runtimes c') \<and> set (activeRuntimes (runtimes c')) \<subseteq> {pid}"
proof -
  obtain sr m where sp: "spawnRuntime now (se_spawn env) (authority c) (bnd c) (runtimes c) = (sr, m)" by fastforce
  show ?thesis
  proof (cases sr)
    case (Inl e)
    with sp have "e \<in> {SpawnDenied, SpawnFailed}" using spawn_error by blast
    with Inl spawn_tracks(2) [OF assms(1,2), of now "se_spawn env" "authority c" "bnd c" e m] sp assms(3)
    show ?thesis by (auto simp: spawn_and_commit_def stopped_plane_def row_kept)
  next
    case (Inr pid)
    have m: "activeRuntimes m = [pid]" "alive m = [pid]" using spawn_tracks(1) [OF assms(1,2)] sp Inr by blast+
    define c1 where "c1 = setLifecycle now ''STARTING'' None
      (set_observed now ''STARTING_HANDSHAKE'' (''PID_'' @ dec_string pid @ ''_SPAWNED'') (c\<lparr>runtimes := m\<rparr>))"
    obtain ok c2 where sc: "start_cluster env (stagedAccountIds (workspace c)) c1 = (ok, c2)" by fastforce
    have "shrinks m (runtimes c2)" using start_cluster_shrinks [of c1 env "stagedAccountIds (workspace c)"] sc by (simp add: c1_def)
    with m have "set (activeRuntimes (runtimes c2)) \<subseteq> {pid}" "set (alive (runtimes c2)) \<subseteq> {pid}" "runtimes_good (runtimes c2)"
      by (auto simp: shrinks_def runtimes_good_def)
    moreover have "(r, c') = (if ok then (Inr pid, c2) else (Inl ClusterFailed, roll_back now pid c2))"
      using assms(3) sp Inr sc unfolding spawn_and_commit_def c1_def by (simp split: bool.splits)
    ultimately show ?thesis using roll_back_stops by (auto split: if_splits)
  qed
qed

lemma prepared_good:
  assumes "runtimes_good (runtimes c)" and "\<not> already_running now c"
  shows "runtimes_good (runtimes (prepare_start env now named c))" "activeRuntimes (runtimes (prepare_start env now named c)) = []"
proof -
  let ?c1 = "settle_prior_run now c"
  let ?c2 = "?c1\<lparr>workspace := stage_for_start named (store_accounts ?c1) (workspace ?c1)\<rparr>"
  have "shrinks (runtimes c) (runtimes (prepare_start env now named c))"
    using await_shrinks [of ?c2 "se_refreshing env"] by (simp add: prepare_start_def Let_def)
  with assms show "runtimes_good (runtimes (prepare_start env now named c))" "activeRuntimes (runtimes (prepare_start env now named c)) = []"
    by (simp_all add: shrinks_def already_running_def)
qed

lemma start_good:
  assumes "runtimes_good (runtimes c)"
  shows "runtimes_good (runtimes (snd (startAutomationHandler env now named c)))"
proof (cases "isDegraded (authority c) \<or> already_running now c")
  case False
  note pg = prepared_good [OF assms, of now env named]
  show ?thesis
  proof (cases "startServer (se_io env) (bnd (prepare_start env now named c))")
    case (Some b)
    let ?c = "(prepare_start env now named c)\<lparr>bnd := b\<rparr>"
    have "snd (startAutomationHandler env now named c) = snd (spawn_and_commit env now ?c)"
      using False Some by (simp add: startAutomationHandler_def Let_def)
    with commit_outcome [of ?c env now "fst (spawn_and_commit env now ?c)" "snd (spawn_and_commit env now ?c)"] pg False
    show ?thesis by (auto simp: stopped_plane_def stopped_good split: sum.splits)
  qed (use False pg in \<open>simp add: startAutomationHandler_def Let_def\<close>)
qed (use assms in \<open>auto simp: startAutomationHandler_def\<close>)

lemma step_good: "plane_step c c' \<Longrightarrow> plane_good c \<Longrightarrow> plane_good c'"
  unfolding plane_good_def
proof (erule plane_stepE)
  fix senv now assume "c' = stopAutomationHandler senv now c"  "runtimes_good (runtimes c)"
  then show "runtimes_good (runtimes c')"
    using stop_everything_clears(1,3) [where env = senv and c = c] by (simp add: stopAutomationHandler_def stopped_good)
next
  fix senv now n assume "c' = emergencyStopHandler senv now n c" "runtimes_good (runtimes c)"
  then show "runtimes_good (runtimes c')" using emergency_clears(1,3) [where env = senv and c = c] by (simp add: stopped_good)
next
  fix a assume "c' = snd (freezeAccountHandler a c)" "runtimes_good (runtimes c)"
  then show "runtimes_good (runtimes c')"
    by (simp add: freezeAccountHandler_def freezeAccountLease_def split: option.splits list.splits)
next
  fix e assume "c' = handle_event e c" "runtimes_good (runtimes c)"
  then show "runtimes_good (runtimes c')" using event_shrinks [of c e] by (simp add: shrinks_def)
qed (simp_all add: start_good cancelAllBetsHandler_def)

interpretation plane: machine_invariant plane_start plane_step plane_good
proof
  show "plane_good c" if "plane_start c" for c :: "'a control_plane"
    using that by (simp add: plane_start_def plane_good_def runtimes_good_def new_runtime_manager_def)
qed (rule step_good)

lemma await_authority: "authority c = authority d \<Longrightarrow> authority (await evs c) = authority (await evs d)"
  unfolding await_def
proof (induction evs arbitrary: c d)
  case (Cons e evs)
  have "authority (handle_event e c) = authority (handle_event e d)"
    using Cons.prems by (cases e) (simp_all add: quarantineExecution_def)
  from Cons.IH [OF this] show ?case by simp
qed simp

lemma prepared_authority: "authority (prepare_start env now named c) = authority (await (se_refreshing env) c)"
proof -
  let ?c1 = "settle_prior_run now c"
  let ?c2 = "?c1\<lparr>workspace := stage_for_start named (store_accounts ?c1) (workspace ?c1)\<rparr>"
  have "authority ?c2 = authority c" by (simp add: settle_prior_run_def setLifecycle_def set_observed_def)
  from await_authority [OF this, of "se_refreshing env"] show ?thesis
    by (simp add: prepare_start_def set_desired_def Let_def)
qed

lemma committed_authorised:
  assumes "spawn_and_commit env now c = (Inr pid, c')" shows "canStartAutomation (authority c)"
proof (rule ccontr)
  assume "\<not> canStartAutomation (authority c)"
  then have "spawnRuntime now (se_spawn env) (authority c) (bnd c) (runtimes c) = (Inl SpawnDenied, runtimes c)"
    by (simp add: spawnRuntime_def)
  with assms show False by (simp add: spawn_and_commit_def)
qed

lemma committed_error:
  "spawn_and_commit env now c \<noteq> (Inl PipeServerFailed, c')"
proof -
  obtain sr m where sp: "spawnRuntime now (se_spawn env) (authority c) (bnd c) (runtimes c) = (sr, m)" by fastforce
  show ?thesis
  proof (cases sr)
    case (Inl e')
    with sp spawn_error have "e' \<noteq> PipeServerFailed" by blast
    with sp Inl show ?thesis by (simp add: spawn_and_commit_def)
  next
    case (Inr pid)
    with sp show ?thesis by (simp add: spawn_and_commit_def Let_def case_prod_beta split: bool.splits)
  qed
qed

lemma still_pending: "opStatus (cancelled now reason op) \<notin> {''QUEUED'', ''IN_FLIGHT''}"
  by (simp add: cancelled_def)

lemma stop_everything_rows:
  "lifecycle_row (stop_everything env now t hard r c) =
     setObservedState now ''STOPPING'' r (setDesiredState now ''STOPPED'' r (lifecycle_row c))"
  by (simp add: stop_everything_def terminateAllAndWait_def Let_def case_prod_beta split: sum.splits)

text \<open>What the last part of a stop settles.\<close>

lemma settled_plane:
  fixes f r :: string
  assumes "desiredState (lifecycle_get now (lifecycle_row d)) = ''STOPPED''" and "lifecycle_row d \<noteq> None"
  defines "c' \<equiv> settle_stopped now f r d"
  shows "desiredState (lifecycle_get now (lifecycle_row c')) = ''STOPPED''"
    "observedState (lifecycle_get now (lifecycle_row c')) = ''STOPPED''"
    "wsLifecycle (workspace c') = ''STOPPED''" "activeAccountIds (workspace c') = []"
    "\<nexists>k op. getOperation k (tracker c') = Some op \<and> opStatus op \<in> {''QUEUED'', ''IN_FLIGHT''}"
proof -
  have row: "lifecycle_row c' = setObservedState now ''STOPPED'' ''Execution engine standby'' (setObservedState now ''STOPPED'' r (lifecycle_row d))"
    by (simp add: c'_def settle_stopped_def stopAutomation_def resetObservedStates_def fail_all_def setLifecycle_def
        set_observed_def Let_def truthy_or_def)
  show "desiredState (lifecycle_get now (lifecycle_row c')) = ''STOPPED''"
    "observedState (lifecycle_get now (lifecycle_row c')) = ''STOPPED''"
    using assms(1,2) by (simp_all add: row row_kept)
  show "wsLifecycle (workspace c') = ''STOPPED''" "activeAccountIds (workspace c') = []"
    by (simp_all add: c'_def settle_stopped_def stopAutomation_def resetObservedStates_def fail_all_def setLifecycle_def Let_def)
  have "tracker c' = snd (failAllPending now ''AUTOMATION_STOPPED'' (snd (failAllPending now f (tracker d))))"
    by (simp add: c'_def settle_stopped_def stopAutomation_def resetObservedStates_def fail_all_def setLifecycle_def
        set_observed_def Let_def)
  then show "\<nexists>k op. getOperation k (tracker c') = Some op \<and> opStatus op \<in> {''QUEUED'', ''IN_FLIGHT''}"
    using still_pending by (auto simp: fail_all_lookup)
qed

lemma emergency_contained:
  assumes g: "runtimes_good (runtimes c)"
  shows "let c' = emergencyStopHandler env now capacity c in
    activeRuntimes (runtimes c') = [] \<and> alive (runtimes c') = [] \<and> currentStartingPid (runtimes c') = None \<and>
    desiredState (lifecycle_get now (lifecycle_row c')) = ''STOPPED'' \<and>
    observedState (lifecycle_get now (lifecycle_row c')) = ''STOPPED'' \<and>
    wsLifecycle (workspace c') = ''STOPPED'' \<and> activeAccountIds (workspace c') = [] \<and>
    (\<nexists>k op. getOperation k (tracker c') = Some op \<and> opStatus op \<in> {''QUEUED'', ''IN_FLIGHT''})"
proof -
  define d where "d = freeze_snapshot capacity (await (st_snapshot env) (stop_everything env now 0 True ''EMERGENCY_STOP'' c))"
  have row: "desiredState (lifecycle_get now (lifecycle_row d)) = ''STOPPED''" "lifecycle_row d \<noteq> None"
    by (simp_all add: d_def stop_everything_rows row_kept)
  have "emergencyStopHandler env now capacity c = settle_stopped now ''EMERGENCY_STOP'' ''EMERGENCY_STOP_COMPLETED'' d"
    by (simp add: emergencyStopHandler_def d_def)
  with settled_plane [OF row, of "''EMERGENCY_STOP''" "''EMERGENCY_STOP_COMPLETED''"]
    emergency_clears(1,2) [of env now capacity c] emergency_clears(3) [OF g, of env now capacity]
  show ?thesis by (simp add: Let_def)
qed

section \<open>Properties\<close>

definition starting_acp :: "(string \<times> document) acp" where
  "starting_acp = betting_acp\<lparr>inMemoryState := Some ((sample_data OPERATIONAL 4)
     \<lparr>authorization := Some \<lparr>authStatus = ''VALID'', capability_set = Some [CAP_AUTOMATION_START]\<rparr>\<rparr>)\<rparr>"

definition sample_plane :: "(string \<times> document) control_plane" where
  "sample_plane = \<lparr>authority = starting_acp, bnd = sample_boundary [], tracker = busy_tracker, runtimes = new_runtime_manager,
     workspace = new_workspace, lifecycle_row = None,
     store_accounts = [\<lparr>sa_id = ''a1'', sa_username = ''u1'', sa_backendState = ''ACTIVE'', sa_observedState = ''STOPPED'', sa_reason = None\<rparr>]\<rparr>"

definition sample_start :: "bool \<Rightarrow> (string \<times> document) start_env" where
  "sample_start ok = \<lparr>se_io = sample_io, se_msgId = ''m'', se_traceId = ''t'', se_refreshing = [], se_refresh = (\<lambda>as. as),
     se_spawn = Some 42, se_payload = (\<lambda>ids c. JObj []), se_waiting = [BoundaryEvent 5 (Connected sample_io ''m1'' 7)],
     se_acking = [], se_acked = ok\<rparr>"

definition sample_stop :: "(string \<times> document) stop_env" where
  "sample_stop = \<lparr>st_io = sample_io, st_msgId = ''m'', st_traceId = ''t'', st_stopping = [], st_dying = [ProcessExited 42], st_snapshot = []\<rparr>"

definition running_plane :: "(string \<times> document) control_plane" where
  "running_plane = snd (startAutomationHandler (sample_start True) 3 [] sample_plane)"

text \<open>C15. In every run of the control plane, whatever events arrive while a handler waits, at most one runtime is
  tracked and no process runs that is not tracked.\<close>

theorem at_most_one_runtime:
  assumes "reach plane_start plane_step c"
  shows "length (activeRuntimes (runtimes c)) \<le> 1 \<and> set (alive (runtimes c)) \<subseteq> set (activeRuntimes (runtimes c))"
  using plane.reach_good [OF assms] by (simp add: plane_good_def runtimes_good_def)

lemma running_reached: "reach plane_start plane_step running_plane"
proof -
  have "reach plane_start plane_step sample_plane" by (rule reach_start) (simp add: plane_start_def sample_plane_def)
  then show ?thesis unfolding running_plane_def by (rule reach_step) (rule started)
qed

lemma running_runtimes: "activeRuntimes (runtimes running_plane) = [42]" "alive (runtimes running_plane) = [42]"
  by code_simp+

theorem at_most_one_runtime_witness:
  "activeRuntimes (runtimes running_plane) = [42] \<and> alive (runtimes running_plane) = [42] \<and>
   length (activeRuntimes (runtimes running_plane)) \<le> 1"
  using at_most_one_runtime [OF running_reached] running_runtimes by simp

text \<open>C12. Emergency stop contains execution: from every reachable state, and whatever events arrive while it
  waits, it ends with no runtime tracked, no process left alive or starting, the desired, the observed and the
  displayed state STOPPED, no account active and no operation queued or in flight.\<close>

theorem emergency_stop_contains:
  assumes "reach plane_start plane_step c"
  shows "let c' = emergencyStopHandler env now capacity c in
    activeRuntimes (runtimes c') = [] \<and> alive (runtimes c') = [] \<and> currentStartingPid (runtimes c') = None \<and>
    desiredState (lifecycle_get now (lifecycle_row c')) = ''STOPPED'' \<and>
    observedState (lifecycle_get now (lifecycle_row c')) = ''STOPPED'' \<and>
    wsLifecycle (workspace c') = ''STOPPED'' \<and> activeAccountIds (workspace c') = [] \<and>
    (\<nexists>k op. getOperation k (tracker c') = Some op \<and> opStatus op \<in> {''QUEUED'', ''IN_FLIGHT''})"
  using emergency_contained plane.reach_good [OF assms] by (simp add: plane_good_def)

theorem emergency_stop_contains_witness:
  "activeRuntimes (runtimes running_plane) = [42] \<and>
   alive (runtimes (emergencyStopHandler sample_stop 9 2 running_plane)) = [] \<and>
   desiredState (lifecycle_get 9 (lifecycle_row (emergencyStopHandler sample_stop 9 2 running_plane))) = ''STOPPED''"
  using emergency_stop_contains [OF running_reached, of sample_stop 9 2] running_runtimes by (simp add: Let_def)

text \<open>Start is all or nothing: from a reachable state a start that is refused changes nothing; one that fails
  after the pipe server is up, at the spawn or at the initialisation of the cluster, leaves no runtime and the
  states STOPPED; one that succeeds was authorised when it spawned.\<close>

theorem failed_start_rolled_back:
  assumes "reach plane_start plane_step c" and "startAutomationHandler env now named c = (r, c')"
  shows "case r of
      Inl e \<Rightarrow> (if e \<in> {ExecutionDegraded, AlreadyRunning} then c' = c else if e = PipeServerFailed then activeRuntimes (runtimes c') = []
               else activeRuntimes (runtimes c') = [] \<and> alive (runtimes c') = [] \<and>
                 desiredState (lifecycle_get 0 (lifecycle_row c')) = ''STOPPED'' \<and>
                 observedState (lifecycle_get 0 (lifecycle_row c')) = ''STOPPED'' \<and> wsLifecycle (workspace c') = ''STOPPED'')
    | Inr pid \<Rightarrow> canStartAutomation (authority (await (se_refreshing env) c)) \<and> \<not> isDegraded (authority c)"
proof (cases "isDegraded (authority c) \<or> already_running now c")
  case True
  with assms(2) show ?thesis by (auto simp: startAutomationHandler_def split: if_splits)
next
  case False
  from assms have g: "runtimes_good (runtimes c)" using plane.reach_good by (auto simp: plane_good_def)
  note pg = prepared_good [OF g, of now env named]
  show ?thesis
  proof (cases "startServer (se_io env) (bnd (prepare_start env now named c))")
    case None
    with False assms(2) pg show ?thesis by (auto simp: startAutomationHandler_def Let_def)
  next
    case (Some b)
    let ?c = "(prepare_start env now named c)\<lparr>bnd := b\<rparr>"
    from False Some assms(2) have sc: "spawn_and_commit env now ?c = (r, c')" by (simp add: startAutomationHandler_def Let_def)
    from commit_outcome [OF _ _ this] pg False
    have "case r of Inl e \<Rightarrow> e \<in> {SpawnDenied, SpawnFailed, ClusterFailed} \<and> stopped_plane c' | Inr pid \<Rightarrow> True"
      by (auto split: sum.splits)
    moreover have "canStartAutomation (authority (await (se_refreshing env) c))" if "r = Inr pid" for pid
      using committed_authorised [OF sc [unfolded that]] by (simp add: prepared_authority)
    ultimately show ?thesis using False by (auto simp: stopped_plane_def split: sum.splits)
  qed
qed

theorem failed_start_rolled_back_witness:
  "fst (startAutomationHandler (sample_start False) 3 [] sample_plane) = Inl ClusterFailed \<and>
   alive (runtimes (snd (startAutomationHandler (sample_start False) 3 [] sample_plane))) = []"
proof -
  have r: "fst (startAutomationHandler (sample_start False) 3 [] sample_plane) = Inl ClusterFailed" by code_simp
  have "reach plane_start plane_step sample_plane" by (rule reach_start) (simp add: plane_start_def sample_plane_def)
  from failed_start_rolled_back [OF this prod.collapse [symmetric], of "sample_start False" 3 "[]"] r show ?thesis by simp
qed

text \<open>A pipe server that cannot start is not rolled back: the persisted desired state stays RUNNING although
  nothing was spawned.\<close>

theorem failed_server_start_stays_desired:
  assumes "startAutomationHandler env now named c = (Inl PipeServerFailed, c')"
  shows "desiredState (lifecycle_get 0 (lifecycle_row c')) = ''RUNNING''"
proof -
  from assms have "c' = prepare_start env now named c"
    by (auto simp: committed_error startAutomationHandler_def Let_def split: if_splits option.splits)
  then show ?thesis by (simp add: prepare_start_def Let_def)
qed

definition unserved_plane :: "(string \<times> document) control_plane" where
  "unserved_plane = sample_plane\<lparr>bnd := stopServer (sample_boundary [])\<rparr>"

theorem failed_server_start_stays_desired_witness:
  "desiredState (lifecycle_get 0 (lifecycle_row (snd (startAutomationHandler
     ((sample_start True)\<lparr>se_io := sample_io\<lparr>server_starts := False\<rparr>\<rparr>) 3 [] unserved_plane)))) = ''RUNNING''"
proof -
  let ?r = "startAutomationHandler ((sample_start True)\<lparr>se_io := sample_io\<lparr>server_starts := False\<rparr>\<rparr>) 3 [] unserved_plane"
  have "fst ?r = Inl PipeServerFailed" by code_simp
  then have "?r = (Inl PipeServerFailed, snd ?r)" by (metis prod.collapse)
  from failed_server_start_stays_desired [OF this] show ?thesis .
qed

text \<open>Freezing does not freeze: cancelling all bets leaves the execution boundary, its frozen accounts
  included, as it was, and the freeze of an account always throws.\<close>

theorem freeze_commands_freeze_nothing:
  "bnd (cancelAllBetsHandler capacity c) = bnd c \<and>
   freezeAccountHandler (Some (x # xs)) c = (Inl NotAFunction, c)"
  by (simp add: cancelAllBetsHandler_def freezeAccountHandler_def freezeAccountLease_def)

end
