(* ===== verification/CommandHandlers.thy ===== *)
theory CommandHandlers
  imports AutomationLifecycle
begin

text \<open>
  The execution and system handlers of \<^verbatim>\<open>command/registerCommands.mjs\<close> behind the router of
  \<^verbatim>\<open>command/commandRouter.mjs\<close>: the path of an operator's command from its raw form to the pipe. The
  handlers of the categories Persistence and Billing are registered under other categories and are not
  part of this theory. Identifiers in payloads are strings; a member of another type counts as absent.
\<close>

section \<open>Reading a command\<close>

definition str_of :: "jsval \<Rightarrow> string option" where
  "str_of v = (case v of JStr s \<Rightarrow> Some s | _ \<Rightarrow> None)"

definition strings_of :: "jsval \<Rightarrow> string list option" where
  "strings_of v = (case v of JArr xs \<Rightarrow> Some (List.map_filter str_of xs) | _ \<Rightarrow> None)"

definition members_of :: "jsval \<Rightarrow> (string \<times> jsval) list" where
  "members_of v = (case v of JObj kvs \<Rightarrow> kvs | _ \<Rightarrow> [])"

definition cmd_payload :: "jsval \<Rightarrow> jsval" where
  "cmd_payload cmd = js_get cmd ''payload''"

definition cmd_trace :: "jsval \<Rightarrow> string" where
  "cmd_trace cmd = (case str_of (js_get cmd ''traceId'') of Some t \<Rightarrow> t | None \<Rightarrow> [])"

definition bet_payload_of :: "jsval \<Rightarrow> bet_payload" where
  "bet_payload_of p =
     \<lparr>bp_idempotencyKey = str_of (js_get p ''idempotencyKey''), bp_operationId = str_of (js_get p ''operationId''),
      bp_accountId = str_of (js_get p ''accountId''), bp_targetAccounts = strings_of (js_get p ''targetAccounts''),
      bp_stake = js_get p ''stake'', bp_odds = js_get p ''odds'', bp_forceRetry = truthy (js_get p ''forceRetry''),
      bp_rest = members_of p\<rparr>"

definition cashout_payload_of :: "jsval \<Rightarrow> cashout_payload" where
  "cashout_payload_of p =
     \<lparr>co_idempotencyKey = str_of (js_get p ''idempotencyKey''), co_operationId = str_of (js_get p ''operationId''),
      co_accountId = str_of (js_get p ''accountId''), co_targetAccount = str_of (js_get p ''targetAccount''),
      co_forceRetry = truthy (js_get p ''forceRetry''), co_rest = members_of p\<rparr>"

section \<open>Handlers\<close>

text \<open>What surrounds a command: the pipe, the message identifier, the clock, the accounts with their bet-cycle
  overrides, the surroundings of a start and of a stop, the configured capacity, and \<open>activation\<close>, the payload
  built from the state store for an account identifier (the identifier alone when the account is unknown).\<close>

record 'b handler_env =
  he_io :: pipe_io
  he_msgId :: string
  he_now :: int
  he_accounts :: "bet_account list option"
  he_start :: "'b start_env"
  he_stop :: "'b stop_env"
  he_capacity :: nat
  he_activation :: "jsval \<Rightarrow> jsval"

datatype command_error = LifecycleError lifecycle_error | BoundaryError boundary_error

definition bool_object :: "string \<Rightarrow> jsval" where
  "bool_object k = JObj [(k, JBool True)]"

fun status_string :: "ledger_status \<Rightarrow> string" where
  "status_string IN_FLIGHT = ''IN_FLIGHT''"
| "status_string COMPLETED = ''COMPLETED''"
| "status_string FAILED = ''FAILED''"
| "status_string UNCERTAIN = ''UNCERTAIN''"

fun sent_value :: "dispatched \<Rightarrow> jsval" where
  "sent_value (SentNow ok) = JBool ok"
| "sent_value AwaitingReply = JObj []"
| "sent_value NoConnection = JObj []"

text \<open>The answer to a bet or cash-out; the texts of the error members are left out.\<close>

fun outcome_answer :: "jsval \<Rightarrow> bet_outcome \<Rightarrow> jsval" where
  "outcome_answer operationId (Duplicate st cached) =
     JObj ([(''operationId'', operationId), (''duplicate'', JBool True), (''status'', JStr (status_string st))] @
       (if st = IN_FLIGHT then [(''cachedAck'', JBool True)] else [(''cachedResult'', cached)]))"
| "outcome_answer operationId (Dispatched d) =
     JObj [(''operationId'', operationId), (''queued'', JBool True), (''sent'', sent_value d)]"

type_synonym 'b handler_result = "(command_error + jsval) \<times> 'b control_plane"

definition on_boundary ::
  "'b control_plane \<Rightarrow> (boundary \<Rightarrow> (boundary_error + 'r) \<times> boundary) \<Rightarrow> ('r \<Rightarrow> jsval) \<Rightarrow> 'b handler_result" where
  "on_boundary c call answer =
     (if isDegraded (authority c) then (Inl (LifecycleError ExecutionDegraded), c)
      else case call (bnd c) of
             (Inl e, b) \<Rightarrow> (Inl (BoundaryError e), c\<lparr>bnd := b\<rparr>)
           | (Inr r, b) \<Rightarrow> (Inr (answer r), c\<lparr>bnd := b\<rparr>))"

definition placeBetHandler :: "'b handler_env \<Rightarrow> jsval \<Rightarrow> 'b control_plane \<Rightarrow> 'b handler_result" where
  "placeBetHandler env cmd c =
     on_boundary c
       (placeBet (he_io env) (he_msgId env) (cmd_trace cmd) False (isDegraded (authority c)) (he_accounts env) (he_now env)
          (bet_payload_of (cmd_payload cmd)))
       (outcome_answer (js_get (cmd_payload cmd) ''operationId''))"

definition cashOutHandler :: "'b handler_env \<Rightarrow> jsval \<Rightarrow> 'b control_plane \<Rightarrow> 'b handler_result" where
  "cashOutHandler env cmd c =
     on_boundary c
       (cashOut (he_io env) (he_msgId env) (cmd_trace cmd) False (isDegraded (authority c)) (he_now env)
          (cashout_payload_of (cmd_payload cmd)))
       (outcome_answer (js_get (cmd_payload cmd) ''operationId''))"

definition validateHandler :: "'b handler_env \<Rightarrow> jsval \<Rightarrow> 'b control_plane \<Rightarrow> 'b handler_result" where
  "validateHandler env cmd c =
     on_boundary c
       (validateTactical (he_io env) (he_msgId env) (cmd_trace cmd) False (isDegraded (authority c)) (cmd_payload cmd))
       (\<lambda>d. JObj [(''valid'', JBool True), (''sent'', sent_value d)])"

definition activateHandler :: "'b handler_env \<Rightarrow> jsval \<Rightarrow> 'b control_plane \<Rightarrow> 'b handler_result" where
  "activateHandler env cmd c =
     on_boundary c
       (guardedDispatch (he_io env) (he_msgId env) (cmd_trace cmd) False (isDegraded (authority c))
          ''FLEET:ACTIVATE_ACCOUNT'' (he_activation env (js_get cmd ''target'')))
       (\<lambda>d. JObj [(''activated'', JBool True), (''accountId'', js_get cmd ''target''), (''sent'', sent_value d)])"

definition deactivateHandler :: "'b handler_env \<Rightarrow> jsval \<Rightarrow> 'b control_plane \<Rightarrow> 'b handler_result" where
  "deactivateHandler env cmd c =
     on_boundary c
       (deactivateAccount (he_io env) (he_msgId env) (cmd_trace cmd) False (isDegraded (authority c))
          (JObj [(''accountId'', js_get cmd ''target'')]))
       (\<lambda>d. JObj [(''deactivated'', JBool True), (''accountId'', js_get cmd ''target''), (''sent'', sent_value d)])"

definition statusHandler :: "'b control_plane \<Rightarrow> 'b handler_result" where
  "statusHandler c =
     (Inr (JObj [(''status'', JStr ''OK''), (''systemState'', JStr (state_name (getSystemState (authority c)))),
        (''lifecycle'', JStr (wsLifecycle (workspace c))),
        (''activeBrowsers'', JNum (Fin (of_nat (length (activeAccountIds (workspace c)))))),
        (''fleetReadiness'', latestFleetReadiness (runtimes c))]), c)"

definition named_accounts :: "jsval \<Rightarrow> string list" where
  "named_accounts cmd = (case strings_of (js_get (cmd_payload cmd) ''accountIds'') of Some ids \<Rightarrow> ids | None \<Rightarrow> [])"

definition startHandler :: "'b handler_env \<Rightarrow> jsval \<Rightarrow> 'b control_plane \<Rightarrow> 'b handler_result" where
  "startHandler env cmd c =
     (case startAutomationHandler (he_start env) (he_now env) (named_accounts cmd) c of
        (Inl e, c1) \<Rightarrow> (Inl (LifecycleError e), c1)
      | (Inr pid, c1) \<Rightarrow> (Inr (JObj [(''started'', JBool True), (''pid'', JNum (Fin (of_nat pid)))]), c1))"

definition freezeHandler :: "jsval \<Rightarrow> 'b control_plane \<Rightarrow> 'b handler_result" where
  "freezeHandler cmd c =
     (case freezeAccountHandler (str_of (js_or (js_get cmd ''target'') (js_get (cmd_payload cmd) ''accountId''))) c of
        (Inl e, c1) \<Rightarrow> (Inl (LifecycleError e), c1)
      | (Inr ok, c1) \<Rightarrow> (Inr (JObj [(''frozen'', JBool ok)]), c1))"

text \<open>The registrations, numbered in their order. The emergency stop of the category System calls the first
  one registered under Execution.\<close>

definition registrations :: "(string \<times> string) list" where
  "registrations =
     [(''Execution'', ''START_AUTOMATION''), (''Execution'', ''STOP_AUTOMATION''), (''Execution'', ''EMERGENCY_STOP''),
      (''System'', ''EMERGENCY_STOP''), (''Execution'', ''CANCEL_ALL_BETS''), (''Execution'', ''FREEZE_ACCOUNT''),
      (''Execution'', ''VIEW_STATUS''), (''System'', ''VIEW_STATUS''), (''Execution'', ''PLACE_BET''),
      (''Execution'', ''CASH_OUT''), (''Execution'', ''VALIDATE''), (''Execution'', ''ACTIVATE_ACCOUNT''),
      (''Execution'', ''DEACTIVATE_ACCOUNT'')]"

definition registerDefaultCommandHandlers :: "router \<Rightarrow> router" where
  "registerDefaultCommandHandlers r =
     fold (\<lambda>(h, cat, ty). register (JStr cat) (JStr ty) h) (enumerate 0 registrations) r"

definition run_command :: "'b handler_env \<Rightarrow> nat \<Rightarrow> jsval \<Rightarrow> 'b control_plane \<Rightarrow> 'b handler_result" where
  "run_command env h cmd c =
     (if h = 0 then startHandler env cmd c
      else if h = 1 then (Inr (bool_object ''stopped''), stopAutomationHandler (he_stop env) (he_now env) c)
      else if h = 2 \<or> h = 3
      then (Inr (JObj [(''emergencyStopped'', JBool True), (''halted'', JBool True)]),
            emergencyStopHandler (he_stop env) (he_now env) (he_capacity env) c)
      else if h = 4 then (Inr (bool_object ''cancelled''), cancelAllBetsHandler (he_capacity env) c)
      else if h = 5 then freezeHandler cmd c
      else if h = 6 \<or> h = 7 then statusHandler c
      else if h = 8 then placeBetHandler env cmd c
      else if h = 9 then cashOutHandler env cmd c
      else if h = 10 then validateHandler env cmd c
      else if h = 11 then activateHandler env cmd c
      else deactivateHandler env cmd c)"

text \<open>A command of the operator, from its raw form to the new state of the control plane.\<close>

definition operate ::
  "(string \<Rightarrow> jsval option) \<Rightarrow> (jsnum \<Rightarrow> string) \<Rightarrow> string \<Rightarrow> string \<Rightarrow> 'b handler_env \<Rightarrow> jsval \<Rightarrow> 'b control_plane
     \<Rightarrow> (command_error route_error + (bool \<times> jsval list)) \<times> 'b control_plane" where
  "operate parse numStr uuid1 uuid2 env raw c =
     (case route parse numStr (run_command env) uuid1 uuid2 (Some (authority c)) raw
             (registerDefaultCommandHandlers new_router, c) of
        (res, r, c1) \<Rightarrow> (res, c1))"

section \<open>Lemmas\<close>

lemma default_handlers:
  "handlers (registerDefaultCommandHandlers new_router) =
     [(JStr ''Execution'',
       [(JStr ''START_AUTOMATION'', [0]), (JStr ''STOP_AUTOMATION'', [1]), (JStr ''EMERGENCY_STOP'', [2]),
        (JStr ''CANCEL_ALL_BETS'', [4]), (JStr ''FREEZE_ACCOUNT'', [5]), (JStr ''VIEW_STATUS'', [6]), (JStr ''PLACE_BET'', [8]),
        (JStr ''CASH_OUT'', [9]), (JStr ''VALIDATE'', [10]), (JStr ''ACTIVATE_ACCOUNT'', [11]), (JStr ''DEACTIVATE_ACCOUNT'', [12])]),
      (JStr ''System'', [(JStr ''EMERGENCY_STOP'', [3]), (JStr ''VIEW_STATUS'', [7])])]"
  by code_simp

text \<open>Every command has at most one handler, and its number says which type it has.\<close>

lemma default_handler:
  "handlers_for (registerDefaultCommandHandlers new_router) cmd = [] \<or>
   (\<exists>h < 13. handlers_for (registerDefaultCommandHandlers new_router) cmd = [h] \<and>
      js_get cmd ''type'' = JStr (snd (registrations ! h)) \<and> command_category cmd = JStr (fst (registrations ! h)))"
  unfolding handlers_for_def default_handlers lookup_handlers_def registrations_def
  by (simp add: numeral_nat)

lemma type_of_json: "js_get cmd ''type'' = JStr t \<Longrightarrow> command_type cmd = t"
  by (simp add: command_type_def)

lemma run_one: "snd (run_handlers run [h] cmd s) = snd (run h cmd s)"
  by (simp split: prod.splits sum.splits)

text \<open>An operated command either changes nothing or is the one handler of its type.\<close>

lemma operate_cases:
  assumes "snd (operate parse numStr uuid1 uuid2 env raw c) \<noteq> c"
  obtains command h where "parsePayload parse raw = Some command"
    "admitted parse numStr uuid1 uuid2 (Some (authority c)) raw (with_identifiers uuid1 uuid2 command)"
    "h < 13" "command_type (with_identifiers uuid1 uuid2 command) = snd (registrations ! h)"
    "snd (operate parse numStr uuid1 uuid2 env raw c) = snd (run_command env h (with_identifiers uuid1 uuid2 command) c)"
proof -
  let ?r = "registerDefaultCommandHandlers new_router"
  have op: "snd (operate parse numStr uuid1 uuid2 env raw c) =
      snd (snd (route parse numStr (run_command env) uuid1 uuid2 (Some (authority c)) raw (?r, c)))"
    by (simp add: operate_def split: prod.splits)
  from assms op have "snd (snd (route parse numStr (run_command env) uuid1 uuid2 (Some (authority c)) raw (?r, c))) \<noteq> c" by simp
  then obtain command where cmd: "parsePayload parse raw = Some command"
    "admitted parse numStr uuid1 uuid2 (Some (authority c)) raw (with_identifiers uuid1 uuid2 command)"
    "snd (operate parse numStr uuid1 uuid2 env raw c) =
      snd (run_handlers (run_command env) (handlers_for ?r (with_identifiers uuid1 uuid2 command)) (with_identifiers uuid1 uuid2 command) c)"
    unfolding op by (rule effect_admitted)
  with assms have "handlers_for ?r (with_identifiers uuid1 uuid2 command) \<noteq> []" by auto
  with default_handler [of "with_identifiers uuid1 uuid2 command"] obtain h where
    "h < 13" "handlers_for ?r (with_identifiers uuid1 uuid2 command) = [h]"
    "js_get (with_identifiers uuid1 uuid2 command) ''type'' = JStr (snd (registrations ! h))" by blast
  with cmd run_one [of "run_command env" h] type_of_json show thesis by (intro that [of command h]) simp_all
qed

lemma registered_types:
  "h < 13 \<Longrightarrow> snd (registrations ! h) = ''PLACE_BET'' \<Longrightarrow> h = 8"
  "h < 13 \<Longrightarrow> snd (registrations ! h) = ''EMERGENCY_STOP'' \<Longrightarrow> h = 2 \<or> h = 3"
  "snd (registrations ! 0) = ''START_AUTOMATION''"
proof -
  have *: "\<forall>h\<in>set [0..<13]. (snd (registrations ! h) = ''PLACE_BET'' \<longrightarrow> h = 8) \<and>
      (snd (registrations ! h) = ''EMERGENCY_STOP'' \<longrightarrow> h = 2 \<or> h = 3)" by code_simp
  show "h < 13 \<Longrightarrow> snd (registrations ! h) = ''PLACE_BET'' \<Longrightarrow> h = 8"
    "h < 13 \<Longrightarrow> snd (registrations ! h) = ''EMERGENCY_STOP'' \<Longrightarrow> h = 2 \<or> h = 3" using * by auto
  show "snd (registrations ! 0) = ''START_AUTOMATION''" by (simp add: registrations_def)
qed

lemma on_boundary_frame [simp]:
  "runtimes (snd (on_boundary c call answer)) = runtimes c"
  by (simp add: on_boundary_def split: prod.splits sum.splits)

lemma on_boundary_wire:
  "bnd (snd (on_boundary c call answer)) = (if isDegraded (authority c) then bnd c else snd (call (bnd c)))"
  by (simp add: on_boundary_def split: prod.splits sum.splits)

text \<open>Only a start brings a process to life, and only when it is authorised as it spawns.\<close>

lemma spawn_new:
  assumes "\<not> canStartAutomation (authority c)"
  shows "runtimes (snd (spawn_and_commit env now c)) = runtimes c"
proof -
  from assms have "spawnRuntime now (se_spawn env) (authority c) (bnd c) (runtimes c) = (Inl SpawnDenied, runtimes c)"
    by (simp add: spawnRuntime_def)
  then show ?thesis by (simp add: spawn_and_commit_def)
qed

lemma prepared_alive: "set (alive (runtimes (prepare_start env now named c))) \<subseteq> set (alive (runtimes c))"
proof -
  let ?c1 = "settle_prior_run now c"
  let ?c2 = "?c1\<lparr>workspace := stage_for_start named (store_accounts ?c1) (workspace ?c1)\<rparr>"
  show ?thesis using await_shrinks [of ?c2 "se_refreshing env"] by (simp add: prepare_start_def Let_def shrinks_def)
qed

lemma start_spawns:
  assumes "\<not> set (alive (runtimes (snd (startAutomationHandler env now named c)))) \<subseteq> set (alive (runtimes c))"
  shows "\<not> isDegraded (authority c) \<and> canStartAutomation (authority (await (se_refreshing env) c))"
proof (rule ccontr)
  assume no: "\<not> ?thesis"
  have "set (alive (runtimes (snd (startAutomationHandler env now named c)))) \<subseteq> set (alive (runtimes c))"
  proof (cases "isDegraded (authority c) \<or> already_running now c")
    case True
    then show ?thesis by (auto simp: startAutomationHandler_def)
  next
    case False
    with no have "\<not> canStartAutomation (authority (prepare_start env now named c))" by (simp add: prepared_authority)
    then have "runtimes (snd (spawn_and_commit env now ((prepare_start env now named c)\<lparr>bnd := b\<rparr>))) =
        runtimes (prepare_start env now named c)" for b
      using spawn_new [of "(prepare_start env now named c)\<lparr>bnd := b\<rparr>" env now] by simp
    with False prepared_alive [of env now named c] show ?thesis
      by (simp add: startAutomationHandler_def Let_def split: option.splits)
  qed
  with assms show False ..
qed

lemma startHandler_plane:
  "snd (startHandler env cmd c) = snd (startAutomationHandler (he_start env) (he_now env) (named_accounts cmd) c)"
  by (simp add: startHandler_def split: prod.splits sum.splits)

lemma other_commands_spawn_nothing:
  assumes "runtimes_good (runtimes c)" and "h \<noteq> 0"
  shows "set (alive (runtimes (snd (run_command env h cmd c)))) \<subseteq> set (alive (runtimes c))"
  using assms emergency_clears(3) [OF assms(1), of "he_stop env" "he_now env" "he_capacity env"]
    stop_everything_clears(3) [OF assms(1), of "he_stop env" "he_now env" 3000 False "''USER_COMMAND_STOP''"]
  by (simp add: run_command_def placeBetHandler_def cashOutHandler_def validateHandler_def activateHandler_def
      deactivateHandler_def statusHandler_def stopAutomationHandler_def cancelAllBetsHandler_def freezeHandler_def
      freezeAccountHandler_def freezeAccountLease_def split: option.splits list.splits sum.splits prod.splits)

section \<open>Properties\<close>


definition sample_env :: "bool \<Rightarrow> (string \<times> document) handler_env" where
  "sample_env ok = \<lparr>he_io = sample_io, he_msgId = ''m'', he_now = 5, he_accounts = None, he_start = sample_start ok,
     he_stop = sample_stop, he_capacity = 2, he_activation = (\<lambda>v. JObj [(''accountId'', v)])\<rparr>"

definition betting_plane :: "(string \<times> document) control_plane" where
  "betting_plane = sample_plane\<lparr>authority := betting_acp, bnd := sample_boundary [7]\<rparr>"


text \<open>C13. An emergency stop from the operator contains execution: from every reachable state of the control plane,
  in every security state, and whatever events arrive meanwhile, no runtime is left tracked, alive or
  starting and the life-cycle is STOPPED.\<close>

theorem emergency_end_to_end:
  assumes "reach plane_start plane_step c" and "js_get command ''type'' = JStr ''EMERGENCY_STOP''"
    and "js_get command ''category'' \<in> {JStr ''Execution'', JStr ''System''}"
    and "truthy (js_get command ''id'')" and "truthy (js_get command ''commandId'')" and "truthy (js_get command ''traceId'')"
  shows "let c' = snd (operate parse numStr uuid1 uuid2 env command c) in
    activeRuntimes (runtimes c') = [] \<and> alive (runtimes c') = [] \<and> currentStartingPid (runtimes c') = None \<and>
    desiredState (lifecycle_get (he_now env) (lifecycle_row c')) = ''STOPPED'' \<and> wsLifecycle (workspace c') = ''STOPPED'' \<and>
    activeAccountIds (workspace c') = []"
proof -
  let ?r = "registerDefaultCommandHandlers new_router"
  have ad: "admitted parse numStr uuid1 uuid2 (Some (authority c)) command command"
    by (rule emergency_admitted) (use assms in \<open>auto simp: VALID_CATEGORIES_def\<close>)
  have "handlers_for ?r command \<in> {[2], [3]}"
    using assms(2,3) by (auto simp: handlers_for_def default_handlers lookup_handlers_def command_category_def js_or_def)
  then have "snd (operate parse numStr uuid1 uuid2 env command c) =
      emergencyStopHandler (he_stop env) (he_now env) (he_capacity env) c"
    by (auto simp: operate_def route_admitted [OF ad] run_command_def)
  moreover have "runtimes_good (runtimes c)" using plane.reach_good [OF assms(1)] by (simp add: plane_good_def)
  ultimately show ?thesis using emergency_contained [of c "he_stop env" "he_now env" "he_capacity env"] by (simp add: Let_def)
qed

theorem emergency_end_to_end_witness:
  "alive (runtimes running_plane) = [42] \<and>
   alive (runtimes (snd (operate (\<lambda>s. None) (\<lambda>n. ''5'') ''u'' ''v'' (sample_env True) (sample_command ''EMERGENCY_STOP'') running_plane))) = []"
  using emergency_end_to_end [OF running_reached, of "sample_command ''EMERGENCY_STOP''" "\<lambda>s. None" "\<lambda>n. ''5''" "''u''" "''v''" "sample_env True"]
    running_runtimes(2)
  by (simp add: sample_command_def obj_get_def Let_def)

text \<open>C14. No command but an authorised start brings a process to life: if after a command a process is alive
  that was not before, the command was START_AUTOMATION, the router had been granted the capability, and the
  authority still granted it when the process was spawned.\<close>

theorem only_authorised_start_spawns:
  assumes "reach plane_start plane_step c" and "parsePayload parse raw = Some command"
    and "pid \<in> set (alive (runtimes (snd (operate parse numStr uuid1 uuid2 env raw c))))" and "pid \<notin> set (alive (runtimes c))"
  shows "command_type (with_identifiers uuid1 uuid2 command) = ''START_AUTOMATION'' \<and>
    \<not> revoked (authority c) \<and> \<not> isDegraded (authority c) \<and> canStartAutomation (authority c) \<and>
    canStartAutomation (authority (await (se_refreshing (he_start env)) c))"
proof -
  from assms(3,4) have "snd (operate parse numStr uuid1 uuid2 env raw c) \<noteq> c" by auto
  then obtain command' h where op: "parsePayload parse raw = Some command'"
    "admitted parse numStr uuid1 uuid2 (Some (authority c)) raw (with_identifiers uuid1 uuid2 command')"
    "h < 13" "command_type (with_identifiers uuid1 uuid2 command') = snd (registrations ! h)"
    "snd (operate parse numStr uuid1 uuid2 env raw c) = snd (run_command env h (with_identifiers uuid1 uuid2 command') c)"
    by (rule operate_cases)
  with assms(2) have [simp]: "command' = command" by simp
  have "runtimes_good (runtimes c)" using plane.reach_good [OF assms(1)] by (simp add: plane_good_def)
  with other_commands_spawn_nothing [of c h env "with_identifiers uuid1 uuid2 command"] op(5) assms(3,4) have h: "h = 0" by auto
  with op(4) registered_types(3) have ty: "command_type (with_identifiers uuid1 uuid2 command) = ''START_AUTOMATION''" by simp
  from op(2) have gates: "capability_granted (Some (authority c)) (with_identifiers uuid1 uuid2 command)"
    "state_permits (Some (authority c)) (with_identifiers uuid1 uuid2 command)" by (auto simp: admitted_def split: option.splits)
  have "\<not> revoked (authority c)" "canStartAutomation (authority c)"
    using gates ty by (auto simp: capability_granted_def state_permits_def COMMAND_CAPABILITY_MAP_def canStartAutomation_def
        isCommandPermitted_def isSessionRevokedSync_def Let_def)
  moreover have "\<not> set (alive (runtimes (snd (startHandler env (with_identifiers uuid1 uuid2 command) c)))) \<subseteq> set (alive (runtimes c))"
    using assms(3,4) op(5) h by (auto simp: run_command_def)
  then have "\<not> isDegraded (authority c) \<and> canStartAutomation (authority (await (se_refreshing (he_start env)) c))"
    unfolding startHandler_plane by (rule start_spawns)
  ultimately show ?thesis using ty by blast
qed

theorem only_authorised_start_spawns_witness:
  "alive (runtimes (snd (operate (\<lambda>s. None) (\<lambda>n. ''5'') ''u'' ''v'' (sample_env True) (sample_command ''START_AUTOMATION'') sample_plane))) = [42] \<and>
   canStartAutomation (authority sample_plane)"
proof -
  have a: "alive (runtimes (snd (operate (\<lambda>s. None) (\<lambda>n. ''5'') ''u'' ''v'' (sample_env True) (sample_command ''START_AUTOMATION'') sample_plane))) = [42]"
    by code_simp
  have r: "reach plane_start plane_step sample_plane" by (rule reach_start) (simp add: plane_start_def sample_plane_def)
  have p: "parsePayload (\<lambda>s. None) (sample_command ''START_AUTOMATION'') = Some (sample_command ''START_AUTOMATION'')" by code_simp
  have n: "42 \<notin> set (alive (runtimes sample_plane))" by (simp add: sample_plane_def new_runtime_manager_def)
  from only_authorised_start_spawns [OF r p _ n, of "\<lambda>n. ''5''" "''u''" "''v''" "sample_env True"] a show ?thesis by simp
qed

end
