(* ===== verification/SyncOutbox.thy ===== *)
theory SyncOutbox
  imports JsPrelude "HOL-Library.Sublist"
begin

text \<open>
  The retry outbox of \<^verbatim>\<open>sync/backendSyncService.mjs\<close>: mutations the backend did not take are queued in
  memory and in a table, sent again in order with exponential backoff, and read back after a restart.

  The backend is an argument: \<open>replies n\<close> is its answer to the \<open>n\<close>-th call, \<open>reauth n\<close> the answer to a
  new authentication after \<open>n\<close> calls, \<open>clock n\<close> the time after \<open>n\<close> calls. \<open>calls\<close> is the trace of what was
  sent. The payload cipher and the JSON of the standard library are arguments too. A flush is one step:
  what an interleaving of two flushes does is stated separately at the end. The local cache file that
  each operation also rewrites is not modelled.
\<close>

section \<open>Items and rows\<close>

record outbox_item =
  oid :: string
  mutationType :: string
  o_payload :: jsval
  attempts :: nat
  o_status :: string
  createdAt :: int
  nextRetryAt :: int
  lastError :: "string option"

record outbox_row =
  r_id :: string
  r_type :: string
  payload_json :: string
  r_attempts :: nat
  r_status :: string
  r_error :: "string option"
  r_created :: int
  r_next :: int

record outbox_state =
  isConnected :: bool
  outbox :: "outbox_item list"
  sync_outbox :: "outbox_row list option"    \<comment> \<open>the table; \<open>None\<close> without an engine\<close>
  engine_ok :: bool                          \<comment> \<open>statements do not throw\<close>
  lastGraceToken :: jsval
  degradations :: "string list"              \<comment> \<open>reasons given to \<^verbatim>\<open>securityFacade.transitionToDegraded\<close>\<close>
  calls :: "(string \<times> jsval) list"

definition new_outbox :: "outbox_row list option \<Rightarrow> outbox_state" where
  "new_outbox table = \<lparr>isConnected = False, outbox = [], sync_outbox = table, engine_ok = True, lastGraceToken = JNull,
     degradations = [], calls = []\<rparr>"

text \<open>The engine, when there is one, runs a statement; errors are ignored.\<close>

definition run_sql :: "(outbox_row list \<Rightarrow> outbox_row list) \<Rightarrow> outbox_state \<Rightarrow> outbox_state" where
  "run_sql f s =
     (case sync_outbox s of
        None \<Rightarrow> s
      | Some rows \<Rightarrow> if engine_ok s then s\<lparr>sync_outbox := Some (f rows)\<rparr> else s)"

definition delete_row :: "string \<Rightarrow> outbox_row list \<Rightarrow> outbox_row list" where
  "delete_row i rows = filter (\<lambda>r. r_id r \<noteq> i) rows"

text \<open>A duplicate primary key makes the insertion fail.\<close>

definition insert_row :: "outbox_row \<Rightarrow> outbox_row list \<Rightarrow> outbox_row list" where
  "insert_row r rows = (if r_id r \<in> set (map r_id rows) then rows else rows @ [r])"

definition update_row :: "outbox_item \<Rightarrow> outbox_row list \<Rightarrow> outbox_row list" where
  "update_row it rows =
     map (\<lambda>r. if r_id r = oid it then r\<lparr>r_attempts := attempts it, r_next := nextRetryAt it, r_error := lastError it\<rparr> else r) rows"

section \<open>Payloads at rest\<close>

text \<open>\<open>seal\<close> is \<^verbatim>\<open>encryptAead\<close> with the base64 of its result, \<open>None\<close> when it throws; then the payload is
  stored in the clear.\<close>

definition encryptOutboxPayload :: "(jsval \<Rightarrow> string) \<Rightarrow> (string \<Rightarrow> string option) \<Rightarrow> jsval \<Rightarrow> string" where
  "encryptOutboxPayload stringify seal payload =
     (case seal (stringify payload) of Some c \<Rightarrow> ''enc:v1:'' @ c | None \<Rightarrow> stringify payload)"

definition decryptOutboxPayload :: "(string \<Rightarrow> jsval option) \<Rightarrow> (string \<Rightarrow> string option) \<Rightarrow> string \<Rightarrow> jsval option" where
  "decryptOutboxPayload parse unseal raw =
     (if take 7 raw = ''enc:v1:'' then Option.bind (unseal (drop 7 raw)) parse else parse raw)"

definition row_of :: "(jsval \<Rightarrow> string) \<Rightarrow> outbox_item \<Rightarrow> outbox_row" where
  "row_of enc it = \<lparr>r_id = oid it, r_type = mutationType it, payload_json = enc (o_payload it), r_attempts = attempts it,
     r_status = o_status it, r_error = lastError it, r_created = createdAt it, r_next = nextRetryAt it\<rparr>"

definition item_of :: "(string \<Rightarrow> jsval option) \<Rightarrow> outbox_row \<Rightarrow> outbox_item option" where
  "item_of dec r =
     map_option (\<lambda>p. \<lparr>oid = r_id r, mutationType = r_type r, o_payload = p, attempts = r_attempts r, o_status = r_status r,
        createdAt = r_created r, nextRetryAt = r_next r, lastError = r_error r\<rparr>) (dec (payload_json r))"

fun hydrate_rows :: "(string \<Rightarrow> jsval option) \<Rightarrow> outbox_row list \<Rightarrow> outbox_item list \<Rightarrow> outbox_item list" where
  "hydrate_rows dec [] items = items"
| "hydrate_rows dec (r # rows) items =
     (if r_id r \<in> set (map oid items) then hydrate_rows dec rows items
      else case item_of dec r of
             None \<Rightarrow> hydrate_rows dec rows items
           | Some it \<Rightarrow> hydrate_rows dec rows (items @ [it]))"

definition hydrateOutboxFromPersistence :: "(string \<Rightarrow> jsval option) \<Rightarrow> outbox_state \<Rightarrow> outbox_state" where
  "hydrateOutboxFromPersistence dec s =
     (case sync_outbox s of
        None \<Rightarrow> s
      | Some rows \<Rightarrow>
          if engine_ok s
          then s\<lparr>outbox := hydrate_rows dec (sort_key r_created (filter (\<lambda>r. r_status r = ''PENDING'') rows)) (outbox s)\<rparr>
          else s)"

section \<open>Queueing\<close>

definition MAX_OUTBOX_CAPACITY :: nat where
  "MAX_OUTBOX_CAPACITY = 5000"

definition telemetry :: "outbox_item \<Rightarrow> bool" where
  "telemetry it \<longleftrightarrow> o_status it \<noteq> ''IN_FLIGHT'' \<and>
     mutationType it \<in> {''TELEMETRY'', ''TELEMETRY_LOG'', ''METRIC_EVENT'', ''PING''}"

definition js_splice :: "nat \<Rightarrow> 'a list \<Rightarrow> 'a list" where
  "js_splice i xs = take i xs @ drop (Suc i) xs"

text \<open>The oldest telemetry item, else the oldest item.\<close>

definition evict_index :: "outbox_item list \<Rightarrow> nat" where
  "evict_index items =
     (if list_ex telemetry items then length (takeWhile (\<lambda>it. \<not> telemetry it) items) else 0)"

definition make_room :: "outbox_state \<Rightarrow> outbox_state" where
  "make_room s =
     (if length (outbox s) \<ge> MAX_OUTBOX_CAPACITY
      then let k = evict_index (outbox s)
           in run_sql (delete_row (oid (outbox s ! k))) (s\<lparr>outbox := js_splice k (outbox s)\<rparr>)
      else s)"

definition new_item :: "string \<Rightarrow> int \<Rightarrow> string \<Rightarrow> jsval \<Rightarrow> outbox_item" where
  "new_item i now ty payload = \<lparr>oid = i, mutationType = ty, o_payload = payload, attempts = 0, o_status = ''PENDING'',
     createdAt = now, nextRetryAt = now, lastError = None\<rparr>"

definition enqueueOutbox ::
  "(jsval \<Rightarrow> string) \<Rightarrow> string \<Rightarrow> int \<Rightarrow> string \<Rightarrow> jsval \<Rightarrow> outbox_state \<Rightarrow> outbox_item \<times> outbox_state" where
  "enqueueOutbox enc i now ty payload s =
     (let s1 = make_room s; it = new_item i now ty payload
      in (it, run_sql (insert_row (row_of enc it)) (s1\<lparr>outbox := outbox s1 @ [it]\<rparr>)))"

section \<open>Sending\<close>

record sync_err =
  err_code :: string
  err_message :: string
  err_status :: nat
  err_retryable :: "bool option"

datatype reply = Accepted jsval | Refused sync_err

datatype reauth_reply = AuthOk jsval | AuthFailed   \<comment> \<open>the grace token of the answer\<close>

record sync_env =
  replies :: "nat \<Rightarrow> reply"
  reauth :: "nat \<Rightarrow> reauth_reply"
  clock :: "nat \<Rightarrow> int"
  credentials :: bool    \<comment> \<open>\<^verbatim>\<open>OPERATOR_EMAIL\<close> and \<^verbatim>\<open>OPERATOR_PASSWORD\<close> are set\<close>

definition backend_mutations :: "string list" where
  "backend_mutations = [''REGISTER_ACCOUNT'', ''UPDATE_ACCOUNT_CREDENTIALS'', ''UPDATE_GLOBAL_CONFIG'', ''UPDATE_ACCOUNT_CONFIG'',
     ''TOGGLE_BET_CYCLE'', ''ACCOUNT_ACTION'', ''CANCEL_SUBSCRIPTION'', ''RESUME_SUBSCRIPTION'', ''SUBMIT_SETTINGS'']"

text \<open>A type without a case is answered with undefined and sent nowhere.\<close>

definition dispatchMutation :: "sync_env \<Rightarrow> string \<Rightarrow> jsval \<Rightarrow> outbox_state \<Rightarrow> reply \<times> outbox_state" where
  "dispatchMutation env ty payload s =
     (if ty \<in> set backend_mutations then (replies env (length (calls s)), s\<lparr>calls := calls s @ [(ty, payload)]\<rparr>)
      else (Accepted JUndef, s))"

definition substring :: "string \<Rightarrow> string \<Rightarrow> bool" where
  "substring x y = sublist x y"

definition generation_mismatch :: "sync_err \<Rightarrow> bool" where
  "generation_mismatch e \<longleftrightarrow> substring ''GENERATION_MISMATCH'' (err_message e) \<or> err_code e = ''BE_REV_GENERATION_MISMATCH''"

definition already_exists :: "sync_err \<Rightarrow> bool" where
  "already_exists e \<longleftrightarrow> err_code e = ''BE_STATE_ACCOUNT_EXISTS'' \<or> err_code e = ''ACCOUNT_EXISTS'' \<or>
     substring ''already exists'' (err_message e)"

definition keep_token :: "jsval \<Rightarrow> outbox_state \<Rightarrow> outbox_state" where
  "keep_token token s = (if truthy token then s\<lparr>lastGraceToken := token\<rparr> else s)"

definition degrade :: "string \<Rightarrow> outbox_state \<Rightarrow> outbox_state" where
  "degrade reason s = s\<lparr>degradations := degradations s @ [reason]\<rparr>"

text \<open>A second try after a new authentication; \<open>None\<close> when either fails.\<close>

definition retry_authenticated :: "sync_env \<Rightarrow> string \<Rightarrow> jsval \<Rightarrow> outbox_state \<Rightarrow> jsval option \<times> outbox_state" where
  "retry_authenticated env ty payload s =
     (case reauth env (length (calls s)) of
        AuthFailed \<Rightarrow> (None, s)
      | AuthOk token \<Rightarrow>
          (case dispatchMutation env ty payload (keep_token token s) of
             (Accepted v, s1) \<Rightarrow> (Some v, s1)
           | (Refused e, s1) \<Rightarrow> (None, s1)))"

definition retry_delay :: "nat \<Rightarrow> int" where
  "retry_delay n = min 300000 (1000 * 2 ^ n)"

definition failed_item :: "int \<Rightarrow> sync_err \<Rightarrow> outbox_item \<Rightarrow> outbox_item" where
  "failed_item now e it =
     it\<lparr>attempts := attempts it + 1, nextRetryAt := now + retry_delay (attempts it + 1), lastError := Some (err_message e)\<rparr>"

datatype verdict = Delivered | Fulfilled | Dropped | Retry outbox_item | Halt

definition after_error :: "sync_env \<Rightarrow> sync_err \<Rightarrow> outbox_item \<Rightarrow> outbox_state \<Rightarrow> verdict" where
  "after_error env e it s =
     (if already_exists e then Fulfilled
      else if err_retryable e = Some False \<and> attempts it \<ge> 3 then Dropped
      else Retry (failed_item (clock env (length (calls s))) e it))"

definition attempt :: "sync_env \<Rightarrow> outbox_item \<Rightarrow> outbox_state \<Rightarrow> verdict \<times> outbox_state" where
  "attempt env it s =
     (case dispatchMutation env (mutationType it) (o_payload it) s of
        (Accepted v, s1) \<Rightarrow> (Delivered, s1)
      | (Refused e, s1) \<Rightarrow>
          if generation_mismatch e
          then (if credentials env
                then (case retry_authenticated env (mutationType it) (o_payload it) s1 of
                        (Some v, s2) \<Rightarrow> (Delivered, s2)
                      | (None, s2) \<Rightarrow> (after_error env e it s2, s2))
                else (Halt, degrade ''GENERATION_MISMATCH_REAUTH_REQUIRED'' s1))
          else (after_error env e it s1, s1))"

definition remove_at :: "nat \<Rightarrow> outbox_item \<Rightarrow> outbox_state \<Rightarrow> outbox_state" where
  "remove_at i it s = (let s1 = run_sql (delete_row (oid it)) s in s1\<lparr>outbox := js_splice i (outbox s1)\<rparr>)"

definition reschedule_at :: "nat \<Rightarrow> outbox_item \<Rightarrow> outbox_state \<Rightarrow> outbox_state" where
  "reschedule_at i it s = run_sql (update_row it) (s\<lparr>outbox := (outbox s)[i := it]\<rparr>)"

definition due :: "int \<Rightarrow> outbox_item \<Rightarrow> bool" where
  "due now it \<longleftrightarrow> o_status it = ''PENDING'' \<and> nextRetryAt it \<le> now"

lemma run_sql_outbox [simp]:
  "outbox (run_sql f s) = outbox s" "calls (run_sql f s) = calls s" "degradations (run_sql f s) = degradations s"
  "isConnected (run_sql f s) = isConnected s" "engine_ok (run_sql f s) = engine_ok s" "lastGraceToken (run_sql f s) = lastGraceToken s"
  by (simp_all add: run_sql_def split: option.splits)

text \<open>An attempt leaves queue and table alone, which is what the loop below terminates by.\<close>

lemma dispatch_queue [simp]:
  "outbox (snd (dispatchMutation env ty p s)) = outbox s" "sync_outbox (snd (dispatchMutation env ty p s)) = sync_outbox s"
  "engine_ok (snd (dispatchMutation env ty p s)) = engine_ok s" "isConnected (snd (dispatchMutation env ty p s)) = isConnected s"
  by (simp_all add: dispatchMutation_def)

lemma keep_token_queue [simp]:
  "outbox (keep_token t s) = outbox s" "sync_outbox (keep_token t s) = sync_outbox s" "engine_ok (keep_token t s) = engine_ok s"
  "isConnected (keep_token t s) = isConnected s" "calls (keep_token t s) = calls s"
  by (simp_all add: keep_token_def)

lemma retry_queue [simp]:
  "outbox (snd (retry_authenticated env ty p s)) = outbox s" "sync_outbox (snd (retry_authenticated env ty p s)) = sync_outbox s"
  "engine_ok (snd (retry_authenticated env ty p s)) = engine_ok s" "isConnected (snd (retry_authenticated env ty p s)) = isConnected s"
  by (simp_all add: retry_authenticated_def dispatchMutation_def split: reauth_reply.splits reply.splits)

lemma attempt_queue [simp]:
  "outbox (snd (attempt env it s)) = outbox s" "sync_outbox (snd (attempt env it s)) = sync_outbox s"
  "engine_ok (snd (attempt env it s)) = engine_ok s" "isConnected (snd (attempt env it s)) = isConnected s"
proof -
  obtain r s1 where d: "dispatchMutation env (mutationType it) (o_payload it) s = (r, s1)" by fastforce
  obtain o2 s2 where t: "retry_authenticated env (mutationType it) (o_payload it) s1 = (o2, s2)" by fastforce
  have "snd (attempt env it s) \<in> {s1, s2, degrade ''GENERATION_MISMATCH_REAUTH_REQUIRED'' s1}"
    by (simp add: attempt_def d t split: reply.splits option.splits)
  moreover have "outbox s1 = outbox s" "sync_outbox s1 = sync_outbox s" "engine_ok s1 = engine_ok s" "isConnected s1 = isConnected s"
    using dispatch_queue [of env "mutationType it" "o_payload it" s] by (simp_all add: d)
  moreover have "outbox s2 = outbox s1" "sync_outbox s2 = sync_outbox s1" "engine_ok s2 = engine_ok s1" "isConnected s2 = isConnected s1"
    using retry_queue [of env "mutationType it" "o_payload it" s1] by (simp_all add: t)
  ultimately show "outbox (snd (attempt env it s)) = outbox s" "sync_outbox (snd (attempt env it s)) = sync_outbox s"
    "engine_ok (snd (attempt env it s)) = engine_ok s" "isConnected (snd (attempt env it s)) = isConnected s"
    by (auto simp: degrade_def)
qed

lemma attempted_outbox: "(v, s1) = attempt env it s \<Longrightarrow> outbox s1 = outbox s"
  using attempt_queue(1) [of env it s] by (metis snd_conv)

lemma splice_length: "i < length xs \<Longrightarrow> length (js_splice i xs) < length xs"
  by (simp add: js_splice_def)

lemma removal_shrinks:
  "(v, s1) = attempt env it s \<Longrightarrow> \<not> length (outbox s) \<le> i \<Longrightarrow> length (outbox (remove_at i it s1)) - i < length (outbox s) - i"
  using attempted_outbox [of v s1 env it s] splice_length [of i "outbox s"] by (simp add: remove_at_def Let_def)

text \<open>The loop of a flush. A removal leaves the index where it is; the last component is the number of
  items the backend has now.\<close>

function flush_from :: "sync_env \<Rightarrow> int \<Rightarrow> nat \<Rightarrow> nat \<Rightarrow> outbox_state \<Rightarrow> nat \<times> outbox_state" where
  "flush_from env now i flushed s =
     (if length (outbox s) \<le> i then (flushed, s)
      else let it = outbox s ! i in
           if \<not> due now it then flush_from env now (i + 1) flushed s
           else case attempt env it s of
                  (Delivered, s1) \<Rightarrow> flush_from env now i (flushed + 1) (remove_at i it s1)
                | (Fulfilled, s1) \<Rightarrow> flush_from env now i (flushed + 1) (remove_at i it s1)
                | (Dropped, s1) \<Rightarrow> flush_from env now i flushed (remove_at i it s1)
                | (Retry it', s1) \<Rightarrow> flush_from env now (i + 1) flushed (reschedule_at i it' s1)
                | (Halt, s1) \<Rightarrow> (flushed, s1))"
  by pat_completeness auto

termination
proof (relation "measure (\<lambda>(env, now, i, flushed, s). length (outbox s) - i)", goal_cases)
  case (6 env now i flushed s it v s1)
  from 6(4) have "outbox s1 = outbox s" by (rule attempted_outbox)
  with 6(1) show ?case by (simp add: reschedule_at_def)
qed (use removal_shrinks in fastforce)+

declare flush_from.simps [simp del]

definition flushOutbox :: "sync_env \<Rightarrow> outbox_state \<Rightarrow> (nat \<times> nat) \<times> outbox_state" where
  "flushOutbox env s =
     (if \<not> isConnected s then ((0, length (outbox s)), s)
      else case flush_from env (clock env (length (calls s))) 0 0 s of
             (flushed, s1) \<Rightarrow> ((flushed, length (outbox s1)), s1))"

section \<open>Mutations\<close>

definition policyRejectCodes :: "string list" where
  "policyRejectCodes = [''ENTITLEMENT_LIMIT_REACHED'', ''BE_PERM_ENTITLEMENT_EXCEEDED'', ''BE_PERM_LICENSE_EXPIRED'',
     ''BE_PERM_FORBIDDEN'', ''BE_VAL_SCHEMA_VIOLATION'', ''BE_VAL_INVALID_UUID'', ''HTTP_403'', ''HTTP_400'']"

definition policy_rejection :: "sync_err \<Rightarrow> bool" where
  "policy_rejection e \<longleftrightarrow> err_code e \<in> set policyRejectCodes \<or> err_status e = 403 \<or> err_status e = 400"

datatype sync_result = Synced jsval | Duplicated | Queued string

definition queue_mutation ::
  "(jsval \<Rightarrow> string) \<Rightarrow> string \<Rightarrow> int \<Rightarrow> string \<Rightarrow> jsval \<Rightarrow> outbox_state \<Rightarrow> (sync_err + sync_result) \<times> outbox_state" where
  "queue_mutation enc i now ty payload s =
     (case enqueueOutbox enc i now ty payload s of (it, s1) \<Rightarrow> (Inr (Queued (oid it)), s1))"

definition mutation_failed ::
  "(jsval \<Rightarrow> string) \<Rightarrow> sync_env \<Rightarrow> string \<Rightarrow> sync_err \<Rightarrow> string \<Rightarrow> jsval \<Rightarrow> outbox_state \<Rightarrow> (sync_err + sync_result) \<times> outbox_state" where
  "mutation_failed enc env i e ty payload s =
     (if already_exists e then (Inr Duplicated, s)
      else if policy_rejection e then (Inl e, s)
      else queue_mutation enc i (clock env (length (calls s))) ty payload s)"

definition syncMutation ::
  "(jsval \<Rightarrow> string) \<Rightarrow> sync_env \<Rightarrow> string \<Rightarrow> string \<Rightarrow> jsval \<Rightarrow> outbox_state \<Rightarrow> (sync_err + sync_result) \<times> outbox_state" where
  "syncMutation enc env i ty payload s =
     (if \<not> isConnected s then queue_mutation enc i (clock env (length (calls s))) ty payload s
      else case dispatchMutation env ty payload s of
             (Accepted v, s1) \<Rightarrow> (Inr (Synced v), s1)
           | (Refused e, s1) \<Rightarrow>
               if generation_mismatch e
               then (if credentials env
                     then (case retry_authenticated env ty payload s1 of
                             (Some v, s2) \<Rightarrow> (Inr (Synced v), s2)
                           | (None, s2) \<Rightarrow> mutation_failed enc env i e ty payload s2)
                     else mutation_failed enc env i e ty payload (degrade ''GENERATION_MISMATCH_REAUTH_REQUIRED'' s1))
               else mutation_failed enc env i e ty payload s1)"

text \<open>The part of a logout that concerns the outbox.\<close>

definition clear_outbox :: "outbox_state \<Rightarrow> outbox_state" where
  "clear_outbox s = run_sql (\<lambda>rows. []) (s\<lparr>outbox := [], lastGraceToken := JNull\<rparr>)"

section \<open>The loop as one pass\<close>

text \<open>What the loop computes: one pass over the queue that keeps, reschedules or removes each item.\<close>

fun flush_pass :: "sync_env \<Rightarrow> int \<Rightarrow> outbox_item list \<Rightarrow> outbox_state \<Rightarrow> outbox_item list \<times> nat \<times> outbox_state" where
  "flush_pass env now [] s = ([], 0, s)"
| "flush_pass env now (it # its) s =
     (if \<not> due now it then (case flush_pass env now its s of (kept, n, s1) \<Rightarrow> (it # kept, n, s1))
      else case attempt env it s of
             (Retry it', s1) \<Rightarrow>
               (case flush_pass env now its (run_sql (update_row it') s1) of (kept, n, s2) \<Rightarrow> (it' # kept, n, s2))
           | (Halt, s1) \<Rightarrow> (it # its, 0, s1)
           | (v, s1) \<Rightarrow>
               (case flush_pass env now its (run_sql (delete_row (oid it)) s1) of
                  (kept, n, s2) \<Rightarrow> (kept, if v = Dropped then n else n + 1, s2)))"

lemma attempt_other_queue:
  "attempt env it (s\<lparr>outbox := q\<rparr>) = (fst (attempt env it s), (snd (attempt env it s))\<lparr>outbox := q\<rparr>)"
  by (simp add: attempt_def dispatchMutation_def retry_authenticated_def keep_token_def degrade_def after_error_def
      split: reply.splits reauth_reply.splits)

lemma run_sql_queue: "run_sql f (s\<lparr>outbox := q\<rparr>) = (run_sql f s)\<lparr>outbox := q\<rparr>"
  by (simp add: run_sql_def split: option.splits)

lemma splice_append [simp]: "js_splice (length pre) (pre @ x # xs) = pre @ xs"
  by (simp add: js_splice_def)

lemma remove_at_append: "remove_at (length pre) it (s\<lparr>outbox := pre @ x # xs\<rparr>) = (run_sql (delete_row (oid it)) s)\<lparr>outbox := pre @ xs\<rparr>"
  by (simp add: remove_at_def run_sql_queue Let_def)

lemma reschedule_at_append:
  "reschedule_at (length pre) it (s\<lparr>outbox := pre @ x # xs\<rparr>) = (run_sql (update_row it) s)\<lparr>outbox := (pre @ [it]) @ xs\<rparr>"
  by (simp add: reschedule_at_def run_sql_queue)

lemma flush_from_pass:
  "flush_from env now (length pre) m (s\<lparr>outbox := pre @ its\<rparr>) =
     (case flush_pass env now its s of (kept, n, s1) \<Rightarrow> (m + n, s1\<lparr>outbox := pre @ kept\<rparr>))"
proof (induction its arbitrary: pre m s)
  case Nil
  then show ?case by (simp add: flush_from.simps)
next
  case (Cons it its)
  show ?case
  proof (cases "due now it")
    case False
    have "flush_from env now (length (pre @ [it])) m (s\<lparr>outbox := (pre @ [it]) @ its\<rparr>) =
        (case flush_pass env now its s of (kept, n, s1) \<Rightarrow> (m + n, s1\<lparr>outbox := (pre @ [it]) @ kept\<rparr>))"
      by (rule Cons.IH)
    with False show ?thesis by (subst flush_from.simps) (simp split: prod.splits)
  next
    case True
    obtain v s1 where at: "attempt env it s = (v, s1)" by fastforce
    have at': "attempt env it (s\<lparr>outbox := pre @ it # its\<rparr>) = (v, s1\<lparr>outbox := pre @ it # its\<rparr>)"
      by (simp add: attempt_other_queue at)
    show ?thesis
    proof (cases v)
      case (Retry it')
      have "flush_from env now (length (pre @ [it'])) m ((run_sql (update_row it') s1)\<lparr>outbox := (pre @ [it']) @ its\<rparr>) =
        (case flush_pass env now its (run_sql (update_row it') s1) of (kept, n, s1) \<Rightarrow> (m + n, s1\<lparr>outbox := (pre @ [it']) @ kept\<rparr>))"
        by (rule Cons.IH)
      with True at at' Retry show ?thesis
        by (subst flush_from.simps) (simp add: reschedule_at_append del: append_assoc split: prod.splits)
    qed (use True at at' Cons.IH in \<open>subst flush_from.simps, simp add: remove_at_append split: prod.splits\<close>)+
  qed
qed

lemma attempt_calls: "length (calls (snd (attempt env it s))) \<le> length (calls s) + 2"
  by (auto simp: attempt_def dispatchMutation_def retry_authenticated_def keep_token_def degrade_def
      split: reply.splits reauth_reply.splits option.splits)

lemma sql_calls [simp]: "calls (run_sql f s) = calls s"
  by (simp add: run_sql_def split: option.splits)

lemma pass_calls: "length (calls (snd (snd (flush_pass env now its s)))) \<le> length (calls s) + 2 * length its"
proof (induction its arbitrary: s)
  case (Cons it its)
  obtain v s1 where at: "attempt env it s = (v, s1)" by fastforce
  have "length (calls s1) \<le> length (calls s) + 2" using attempt_calls [of env it s] at by simp
  moreover have "length (calls (snd (snd (flush_pass env now its (run_sql f s1))))) \<le> length (calls s1) + 2 * length its" for f
    using Cons.IH [of "run_sql f s1"] by simp
  ultimately have "length (calls (snd (snd (flush_pass env now its (run_sql f s1))))) \<le> length (calls s) + 2 + 2 * length its" for f
    by (meson add_le_mono1 order_trans)
  with Cons.IH [of s] at attempt_calls [of env it s] show ?case
    by (cases v) (auto simp: case_prod_beta intro: order_trans)
qed simp

section \<open>What an attempt settles\<close>

text \<open>An answer after which a mutation need not be sent again.\<close>

fun settles :: "outbox_item \<Rightarrow> reply \<Rightarrow> bool" where
  "settles it (Accepted v) = True"
| "settles it (Refused e) \<longleftrightarrow> already_exists e \<or> (err_retryable e = Some False \<and> 3 \<le> attempts it)"

definition sent_and_settled :: "sync_env \<Rightarrow> outbox_item \<Rightarrow> outbox_state \<Rightarrow> outbox_state \<Rightarrow> bool" where
  "sent_and_settled env it s s' \<longleftrightarrow> mutationType it \<notin> set backend_mutations \<or>
     (\<exists>n. length (calls s) \<le> n \<and> n < length (calls s') \<and> calls s' ! n = (mutationType it, o_payload it) \<and> settles it (replies env n))"

definition extends :: "outbox_state \<Rightarrow> outbox_state \<Rightarrow> bool" where
  "extends s s' \<longleftrightarrow> prefix (calls s) (calls s')"

lemma extends_refl [simp]: "extends s s" by (simp add: extends_def)

lemma extends_trans: "extends s s' \<Longrightarrow> extends s' s'' \<Longrightarrow> extends s s''"
  unfolding extends_def by (rule prefix_order.trans)

lemma extends_sql [simp]: "extends (run_sql f s) s' \<longleftrightarrow> extends s s'" "extends s (run_sql f s') \<longleftrightarrow> extends s s'"
  by (simp_all add: extends_def)

lemma settled_sql [simp]: "sent_and_settled env it (run_sql f s) s' = sent_and_settled env it s s'"
  "sent_and_settled env it s (run_sql f s') = sent_and_settled env it s s'"
  by (simp_all add: sent_and_settled_def)

lemma settled_later: "sent_and_settled env it s s' \<Longrightarrow> extends s' s'' \<Longrightarrow> sent_and_settled env it s s''"
  unfolding sent_and_settled_def extends_def prefix_def by (auto simp: nth_append)

lemma settled_earlier: "extends s s' \<Longrightarrow> sent_and_settled env it s' s'' \<Longrightarrow> sent_and_settled env it s s''"
  unfolding sent_and_settled_def extends_def by (meson order_trans prefix_length_le)

lemma dispatch_sends:
  assumes "dispatchMutation env (mutationType it) (o_payload it) s = (r, s1)"
  shows "extends s s1" and "settles it r \<Longrightarrow> sent_and_settled env it s s1"
  using assms by (auto simp: dispatchMutation_def extends_def sent_and_settled_def split: if_splits)

lemma retry_sends:
  assumes "retry_authenticated env (mutationType it) (o_payload it) s = (r, s1)"
  shows "extends s s1" and "r = Some v \<Longrightarrow> sent_and_settled env it s s1"
proof -
  have "extends s s1 \<and> (r = Some v \<longrightarrow> sent_and_settled env it s s1)"
    using assms dispatch_sends [of env it "keep_token t s" for t]
    by (auto simp: retry_authenticated_def extends_def sent_and_settled_def split: reauth_reply.splits prod.splits reply.splits)
  then show "extends s s1" "r = Some v \<Longrightarrow> sent_and_settled env it s s1" by blast+
qed

lemma after_error_settles: "after_error env e it s \<in> {Fulfilled, Dropped} \<Longrightarrow> settles it (Refused e)"
  by (auto simp: after_error_def split: if_splits)

lemma after_error_cases: "after_error env e it s \<noteq> Delivered" "after_error env e it s \<noteq> Halt"
  "after_error env e it s = Retry it' \<Longrightarrow> it' = failed_item (clock env (length (calls s))) e it"
  by (auto simp: after_error_def split: if_splits)

lemma attempt_sends:
  assumes "attempt env it s = (v, s1)"
  shows "extends s s1" and "v \<in> {Delivered, Fulfilled, Dropped} \<Longrightarrow> sent_and_settled env it s s1"
    and "v = Retry it' \<Longrightarrow> \<exists>now e. it' = failed_item now e it"
proof -
  obtain r t where d: "dispatchMutation env (mutationType it) (o_payload it) s = (r, t)" by fastforce
  obtain r2 t2 where a: "retry_authenticated env (mutationType it) (o_payload it) t = (r2, t2)" by fastforce
  note d1 = dispatch_sends(1) [OF d] and a1 = retry_sends(1) [OF a]
  have t2: "extends s t2" using d1 a1 by (rule extends_trans)
  have deg: "extends s (degrade reason t)" for reason using d1 by (simp add: extends_def degrade_def)
  show "extends s s1"
    using assms d1 t2 deg by (auto simp: attempt_def d a split: reply.splits if_splits option.splits)
  show "\<exists>now e. it' = failed_item now e it" if "v = Retry it'"
    using assms that after_error_cases(3) by (fastforce simp: attempt_def d a split: reply.splits if_splits option.splits)
  assume v: "v \<in> {Delivered, Fulfilled, Dropped}"
  show "sent_and_settled env it s s1"
  proof (cases r)
    case (Accepted x)
    with assms d dispatch_sends(2) [OF d] show ?thesis by (simp add: attempt_def)
  next
    case (Refused e)
    have by_error: "after_error env e it u \<in> {Delivered, Fulfilled, Dropped} \<Longrightarrow> sent_and_settled env it s t" for u
      using after_error_settles [of env e it u] after_error_cases(1) dispatch_sends(2) [OF d] Refused by auto
    show ?thesis
    proof (cases "r2 = None \<or> \<not> generation_mismatch e \<or> \<not> credentials env")
      case True
      with assms d a Refused v have "(s1 = t \<or> s1 = t2) \<and> (\<exists>u. v = after_error env e it u)"
        by (auto simp: attempt_def split: if_splits)
      then obtain u where u: "v = after_error env e it u" "s1 = t \<or> s1 = t2" by blast
      with by_error [of u] v have "sent_and_settled env it s t" by simp
      with settled_later [OF this a1] u(2) show ?thesis by blast
    next
      case False
      then obtain x where x: "r2 = Some x" by auto
      with False assms d a Refused have "s1 = t2" by (simp add: attempt_def)
      with settled_earlier [OF d1 retry_sends(2) [OF a x]] show ?thesis by simp
    qed
  qed
qed

section \<open>Every item is accounted for\<close>

lemma subseq_set: "subseq xs ys \<Longrightarrow> set xs \<subseteq> set ys"
  by (induction rule: list_emb.induct) auto

lemma subseq_distinct: "subseq xs ys \<Longrightarrow> distinct ys \<Longrightarrow> distinct xs"
  by (induction rule: list_emb.induct) (auto dest: subseq_set)

lemma subseq_sorted: "subseq xs ys \<Longrightarrow> sorted ys \<Longrightarrow> sorted xs"
  by (induction rule: list_emb.induct) (auto dest: subseq_set)

definition same_mutation :: "outbox_item \<Rightarrow> outbox_item \<Rightarrow> bool" where
  "same_mutation it it' \<longleftrightarrow> oid it' = oid it \<and> mutationType it' = mutationType it \<and> o_payload it' = o_payload it \<and>
     createdAt it' = createdAt it \<and> o_status it' = o_status it \<and> attempts it \<le> attempts it'"

lemma same_refl [simp]: "same_mutation it it" by (simp add: same_mutation_def)

lemma same_failed [simp]: "same_mutation it (failed_item now e it)"
  by (simp add: same_mutation_def failed_item_def)

text \<open>What never changes of an item.\<close>

definition core :: "outbox_item \<Rightarrow> string \<times> int \<times> string \<times> jsval \<times> string" where
  "core it = (oid it, createdAt it, o_status it, o_payload it, mutationType it)"

lemma core_failed [simp]: "core (failed_item now e it) = core it"
  by (simp add: core_def failed_item_def)

lemma pass_accounts:
  "flush_pass env now its s = (kept, n, s') \<Longrightarrow>
     extends s s' \<and> subseq (map core kept) (map core its) \<and>
     (\<forall>it\<in>set its. (\<exists>it'\<in>set kept. same_mutation it it') \<or> sent_and_settled env it s s')"
proof (induction its arbitrary: s kept n s')
  case Nil
  then show ?case by simp
next
  case (Cons it its)
  show ?case
  proof (cases "due now it")
    case False
    with Cons show ?thesis by (fastforce split: prod.splits)
  next
    case True
    obtain v s1 where at: "attempt env it s = (v, s1)" by fastforce
    note sends = attempt_sends [OF at]
    let ?g = "case v of Retry it' \<Rightarrow> update_row it' | _ \<Rightarrow> delete_row (oid it)"
    obtain k m s2 where rest: "flush_pass env now its (run_sql ?g s1) = (k, m, s2)" by (metis prod_cases3)
    from Cons.IH [OF rest] have ih: "extends s1 s2" "subseq (map core k) (map core its)"
      "\<forall>x\<in>set its. (\<exists>x'\<in>set k. same_mutation x x') \<or> sent_and_settled env x s1 s2" by simp_all
    have e2: "extends s s2" using sends(1) ih(1) by (rule extends_trans)
    have later: "\<forall>x\<in>set its. (\<exists>x'\<in>set k. same_mutation x x') \<or> sent_and_settled env x s s2"
      using ih(3) settled_earlier [OF sends(1)] by blast
    show ?thesis
    proof (cases v)
      case (Retry it')
      with Cons.prems True at rest have "kept = it' # k" "s' = s2" by simp_all
      moreover obtain t e where "it' = failed_item t e it" using sends(3) [OF Retry] by blast
      ultimately show ?thesis using e2 ih(2) later same_failed [of it t e] by auto
    next
      case Halt
      with Cons.prems True at have "kept = it # its" "s' = s1" by simp_all
      with sends(1) show ?thesis using same_refl by fastforce
    qed (use Cons.prems True at rest e2 ih(2) later settled_later [OF sends(2) ih(1)] in auto)
  qed
qed

section \<open>Queue and table\<close>

text \<open>What keeps memory and table in step: the table holds the queue row by row.\<close>

definition mirrored :: "(jsval \<Rightarrow> string) \<Rightarrow> (string \<Rightarrow> jsval option) \<Rightarrow> outbox_state \<Rightarrow> bool" where
  "mirrored enc dec s \<longleftrightarrow> engine_ok s \<and> sync_outbox s = Some (map (row_of enc) (outbox s)) \<and>
     distinct (map oid (outbox s)) \<and> sorted (map createdAt (outbox s)) \<and> length (outbox s) \<le> MAX_OUTBOX_CAPACITY \<and>
     (\<forall>it\<in>set (outbox s). o_status it = ''PENDING'' \<and> dec (enc (o_payload it)) = Some (o_payload it))"

text \<open>An identifier is fresh and the clock does not run behind the queue.\<close>

definition admissible :: "(jsval \<Rightarrow> string) \<Rightarrow> (string \<Rightarrow> jsval option) \<Rightarrow> string \<Rightarrow> int \<Rightarrow> jsval \<Rightarrow> outbox_state \<Rightarrow> bool" where
  "admissible enc dec i now payload s \<longleftrightarrow> i \<notin> set (map oid (outbox s)) \<and> (\<forall>it\<in>set (outbox s). createdAt it \<le> now) \<and>
     dec (enc payload) = Some payload"

inductive outbox_step :: "(jsval \<Rightarrow> string) \<Rightarrow> (string \<Rightarrow> jsval option) \<Rightarrow> outbox_state \<Rightarrow> outbox_state \<Rightarrow> bool"
  for enc :: "jsval \<Rightarrow> string" and dec :: "string \<Rightarrow> jsval option" where
  mutated: "(\<forall>n. admissible enc dec i (clock env n) payload s) \<Longrightarrow>
    outbox_step enc dec s (snd (syncMutation enc env i ty payload s))"
| flushed: "outbox_step enc dec s (snd (flushOutbox env s))"
| connection: "outbox_step enc dec s (s\<lparr>isConnected := up\<rparr>)"
| logged_out: "outbox_step enc dec s (clear_outbox s)"
| restarted: "outbox_step enc dec s (hydrateOutboxFromPersistence dec (new_outbox (sync_outbox s)))"

definition outbox_start :: "outbox_state \<Rightarrow> bool" where
  "outbox_start s \<longleftrightarrow> s = new_outbox (Some [])"

lemma row_of_simps [simp]: "r_id (row_of enc it) = oid it" "r_created (row_of enc it) = createdAt it" "r_status (row_of enc it) = o_status it"
  by (simp_all add: row_of_def)

lemma item_row: "dec (enc (o_payload it)) = Some (o_payload it) \<Longrightarrow> item_of dec (row_of enc it) = Some it"
  by (simp add: item_of_def row_of_def)

lemma hydrate_rows_all:
  "\<forall>it\<in>set its. dec (enc (o_payload it)) = Some (o_payload it) \<Longrightarrow> distinct (map oid (items @ its)) \<Longrightarrow>
   hydrate_rows dec (map (row_of enc) its) items = items @ its"
  by (induction its arbitrary: items) (auto simp: item_row)

lemma restart_mirrored:
  assumes "mirrored enc dec s"
  shows "outbox (hydrateOutboxFromPersistence dec (new_outbox (sync_outbox s))) = outbox s"
proof -
  have "sort_key r_created (filter (\<lambda>r. r_status r = ''PENDING'') (map (row_of enc) (outbox s))) = map (row_of enc) (outbox s)"
    using assms by (subst filter_True) (auto simp: mirrored_def comp_def intro!: sort_key_id_if_sorted)
  with assms show ?thesis
    by (simp add: hydrateOutboxFromPersistence_def new_outbox_def mirrored_def hydrate_rows_all)
qed

lemma subseq_core:
  assumes "subseq (map core kept) (map core its)"
  shows "subseq (map oid kept) (map oid its)" "subseq (map createdAt kept) (map createdAt its)" "length kept \<le> length its"
    "it \<in> set kept \<Longrightarrow> \<exists>it'\<in>set its. core it = core it'"
proof -
  show "subseq (map oid kept) (map oid its)" using subseq_map [OF assms, of fst] by (simp add: core_def comp_def)
  show "subseq (map createdAt kept) (map createdAt its)"
    using subseq_map [OF assms, of "\<lambda>x. fst (snd x)"] by (simp add: core_def comp_def)
  show "length kept \<le> length its" using list_emb_length [OF assms] by simp
  show "\<exists>it'\<in>set its. core it = core it'" if "it \<in> set kept" using subseq_set [OF assms] that by auto
qed

lemma delete_other: "i \<notin> set (map oid its) \<Longrightarrow> delete_row i (map (row_of enc) its) = map (row_of enc) its"
  by (auto simp: delete_row_def intro!: filter_True)

lemma delete_mirror:
  "distinct (map oid (pre @ it # its)) \<Longrightarrow> delete_row (oid it) (map (row_of enc) (pre @ it # its)) = map (row_of enc) (pre @ its)"
  using delete_other [of "oid it" pre enc] delete_other [of "oid it" its enc] by (simp add: delete_row_def)

lemma update_other: "oid it \<notin> set (map oid its) \<Longrightarrow> update_row it (map (row_of enc) its) = map (row_of enc) its"
  by (induction its) (auto simp: update_row_def)

lemma update_mirror:
  assumes "distinct (map oid (pre @ it # its))"
  shows "update_row (failed_item now e it) (map (row_of enc) (pre @ it # its)) = map (row_of enc) (pre @ failed_item now e it # its)"
  using assms update_other [of "failed_item now e it" pre enc] update_other [of "failed_item now e it" its enc]
  by (simp add: update_row_def failed_item_def row_of_def)

lemma pass_mirrors:
  "flush_pass env now its s = (kept, n, s') \<Longrightarrow> engine_ok s \<Longrightarrow> sync_outbox s = Some (map (row_of enc) (pre @ its)) \<Longrightarrow>
   distinct (map oid (pre @ its)) \<Longrightarrow> engine_ok s' \<and> sync_outbox s' = Some (map (row_of enc) (pre @ kept))"
proof (induction its arbitrary: s kept n s' pre)
  case Nil
  then show ?case by simp
next
  case (Cons it its)
  show ?case
  proof (cases "due now it")
    case False
    with Cons.prems Cons.IH [of s _ n s' "pre @ [it]"] show ?thesis by (fastforce split: prod.splits)
  next
    case True
    obtain v s1 where at: "attempt env it s = (v, s1)" by fastforce
    with Cons.prems attempt_queue(2,3) [of env it s]
    have t: "engine_ok s1" "sync_outbox s1 = Some (map (row_of enc) (pre @ it # its))" by simp_all
    have gone: "engine_ok s2 \<and> sync_outbox s2 = Some (map (row_of enc) (pre @ k))"
      if "flush_pass env now its (run_sql (delete_row (oid it)) s1) = (k, m, s2)" for k m s2
    proof (rule Cons.IH [OF that])
      show "sync_outbox (run_sql (delete_row (oid it)) s1) = Some (map (row_of enc) (pre @ its))"
        using t delete_mirror [OF Cons.prems(4), of enc] by (simp add: run_sql_def)
    qed (use t Cons.prems(4) in simp_all)
    show ?thesis
    proof (cases v)
      case (Retry it')
      then obtain t' e where it': "it' = failed_item t' e it" using attempt_sends(3) [OF at] by blast
      obtain k m s2 where rest: "flush_pass env now its (run_sql (update_row it') s1) = (k, m, s2)" by (metis prod_cases3)
      have "engine_ok s2 \<and> sync_outbox s2 = Some (map (row_of enc) ((pre @ [it']) @ k))"
      proof (rule Cons.IH [OF rest])
        show "sync_outbox (run_sql (update_row it') s1) = Some (map (row_of enc) ((pre @ [it']) @ its))"
          using t update_mirror [OF Cons.prems(4), of t' e enc] by (simp add: run_sql_def it')
        show "distinct (map oid ((pre @ [it']) @ its))" using Cons.prems(4) by (simp add: it' failed_item_def)
      qed (use t in simp)
      with Cons.prems(1) True at Retry rest show ?thesis by simp
    next
      case Halt
      with Cons.prems(1) True at t show ?thesis by simp
    qed (use Cons.prems(1) True at gone in \<open>auto split: prod.splits\<close>)
  qed
qed

lemma flush_mirrored:
  assumes "mirrored enc dec s"
  shows "mirrored enc dec (snd (flushOutbox env s))"
proof (cases "isConnected s")
  case True
  obtain kept n s1 where p: "flush_pass env (clock env (length (calls s))) (outbox s) s = (kept, n, s1)" by (metis prod_cases3)
  have fl: "snd (flushOutbox env s) = s1\<lparr>outbox := kept\<rparr>"
    using flush_from_pass [where env = env and now = "clock env (length (calls s))" and pre = "[]" and m = 0 and s = s and its = "outbox s"]
      p True
    by (simp add: flushOutbox_def)
  from assms have "engine_ok s1 \<and> sync_outbox s1 = Some (map (row_of enc) ([] @ kept))"
    by (intro pass_mirrors [OF p]) (simp_all add: mirrored_def)
  moreover note sub = subseq_core [OF conjunct1 [OF conjunct2 [OF pass_accounts [OF p]]]]
  have "distinct (map oid kept)" using subseq_distinct [OF sub(1)] assms by (simp add: mirrored_def)
  moreover have "sorted (map createdAt kept)" using subseq_sorted [OF sub(2)] assms by (simp add: mirrored_def)
  moreover have "\<forall>it\<in>set kept. o_status it = ''PENDING'' \<and> dec (enc (o_payload it)) = Some (o_payload it)"
    using sub(4) assms by (fastforce simp: mirrored_def core_def)
  ultimately show ?thesis using sub(3) assms by (simp add: fl mirrored_def)
qed (simp add: flushOutbox_def assms)

lemma evict_index_less: "items \<noteq> [] \<Longrightarrow> evict_index items < length items"
proof -
  assume ne: "items \<noteq> []"
  have "length (takeWhile P xs) < length xs" if "list_ex (\<lambda>x. \<not> P x) xs" for P and xs :: "outbox_item list"
    using that by (induction xs) auto
  from this [of "\<lambda>it. \<not> telemetry it" items] ne show ?thesis by (auto simp: evict_index_def)
qed

lemma make_room_mirrored:
  assumes "mirrored enc dec s"
  shows "mirrored enc dec (make_room s)" "length (outbox (make_room s)) < MAX_OUTBOX_CAPACITY"
    "set (outbox (make_room s)) \<subseteq> set (outbox s)"
proof -
  have "mirrored enc dec (make_room s) \<and> length (outbox (make_room s)) < MAX_OUTBOX_CAPACITY \<and>
    set (outbox (make_room s)) \<subseteq> set (outbox s)"
  proof (cases "length (outbox s) \<ge> MAX_OUTBOX_CAPACITY")
    case True
    let ?k = "evict_index (outbox s)"
    have "outbox s \<noteq> []" using True by (auto simp: MAX_OUTBOX_CAPACITY_def)
    then have k: "?k < length (outbox s)" by (rule evict_index_less)
    define pre post where "pre = take ?k (outbox s)" and "post = drop (Suc ?k) (outbox s)"
    have q: "outbox s = pre @ outbox s ! ?k # post" and len: "length pre = ?k"
      using k by (simp_all add: pre_def post_def id_take_nth_drop)
    have mr: "make_room s = run_sql (delete_row (oid (outbox s ! ?k))) (s\<lparr>outbox := pre @ post\<rparr>)"
      using True by (simp add: make_room_def Let_def js_splice_def pre_def post_def)
    have parts: "distinct (map oid (pre @ outbox s ! ?k # post))" "sorted (map createdAt (pre @ outbox s ! ?k # post))"
      "sync_outbox s = Some (map (row_of enc) (pre @ outbox s ! ?k # post))"
      using assms q by (simp_all add: mirrored_def)
    have "sync_outbox (make_room s) = Some (map (row_of enc) (pre @ post))"
      using assms parts(3) delete_mirror [OF parts(1), of enc] by (simp add: mr run_sql_def mirrored_def)
    moreover have "length (pre @ post) < length (outbox s)" "set (pre @ post) \<subseteq> set (outbox s)"
      using arg_cong [OF q, of length] arg_cong [OF q, of set] by auto
    moreover have "distinct (map oid (pre @ post))" "sorted (map createdAt (pre @ post))"
      using parts(1,2) by (auto simp: sorted_append)
    ultimately show ?thesis using assms by (auto simp: mirrored_def mr)
  next
    case False
    with assms show ?thesis by (simp add: make_room_def)
  qed
  then show "mirrored enc dec (make_room s)" "length (outbox (make_room s)) < MAX_OUTBOX_CAPACITY"
    "set (outbox (make_room s)) \<subseteq> set (outbox s)" by blast+
qed

lemma enqueue_mirrored:
  assumes "mirrored enc dec s" and "admissible enc dec i now payload s"
  shows "mirrored enc dec (snd (enqueueOutbox enc i now ty payload s))"
proof -
  note room = make_room_mirrored [OF assms(1)]
  let ?s = "make_room s"
  have fresh: "i \<notin> set (map oid (outbox ?s))" "\<forall>it\<in>set (outbox ?s). createdAt it \<le> now"
    using assms(2) room(3) by (auto simp: admissible_def)
  then have "insert_row (row_of enc (new_item i now ty payload)) (map (row_of enc) (outbox ?s)) =
      map (row_of enc) (outbox ?s @ [new_item i now ty payload])"
    by (auto simp: insert_row_def new_item_def)
  with room(1,2) fresh assms(2) show ?thesis
    by (auto simp: mirrored_def enqueueOutbox_def Let_def run_sql_def new_item_def admissible_def sorted_append)
qed

lemma mirrored_frame:
  "mirrored enc dec s \<Longrightarrow> outbox s' = outbox s \<Longrightarrow> sync_outbox s' = sync_outbox s \<Longrightarrow> engine_ok s' = engine_ok s \<Longrightarrow> mirrored enc dec s'"
  by (simp add: mirrored_def)

lemma mutation_failed_mirrored:
  assumes "mirrored enc dec s" and "\<forall>n. admissible enc dec i (clock env n) payload s"
  shows "mirrored enc dec (snd (mutation_failed enc env i e ty payload s))"
  using assms enqueue_mirrored [OF assms(1), of i "clock env (length (calls s))" payload ty]
  by (simp add: mutation_failed_def queue_mutation_def case_prod_beta)

lemma sync_mirrored:
  assumes "mirrored enc dec s" and "\<forall>n. admissible enc dec i (clock env n) payload s"
  shows "mirrored enc dec (snd (syncMutation enc env i ty payload s))"
proof -
  have still: "mirrored enc dec t \<and> (\<forall>n. admissible enc dec i (clock env n) payload t)"
    if "outbox t = outbox s" "sync_outbox t = sync_outbox s" "engine_ok t = engine_ok s" for t
    using assms mirrored_frame [OF assms(1) that] that(1) by (simp add: admissible_def)
  obtain r t where d: "dispatchMutation env ty payload s = (r, t)" by fastforce
  obtain r2 t2 where a: "retry_authenticated env ty payload t = (r2, t2)" by fastforce
  have t: "outbox t = outbox s" "sync_outbox t = sync_outbox s" "engine_ok t = engine_ok s"
    using dispatch_queue [of env ty payload s] d by simp_all
  have t2: "outbox t2 = outbox s" "sync_outbox t2 = sync_outbox s" "engine_ok t2 = engine_ok s"
    using retry_queue [of env ty payload t] a t by simp_all
  have g: "outbox (degrade x t) = outbox s" "sync_outbox (degrade x t) = sync_outbox s" "engine_ok (degrade x t) = engine_ok s" for x
    using t by (simp_all add: degrade_def)
  have failed: "mirrored enc dec (snd (mutation_failed enc env i e ty payload u))"
    if "outbox u = outbox s" "sync_outbox u = sync_outbox s" "engine_ok u = engine_ok s" for u e
    using mutation_failed_mirrored still [OF that] by blast
  show ?thesis
  proof (cases "isConnected s")
    case False
    with assms enqueue_mirrored [OF assms(1), of i "clock env (length (calls s))" payload ty] show ?thesis
      by (simp add: syncMutation_def queue_mutation_def case_prod_beta)
  next
    case True
    with failed [OF t] failed [OF t2] failed [OF g] still [OF t] still [OF t2] show ?thesis
      by (simp add: syncMutation_def d a split: reply.splits option.splits)
  qed
qed

interpretation outbox_run: machine_invariant outbox_start "outbox_step enc dec" "mirrored enc dec"
proof
  show "mirrored enc dec s" if "outbox_start s" for s
    using that by (simp add: outbox_start_def new_outbox_def mirrored_def)
  show "mirrored enc dec t" if "outbox_step enc dec s t" "mirrored enc dec s" for s t
    using that
  proof (cases rule: outbox_step.cases)
    case (mutated i env payload ty)
    with that(2) sync_mirrored show ?thesis by blast
  next
    case (flushed env)
    with that(2) flush_mirrored show ?thesis by blast
  next
    case (connection up)
    with that(2) show ?thesis by (simp add: mirrored_def)
  next
    case logged_out
    with that(2) show ?thesis by (simp add: mirrored_def clear_outbox_def run_sql_def)
  next
    case restarted
    moreover have "engine_ok t" "sync_outbox t = sync_outbox s"
      using restarted that(2) by (simp_all add: hydrateOutboxFromPersistence_def new_outbox_def mirrored_def)
    ultimately show ?thesis using that(2) restart_mirrored [OF that(2)] by (simp add: mirrored_def)
  qed
qed

section \<open>Properties\<close>

definition lost_reply :: sync_err where
  "lost_reply = \<lparr>err_code = ''ECONNRESET'', err_message = ''socket hang up'', err_status = 0, err_retryable = None\<rparr>"

definition sample_sync_env :: "(nat \<Rightarrow> reply) \<Rightarrow> sync_env" where
  "sample_sync_env rs = \<lparr>replies = rs, reauth = (\<lambda>n. AuthFailed), clock = (\<lambda>n. 5), credentials = False\<rparr>"

definition sample_queue :: outbox_state where
  "sample_queue = (new_outbox (Some []))\<lparr>isConnected := True, outbox :=
     [new_item ''o1'' 1 ''TOGGLE_BET_CYCLE'' (JStr ''a''), new_item ''o2'' 2 ''ACCOUNT_ACTION'' (JStr ''b'')]\<rparr>"



text \<open>The flush loop, which removes from the list it walks over and moves its index by hand, is one pass over
  the queue, and it always ends.\<close>

theorem flush_is_single_pass:
  "flush_from env now 0 0 s = (case flush_pass env now (outbox s) s of (kept, n, s1) \<Rightarrow> (n, s1\<lparr>outbox := kept\<rparr>))"
  using flush_from_pass [where env = env and now = now and pre = "[]" and m = 0 and s = s and its = "outbox s"] by simp

text \<open>C22. A flush ends and is cheap: it calls the backend at most twice for every item of the queue, whatever the
  answers are, the second time after a renewed login.\<close>

theorem flush_ends:
  "length (calls (snd (flushOutbox env s))) \<le> length (calls s) + 2 * length (outbox s)"
  using flush_from_pass [where env = env and now = "clock env (length (calls s))" and pre = "[]" and m = 0 and s = s and its = "outbox s"]
    pass_calls [of env "clock env (length (calls s))" "outbox s" s]
  by (simp add: case_prod_beta flushOutbox_def)


definition queued_once :: outbox_state where
  "queued_once = snd (syncMutation (\<lambda>p. ''p'') (sample_sync_env (\<lambda>n. Accepted JNull)) ''o1'' ''ACCOUNT_ACTION'' JNull (new_outbox (Some [])))"


text \<open>No mutation is silently lost: a mutation that returns was accepted by the backend, exists there
  already, has a type that is sent nowhere, or is the last item of the queue; one that throws was
  refused by policy and leaves the queue as it was.\<close>

theorem mutation_accounted:
  assumes "syncMutation enc env i ty payload s = (r, s')"
  shows "case r of
      Inl e \<Rightarrow> policy_rejection e \<and> outbox s' = outbox s
    | Inr (Synced v) \<Rightarrow> outbox s' = outbox s \<and> (ty \<notin> set backend_mutations \<or>
        (\<exists>n < length (calls s'). calls s' ! n = (ty, payload) \<and> replies env n = Accepted v))
    | Inr Duplicated \<Rightarrow> outbox s' = outbox s
    | Inr (Queued j) \<Rightarrow> j = i \<and> outbox s' \<noteq> [] \<and> (\<exists>now. last (outbox s') = new_item i now ty payload)"
proof -
  have failed: "mutation_failed enc env i e ty payload u = (r, s') \<Longrightarrow> outbox u = outbox s \<Longrightarrow> ?thesis" for e u
    by (auto simp: mutation_failed_def queue_mutation_def enqueueOutbox_def new_item_def Let_def split: if_splits)
  obtain q t where d: "dispatchMutation env ty payload s = (q, t)" by fastforce
  obtain q2 t2 where a: "retry_authenticated env ty payload t = (q2, t2)" by fastforce
  have t: "outbox t = outbox s" "outbox t2 = outbox s" "outbox (degrade x t) = outbox s" for x
    using dispatch_queue(1) [of env ty payload s] retry_queue(1) [of env ty payload t] d a by (simp_all add: degrade_def)
  have sent: "ty \<notin> set backend_mutations \<or> (\<exists>n < length (calls t). calls t ! n = (ty, payload) \<and> replies env n = Accepted v)"
    if "q = Accepted v" for v using d that by (auto simp: dispatchMutation_def split: if_splits)
  have sent2: "ty \<notin> set backend_mutations \<or> (\<exists>n < length (calls t2). calls t2 ! n = (ty, payload) \<and> replies env n = Accepted v)"
    if "q2 = Some v" for v
    using a that by (auto simp: retry_authenticated_def dispatchMutation_def split: if_splits reauth_reply.splits reply.splits)
  show ?thesis
  proof (cases "isConnected s")
    case False
    with assms show ?thesis by (auto simp: syncMutation_def queue_mutation_def enqueueOutbox_def new_item_def Let_def)
  next
    case True
    with assms failed [OF _ t(1)] failed [OF _ t(2)] failed [OF _ t(3)] sent sent2 t show ?thesis
      by (auto simp: syncMutation_def d a split: reply.splits if_splits option.splits)
  qed
qed

theorem mutation_accounted_witness:
  "fst (syncMutation (\<lambda>p. ''p'') (sample_sync_env (\<lambda>n. Refused lost_reply)) ''o3'' ''ACCOUNT_ACTION'' JNull sample_queue) = Inr (Queued ''o3'') \<and>
   (\<exists>now. last (outbox (snd (syncMutation (\<lambda>p. ''p'') (sample_sync_env (\<lambda>n. Refused lost_reply)) ''o3'' ''ACCOUNT_ACTION'' JNull sample_queue))) =
     new_item ''o3'' now ''ACCOUNT_ACTION'' JNull)"
proof -
  let ?r = "syncMutation (\<lambda>p. ''p'') (sample_sync_env (\<lambda>n. Refused lost_reply)) ''o3'' ''ACCOUNT_ACTION'' JNull sample_queue"
  have "fst ?r = Inr (Queued ''o3'')"
    by (simp add: syncMutation_def sample_queue_def new_outbox_def sample_sync_env_def dispatchMutation_def backend_mutations_def
        generation_mismatch_def already_exists_def substring_def lost_reply_def mutation_failed_def policy_rejection_def
        policyRejectCodes_def queue_mutation_def enqueueOutbox_def new_item_def Let_def sublist_code)
  with mutation_accounted [OF prod.collapse [symmetric], of "\<lambda>p. ''p''" "sample_sync_env (\<lambda>n. Refused lost_reply)" "''o3''" "''ACCOUNT_ACTION''" JNull sample_queue]
  show ?thesis by simp
qed

text \<open>A reset of an account's configuration never reaches the backend: its type has no case, so it is reported
  as done although nothing was sent and nothing queued.\<close>

theorem reset_config_not_synced:
  assumes "isConnected s"
  shows "syncMutation enc env i ''RESET_ACCOUNT_CONFIG'' payload s = (Inr (Synced JUndef), s)"
  using assms by (simp add: syncMutation_def dispatchMutation_def backend_mutations_def)

theorem reset_config_not_synced_witness:
  "syncMutation (\<lambda>p. ''p'') (sample_sync_env (\<lambda>n. Accepted JNull)) ''o4'' ''RESET_ACCOUNT_CONFIG'' JNull sample_queue =
     (Inr (Synced JUndef), sample_queue)"
  by (rule reset_config_not_synced) (simp add: sample_queue_def)

text \<open>Two flushes that overlap remove an item that was never sent: both send the first item, and the second
  to finish removes by index what has moved there.\<close>

theorem overlapping_flushes_drop_unsent:
  assumes "outbox s = a # b # rest"
  shows "outbox (remove_at 0 a (remove_at 0 a s)) = rest"
  using assms by (simp add: remove_at_def js_splice_def Let_def)

theorem overlapping_flushes_drop_unsent_witness:
  "outbox (remove_at 0 (new_item ''o1'' 1 ''TOGGLE_BET_CYCLE'' (JStr ''a''))
     (remove_at 0 (new_item ''o1'' 1 ''TOGGLE_BET_CYCLE'' (JStr ''a'')) sample_queue)) = []"
  by (rule overlapping_flushes_drop_unsent [where b = "new_item ''o2'' 2 ''ACCOUNT_ACTION'' (JStr ''b'')"])
    (simp add: sample_queue_def)

end
