(* ===== verification/SyncEvents.thy ===== *)
theory SyncEvents
  imports SyncOutbox SecurityFacade
begin

text \<open>
  The event stream and the offline grace of \<^verbatim>\<open>sync/backendSyncService.mjs\<close>, with
  \<^verbatim>\<open>state-store/hydration/FreshnessEvaluator.mjs\<close>: frames from the backend are admitted by server epoch and
  sequence number, admitted ones change the security authority, and without a connection the service grants
  a grace lease bound to the last synchronisation. A frame that finds a gap waits for a snapshot; other
  frames arrive meanwhile, so admission is a list of actions. Sequence numbers and epochs are integers.
\<close>

section \<open>Freshness\<close>

definition subscription_grace :: int where
  "subscription_grace = 7200"

definition isFresh :: "int \<Rightarrow> date_field \<Rightarrow> int \<Rightarrow> bool" where
  "isFresh now cachedAt ttlSeconds =
     (case cachedAt of
        NoDate \<Rightarrow> False
      | BadDate \<Rightarrow> False
      | DateAt t \<Rightarrow> if now < t then False else now - t < ttlSeconds * 1000)"

definition isSubscriptionWithinGracePeriod :: "int \<Rightarrow> date_field \<Rightarrow> int option \<Rightarrow> bool" where
  "isSubscriptionWithinGracePeriod now lastValidatedAt elapsedMonotonicMs =
     (if lastValidatedAt = NoDate then False
      else if (case elapsedMonotonicMs of Some ms \<Rightarrow> ms \<ge> subscription_grace * 1000 | None \<Rightarrow> False) then False
      else isFresh now lastValidatedAt subscription_grace)"

section \<open>Admission of frames\<close>

record stream =
  lastObservedEpoch :: int
  lastObservedSequence :: int
  accountSequences :: "(string, int) jsmap"

definition new_stream :: stream where
  "new_stream = \<lparr>lastObservedEpoch = 0, lastObservedSequence = 0, accountSequences = []\<rparr>"

text \<open>\<open>ev_account\<close> is the account of the payload, \<^verbatim>\<open>global\<close> without one; \<open>ev_epoch\<close> is 0 without an epoch and
  \<open>ev_seq\<close> is \<open>None\<close> without a number.\<close>

record server_event =
  ev_epoch :: int
  ev_seq :: "int option"
  ev_account :: string

datatype decision = Route | Drop | Snapshot

definition watermark :: "string \<Rightarrow> stream \<Rightarrow> int" where
  "watermark a st = (case map_of (accountSequences st) a of Some n \<Rightarrow> n | None \<Rightarrow> lastObservedSequence st)"

definition observe :: "string \<Rightarrow> int \<Rightarrow> stream \<Rightarrow> stream" where
  "observe a n st = st\<lparr>accountSequences := AList.update a n (accountSequences st),
     lastObservedSequence := max (lastObservedSequence st) n\<rparr>"

definition epoch_gate :: "server_event \<Rightarrow> stream \<Rightarrow> decision \<times> stream" where
  "epoch_gate ev st =
     (if ev_epoch ev > 0
      then (if lastObservedEpoch st = 0 then (Route, st\<lparr>lastObservedEpoch := ev_epoch ev\<rparr>)
            else if ev_epoch ev > lastObservedEpoch st
            then (Snapshot, st\<lparr>accountSequences := [], lastObservedSequence := 0, lastObservedEpoch := ev_epoch ev\<rparr>)
            else if ev_epoch ev < lastObservedEpoch st then (Drop, st)
            else (Route, st))
      else (Route, st))"

definition sequence_gate :: "server_event \<Rightarrow> stream \<Rightarrow> decision \<times> stream" where
  "sequence_gate ev st =
     (case ev_seq ev of
        None \<Rightarrow> (Route, st)
      | Some n \<Rightarrow>
          let lastSeq = watermark (ev_account ev) st in
          if lastSeq = 0 \<or> n = lastSeq + 1 then (Route, observe (ev_account ev) n st)
          else if n > lastSeq + 1 then (Snapshot, st)
          else (Drop, st))"

text \<open>After the snapshot a gap asked for.\<close>

definition after_gap :: "server_event \<Rightarrow> stream \<Rightarrow> decision \<times> stream" where
  "after_gap ev st =
     (case ev_seq ev of
        None \<Rightarrow> (Route, st)
      | Some n \<Rightarrow> if n \<le> watermark (ev_account ev) st then (Drop, st) else (Route, observe (ev_account ev) n st))"

datatype waiting = EpochWait server_event | GapWait server_event

text \<open>Frames that wait for a snapshot, and the frames routed since the last change of epoch.\<close>

record stream_run =
  strm :: stream
  waiters :: "waiting list"
  routed_frames :: "server_event list"

definition new_run :: stream_run where
  "new_run = \<lparr>strm = new_stream, waiters = [], routed_frames = []\<rparr>"

datatype stream_action = Arrive server_event | SnapshotDone waiting bool

definition pass_sequence :: "server_event \<Rightarrow> stream_run \<Rightarrow> stream_run" where
  "pass_sequence ev r =
     (case sequence_gate ev (strm r) of
        (Route, st) \<Rightarrow> r\<lparr>strm := st, routed_frames := routed_frames r @ [ev]\<rparr>
      | (Snapshot, st) \<Rightarrow> r\<lparr>strm := st, waiters := waiters r @ [GapWait ev]\<rparr>
      | (Drop, st) \<Rightarrow> r\<lparr>strm := st\<rparr>)"

fun stream_act :: "stream_action \<Rightarrow> stream_run \<Rightarrow> stream_run" where
  "stream_act (Arrive ev) r =
     (case epoch_gate ev (strm r) of
        (Route, st) \<Rightarrow> pass_sequence ev (r\<lparr>strm := st\<rparr>)
      | (Snapshot, st) \<Rightarrow> r\<lparr>strm := st, waiters := waiters r @ [EpochWait ev], routed_frames := []\<rparr>
      | (Drop, st) \<Rightarrow> r)"
| "stream_act (SnapshotDone w ok) r =
     (if w \<notin> set (waiters r) then r
      else let r1 = r\<lparr>waiters := remove1 w (waiters r)\<rparr> in
           if \<not> ok then r1
           else case w of
                  EpochWait ev \<Rightarrow> pass_sequence ev r1
                | GapWait ev \<Rightarrow>
                    (case after_gap ev (strm r1) of
                       (Route, st) \<Rightarrow> r1\<lparr>strm := st, routed_frames := routed_frames r1 @ [ev]\<rparr>
                     | (_, st) \<Rightarrow> r1\<lparr>strm := st\<rparr>))"

section \<open>Reconnecting\<close>

definition reconnect_delay :: "nat \<Rightarrow> int" where
  "reconnect_delay n = min (1000 * 2 ^ (n - 1)) 30000"

record socket_state =
  isStopping :: bool
  enableWebSocket :: bool
  has_session :: bool
  reconnectTimer :: "int option"   \<comment> \<open>the delay it was set with\<close>
  reconnectAttempts :: nat
  ws_open :: bool

definition scheduleReconnect :: "socket_state \<Rightarrow> socket_state" where
  "scheduleReconnect c =
     (if isStopping c \<or> \<not> enableWebSocket c \<or> \<not> has_session c then c
      else if reconnectTimer c \<noteq> None then c
      else let n = reconnectAttempts c + 1 in c\<lparr>reconnectAttempts := n, reconnectTimer := Some (reconnect_delay n)\<rparr>)"

definition disconnectWebSocket :: "socket_state \<Rightarrow> socket_state" where
  "disconnectWebSocket c = c\<lparr>reconnectTimer := None, ws_open := False\<rparr>"

section \<open>Offline grace\<close>

record sync_clock =
  lastSyncTimestamp :: date_field
  lastSyncHrtime :: "int option"
  validated_row :: date_field       \<comment> \<open>\<^verbatim>\<open>last_validated_at\<close> of the metadata row of billing\<close>
  sync_token :: "grace_token option"

text \<open>The timestamp is read from the metadata row when the service has none, and kept.\<close>

definition load_timestamp :: "sync_clock \<Rightarrow> sync_clock" where
  "load_timestamp c = (if lastSyncTimestamp c = NoDate then c\<lparr>lastSyncTimestamp := validated_row c\<rparr> else c)"

definition elapsed_ms :: "int \<Rightarrow> sync_clock \<Rightarrow> int option" where
  "elapsed_ms hr c = map_option (\<lambda>t. (hr - t) div 1000000) (lastSyncHrtime c)"

text \<open>A grace token must verify; in production there must be one.\<close>

definition token_ok :: "license_env \<Rightarrow> verifier \<Rightarrow> int \<Rightarrow> sync_clock \<Rightarrow> bool" where
  "token_ok env verify now c =
     (case sync_token c of Some t \<Rightarrow> verifyGraceToken env verify now (Some t) None | None \<Rightarrow> \<not> isProduction env)"

text \<open>The second component asks the authority to degrade, with the reason.\<close>

definition checkGracePeriod ::
  "license_env \<Rightarrow> verifier \<Rightarrow> int \<Rightarrow> int \<Rightarrow> 'b acp \<Rightarrow> sync_clock \<Rightarrow> bool \<times> string option \<times> sync_clock" where
  "checkGracePeriod env verify now hr w c =
     (if isUncertain w then (False, None, c)
      else if \<not> token_ok env verify now c
      then (False, if sync_token c \<noteq> None \<and> \<not> isDegraded w then Some ''INVALID_GRACE_TOKEN'' else None, c)
      else let c = load_timestamp c in
           if lastSyncTimestamp c = NoDate then (False, None, c)
           else let isWithin = isSubscriptionWithinGracePeriod now (lastSyncTimestamp c) (elapsed_ms hr c)
                in (isWithin, if \<not> isWithin \<and> \<not> isDegraded w then Some ''GRACE_PERIOD_EXPIRED'' else None, c))"

record grace_lease =
  lease_cachedTime :: int
  lease_expiresAt :: int
  lease_remainingMs :: int

definition getOfflineGraceLease ::
  "license_env \<Rightarrow> verifier \<Rightarrow> int \<Rightarrow> int \<Rightarrow> 'b acp \<Rightarrow> sync_clock \<Rightarrow> grace_lease option \<times> sync_clock" where
  "getOfflineGraceLease env verify now hr w c =
     (if isUncertain w then (None, c)
      else if \<not> token_ok env verify now c then (None, c)
      else let c = load_timestamp c in
           case (lastSyncTimestamp c, clockNow hr w) of
             (DateAt t, Inr current) \<Rightarrow>
               let maxGraceMs = subscription_grace * 1000; expiresAt = t + maxGraceMs in
               (if current < t then None
                else if (case elapsed_ms hr c of Some ms \<Rightarrow> ms \<ge> maxGraceMs | None \<Rightarrow> False) then None
                else if expiresAt - current \<le> 0 then None
                else Some \<lparr>lease_cachedTime = t, lease_expiresAt = expiresAt, lease_remainingMs = expiresAt - current\<rparr>, c)
           | _ \<Rightarrow> (None, c))"

text \<open>One round of the grace monitor while it runs: it stops itself when the connection is back or the grace
  has ended, in the latter case after calling \<open>onExpired\<close>. The result says whether it keeps running, whether
  it expired, and the reason for a degradation.\<close>

definition grace_tick ::
  "license_env \<Rightarrow> verifier \<Rightarrow> int \<Rightarrow> int \<Rightarrow> bool \<Rightarrow> 'b acp \<Rightarrow> sync_clock
    \<Rightarrow> (bool \<times> bool \<times> string option) \<times> sync_clock" where
  "grace_tick env verify now hr online w c =
     (if online then ((False, False, None), c)
      else case checkGracePeriod env verify now hr w c of
             (isWithin, d, c') \<Rightarrow> ((isWithin, \<not> isWithin, d), c'))"

section \<open>What routed frames do to the authority\<close>

text \<open>The members of a pushed license that the authority reads; \<open>None\<close> is an absent member.\<close>

record license_patch =
  lp_status :: "string option"
  lp_signature :: "string option"
  lp_expiresAt :: "date_field option"
  lp_accountId :: "string option"
  lp_capabilities :: "string list option"

datatype push =
    LicenseUpdated license_patch "string list option"
  | LicenseRevoked "string option"
  | SubscriptionExpired
  | SubscriptionChanged string "string list option"
  | ForceLogout
  | OtherPush

definition defaultCaps :: "string list" where
  "defaultCaps = [CAP_AUTOMATION_START, CAP_AUTOMATION_STOP, ''CAP_FILE_UPLOAD'', ''CAP_TACTICAL_BET'', ''CAP_CASH_OUT'', CAP_CONFIG_MODIFY]"

definition empty_license :: license_row where
  "empty_license = default_license\<lparr>licenseStatus := None\<rparr>"

definition last_license :: "auth_payload option \<Rightarrow> license_row" where
  "last_license prev = (case Option.bind prev ap_license of Some l \<Rightarrow> l | None \<Rightarrow> empty_license)"

definition patched :: "license_patch \<Rightarrow> license_row \<Rightarrow> license_row" where
  "patched p l =
     l\<lparr>licenseStatus := Some (or_default (lp_status p) ''VALID''),
       licenseSignature := (case lp_signature p of None \<Rightarrow> licenseSignature l | Some x \<Rightarrow> Some x),
       licenseExpiresAt := (case lp_expiresAt p of None \<Rightarrow> licenseExpiresAt l | Some x \<Rightarrow> x),
       licenseAccountId := (case lp_accountId p of None \<Rightarrow> licenseAccountId l | Some x \<Rightarrow> Some x)\<rparr>"

definition pushed_session :: "string option \<Rightarrow> auth_payload option \<Rightarrow> string list \<Rightarrow> license_row \<Rightarrow> auth_payload" where
  "pushed_session clientSession prev caps lic =
     \<lparr>ap_sessionId = Some (or_default clientSession (or_default (Option.bind prev ap_sessionId) ''active-session'')),
      ap_accountId = Option.bind prev ap_accountId, ap_expiresInMs = Option.bind prev ap_expiresInMs,
      ap_capabilities = Some caps, ap_license = Some lic\<rparr>"

record 'b push_env =
  pe_enc :: "string \<Rightarrow> document \<Rightarrow> 'b"
  pe_dec :: "string \<Rightarrow> 'b \<Rightarrow> document option"
  pe_facade :: facade_env
  pe_verify :: verifier
  pe_now :: int
  pe_hr :: int

definition normalized :: "string \<Rightarrow> string" where
  "normalized st = (if st = ''ACTIVE'' then ''Active'' else if st = ''PAST_DUE'' then ''Past_Due''
     else if st = ''CANCELLED'' then ''Cancelled'' else st)"

text \<open>Errors of the facade are swallowed, except for a revocation.\<close>

definition route_push :: "'b push_env \<Rightarrow> string option \<Rightarrow> auth_payload option \<Rightarrow> push \<Rightarrow> 'b acp \<Rightarrow> 'b acp" where
  "route_push env clientSession prev p w =
     (let establish = (\<lambda>caps lic. snd (establishSession (pe_enc env) (pe_dec env) (pe_facade env) (pe_verify env)
                         (pe_now env) (pe_hr env) (Some (pushed_session clientSession prev caps lic)) w));
          degraded_w = snd (transitionToDegraded (pe_enc env) (pe_dec env) (pe_now env) ''SUBSCRIPTION_EXPIRED_PUSH'' w)
      in case p of
           LicenseUpdated lp caps \<Rightarrow>
             establish (case lp_capabilities lp of Some cs \<Rightarrow> cs | None \<Rightarrow> (case caps of Some cs \<Rightarrow> cs | None \<Rightarrow> defaultCaps))
               (patched lp (last_license prev))
         | LicenseRevoked reason \<Rightarrow>
             revokeLicense (pe_enc env) (pe_dec env) (pe_now env) (or_default reason ''AUTHORITATIVE_BACKEND_REVOCATION'') w
         | SubscriptionExpired \<Rightarrow> degraded_w
         | SubscriptionChanged st caps \<Rightarrow>
             (if normalized st = ''Active''
              then establish (case caps of Some (c # cs) \<Rightarrow> c # cs | _ \<Rightarrow> defaultCaps)
                     ((last_license prev)\<lparr>licenseStatus := Some ''VALID''\<rparr>)
              else if normalized st \<in> {''Past_Due'', ''Payment_Required'', ''EXPIRED'', ''Expired''} then degraded_w else w)
         | ForceLogout \<Rightarrow>
             snd (transitionToUnauthenticated (pe_enc env) (pe_dec env) (pe_facade env) (pe_now env) (pe_hr env)
                    (snd (logout (pe_enc env) (pe_dec env) (pe_now env) w)))
         | OtherPush \<Rightarrow> w)"

section \<open>Lemmas\<close>

definition frames_of :: "string \<Rightarrow> server_event list \<Rightarrow> int list" where
  "frames_of a evs = List.map_filter (\<lambda>ev. if ev_account ev = a then ev_seq ev else None) evs"

lemma frames_of_append [simp]: "frames_of a (xs @ ys) = frames_of a xs @ frames_of a ys"
  by (simp add: frames_of_def List.map_filter_def)

lemma frames_of_simps [simp]:
  "frames_of a [] = []"
  "frames_of a [ev] = (case ev_seq ev of None \<Rightarrow> [] | Some n \<Rightarrow> if ev_account ev = a then [n] else [])"
  by (auto simp: frames_of_def List.map_filter_simps split: option.splits)

definition numbered :: "server_event \<Rightarrow> bool" where
  "numbered ev \<longleftrightarrow> (\<forall>n. ev_seq ev = Some n \<longrightarrow> 1 \<le> n)"

text \<open>The watermark of an account bounds the frames routed for it; an account without one has none.\<close>

fun acc_ok :: "int option \<Rightarrow> int list \<Rightarrow> bool" where
  "acc_ok None fs \<longleftrightarrow> fs = []"
| "acc_ok (Some n) fs \<longleftrightarrow> sorted_wrt (<) fs \<and> 1 \<le> n \<and> (\<forall>k\<in>set fs. k \<le> n)"

definition in_order :: "stream_run \<Rightarrow> bool" where
  "in_order r \<longleftrightarrow> (\<forall>a. acc_ok (map_of (accountSequences (strm r)) a) (frames_of a (routed_frames r)))"

lemma acc_ok_snoc: "acc_ok e fs \<Longrightarrow> 1 \<le> n \<Longrightarrow> (\<And>m. e = Some m \<Longrightarrow> m < n) \<Longrightarrow> acc_ok (Some n) (fs @ [n])"
  by (cases e) (fastforce simp: sorted_wrt_append)+

lemma acc_ok_sorted: "acc_ok e fs \<Longrightarrow> sorted_wrt (<) fs"
  by (cases e) auto

definition all_numbered :: "stream_run \<Rightarrow> bool" where
  "all_numbered r \<longleftrightarrow> (\<forall>w\<in>set (waiters r). case w of EpochWait ev \<Rightarrow> numbered ev | GapWait ev \<Rightarrow> numbered ev)"

lemma in_order_frame: "in_order r \<Longrightarrow> accountSequences (strm r') = accountSequences (strm r) \<Longrightarrow> routed_frames r' = routed_frames r \<Longrightarrow> in_order r'"
  by (simp add: in_order_def)

lemma route_in_order:
  assumes "in_order r" and "numbered ev" and "ev_seq ev = Some n"
    and "\<And>m. map_of (accountSequences (strm r)) (ev_account ev) = Some m \<Longrightarrow> m < n"
  shows "in_order (r\<lparr>strm := observe (ev_account ev) n (strm r), routed_frames := routed_frames r @ [ev]\<rparr>)"
  using assms acc_ok_snoc [of "map_of (accountSequences (strm r)) (ev_account ev)" "frames_of (ev_account ev) (routed_frames r)" n]
  by (simp add: in_order_def observe_def update_conv' numbered_def)

lemma route_unnumbered:
  "in_order r \<Longrightarrow> ev_seq ev = None \<Longrightarrow> in_order (r\<lparr>routed_frames := routed_frames r @ [ev]\<rparr>)"
  by (simp add: in_order_def)

lemma pass_in_order:
  assumes "in_order r" and "numbered ev"
  shows "in_order (pass_sequence ev r)"
proof (cases "ev_seq ev")
  case None
  with route_unnumbered [OF assms(1) None] show ?thesis by (simp add: pass_sequence_def sequence_gate_def)
next
  case (Some n)
  let ?l = "watermark (ev_account ev) (strm r)"
  show ?thesis
  proof (cases "?l = 0 \<or> n = ?l + 1")
    case True
    have "m < n" if "map_of (accountSequences (strm r)) (ev_account ev) = Some m" for m
    proof -
      have "acc_ok (Some m) (frames_of (ev_account ev) (routed_frames r))"
        using assms(1) that by (metis in_order_def)
      then have "1 \<le> m" by simp
      with True that show ?thesis by (auto simp: watermark_def)
    qed
    with route_in_order [OF assms Some] True Some show ?thesis by (simp add: pass_sequence_def sequence_gate_def Let_def)
  next
    case False
    with Some show ?thesis
      by (auto simp: pass_sequence_def sequence_gate_def Let_def intro: in_order_frame [OF assms(1)])
  qed
qed

lemma act_in_order:
  assumes "in_order r" and "all_numbered r" and "\<And>ev. x = Arrive ev \<Longrightarrow> numbered ev"
  shows "in_order (stream_act x r) \<and> all_numbered (stream_act x r)"
proof (cases x)
  case (Arrive ev)
  with assms(3) have ev: "numbered ev" by blast
  obtain d st where g: "epoch_gate ev (strm r) = (d, st)" by fastforce
  show ?thesis
  proof (cases d)
    case Route
    with g have "in_order (r\<lparr>strm := st\<rparr>)"
      by (intro in_order_frame [OF assms(1)]) (auto simp: epoch_gate_def split: if_splits)
    from pass_in_order [OF this ev] show ?thesis
      using Arrive Route g assms(2) ev by (auto simp: all_numbered_def pass_sequence_def split: prod.splits decision.splits)
  next
    case Drop
    with Arrive g assms show ?thesis by simp
  next
    case Snapshot
    with g have "accountSequences st = []" by (auto simp: epoch_gate_def split: if_splits)
    with Arrive Snapshot g assms(2) ev show ?thesis by (auto simp: in_order_def all_numbered_def)
  qed
next
  case (SnapshotDone w ok)
  let ?r = "r\<lparr>waiters := remove1 w (waiters r)\<rparr>"
  have r1: "in_order ?r" using assms(1) by (simp add: in_order_def)
  have n1: "all_numbered ?r" using assms(2) by (auto simp: all_numbered_def dest: notin_set_remove1 set_remove1_subset [THEN subsetD])
  show ?thesis
  proof (cases "w \<in> set (waiters r) \<and> ok")
    case False
    with SnapshotDone assms r1 n1 show ?thesis by (auto simp: Let_def)
  next
    case True
    show ?thesis
    proof (cases w)
      case (EpochWait ev)
      with True assms(2) have "numbered ev" by (auto simp: all_numbered_def)
      with pass_in_order [OF r1] SnapshotDone True EpochWait n1 show ?thesis
        by (auto simp: all_numbered_def pass_sequence_def Let_def split: prod.splits decision.splits)
    next
      case (GapWait ev)
      with True assms(2) have ev: "numbered ev" by (auto simp: all_numbered_def)
      obtain d st where g: "after_gap ev (strm ?r) = (d, st)" by fastforce
      have "in_order (?r\<lparr>strm := st, routed_frames := routed_frames r @ [ev]\<rparr>)" if d: "d = Route"
      proof (cases "ev_seq ev")
        case None
        with g route_unnumbered [OF r1 None] show ?thesis by (auto simp: after_gap_def in_order_def)
      next
        case (Some n)
        with g d have "st = observe (ev_account ev) n (strm ?r)" "watermark (ev_account ev) (strm r) < n"
          by (auto simp: after_gap_def split: if_splits)
        moreover from this(2) have "m < n" if "map_of (accountSequences (strm ?r)) (ev_account ev) = Some m" for m
          using that by (simp add: watermark_def)
        ultimately show ?thesis using route_in_order [OF r1 ev Some] by simp
      qed
      moreover have "in_order (?r\<lparr>strm := st\<rparr>)" if "d \<noteq> Route"
        using that g r1 by (auto simp: after_gap_def in_order_def split: option.splits if_splits)
      ultimately show ?thesis using SnapshotDone True GapWait g n1
        by (cases d) (auto simp: all_numbered_def Let_def)
    qed
  qed
qed

section \<open>Properties\<close>

text \<open>No frame is applied twice or out of order: in every sequence of arrivals and finished snapshots, with
  frames numbered from 1, the numbers of the frames routed for one account since the last change of epoch
  are strictly increasing.\<close>

theorem frames_routed_in_order:
  assumes "\<forall>ev. Arrive ev \<in> set acts \<longrightarrow> numbered ev"
  shows "sorted_wrt (<) (frames_of a (routed_frames (fold stream_act acts new_run)))"
proof -
  have "in_order (fold stream_act acts r) \<and> all_numbered (fold stream_act acts r)"
    if "in_order r" "all_numbered r" "\<forall>ev. Arrive ev \<in> set acts \<longrightarrow> numbered ev" for r
    using that by (induction acts arbitrary: r) (use act_in_order in auto)
  from this [of new_run] assms have "in_order (fold stream_act acts new_run)"
    by (simp add: in_order_def all_numbered_def new_run_def new_stream_def)
  then show ?thesis using acc_ok_sorted by (auto simp: in_order_def)
qed

definition frame :: "int \<Rightarrow> int \<Rightarrow> string \<Rightarrow> server_event" where
  "frame e n a = \<lparr>ev_epoch = e, ev_seq = Some n, ev_account = a\<rparr>"

definition sample_acts :: "stream_action list" where
  "sample_acts = [Arrive (frame 1 1 ''a''), Arrive (frame 1 1 ''a''), Arrive (frame 1 5 ''a''), Arrive (frame 1 2 ''a''),
     SnapshotDone (GapWait (frame 1 5 ''a'')) True, Arrive (frame 1 3 ''a'')]"

theorem frames_routed_in_order_witness:
  "frames_of ''a'' (routed_frames (fold stream_act sample_acts new_run)) = [1, 2, 5] \<and>
   sorted_wrt (<) (frames_of ''a'' (routed_frames (fold stream_act sample_acts new_run)))"
proof -
  have "frames_of ''a'' (routed_frames (fold stream_act sample_acts new_run)) = [1, 2, 5]" by code_simp
  moreover have "\<forall>ev. Arrive ev \<in> set sample_acts \<longrightarrow> numbered ev" by (auto simp: sample_acts_def numbered_def frame_def)
  ultimately show ?thesis using frames_routed_in_order [of sample_acts "''a''"] by simp
qed

text \<open>The first frames of a second account are lost: an account without a watermark of its own inherits the
  global one, so that frames numbered from 1 for that account are dropped as stale once another account
  has advanced further, whatever they carry.\<close>

theorem second_account_frames_dropped:
  assumes "map_of (accountSequences (strm r)) (ev_account ev) = None" and "ev_seq ev = Some n" and "1 \<le> n"
    and "n \<le> lastObservedSequence (strm r)" and "ev_epoch ev = lastObservedEpoch (strm r)"
  shows "stream_act (Arrive ev) r = r"
  using assms by (simp add: epoch_gate_def pass_sequence_def sequence_gate_def watermark_def Let_def)

theorem second_account_frames_dropped_witness:
  "frames_of ''b'' (routed_frames (stream_act (Arrive (frame 1 1 ''b'')) (fold stream_act sample_acts new_run))) = []"
proof -
  have "map_of (accountSequences (strm (fold stream_act sample_acts new_run))) ''b'' = None"
    "1 \<le> lastObservedSequence (strm (fold stream_act sample_acts new_run))"
    "lastObservedEpoch (strm (fold stream_act sample_acts new_run)) = 1"
    "frames_of ''b'' (routed_frames (fold stream_act sample_acts new_run)) = []" by code_simp+
  with second_account_frames_dropped [of "fold stream_act sample_acts new_run" "frame 1 1 ''b''" 1] show ?thesis
    by (simp add: frame_def)
qed

text \<open>A frame of the old epoch can outlive its epoch: if it waits for a snapshot when a new epoch begins and
  resumes first, it is routed in the new epoch, and the first frame of the new epoch is dropped as stale.\<close>

theorem old_frame_shadows_new_epoch:
  assumes "waiters r = []" and "lastObservedEpoch (strm r) = e" and "1 \<le> e" and "e < e'"
    and "watermark a (strm r) = m" and "1 \<le> m" and "m + 1 < n" and "1 \<le> k" and "k \<le> n"
  shows "routed_frames (fold stream_act [Arrive (frame e n a), Arrive (frame e' k a),
      SnapshotDone (GapWait (frame e n a)) True, SnapshotDone (EpochWait (frame e' k a)) True] r) = [frame e n a]"
  using assms
  by (simp add: epoch_gate_def pass_sequence_def sequence_gate_def after_gap_def frame_def observe_def watermark_def update_conv' Let_def)

theorem old_frame_shadows_new_epoch_witness:
  "routed_frames (fold stream_act [Arrive (frame 1 9 ''a''), Arrive (frame 2 1 ''a''),
      SnapshotDone (GapWait (frame 1 9 ''a'')) True, SnapshotDone (EpochWait (frame 2 1 ''a'')) True]
      (fold stream_act [Arrive (frame 1 1 ''a'')] new_run)) = [frame 1 9 ''a'']"
  by (rule old_frame_shadows_new_epoch [where m = 1]) code_simp+


definition local_env :: license_env where
  "local_env = prod_env\<lparr>isProduction := False\<rparr>"

definition synced_clock :: sync_clock where
  "synced_clock = \<lparr>lastSyncTimestamp = NoDate, lastSyncHrtime = Some 0, validated_row = DateAt 1000, sync_token = None\<rparr>"

definition certain_acp :: "unit acp" where
  "certain_acp = fresh_acp\<lparr>isUncertain := False, bootWallclock := 1995, bootHrtime := 0\<rparr>"


text \<open>The grace check agrees with the lease: when the persistent clock reads the wall clock, the operational
  grace holds exactly when a lease is granted.\<close>

theorem grace_check_agrees_with_lease:
  assumes "clockNow hr w = Inr now"
  shows "fst (checkGracePeriod env verify now hr w c) \<longleftrightarrow> fst (getOfflineGraceLease env verify now hr w c) \<noteq> None"
proof -
  have u: "\<not> isUncertain w" using assms by (auto simp: clockNow_def split: if_splits)
  show ?thesis
    using assms u
    by (auto simp: checkGracePeriod_def getOfflineGraceLease_def isSubscriptionWithinGracePeriod_def isFresh_def Let_def
        split: option.splits date_field.splits)
qed

theorem grace_check_agrees_with_lease_witness:
  "fst (checkGracePeriod local_env sample_verify 2000 5000000 certain_acp synced_clock)"
proof -
  have "clockNow 5000000 certain_acp = Inr 2000" by code_simp
  moreover have "fst (getOfflineGraceLease local_env sample_verify 2000 5000000 certain_acp synced_clock) \<noteq> None" by code_simp
  ultimately show ?thesis using grace_check_agrees_with_lease by blast
qed

text \<open>A clock that was rolled back denies the grace but degrades nothing, although the check is documented to
  degrade the authority when time was tampered with.\<close>

lemma rollback_denies_without_degrading:
  "isUncertain w \<Longrightarrow> checkGracePeriod env verify now hr w c = (False, None, c)"
  by (simp add: checkGracePeriod_def)

end
