(* ===== verification/NotificationFeed.thy ===== *)
theory NotificationFeed
  imports JsPrelude
begin

text \<open>
  Notifications of the operator: the capped feed in memory
  (\<^verbatim>\<open>state-store/memory/NotificationsContainer.mjs\<close>), its table
  (\<^verbatim>\<open>persistence/adapters/NotificationsAdapter.mjs\<close>), the domain operations of \<^verbatim>\<open>StateStore.mjs\<close> that
  write both, and the repository and route in front of them (\<^verbatim>\<open>repositories/repositoryFactory.mjs\<close>,
  \<^verbatim>\<open>api-server/routes/notificationsRoutes.mjs\<close>). Timestamps are milliseconds; SQLite leaves open which of two
  rows with the same timestamp comes first, the model takes the order of the table.
\<close>

section \<open>The feed in memory\<close>

record notification =
  n_id :: string
  n_timestamp :: int
  n_severity :: string
  n_category :: string
  n_title :: string
  n_message :: string
  n_read :: bool
  n_isRead :: bool
  n_metadata :: jsval

text \<open>What a caller passes; \<open>None\<close> is a member that is absent or empty.\<close>

record notification_input =
  in_id :: "string option"
  in_timestamp :: "int option"
  in_severity :: "string option"
  in_category :: "string option"
  in_title :: "string option"
  in_message :: "string option"
  in_read :: bool
  in_isRead :: bool
  in_metadata :: jsval

record feed =
  notifications :: "(string, notification) jsmap"
  unreadCount :: int
  feed_revision :: int
  feed_lastUpdated :: int

definition new_feed :: "int \<Rightarrow> feed" where
  "new_feed now = \<lparr>notifications = [], unreadCount = 0, feed_revision = 1, feed_lastUpdated = now\<rparr>"

definition feed_reset :: "int \<Rightarrow> feed \<Rightarrow> feed" where
  "feed_reset now f = f\<lparr>notifications := [], unreadCount := 0, feed_revision := 1, feed_lastUpdated := now\<rparr>"

definition MAX_FEED :: nat where
  "MAX_FEED = 100"

definition newest_first :: "notification list \<Rightarrow> notification list" where
  "newest_first items = sort_key (\<lambda>n. - n_timestamp n) items"

definition hydrate_item :: "notification \<Rightarrow> feed \<Rightarrow> feed" where
  "hydrate_item n f =
     f\<lparr>notifications := AList.update (n_id n) n (notifications f),
       unreadCount := unreadCount f + (if \<not> n_isRead n \<and> \<not> n_read n then 1 else 0)\<rparr>"

definition feed_hydrate :: "int \<Rightarrow> notification list \<Rightarrow> int option \<Rightarrow> feed \<Rightarrow> feed" where
  "feed_hydrate now items revision f =
     (let f1 = fold hydrate_item (take MAX_FEED (newest_first items)) (f\<lparr>notifications := [], unreadCount := 0\<rparr>)
      in f1\<lparr>feed_revision := (case revision of Some r \<Rightarrow> r | None \<Rightarrow> feed_revision f + 1), feed_lastUpdated := now\<rparr>)"

definition getAll :: "feed \<Rightarrow> notification list" where
  "getAll f = map snd (notifications f)"

definition opt_or :: "'a option \<Rightarrow> 'a \<Rightarrow> 'a" where
  "opt_or x d = (case x of Some y \<Rightarrow> y | None \<Rightarrow> d)"

definition notification_of :: "int \<Rightarrow> string \<Rightarrow> notification_input \<Rightarrow> notification" where
  "notification_of now generatedId i =
     \<lparr>n_id = opt_or (in_id i) generatedId, n_timestamp = opt_or (in_timestamp i) now,
      n_severity = opt_or (in_severity i) ''INFO'', n_category = opt_or (in_category i) ''SYSTEM'',
      n_title = opt_or (in_title i) [], n_message = opt_or (in_message i) [],
      n_read = in_read i \<or> in_isRead i, n_isRead = in_read i \<or> in_isRead i,
      n_metadata = js_or (in_metadata i) JNull\<rparr>"

definition evict_oldest :: "feed \<Rightarrow> feed" where
  "evict_oldest f =
     (case notifications f of
        [] \<Rightarrow> f
      | (oldestKey, oldest) # _ \<Rightarrow>
          if oldestKey = [] then f
          else f\<lparr>unreadCount := (if \<not> n_read oldest then max 0 (unreadCount f - 1) else unreadCount f),
                 notifications := AList.delete oldestKey (notifications f)\<rparr>)"

definition put_record :: "int \<Rightarrow> notification \<Rightarrow> feed \<Rightarrow> feed" where
  "put_record now n f =
     f\<lparr>notifications := AList.update (n_id n) n (notifications f),
       unreadCount := unreadCount f + (if \<not> n_read n then 1 else 0),
       feed_revision := feed_revision f + 1, feed_lastUpdated := now\<rparr>"

definition feed_add :: "int \<Rightarrow> string \<Rightarrow> notification_input \<Rightarrow> feed \<Rightarrow> notification \<times> feed" where
  "feed_add now generatedId i f =
     (let n = notification_of now generatedId i;
          f1 = (if length (notifications f) \<ge> MAX_FEED then evict_oldest f else f)
      in (n, put_record now n f1))"

definition feed_delete :: "int \<Rightarrow> string \<Rightarrow> feed \<Rightarrow> bool \<times> feed" where
  "feed_delete now i f =
     (case map_of (notifications f) i of
        None \<Rightarrow> (False, f)
      | Some existing \<Rightarrow>
          (True, f\<lparr>unreadCount := (if \<not> n_read existing then max 0 (unreadCount f - 1) else unreadCount f),
                   notifications := AList.delete i (notifications f),
                   feed_revision := feed_revision f + 1, feed_lastUpdated := now\<rparr>))"

definition mark :: "notification \<Rightarrow> notification" where
  "mark n = n\<lparr>n_read := True, n_isRead := True\<rparr>"

definition feed_markRead :: "int \<Rightarrow> string \<Rightarrow> feed \<Rightarrow> bool \<times> feed" where
  "feed_markRead now i f =
     (case map_of (notifications f) i of
        None \<Rightarrow> (False, f)
      | Some existing \<Rightarrow>
          if n_read existing then (False, f)
          else (True, f\<lparr>notifications := AList.update i (mark existing) (notifications f),
                        unreadCount := max 0 (unreadCount f - 1),
                        feed_revision := feed_revision f + 1, feed_lastUpdated := now\<rparr>))"

definition feed_markAllRead :: "int \<Rightarrow> feed \<Rightarrow> bool \<times> feed" where
  "feed_markAllRead now f =
     (if \<exists>e\<in>set (notifications f). \<not> n_read (snd e)
      then (True, f\<lparr>notifications := map (\<lambda>(i, n). (i, if \<not> n_read n then mark n else n)) (notifications f),
                    unreadCount := 0, feed_revision := feed_revision f + 1, feed_lastUpdated := now\<rparr>)
      else (False, f))"

definition feed_clearAll :: "int \<Rightarrow> feed \<Rightarrow> nat \<times> feed" where
  "feed_clearAll now f =
     (length (notifications f),
      f\<lparr>notifications := [], unreadCount := 0, feed_revision := feed_revision f + 1, feed_lastUpdated := now\<rparr>)"

section \<open>The table\<close>

text \<open>Rows with their user; the id is the primary key over all users.\<close>

type_synonym notif_table = "(string \<times> notification) list"

definition rows_of :: "string \<Rightarrow> notif_table \<Rightarrow> notification list" where
  "rows_of u t = map snd (filter (\<lambda>(v, n). v = u) t)"

definition with_read_flags :: "notification \<Rightarrow> notification" where
  "with_read_flags n = n\<lparr>n_isRead := n_read n\<rparr>"

definition table_list :: "string \<Rightarrow> nat \<Rightarrow> notif_table \<Rightarrow> notification list" where
  "table_list u limit t = map with_read_flags (take limit (newest_first (rows_of u t)))"

definition upsert_row :: "string \<Rightarrow> notification \<Rightarrow> notif_table \<Rightarrow> notif_table" where
  "upsert_row u n t =
     (if \<exists>r\<in>set t. n_id (snd r) = n_id n
      then map (\<lambda>(v, m). (v, if n_id m = n_id n then m\<lparr>n_read := n_read n \<or> n_isRead n, n_isRead := n_read n \<or> n_isRead n\<rparr> else m)) t
      else t @ [(u, n\<lparr>n_read := n_read n \<or> n_isRead n, n_isRead := n_read n \<or> n_isRead n\<rparr>)])"

definition prune :: "string \<Rightarrow> notif_table \<Rightarrow> notif_table" where
  "prune u t =
     (let kept = map n_id (take MAX_FEED (newest_first (rows_of u t)))
      in filter (\<lambda>(v, n). v \<noteq> u \<or> n_id n \<in> set kept) t)"

definition table_save :: "string \<Rightarrow> notification \<Rightarrow> notif_table \<Rightarrow> notif_table" where
  "table_save u n t = prune u (upsert_row u n t)"

definition table_markRead :: "string \<Rightarrow> string \<Rightarrow> notif_table \<Rightarrow> notif_table" where
  "table_markRead u i t = map (\<lambda>(v, n). (v, if v = u \<and> n_id n = i then mark n else n)) t"

definition table_markAllRead :: "string \<Rightarrow> notif_table \<Rightarrow> notif_table" where
  "table_markAllRead u t = map (\<lambda>(v, n). (v, if v = u then mark n else n)) t"

definition table_deleteForUser :: "string \<Rightarrow> notif_table \<Rightarrow> notif_table" where
  "table_deleteForUser u t = filter (\<lambda>(v, n). v \<noteq> u) t"

section \<open>The domain operations of the store\<close>

record notif_store =
  nfeed :: feed
  ntable :: notif_table
  nuser :: string

definition store_add :: "int \<Rightarrow> string \<Rightarrow> notification_input \<Rightarrow> notif_store \<Rightarrow> notification \<times> notif_store" where
  "store_add now generatedId i s =
     (case feed_add now generatedId i (nfeed s) of
        (n, f) \<Rightarrow> (n, s\<lparr>nfeed := f, ntable := table_save (nuser s) n (ntable s)\<rparr>))"

definition store_markRead :: "int \<Rightarrow> string \<Rightarrow> notif_store \<Rightarrow> bool \<times> notif_store" where
  "store_markRead now i s =
     (case feed_markRead now i (nfeed s) of
        (changed, f) \<Rightarrow> (changed, s\<lparr>nfeed := f, ntable := (if changed then table_markRead (nuser s) i (ntable s) else ntable s)\<rparr>))"

definition store_markAllRead :: "int \<Rightarrow> notif_store \<Rightarrow> bool \<times> notif_store" where
  "store_markAllRead now s =
     (case feed_markAllRead now (nfeed s) of
        (changed, f) \<Rightarrow> (changed, s\<lparr>nfeed := f, ntable := (if changed then table_markAllRead (nuser s) (ntable s) else ntable s)\<rparr>))"

definition store_delete :: "int \<Rightarrow> string \<Rightarrow> notif_store \<Rightarrow> bool \<times> notif_store" where
  "store_delete now i s = (case feed_delete now i (nfeed s) of (deleted, f) \<Rightarrow> (deleted, s\<lparr>nfeed := f\<rparr>))"

definition store_logout :: "int \<Rightarrow> notif_store \<Rightarrow> notif_store" where
  "store_logout now s = s\<lparr>ntable := table_deleteForUser (nuser s) (ntable s), nfeed := feed_reset now (nfeed s)\<rparr>"

text \<open>Hydration of a new process; \<open>revision\<close> is that of the metadata row.\<close>

definition store_hydrate :: "int \<Rightarrow> int \<Rightarrow> notif_store \<Rightarrow> notif_store" where
  "store_hydrate now revision s = s\<lparr>nfeed := feed_hydrate now (table_list (nuser s) MAX_FEED (ntable s)) (Some revision) (new_feed now)\<rparr>"

text \<open>The repository: the store has no \<^verbatim>\<open>clearAll\<close>, so nothing is cleared.\<close>

definition repo_list :: "string option \<Rightarrow> notif_store \<Rightarrow> notification list \<times> int" where
  "repo_list severity s =
     ((case severity of None \<Rightarrow> getAll (nfeed s) | Some v \<Rightarrow> filter (\<lambda>n. n_severity n = v) (getAll (nfeed s))),
      unreadCount (nfeed s))"

definition repo_clearAll :: "notif_store \<Rightarrow> nat \<times> notif_store" where
  "repo_clearAll s = (0, s)"

definition route_list :: "string option \<Rightarrow> notif_store \<Rightarrow> notification list \<times> int" where
  "route_list severity s = repo_list (Some (opt_or severity ''ALL'')) s"

section \<open>The invariant\<close>

definition unread :: "(string, notification) jsmap \<Rightarrow> nat" where
  "unread m = length (filter (\<lambda>(i, n). \<not> n_read n) m)"

definition entry_ok :: "string \<times> notification \<Rightarrow> bool" where
  "entry_ok e \<longleftrightarrow> n_id (snd e) = fst e \<and> fst e \<noteq> [] \<and> n_isRead (snd e) = n_read (snd e)"

definition feed_ok :: "feed \<Rightarrow> bool" where
  "feed_ok f \<longleftrightarrow> distinct (map fst (notifications f)) \<and> length (notifications f) \<le> MAX_FEED \<and>
     (\<forall>e\<in>set (notifications f). entry_ok e) \<and> unreadCount f = int (unread (notifications f))"

definition table_ok :: "notif_table \<Rightarrow> bool" where
  "table_ok t \<longleftrightarrow> distinct (map (\<lambda>r. n_id (snd r)) t) \<and> (\<forall>r\<in>set t. n_id (snd r) \<noteq> [])"

lemma unread_simps [simp]: "unread [] = 0" "unread (e # m) = (if n_read (snd e) then 0 else 1) + unread m"
  by (auto simp: unread_def split: prod.splits)

lemma unread_append [simp]: "unread (m @ m') = unread m + unread m'"
  by (simp add: unread_def)

lemma unread_update:
  "distinct (map fst m) \<Longrightarrow> map_of m i = Some e \<Longrightarrow>
   unread (AList.update i n m) + (if n_read e then 0 else 1) = unread m + (if n_read n then 0 else 1)"
  by (induction m) (auto dest: map_of_SomeD split: if_splits)

lemma unread_delete:
  "distinct (map fst m) \<Longrightarrow> map_of m i = Some e \<Longrightarrow> unread (AList.delete i m) + (if n_read e then 0 else 1) = unread m"
  by (induction m) (auto simp: delete_absent split: if_splits)

lemma entries_update: "\<forall>e\<in>set m. entry_ok e \<Longrightarrow> entry_ok (i, n) \<Longrightarrow> \<forall>e\<in>set (AList.update i n m). entry_ok e"
  by (induction m) auto

lemma entries_delete: "\<forall>e\<in>set m. entry_ok e \<Longrightarrow> \<forall>e\<in>set (AList.delete i m). entry_ok e"
  by (auto simp: AList.delete_eq)

lemma count_shrinks: "feed_ok f \<Longrightarrow> map_of (notifications f) i = Some e \<Longrightarrow> \<not> n_read e \<Longrightarrow> 1 \<le> unreadCount f"
  using unread_delete [of "notifications f" i e] by (auto simp: feed_ok_def)

lemma drop_entry_ok:
  assumes "feed_ok f" and "map_of (notifications f) i = Some e"
  shows "feed_ok (f\<lparr>unreadCount := (if \<not> n_read e then max 0 (unreadCount f - 1) else unreadCount f),
    notifications := AList.delete i (notifications f)\<rparr>)"
  using assms count_shrinks [OF assms] unread_delete [of "notifications f" i e] length_delete [of "notifications f" i e]
    entries_delete [of "notifications f" i] distinct_delete [of "notifications f" i]
  by (auto simp: feed_ok_def)

lemma evict_ok: "feed_ok f \<Longrightarrow> feed_ok (evict_oldest f)"
  using drop_entry_ok [of f "fst (hd (notifications f))" "snd (hd (notifications f))"]
  by (auto simp: evict_oldest_def split: list.splits prod.splits)

lemma feed_evict_room: "feed_ok f \<Longrightarrow> notifications f \<noteq> [] \<Longrightarrow> Suc (length (notifications (evict_oldest f))) \<le> MAX_FEED"
  using length_delete [of "notifications f" "fst (hd (notifications f))" "snd (hd (notifications f))"]
  by (auto simp: evict_oldest_def feed_ok_def entry_ok_def split: list.splits prod.splits)

lemma put_ok:
  assumes "feed_ok f" and "Suc (length (notifications f)) \<le> MAX_FEED"
    and "n_id n \<notin> set (map fst (notifications f))" and "entry_ok (n_id n, n)"
  shows "feed_ok (put_record now n f)"
  using assms by (auto simp: feed_ok_def put_record_def update_new)

lemma evict_keys: "set (map fst (notifications (evict_oldest f))) \<subseteq> set (map fst (notifications f))"
  by (auto simp: evict_oldest_def AList.delete_eq split: list.splits prod.splits if_splits)

lemma add_ok:
  assumes "feed_ok f" and "n_id (notification_of now g i) \<noteq> []" and "n_id (notification_of now g i) \<notin> set (map fst (notifications f))"
  shows "feed_ok (snd (feed_add now g i f))"
proof -
  let ?n = "notification_of now g i"
  let ?f = "if length (notifications f) \<ge> MAX_FEED then evict_oldest f else f"
  have "feed_ok ?f" using assms(1) evict_ok by simp
  moreover have "Suc (length (notifications ?f)) \<le> MAX_FEED"
  proof (cases "length (notifications f) \<ge> MAX_FEED")
    case True
    then have "notifications f \<noteq> []" by (auto simp: MAX_FEED_def)
    with True feed_evict_room [OF assms(1)] show ?thesis by simp
  qed simp
  moreover have "n_id ?n \<notin> set (map fst (notifications ?f))" using assms(3) evict_keys [of f] by auto
  moreover have "entry_ok (n_id ?n, ?n)" using assms(2) by (simp add: entry_ok_def notification_of_def)
  ultimately show ?thesis unfolding feed_add_def Let_def snd_conv by (rule put_ok)
qed

lemma deleted_ok: "feed_ok f \<Longrightarrow> feed_ok (snd (feed_delete now i f))"
  using drop_entry_ok [of f i] by (auto simp: feed_delete_def feed_ok_def split: option.splits)

lemma marked_ok:
  assumes "feed_ok f"
  shows "feed_ok (snd (feed_markRead now i f))"
proof (cases "map_of (notifications f) i")
  case (Some e)
  then have "entry_ok (i, e)" using assms by (auto simp: feed_ok_def dest: map_of_SomeD)
  then have m: "entry_ok (i, mark e)" by (simp add: entry_ok_def mark_def)
  show ?thesis
  proof (cases "n_read e")
    case False
    with assms Some unread_update [of "notifications f" i e "mark e"] length_update [OF Some, of "mark e"]
      entries_update [OF _ m, of "notifications f"] distinct_update [of "notifications f" i "mark e"]
    show ?thesis by (simp add: feed_markRead_def feed_ok_def mark_def)
  qed (use assms Some in \<open>simp add: feed_markRead_def\<close>)
qed (use assms in \<open>simp add: feed_markRead_def\<close>)

lemma all_marked_ok:
  assumes "feed_ok f"
  shows "feed_ok (snd (feed_markAllRead now f))"
proof -
  let ?g = "\<lambda>(i, n). (i, if \<not> n_read n then mark n else n) :: string \<times> notification"
  have "unread (map ?g m) = 0" for m by (induction m) (auto simp: mark_def)
  moreover have "entry_ok (?g e)" if "entry_ok e" for e using that by (auto simp: entry_ok_def mark_def split: prod.splits)
  moreover have "fst \<circ> ?g = fst" by auto
  ultimately show ?thesis using assms unfolding feed_markAllRead_def feed_ok_def by auto
qed

lemma hydrate_fold:
  "distinct (map n_id items) \<Longrightarrow> set (map n_id items) \<inter> set (map fst (notifications f)) = {} \<Longrightarrow>
   notifications (fold hydrate_item items f) = notifications f @ map (\<lambda>n. (n_id n, n)) items \<and>
   unreadCount (fold hydrate_item items f) = unreadCount f + int (length (filter (\<lambda>n. \<not> n_isRead n \<and> \<not> n_read n) items))"
  by (induction items arbitrary: f) (auto simp: hydrate_item_def update_new)

lemma unread_items: "\<forall>n\<in>set items. n_isRead n = n_read n \<Longrightarrow>
  length (filter (\<lambda>n. \<not> n_isRead n \<and> \<not> n_read n) items) = unread (map (\<lambda>n. (n_id n, n)) items)"
  by (induction items) auto

lemma newest_set [simp]: "set (newest_first items) = set items"
  by (simp add: newest_first_def)

lemma newest_length [simp]: "length (newest_first items) = length items"
  by (simp add: newest_first_def)

lemma distinct_newest: "distinct (map n_id items) \<Longrightarrow> distinct (map n_id (take k (newest_first items)))"
  by (auto simp: distinct_map newest_first_def intro: inj_on_subset [OF _ set_take_subset [THEN subset_trans]])

lemma hydrated_ok:
  assumes "distinct (map n_id items)" and "\<forall>n\<in>set items. n_id n \<noteq> [] \<and> n_isRead n = n_read n"
  shows "feed_ok (feed_hydrate now items r f)"
    and "notifications (feed_hydrate now items r f) = map (\<lambda>n. (n_id n, n)) (take MAX_FEED (newest_first items))"
proof -
  let ?is = "take MAX_FEED (newest_first items)"
  have "n_id n \<noteq> [] \<and> n_isRead n = n_read n" if "n \<in> set ?is" for n
    using assms(2) that set_take_subset [of MAX_FEED "newest_first items"] by auto
  moreover note h = hydrate_fold [OF distinct_newest [OF assms(1), of MAX_FEED], of "f\<lparr>notifications := [], unreadCount := 0\<rparr>"]
  ultimately show "feed_ok (feed_hydrate now items r f)"
    using unread_items [of ?is] distinct_newest [OF assms(1), of MAX_FEED]
    by (auto simp: feed_hydrate_def Let_def feed_ok_def entry_ok_def o_def)
  from h show "notifications (feed_hydrate now items r f) = map (\<lambda>n. (n_id n, n)) ?is"
    by (simp add: feed_hydrate_def Let_def)
qed

lemma newest_hd: "n \<in> set items \<Longrightarrow> n_timestamp n \<le> n_timestamp (hd (newest_first items))"
proof -
  assume n: "n \<in> set items"
  then obtain x xs where c: "newest_first items = x # xs" by (metis list.exhaust newest_set empty_iff list.set(1))
  have "sorted (map (\<lambda>n. - n_timestamp n) (newest_first items))" by (simp add: newest_first_def)
  moreover have "n \<in> set (newest_first items)" using n by simp
  ultimately show ?thesis using c by auto
qed

lemma update_ids: "\<forall>e\<in>set m. n_id (snd e) = fst e \<Longrightarrow>
  set (map (\<lambda>e. n_id (snd e)) (AList.update (n_id n) n m)) = insert (n_id n) (set (map fst m))"
  by (induction m) auto

section \<open>Runs of the store\<close>

lemma rows_ids: "table_ok t \<Longrightarrow> distinct (map n_id (rows_of u t)) \<and> (\<forall>n\<in>set (rows_of u t). n_id n \<noteq> [])"
  by (induction t) (auto simp: table_ok_def rows_of_def image_iff split: prod.splits)

lemma listed:
  assumes "table_ok t"
  shows "distinct (map n_id (table_list u k t))" and "\<forall>n\<in>set (table_list u k t). n_id n \<noteq> [] \<and> n_isRead n = n_read n"
proof -
  have "map n_id (table_list u k t) = map n_id (take k (newest_first (rows_of u t)))"
    by (simp add: table_list_def with_read_flags_def o_def)
  with distinct_newest rows_ids [OF assms] show "distinct (map n_id (table_list u k t))" by metis
  show "\<forall>n\<in>set (table_list u k t). n_id n \<noteq> [] \<and> n_isRead n = n_read n"
    using rows_ids [OF assms, of u] by (auto simp: table_list_def with_read_flags_def dest: in_set_takeD)
qed

lemma table_same_ids: "map (\<lambda>r. n_id (snd r)) t' = map (\<lambda>r. n_id (snd r)) t \<Longrightarrow> table_ok t \<Longrightarrow> table_ok t'"
  unfolding table_ok_def by (metis (no_types, lifting) image_iff list.set_map)

lemma saved_ok:
  assumes "table_ok t" and "n_id n \<noteq> []"
  shows "table_ok (table_save u n t)"
proof -
  have "table_ok (upsert_row u n t)"
  proof (cases "\<exists>r\<in>set t. n_id (snd r) = n_id n")
    case True
    show ?thesis by (rule table_same_ids [OF _ assms(1)]) (use True in \<open>auto simp: upsert_row_def\<close>)
  next
    case False
    with assms show ?thesis by (auto simp: upsert_row_def table_ok_def)
  qed
  then show ?thesis by (auto simp: table_save_def prune_def Let_def table_ok_def distinct_map filter_id_conv intro: inj_on_subset)
qed

definition store_ok :: "notif_store \<Rightarrow> bool" where
  "store_ok s \<longleftrightarrow> feed_ok (nfeed s) \<and> table_ok (ntable s)"

inductive feed_step :: "notif_store \<Rightarrow> notif_store \<Rightarrow> bool" where
  notified: "n_id (notification_of now g i) \<noteq> [] \<Longrightarrow> n_id (notification_of now g i) \<notin> set (map fst (notifications (nfeed s))) \<Longrightarrow>
    feed_step s (snd (store_add now g i s))"
| read_one: "feed_step s (snd (store_markRead now i s))"
| read_all: "feed_step s (snd (store_markAllRead now s))"
| deleted: "feed_step s (snd (store_delete now i s))"
| left: "feed_step s (store_logout now s)"
| rebooted: "feed_step s (store_hydrate now r s)"

definition feed_start :: "notif_store \<Rightarrow> bool" where
  "feed_start s \<longleftrightarrow> (\<exists>now. nfeed s = new_feed now) \<and> ntable s = []"

interpretation feed_run: machine_invariant feed_start feed_step store_ok
proof
  show "store_ok s" if "feed_start s" for s
    using that by (auto simp: feed_start_def store_ok_def new_feed_def feed_ok_def table_ok_def)
  show "store_ok t" if "feed_step s t" "store_ok s" for s t
    using that
  proof (cases rule: feed_step.cases)
    case (notified now g i)
    with that(2) show ?thesis using add_ok [of "nfeed s" now g i] saved_ok [of "ntable s" "notification_of now g i" "nuser s"]
      by (simp add: store_ok_def store_add_def feed_add_def Let_def)
  next
    case (read_one now i)
    have "table_ok (table_markRead (nuser s) i (ntable s))" if "table_ok (ntable s)"
      by (rule table_same_ids [OF _ that]) (simp add: table_markRead_def mark_def o_def case_prod_beta)
    with read_one that(2) marked_ok [of "nfeed s" now i] show ?thesis by (simp add: store_ok_def store_markRead_def case_prod_beta)
  next
    case (read_all now)
    have "table_ok (table_markAllRead (nuser s) (ntable s))" if "table_ok (ntable s)"
      by (rule table_same_ids [OF _ that]) (simp add: table_markAllRead_def mark_def o_def case_prod_beta)
    with read_all that(2) all_marked_ok [of "nfeed s" now] show ?thesis by (simp add: store_ok_def store_markAllRead_def case_prod_beta)
  next
    case (deleted now i)
    with that(2) deleted_ok [of "nfeed s" now i] show ?thesis by (simp add: store_ok_def store_delete_def case_prod_beta)
  next
    case (left now)
    with that(2) show ?thesis
      by (auto simp: store_ok_def store_logout_def feed_reset_def feed_ok_def table_ok_def table_deleteForUser_def distinct_map intro: inj_on_subset)
  next
    case (rebooted now r)
    with that(2) hydrated_ok(1) [OF listed] show ?thesis by (simp add: store_ok_def store_hydrate_def)
  qed
qed

section \<open>Properties\<close>

text \<open>The feed is well-formed in every run of additions under new ids, reads, deletions, logouts and restarts:
  at most a hundred notifications, one per id, and the number shown as unread is the number of unread
  notifications.\<close>

theorem feed_well_formed:
  assumes "reach feed_start feed_step s"
  shows "length (getAll (nfeed s)) \<le> 100 \<and> distinct (map n_id (getAll (nfeed s))) \<and>
    unreadCount (nfeed s) = int (length (filter (\<lambda>n. \<not> n_read n) (getAll (nfeed s))))"
proof -
  have ok: "feed_ok (nfeed s)" using feed_run.reach_good [OF assms] by (simp add: store_ok_def)
  then have "map n_id (getAll (nfeed s)) = map fst (notifications (nfeed s))"
    by (auto simp: getAll_def feed_ok_def entry_ok_def)
  with ok have "distinct (map n_id (getAll (nfeed s)))" by (simp only: feed_ok_def)
  moreover have "length (filter (\<lambda>n. \<not> n_read n) (map snd m)) = unread m" for m :: "(string, notification) jsmap"
    by (induction m) auto
  ultimately show ?thesis using ok by (simp add: feed_ok_def getAll_def MAX_FEED_def)
qed

definition plain_input :: "string \<Rightarrow> int \<Rightarrow> notification_input" where
  "plain_input i t = \<lparr>in_id = Some i, in_timestamp = Some t, in_severity = None, in_category = None, in_title = None,
     in_message = None, in_read = False, in_isRead = False, in_metadata = JUndef\<rparr>"

definition empty_store :: notif_store where
  "empty_store = \<lparr>nfeed = new_feed 0, ntable = [], nuser = ''u''\<rparr>"

definition two_alerts :: notif_store where
  "two_alerts = snd (store_add 2 ''g'' (plain_input ''n2'' 2) (snd (store_add 1 ''g'' (plain_input ''n1'' 1) empty_store)))"

theorem feed_well_formed_witness:
  "unreadCount (nfeed (snd (store_markRead 3 ''n1'' two_alerts))) = 1 \<and> length (getAll (nfeed (snd (store_markRead 3 ''n1'' two_alerts)))) \<le> 100"
proof -
  have "reach feed_start feed_step empty_store" by (rule reach_start) (auto simp: feed_start_def empty_store_def)
  then have "reach feed_start feed_step (snd (store_add 1 ''g'' (plain_input ''n1'' 1) empty_store))"
    by (rule reach_step) (rule notified, code_simp+)
  then have "reach feed_start feed_step two_alerts"
    unfolding two_alerts_def by (rule reach_step) (rule notified, code_simp+)
  then have "reach feed_start feed_step (snd (store_markRead 3 ''n1'' two_alerts))" by (rule reach_step) (rule read_one)
  moreover have "length (filter (\<lambda>n. \<not> n_read n) (getAll (nfeed (snd (store_markRead 3 ''n1'' two_alerts))))) = 1" by code_simp
  ultimately show ?thesis using feed_well_formed by fastforce
qed

text \<open>A logout removes every notification of the user, in memory and in the table, and nothing of other users.\<close>

theorem logout_clears_notifications:
  "getAll (nfeed (store_logout now s)) = [] \<and> table_list (nuser s) k (ntable (store_logout now s)) = [] \<and>
   (\<forall>u. u \<noteq> nuser s \<longrightarrow> table_list u k (ntable (store_logout now s)) = table_list u k (ntable s))"
proof -
  have "rows_of (nuser s) (table_deleteForUser (nuser s) (ntable s)) = []"
    by (auto simp: rows_of_def table_deleteForUser_def filter_empty_conv)
  moreover have "rows_of u (table_deleteForUser (nuser s) (ntable s)) = rows_of u (ntable s)" if "u \<noteq> nuser s" for u
    using that by (auto simp: rows_of_def table_deleteForUser_def intro!: arg_cong [where f = "map snd"] filter_cong)
  ultimately show ?thesis by (simp add: store_logout_def feed_reset_def getAll_def table_list_def newest_first_def)
qed

theorem logout_clears_notifications_witness:
  "table_list ''w'' 9 (ntable (store_logout 5 (two_alerts\<lparr>ntable := (''w'', notification_of 1 ''g'' (plain_input ''x'' 1)) # ntable two_alerts\<rparr>))) \<noteq> []"
proof -
  let ?s = "two_alerts\<lparr>ntable := (''w'', notification_of 1 ''g'' (plain_input ''x'' 1)) # ntable two_alerts\<rparr>"
  have "''w'' \<noteq> nuser ?s" "table_list ''w'' 9 (ntable ?s) \<noteq> []" by code_simp+
  then show ?thesis using logout_clears_notifications [of 5 ?s 9] by metis
qed

text \<open>A notification that was deleted returns: the deletion does not reach the table, so the next process
  shows it again.\<close>

theorem deleted_notification_returns:
  assumes "table_ok (ntable s)" and "(nuser s, n) \<in> set (ntable s)" and "length (rows_of (nuser s) (ntable s)) \<le> 100"
  shows "n_id n \<in> set (map n_id (getAll (nfeed (store_hydrate now r (snd (store_delete t (n_id n) s))))))"
proof -
  let ?l = "table_list (nuser s) MAX_FEED (ntable s)"
  have all: "take MAX_FEED (newest_first (rows_of (nuser s) (ntable s))) = newest_first (rows_of (nuser s) (ntable s))"
    using assms(3) by (simp add: newest_first_def MAX_FEED_def)
  have l: "n_id n \<in> n_id ` set ?l"
    using assms(2) all by (force simp: table_list_def rows_of_def with_read_flags_def image_iff)
  have "length ?l \<le> 100" by (simp add: table_list_def MAX_FEED_def)
  then have "set (take MAX_FEED (newest_first ?l)) = set ?l" by (simp add: newest_first_def MAX_FEED_def)
  moreover have "notifications (feed_hydrate now ?l (Some r) (new_feed now)) = map (\<lambda>n. (n_id n, n)) (take MAX_FEED (newest_first ?l))"
    by (rule hydrated_ok(2) [OF listed]) (use assms(1) in auto)
  ultimately show ?thesis using l
    by (simp add: store_hydrate_def store_delete_def case_prod_beta getAll_def image_image)
qed

theorem deleted_notification_returns_witness:
  "''n1'' \<in> set (map n_id (getAll (nfeed (store_hydrate 9 1 (snd (store_delete 5 ''n1'' two_alerts))))))"
proof -
  have "table_ok (ntable two_alerts)" "(nuser two_alerts, notification_of 1 ''g'' (plain_input ''n1'' 1)) \<in> set (ntable two_alerts)"
    "length (rows_of (nuser two_alerts) (ntable two_alerts)) \<le> 100" "n_id (notification_of 1 ''g'' (plain_input ''n1'' 1)) = ''n1''" by code_simp+
  then show ?thesis using deleted_notification_returns [of two_alerts] by metis
qed

text \<open>After a restart a full feed evicts its newest notification: hydration inserts the newest first, and
  the eviction takes the first entry for the oldest.\<close>

theorem full_feed_evicts_newest:
  assumes "table_ok (ntable s)" and "length (rows_of (nuser s) (ntable s)) = 100"
    and "(nuser s, n) \<in> set (ntable s)" and "\<forall>m\<in>set (rows_of (nuser s) (ntable s)). m \<noteq> n \<longrightarrow> n_timestamp m < n_timestamp n"
    and "n_id (notification_of now' g i) \<noteq> n_id n"
  shows "n_id n \<notin> set (map n_id (getAll (snd (feed_add now' g i (nfeed (store_hydrate now r s))))))"
proof -
  let ?l = "table_list (nuser s) MAX_FEED (ntable s)" and ?f = "nfeed (store_hydrate now r s)"
  have ids: "n_id (hd (newest_first ?l)) = n_id n" and len: "length ?l = 100"
  proof -
    have l: "set ?l = with_read_flags ` set (rows_of (nuser s) (ntable s))" "length ?l = 100"
      using assms(2) by (simp_all add: table_list_def newest_first_def MAX_FEED_def)
    have n: "n \<in> set (rows_of (nuser s) (ntable s))" using assms(3) by (force simp: rows_of_def)
    have ne: "newest_first ?l \<noteq> []" using l(2) by (metis list.size(3) newest_length zero_neq_numeral)
    then have "hd (newest_first ?l) \<in> set ?l" by (metis hd_in_set newest_set)
    with l(1) obtain m where m: "m \<in> set (rows_of (nuser s) (ntable s))" "hd (newest_first ?l) = with_read_flags m" by auto
    have "n_timestamp (with_read_flags n) \<le> n_timestamp (hd (newest_first ?l))" using n l(1) by (intro newest_hd) auto
    with m assms(4) have "m = n" by (fastforce simp: with_read_flags_def)
    with m(2) l(2) show "n_id (hd (newest_first ?l)) = n_id n" "length ?l = 100" by (simp_all add: with_read_flags_def)
  qed
  have ok: "feed_ok ?f" and nf: "notifications ?f = map (\<lambda>n. (n_id n, n)) (newest_first ?l)"
    using hydrated_ok [OF listed] assms(1) len by (simp_all add: store_hydrate_def newest_first_def MAX_FEED_def)
  have full: "length (notifications ?f) \<ge> MAX_FEED" using nf len by (simp add: newest_first_def MAX_FEED_def)
  then obtain e es where c: "notifications ?f = e # es" by (cases "notifications ?f") (auto simp: MAX_FEED_def)
  with nf ids have "fst e = n_id n" by (cases "newest_first ?l") auto
  moreover have "entry_ok e" using ok c by (simp add: feed_ok_def)
  ultimately have "notifications (evict_oldest ?f) = AList.delete (n_id n) (notifications ?f)"
    using c by (cases e) (auto simp: evict_oldest_def entry_ok_def)
  then have "n_id n \<notin> set (map fst (notifications (evict_oldest ?f)))" by (auto simp: AList.delete_eq)
  moreover have "\<forall>e\<in>set (notifications (evict_oldest ?f)). n_id (snd e) = fst e"
    using evict_ok [OF ok] by (simp add: feed_ok_def entry_ok_def)
  ultimately show ?thesis using full assms(5) update_ids [of "notifications (evict_oldest ?f)" "notification_of now' g i"]
    by (auto simp: feed_add_def Let_def put_record_def getAll_def image_iff)
qed

text \<open>Two identical alerts are counted twice: adding under an id that is present replaces the notification but
  counts it again.\<close>

theorem repeated_alert_overcounts:
  "unreadCount (nfeed (snd (store_add 3 ''g'' (plain_input ''n1'' 1) two_alerts))) = 3 \<and>
   length (filter (\<lambda>n. \<not> n_read n) (getAll (nfeed (snd (store_add 3 ''g'' (plain_input ''n1'' 1) two_alerts))))) = 2"
  by code_simp

text \<open>The default listing is empty: the route asks for the severity \<^verbatim>\<open>ALL\<close>, which the repository compares with
  the severity of each notification; and clearing the feed clears nothing though it reports success.\<close>

theorem default_listing_empty:
  assumes "\<forall>n\<in>set (getAll (nfeed s)). n_severity n \<noteq> ''ALL''"
  shows "fst (route_list None s) = [] \<and> snd (repo_clearAll s) = s"
  using assms by (simp add: route_list_def repo_list_def opt_or_def repo_clearAll_def)

theorem default_listing_empty_witness: "fst (route_list None two_alerts) = [] \<and> length (getAll (nfeed two_alerts)) = 2"
proof -
  have "\<forall>n\<in>set (getAll (nfeed two_alerts)). n_severity n \<noteq> ''ALL''" "length (getAll (nfeed two_alerts)) = 2" by code_simp+
  then show ?thesis using default_listing_empty [of two_alerts] by simp
qed

end
