(* ===== verification/SecretsGate.thy ===== *)
theory SecretsGate
  imports JsPrelude
begin

text \<open>
  The gate in front of tables, logs and views (\<^verbatim>\<open>state-store/validation/SanitizerGate.mjs\<close>) and the
  filter of outgoing WebSocket messages that uses it (\<^verbatim>\<open>api-server/websocket/wsServer.mjs\<close>). An object is
  the list of its own members in enumeration order; a member named \<^verbatim>\<open>__proto__\<close>, whose assignment
  JavaScript treats specially, is not considered.
\<close>

section \<open>The gate\<close>

definition FORBIDDEN_SECRET_KEYS :: "string list" where
  "FORBIDDEN_SECRET_KEYS =
     [''accountPassword'', ''password'', ''rawPassword'', ''sessionToken'', ''session_token'', ''token'', ''jwt'',
      ''refreshToken'', ''proxyPassword'', ''proxyAuth'', ''secret'', ''secretKey'', ''cardToken'', ''cvv'',
      ''authorizationCode'', ''cookies'', ''cookie'', ''credentials'', ''credential'', ''privateKey'', ''private_key'']"

definition PROTECTED :: jsval where
  "PROTECTED = JStr ''[PROTECTED]''"

definition secret_key :: "string \<Rightarrow> bool" where
  "secret_key k \<longleftrightarrow> k \<in> set FORBIDDEN_SECRET_KEYS"

text \<open>\<open>Inl k\<close> is a \<^verbatim>\<open>SecurityViolationError\<close> for the member \<open>k\<close>.\<close>

definition with_member :: "'a \<Rightarrow> string + 'a list \<Rightarrow> string + 'a list" where
  "with_member m r = map_sum id (\<lambda>ms. m # ms) r"

fun sanitize :: "bool \<Rightarrow> jsval \<Rightarrow> string + jsval"
  and sanitize_members :: "bool \<Rightarrow> (string \<times> jsval) list \<Rightarrow> string + (string \<times> jsval) list"
  and sanitize_elements :: "bool \<Rightarrow> jsval list \<Rightarrow> string + jsval list" where
  "sanitize throwOnDetection (JArr xs) = map_sum id JArr (sanitize_elements throwOnDetection xs)"
| "sanitize throwOnDetection (JObj kvs) = map_sum id JObj (sanitize_members throwOnDetection kvs)"
| "sanitize throwOnDetection v = Inr v"
| "sanitize_members throwOnDetection [] = Inr []"
| "sanitize_members throwOnDetection ((k, v) # kvs) =
     (if secret_key k
      then (if k = ''accountPassword'' \<and> v = PROTECTED then with_member (k, PROTECTED) (sanitize_members throwOnDetection kvs)
            else if throwOnDetection then Inl k
            else if k = ''accountPassword'' then with_member (k, PROTECTED) (sanitize_members throwOnDetection kvs)
            else sanitize_members throwOnDetection kvs)
      else case sanitize throwOnDetection v of
             Inl e \<Rightarrow> Inl e
           | Inr v' \<Rightarrow> with_member (k, v') (sanitize_members throwOnDetection kvs))"
| "sanitize_elements throwOnDetection [] = Inr []"
| "sanitize_elements throwOnDetection (x # xs) =
     (case sanitize throwOnDetection x of
        Inl e \<Rightarrow> Inl e
      | Inr x' \<Rightarrow> with_member x' (sanitize_elements throwOnDetection xs))"

definition assertZeroSecrets :: "jsval \<Rightarrow> string + unit" where
  "assertZeroSecrets v = map_sum id (\<lambda>_. ()) (sanitize True v)"

section \<open>Accounts for export\<close>

text \<open>\<^verbatim>\<open>{ ...v }\<close>: the members of an object, the indexed elements of an array.\<close>

fun spread :: "jsval \<Rightarrow> (string \<times> jsval) list" where
  "spread (JObj kvs) = kvs"
| "spread (JArr xs) = zip (map dec_string [0..<length xs]) xs"
| "spread _ = []"

definition deleted_on_export :: "string list" where
  "deleted_on_export =
     [''password'', ''rawPassword'', ''cookies'', ''cookie'', ''credentials'', ''credential'', ''privateKey'', ''private_key'',
      ''session_token'', ''sessionToken'', ''token'', ''jwt'', ''refreshToken'', ''secret'', ''secretKey'', ''proxyPassword'',
      ''proxyAuth'', ''cardToken'', ''cvv'', ''authorizationCode'']"

definition strip_effective_config :: "(string \<times> jsval) list \<Rightarrow> (string \<times> jsval) list" where
  "strip_effective_config clean =
     (let cfg = obj_get clean ''effectiveConfig'' in
      if truthy cfg \<and> typeof_object cfg
      then AList.update ''effectiveConfig'' (JObj (fold AList.delete FORBIDDEN_SECRET_KEYS (spread cfg))) clean
      else clean)"

definition export_members :: "(string \<times> jsval) list \<Rightarrow> (string \<times> jsval) list" where
  "export_members clean =
     strip_effective_config (fold AList.delete deleted_on_export (AList.update ''accountPassword'' PROTECTED clean))"

fun sanitizeAccountForExport :: "jsval \<Rightarrow> jsval" and export_elements :: "jsval list \<Rightarrow> jsval list" where
  "sanitizeAccountForExport (JArr xs) = JArr (export_elements xs)"
| "sanitizeAccountForExport (JObj kvs) =
     (case sanitize_members False kvs of Inr clean \<Rightarrow> JObj (export_members clean) | Inl e \<Rightarrow> JUndef)"
| "sanitizeAccountForExport v = v"
| "export_elements [] = []"
| "export_elements (x # xs) = sanitizeAccountForExport x # export_elements xs"

definition sanitizeOutboundPayload :: "string \<Rightarrow> jsval \<Rightarrow> jsval" where
  "sanitizeOutboundPayload topic payload =
     (if \<not> truthy payload \<or> \<not> typeof_object payload then payload
      else if topic = ''accounts:delta'' \<and> truthy (js_get payload ''partialSnapshot'')
      then JObj (AList.update ''partialSnapshot'' (sanitizeAccountForExport (js_get payload ''partialSnapshot'')) (spread payload))
      else if topic = ''accounts:view'' \<and> is_array (js_get payload ''viewportAccounts'')
      then JObj (AList.update ''viewportAccounts''
             (case js_get payload ''viewportAccounts'' of JArr xs \<Rightarrow> JArr (map sanitizeAccountForExport xs) | v \<Rightarrow> v) (spread payload))
      else if topic = ''accounts:snapshot'' \<and> is_array payload
      then (case payload of JArr xs \<Rightarrow> JArr (map sanitizeAccountForExport xs) | v \<Rightarrow> v)
      else payload)"

section \<open>What a document carries\<close>

text \<open>\<open>carries v k u\<close>: somewhere in \<open>v\<close>, at any depth, there is a member \<open>k\<close> with the value \<open>u\<close>.\<close>

inductive carries :: "jsval \<Rightarrow> string \<Rightarrow> jsval \<Rightarrow> bool" where
  own_member: "(k, u) \<in> set kvs \<Longrightarrow> carries (JObj kvs) k u"
| below_member: "(k', v) \<in> set kvs \<Longrightarrow> carries v k u \<Longrightarrow> carries (JObj kvs) k u"
| below_element: "v \<in> set xs \<Longrightarrow> carries v k u \<Longrightarrow> carries (JArr xs) k u"

inductive_simps carries_obj: "carries (JObj kvs) k u"
inductive_simps carries_arr: "carries (JArr xs) k u"
inductive_simps carries_atom [simp]: "carries JUndef k u" "carries JNull k u" "carries (JBool b) k u" "carries (JNum n) k u" "carries (JStr s) k u"

definition no_secrets :: "jsval \<Rightarrow> bool" where
  "no_secrets v \<longleftrightarrow> (\<forall>k u. carries v k u \<longrightarrow> secret_key k \<longrightarrow> k = ''accountPassword'' \<and> u = PROTECTED)"

definition member_ok :: "string \<times> jsval \<Rightarrow> bool" where
  "member_ok m \<longleftrightarrow> (if secret_key (fst m) then m = (''accountPassword'', PROTECTED) else no_secrets (snd m))"

lemma no_secrets_arr [simp]: "no_secrets (JArr xs) \<longleftrightarrow> (\<forall>x\<in>set xs. no_secrets x)"
  by (auto simp: no_secrets_def carries_arr)

lemma no_secrets_atom [simp]: "no_secrets JUndef" "no_secrets JNull" "no_secrets (JBool b)" "no_secrets (JNum n)" "no_secrets (JStr s)"
  by (simp_all add: no_secrets_def)

lemma no_secrets_protected [simp]: "no_secrets PROTECTED"
  by (simp add: PROTECTED_def)

lemma no_secrets_obj [simp]: "no_secrets (JObj kvs) \<longleftrightarrow> (\<forall>m\<in>set kvs. member_ok m)"
proof
  assume "no_secrets (JObj kvs)"
  then have "secret_key k \<Longrightarrow> k = ''accountPassword'' \<and> v = PROTECTED" "no_secrets v" if "(k, v) \<in> set kvs" for k v
    using that by (auto simp: no_secrets_def intro: own_member below_member)
  then show "\<forall>m\<in>set kvs. member_ok m" by (auto simp: member_ok_def)
next
  assume ok: "\<forall>m\<in>set kvs. member_ok m"
  have "k = ''accountPassword'' \<and> u = PROTECTED" if "carries (JObj kvs) k u" "secret_key k" for k u
    using that(1) unfolding carries_obj
  proof
    assume "(k, u) \<in> set kvs"
    with ok that(2) show ?thesis by (auto simp: member_ok_def)
  next
    assume "\<exists>k' v. (k', v) \<in> set kvs \<and> carries v k u"
    then obtain k' v where m: "(k', v) \<in> set kvs" "carries v k u" by blast
    with ok have "no_secrets v" by (fastforce simp: member_ok_def split: if_splits)
    with m(2) that(2) show ?thesis by (simp add: no_secrets_def)
  qed
  then show "no_secrets (JObj kvs)" by (simp add: no_secrets_def)
qed

lemma member_ok_protected [simp]: "member_ok (''accountPassword'', PROTECTED)"
  by (simp add: member_ok_def)

section \<open>Lemmas\<close>

lemma with_member_Inr [simp]: "with_member m r = Inr ms \<longleftrightarrow> (\<exists>ms'. r = Inr ms' \<and> ms = m # ms')"
  by (cases r) (auto simp: with_member_def)

lemma with_member_Inl [simp]: "with_member m r = Inl e \<longleftrightarrow> r = Inl e"
  by (cases r) (auto simp: with_member_def)

lemma map_sum_Inr [simp]: "map_sum f g r = Inr y \<longleftrightarrow> (\<exists>x. r = Inr x \<and> y = g x)"
  by (cases r) auto

lemma map_sum_Inl [simp]: "map_sum f g r = Inl y \<longleftrightarrow> (\<exists>x. r = Inl x \<and> y = f x)"
  by (cases r) auto

text \<open>A value is clean to the gate when it is reduced to one without secrets, which it leaves alone if it
  has none, and accepted when throwing exactly if it has none.\<close>

definition gated :: "jsval \<Rightarrow> bool" where
  "gated v \<longleftrightarrow> (\<exists>v'. sanitize False v = Inr v' \<and> no_secrets v' \<and> (no_secrets v \<longrightarrow> v' = v)) \<and>
     (if no_secrets v then sanitize True v = Inr v else \<exists>k. sanitize True v = Inl k \<and> secret_key k)"

definition gated_members :: "(string \<times> jsval) list \<Rightarrow> bool" where
  "gated_members kvs \<longleftrightarrow>
     (\<exists>ms. sanitize_members False kvs = Inr ms \<and> (\<forall>m\<in>set ms. member_ok m) \<and> ((\<forall>m\<in>set kvs. member_ok m) \<longrightarrow> ms = kvs)) \<and>
     (if \<forall>m\<in>set kvs. member_ok m then sanitize_members True kvs = Inr kvs else \<exists>k. sanitize_members True kvs = Inl k \<and> secret_key k)"

definition gated_elements :: "jsval list \<Rightarrow> bool" where
  "gated_elements xs \<longleftrightarrow>
     (\<exists>ys. sanitize_elements False xs = Inr ys \<and> (\<forall>y\<in>set ys. no_secrets y) \<and> ((\<forall>x\<in>set xs. no_secrets x) \<longrightarrow> ys = xs)) \<and>
     (if \<forall>x\<in>set xs. no_secrets x then sanitize_elements True xs = Inr xs else \<exists>k. sanitize_elements True xs = Inl k \<and> secret_key k)"

lemma gated_member:
  assumes "gated v" and "gated_members kvs"
  shows "gated_members ((k, v) # kvs)"
proof -
  obtain v' where v: "sanitize False v = Inr v'" "no_secrets v'" "no_secrets v \<longrightarrow> v' = v"
    using assms(1) by (auto simp: gated_def)
  obtain ms where ms: "sanitize_members False kvs = Inr ms" "\<forall>m\<in>set ms. member_ok m" "(\<forall>m\<in>set kvs. member_ok m) \<longrightarrow> ms = kvs"
    using assms(2) by (auto simp: gated_members_def)
  let ?ms = "if secret_key k then if k = ''accountPassword'' then (k, PROTECTED) # ms else ms else (k, v') # ms"
  have "sanitize_members False ((k, v) # kvs) = Inr ?ms" by (simp add: v(1) ms(1) with_member_def)
  moreover have "\<forall>m\<in>set ?ms. member_ok m" using ms(2) v(2) by (simp add: member_ok_def)
  moreover have "?ms = (k, v) # kvs" if "\<forall>m\<in>set ((k, v) # kvs). member_ok m"
    using that v(3) ms(3) by (simp add: member_ok_def split: if_splits)
  ultimately have "\<exists>ms. sanitize_members False ((k, v) # kvs) = Inr ms \<and> (\<forall>m\<in>set ms. member_ok m) \<and>
      ((\<forall>m\<in>set ((k, v) # kvs). member_ok m) \<longrightarrow> ms = (k, v) # kvs)" by blast
  moreover have "if no_secrets v then sanitize True v = Inr v else \<exists>k. sanitize True v = Inl k \<and> secret_key k"
    "if \<forall>m\<in>set kvs. member_ok m then sanitize_members True kvs = Inr kvs else \<exists>k. sanitize_members True kvs = Inl k \<and> secret_key k"
    using assms unfolding gated_def gated_members_def by blast+
  then have "if \<forall>m\<in>set ((k, v) # kvs). member_ok m then sanitize_members True ((k, v) # kvs) = Inr ((k, v) # kvs)
      else \<exists>k'. sanitize_members True ((k, v) # kvs) = Inl k' \<and> secret_key k'"
    by (cases "member_ok (k, v)"; cases "secret_key k"; cases "\<forall>m\<in>set kvs. member_ok m") (auto simp: member_ok_def)
  ultimately show ?thesis by (simp only: gated_members_def)
qed

lemma gated_element: "gated x \<Longrightarrow> gated_elements xs \<Longrightarrow> gated_elements (x # xs)"
  by (auto simp: gated_def gated_elements_def split: if_splits)

lemma members_gated: "(\<And>k v. (k, v) \<in> set kvs \<Longrightarrow> gated v) \<Longrightarrow> gated_members kvs"
proof (induction kvs)
  case (Cons m kvs)
  then show ?case using gated_member [of "snd m" kvs "fst m"] by (metis list.set_intros prod.collapse)
qed (simp add: gated_members_def)

lemma elements_gated: "(\<And>x. x \<in> set xs \<Longrightarrow> gated x) \<Longrightarrow> gated_elements xs"
  by (induction xs) (simp_all add: gated_elements_def [of "[]"] gated_element)

lemma all_gated: "gated v"
proof (induction v)
  case (JArr xs)
  then have "gated_elements xs" by (rule elements_gated)
  then show ?case by (auto simp: gated_def gated_elements_def split: if_splits)
next
  case (JObj kvs)
  then have "gated_members kvs" by (intro members_gated) force
  then show ?case by (auto simp: gated_def gated_members_def split: if_splits)
qed (simp_all add: gated_def)

text \<open>Deleting and updating members keeps an object clean.\<close>

lemma delete_ok: "\<forall>m\<in>set kvs. member_ok m \<Longrightarrow> \<forall>m\<in>set (fold AList.delete ks kvs). member_ok m"
proof (induction ks arbitrary: kvs)
  case (Cons k ks)
  then have "\<forall>m\<in>set (AList.delete k kvs). member_ok m" by (auto simp: AList.delete_eq)
  with Cons.IH [of "AList.delete k kvs"] show ?case by simp
qed simp

lemma update_ok: "\<forall>m\<in>set kvs. member_ok m \<Longrightarrow> member_ok (k, v) \<Longrightarrow> \<forall>m\<in>set (AList.update k v kvs). member_ok m"
  by (induction kvs) auto

lemma secret_keys_end_in_letter: "list_all (\<lambda>k. 65 \<le> (of_char (last k) :: nat)) FORBIDDEN_SECRET_KEYS"
  by code_simp

lemma index_not_secret: "\<not> secret_key (dec_string n)"
proof
  assume "secret_key (dec_string n)"
  then have "65 \<le> (of_char (last (dec_string n)) :: nat)"
    using secret_keys_end_in_letter by (auto simp: secret_key_def list_all_iff)
  moreover have "last (dec_string n) = digit_char (n mod 10)" by (simp add: dec_string.simps [of n])
  ultimately show False using digit_char_value [of "n mod 10"] by simp
qed

lemma spread_ok: "no_secrets v \<Longrightarrow> \<forall>m\<in>set (spread v). member_ok m"
  by (cases v) (auto simp: member_ok_def index_not_secret set_zip)

lemma get_ok: "\<forall>m\<in>set kvs. member_ok m \<Longrightarrow> \<not> secret_key k \<Longrightarrow> no_secrets (obj_get kvs k)"
  by (fastforce simp: obj_get_def member_ok_def dest: map_of_SomeD split: option.splits)

lemma delete_keeps_password: "''accountPassword'' \<notin> set ks \<Longrightarrow>
  map_of (fold AList.delete ks kvs) ''accountPassword'' = map_of kvs ''accountPassword''"
  by (induction ks arbitrary: kvs) (auto simp: delete_conv')

lemma strip_either:
  assumes "P clean"
    and "P (AList.update ''effectiveConfig'' (JObj (fold AList.delete FORBIDDEN_SECRET_KEYS (spread (obj_get clean ''effectiveConfig'')))) clean)"
  shows "P (strip_effective_config clean)"
  using assms by (simp add: strip_effective_config_def Let_def)

lemma export_ok: "\<forall>m\<in>set clean. member_ok m \<Longrightarrow> \<forall>m\<in>set (export_members clean). member_ok m"
proof -
  assume clean: "\<forall>m\<in>set clean. member_ok m"
  define ms where "ms = fold AList.delete deleted_on_export (AList.update ''accountPassword'' PROTECTED clean)"
  have ms: "\<forall>m\<in>set ms. member_ok m" unfolding ms_def by (intro delete_ok update_ok clean) simp
  have cfg: "\<not> secret_key ''effectiveConfig''" by (simp add: secret_key_def FORBIDDEN_SECRET_KEYS_def)
  have "\<forall>m\<in>set (fold AList.delete FORBIDDEN_SECRET_KEYS (spread (obj_get ms ''effectiveConfig''))). member_ok m"
    by (intro delete_ok spread_ok get_ok ms cfg)
  then have "member_ok (''effectiveConfig'', JObj (fold AList.delete FORBIDDEN_SECRET_KEYS (spread (obj_get ms ''effectiveConfig''))))"
    using cfg by (simp add: member_ok_def)
  from strip_either [where P = "\<lambda>clean. \<forall>m\<in>set clean. member_ok m", OF ms update_ok [OF ms this]]
  have "\<forall>m\<in>set (strip_effective_config ms). member_ok m" .
  then show ?thesis by (simp only: export_members_def ms_def)
qed

lemma export_no_secrets: "no_secrets (sanitizeAccountForExport v)" "\<forall>y\<in>set (export_elements xs). no_secrets y"
proof (induction v and xs rule: sanitizeAccountForExport_export_elements.induct)
  case (2 kvs)
  have "gated_members kvs" using all_gated by (rule members_gated)
  then show ?case by (auto simp: gated_members_def export_ok)
qed auto

section \<open>Properties\<close>

text \<open>The gate strips exactly the secrets: it always returns, the result carries no secret at any depth other
  than the placeholder of a masked password, and a document without secrets comes back unchanged.\<close>

theorem sanitize_strips_secrets:
  "\<exists>v'. sanitize False v = Inr v' \<and> (no_secrets v \<longrightarrow> v' = v) \<and>
     (\<forall>k u. carries v' k u \<and> k \<in> set FORBIDDEN_SECRET_KEYS \<longrightarrow> k = ''accountPassword'' \<and> u = PROTECTED)"
  using all_gated [of v] by (auto simp: gated_def no_secrets_def secret_key_def)

definition sample_account :: jsval where
  "sample_account = JObj [(''id'', JStr ''a1''), (''accountPassword'', JStr ''hunter2''), (''effectiveConfig'', JObj [(''token'', JStr ''t'')]),
     (''proxies'', JArr [JObj [(''proxyAuth'', JStr ''u:p''), (''url'', JStr ''h'')]])]"

theorem sanitize_strips_secrets_witness:
  "sanitize False sample_account = Inr (JObj [(''id'', JStr ''a1''), (''accountPassword'', PROTECTED), (''effectiveConfig'', JObj []),
     (''proxies'', JArr [JObj [(''url'', JStr ''h'')]])]) \<and>
   \<not> carries (JObj [(''id'', JStr ''a1''), (''accountPassword'', PROTECTED), (''effectiveConfig'', JObj []),
     (''proxies'', JArr [JObj [(''url'', JStr ''h'')]])]) ''proxyAuth'' (JStr ''u:p'')"
proof -
  have s: "sanitize False sample_account = Inr (JObj [(''id'', JStr ''a1''), (''accountPassword'', PROTECTED), (''effectiveConfig'', JObj []),
     (''proxies'', JArr [JObj [(''url'', JStr ''h'')]])])" by code_simp
  moreover have "''proxyAuth'' \<in> set FORBIDDEN_SECRET_KEYS" by (simp add: FORBIDDEN_SECRET_KEYS_def)
  moreover have "''proxyAuth'' \<noteq> ''accountPassword''" by simp
  ultimately show ?thesis using sanitize_strips_secrets [of sample_account] by (metis Inr_inject)
qed

text \<open>The check in front of the tables is exact: it accepts a document exactly if no secret occurs in it at any
  depth, a masked password excepted, and otherwise throws for a member that is secret.\<close>

theorem zero_secrets_exact:
  "assertZeroSecrets v = Inr () \<longleftrightarrow>
     (\<forall>k u. carries v k u \<and> k \<in> set FORBIDDEN_SECRET_KEYS \<longrightarrow> k = ''accountPassword'' \<and> u = PROTECTED)"
proof -
  have n: "no_secrets v \<longleftrightarrow> (\<forall>k u. carries v k u \<and> k \<in> set FORBIDDEN_SECRET_KEYS \<longrightarrow> k = ''accountPassword'' \<and> u = PROTECTED)"
    by (auto simp: no_secrets_def secret_key_def)
  from all_gated [of v] show ?thesis unfolding n [symmetric] by (auto simp: gated_def assertZeroSecrets_def split: if_splits)
qed

theorem zero_secrets_exact_witness: "assertZeroSecrets sample_account \<noteq> Inr ()"
proof -
  have "carries sample_account ''proxyAuth'' (JStr ''u:p'')"
    unfolding sample_account_def by (rule below_member [where k' = "''proxies''"], simp, rule below_element, simp, rule own_member, simp)
  moreover have "''proxyAuth'' \<in> set FORBIDDEN_SECRET_KEYS" by (simp add: FORBIDDEN_SECRET_KEYS_def)
  moreover have "''proxyAuth'' \<noteq> ''accountPassword''" by simp
  ultimately show ?thesis using zero_secrets_exact [of sample_account] by metis
qed



text \<open>A password under its column name passes the gate: \<^verbatim>\<open>account_password\<close> is not in the list, although the
  accounts container reads it as a password.\<close>

theorem column_password_passes:
  "sanitize False (JObj [(''account_password'', JStr p)]) = Inr (JObj [(''account_password'', JStr p)])"
  by (simp add: secret_key_def FORBIDDEN_SECRET_KEYS_def with_member_def)

end
