(* ===== verification/AccountsContainer.thy ===== *)
theory AccountsContainer
  imports SecretsGate
begin

text \<open>
  The accounts in memory: \<^verbatim>\<open>state-store/memory/AccountsContainer.mjs\<close>. An account is an object, the map is
  keyed by the member \<^verbatim>\<open>id\<close>. Times are the numbers the code prints with \<^verbatim>\<open>toISOString\<close>; \<open>toNumber\<close> is
  \<^verbatim>\<open>Number\<close>, \<open>newId\<close> is \<^verbatim>\<open>crypto.randomUUID()\<close>.
\<close>

section \<open>Values and errors\<close>

datatype store_error =
    RevisionConflict string nat nat
  | ValidationError string
  | StoreTypeError               \<comment> \<open>a method of undefined, or of a value without it\<close>
  | SqlFailure

text \<open>\<^verbatim>\<open>v.toLowerCase()\<close>.\<close>

fun lower_of :: "jsval \<Rightarrow> store_error + string" where
  "lower_of (JStr s) = Inr (toLowerCase s)"
| "lower_of _ = Inl StoreTypeError"

definition naira :: jsval where
  "naira = JStr [CHR 0xE2, CHR 0x82, CHR 0xA6]"

definition bullets :: string where
  "bullets = [CHR 0xE2, CHR 0x80, CHR 0xA2, CHR 0xE2, CHR 0x80, CHR 0xA2, CHR 0xE2, CHR 0x80, CHR 0xA2]"

definition mask_marks :: "string list" where
  "mask_marks = [''***'', ''???'', bullets]"

definition masked_string :: "string \<Rightarrow> bool" where
  "masked_string s \<longleftrightarrow> s = [] \<or> s = ''[PROTECTED]'' \<or> list_ex (includes_str s) mask_marks"

fun isMaskedPassword :: "jsval \<Rightarrow> store_error + bool" where
  "isMaskedPassword (JStr s) = Inr (masked_string s)"
| "isMaskedPassword (JArr xs) = Inr (list_ex (\<lambda>m. JStr m \<in> set xs) mask_marks)"
| "isMaskedPassword v = (if truthy v then Inl StoreTypeError else Inr True)"

definition iso :: "int \<Rightarrow> jsval" where
  "iso t = JNum (Fin (of_int t))"

section \<open>The container\<close>

record balance_meta =
  bm_balance :: jsnum
  bm_currencySymbol :: jsval
  bm_lastUpdated :: jsval
  bm_isStale :: bool

record accounts =
  acc_accounts :: "(jsval, obj) jsmap"
  acc_balances :: "(jsval, balance_meta) jsmap"
  acc_revision :: nat
  acc_lastUpdated :: int

definition new_accounts :: "int \<Rightarrow> accounts" where
  "new_accounts now = \<lparr>acc_accounts = [], acc_balances = [], acc_revision = 1, acc_lastUpdated = now\<rparr>"

definition acc_reset :: "int \<Rightarrow> accounts \<Rightarrow> accounts" where
  "acc_reset now c = c\<lparr>acc_accounts := [], acc_balances := [], acc_revision := 1, acc_lastUpdated := now\<rparr>"

definition acc_getById :: "jsval \<Rightarrow> accounts \<Rightarrow> obj option" where
  "acc_getById i c = map_of (acc_accounts c) i"

definition acc_getAll :: "accounts \<Rightarrow> obj list" where
  "acc_getAll c = map snd (acc_accounts c)"

definition or_zero :: "jsnum \<Rightarrow> jsnum" where
  "or_zero n = (if n = NaN then Fin 0 else n)"

definition acc_getBalance :: "jsval \<Rightarrow> accounts \<Rightarrow> balance_meta" where
  "acc_getBalance i c =
     (case map_of (acc_balances c) i of
        Some b \<Rightarrow> b
      | None \<Rightarrow> \<lparr>bm_balance = Fin 0, bm_currencySymbol = naira, bm_lastUpdated = iso (acc_lastUpdated c), bm_isStale = True\<rparr>)"

definition platform_of :: "obj \<Rightarrow> jsval" where
  "platform_of a = js_or (obj_get a ''platformDisplayName'') (obj_get a ''platformId'')"

fun find_account :: "string \<Rightarrow> string \<Rightarrow> obj list \<Rightarrow> store_error + obj option" where
  "find_account p u [] = Inr None"
| "find_account p u (a # as) =
     (case lower_of (js_or (platform_of a) (JStr [])) of
        Inl e \<Rightarrow> Inl e
      | Inr ap \<Rightarrow>
          if ap \<noteq> p then find_account p u as
          else (case lower_of (obj_get a ''accountUsername'') of
                  Inl e \<Rightarrow> Inl e
                | Inr au \<Rightarrow> if au = u then Inr (Some a) else find_account p u as))"

definition findByPlatformAndUsername :: "jsval \<Rightarrow> jsval \<Rightarrow> accounts \<Rightarrow> store_error + obj option" where
  "findByPlatformAndUsername platform username c =
     (case lower_of platform of
        Inl e \<Rightarrow> Inl e
      | Inr p \<Rightarrow> (case lower_of username of Inl e \<Rightarrow> Inl e | Inr u \<Rightarrow> find_account p u (acc_getAll c)))"

definition kept_password :: "jsval \<Rightarrow> obj option \<Rightarrow> store_error + jsval" where
  "kept_password incoming existing =
     (case isMaskedPassword incoming of
        Inl e \<Rightarrow> Inl e
      | Inr False \<Rightarrow> Inr incoming
      | Inr True \<Rightarrow>
          (case existing of
             None \<Rightarrow> Inr PROTECTED
           | Some a \<Rightarrow>
               if \<not> truthy (obj_get a ''accountPassword'') then Inr PROTECTED
               else (case isMaskedPassword (obj_get a ''accountPassword'') of
                       Inl e \<Rightarrow> Inl e
                     | Inr True \<Rightarrow> Inr PROTECTED
                     | Inr False \<Rightarrow> Inr (obj_get a ''accountPassword''))))"

definition sanitized :: "obj \<Rightarrow> obj" where
  "sanitized a = (case sanitize_members False a of Inr ms \<Rightarrow> ms | Inl e \<Rightarrow> [])"

definition array_or :: "jsval \<Rightarrow> jsval \<Rightarrow> jsval" where
  "array_or v d = (if is_array v then v else d)"

definition default_actions :: jsval where
  "default_actions = JArr [JStr ''ACTIVATE'', JStr ''DEACTIVATE'', JStr ''DELETE'']"

definition optional_get :: "obj option \<Rightarrow> string \<Rightarrow> jsval" where
  "optional_get a k = (case a of None \<Rightarrow> JUndef | Some kvs \<Rightarrow> obj_get kvs k)"

text \<open>The record an upsert builds; \<open>existing\<close> is the account found by platform and user name.\<close>

definition account_record :: "int \<Rightarrow> jsval \<Rightarrow> jsval \<Rightarrow> string \<Rightarrow> jsval \<Rightarrow> obj option \<Rightarrow> obj \<Rightarrow> obj" where
  "account_record now newId platform lowerPlatform rawPassword existing s =
     [(''id'', js_or (obj_get s ''id'') newId),
      (''name'', js_or (obj_get s ''name'') (obj_get s ''accountUsername'')),
      (''platformId'', js_or (obj_get s ''platformId'') (JStr lowerPlatform)),
      (''platformDisplayName'', js_or (obj_get s ''platformDisplayName'') platform),
      (''accountUsername'', obj_get s ''accountUsername''),
      (''accountPassword'', rawPassword),
      (''backendState'', js_or (obj_get s ''backendState'') (JStr ''ACTIVE'')),
      (''desiredState'', js_or (obj_get s ''desiredState'') (JStr ''STOPPED'')),
      (''observedState'', js_or (obj_get s ''observedState'') (JStr ''STOPPED'')),
      (''executionStatusReason'', js_or (obj_get s ''executionStatusReason'') JNull),
      (''presentationCategory'', js_or (obj_get s ''presentationCategory'') (JStr ''Healthy'')),
      (''statusDescription'', js_or (obj_get s ''statusDescription'') (JStr ''Active & Synchronized'')),
      (''isSelectable'', JBool (obj_get s ''isSelectable'' \<noteq> JBool False)),
      (''availableActions'', array_or (obj_get s ''availableActions'') default_actions),
      (''pendingOperation'', js_or (obj_get s ''pendingOperation'') JNull),
      (''tags'', array_or (obj_get s ''tags'') (JArr [])),
      (''effectiveConfig'', js_or (obj_get s ''effectiveConfig'') (js_or (optional_get existing ''effectiveConfig'') JNull)),
      (''lastKnownBalance'', if obj_get s ''lastKnownBalance'' \<noteq> JUndef then obj_get s ''lastKnownBalance''
                            else optional_get existing ''lastKnownBalance''),
      (''currencySymbol'', js_or (obj_get s ''currencySymbol'') (js_or (optional_get existing ''currencySymbol'') naira)),
      (''lastUpdated'', iso now),
      (''lastSynchronization'', js_or (obj_get s ''lastSynchronization'') (iso now))]"

definition note_balance :: "(jsval \<Rightarrow> jsnum) \<Rightarrow> jsval \<Rightarrow> obj \<Rightarrow> (jsval, balance_meta) jsmap \<Rightarrow> (jsval, balance_meta) jsmap" where
  "note_balance toNumber updated a bs =
     (if obj_get a ''lastKnownBalance'' = JUndef then bs
      else AList.update (obj_get a ''id'')
             \<lparr>bm_balance = or_zero (toNumber (obj_get a ''lastKnownBalance'')), bm_currencySymbol = js_or (obj_get a ''currencySymbol'') naira,
              bm_lastUpdated = updated, bm_isStale = False\<rparr> bs)"

definition conflict :: "string \<Rightarrow> nat option \<Rightarrow> accounts \<Rightarrow> bool" where
  "conflict what expected c \<longleftrightarrow> expected \<noteq> None \<and> expected \<noteq> Some (acc_revision c)"

definition put_account :: "(jsval \<Rightarrow> jsnum) \<Rightarrow> int \<Rightarrow> obj \<Rightarrow> accounts \<Rightarrow> accounts" where
  "put_account toNumber now a c =
     c\<lparr>acc_balances := note_balance toNumber (iso now) a (acc_balances c),
       acc_accounts := AList.update (obj_get a ''id'') a (acc_accounts c),
       acc_revision := acc_revision c + 1, acc_lastUpdated := now\<rparr>"

definition acc_upsert ::
  "(jsval \<Rightarrow> jsnum) \<Rightarrow> int \<Rightarrow> jsval \<Rightarrow> obj \<Rightarrow> nat option \<Rightarrow> accounts \<Rightarrow> store_error + obj \<times> accounts" where
  "acc_upsert toNumber now newId d expected c =
     (if conflict ''accounts'' expected c then Inl (RevisionConflict ''accounts'' (the expected) (acc_revision c))
      else case findByPlatformAndUsername (platform_of d) (obj_get d ''accountUsername'') c of
             Inl e \<Rightarrow> Inl e
           | Inr existing \<Rightarrow>
               if existing \<noteq> None \<and> optional_get existing ''id'' \<noteq> obj_get d ''id''
               then Inl (ValidationError ''already exists'')
               else let existingById = (if truthy (obj_get d ''id'') then acc_getById (obj_get d ''id'') c else None);
                        existingRecord = (if existing \<noteq> None then existing else existingById)
                    in case kept_password (obj_get d ''accountPassword'') existingRecord of
                         Inl e \<Rightarrow> Inl e
                       | Inr rawPassword \<Rightarrow>
                           (case lower_of (platform_of d) of
                              Inl e \<Rightarrow> Inl e
                            | Inr lowerPlatform \<Rightarrow>
                                let a = account_record now newId (platform_of d) lowerPlatform rawPassword existing (sanitized d)
                                in Inr (a, put_account toNumber now a c)))"

section \<open>Other operations\<close>

record state_update =
  su_desiredState :: jsval
  su_observedState :: jsval
  su_executionStatusReason :: jsval

definition defined_or :: "jsval \<Rightarrow> jsval \<Rightarrow> jsval" where
  "defined_or v d = (if v \<noteq> JUndef then v else d)"

definition with_execution_state :: "int \<Rightarrow> state_update \<Rightarrow> obj \<Rightarrow> obj" where
  "with_execution_state now su a =
     obj_merge a [(''desiredState'', defined_or (su_desiredState su) (obj_get a ''desiredState'')),
       (''observedState'', defined_or (su_observedState su) (obj_get a ''observedState'')),
       (''executionStatusReason'', defined_or (su_executionStatusReason su) (obj_get a ''executionStatusReason'')),
       (''lastUpdated'', iso now)]"

definition acc_updateExecutionState ::
  "int \<Rightarrow> jsval \<Rightarrow> state_update \<Rightarrow> nat option \<Rightarrow> accounts \<Rightarrow> store_error + obj option \<times> accounts" where
  "acc_updateExecutionState now i su expected c =
     (if conflict ''accounts'' expected c then Inl (RevisionConflict ''accounts'' (the expected) (acc_revision c))
      else case acc_getById i c of
             None \<Rightarrow> Inr (None, c)
           | Some a \<Rightarrow>
               let updated = with_execution_state now su a
               in Inr (Some updated, c\<lparr>acc_accounts := AList.update i updated (acc_accounts c),
                                       acc_revision := acc_revision c + 1, acc_lastUpdated := now\<rparr>))"

definition stopped_account :: "int \<Rightarrow> jsval \<Rightarrow> obj \<Rightarrow> obj" where
  "stopped_account now reason a =
     obj_merge a [(''observedState'', JStr ''STOPPED''), (''executionStatusReason'', reason), (''lastUpdated'', iso now)]"

definition acc_resetObservedStates :: "int \<Rightarrow> jsval \<Rightarrow> accounts \<Rightarrow> accounts" where
  "acc_resetObservedStates now reason c =
     c\<lparr>acc_accounts := map (\<lambda>(i, a). (i, stopped_account now reason a)) (acc_accounts c),
       acc_revision := acc_revision c + 1, acc_lastUpdated := now\<rparr>"

definition acc_delete :: "int \<Rightarrow> jsval \<Rightarrow> nat option \<Rightarrow> accounts \<Rightarrow> store_error + bool \<times> accounts" where
  "acc_delete now i expected c =
     (if conflict ''accounts'' expected c then Inl (RevisionConflict ''accounts'' (the expected) (acc_revision c))
      else if map_of (acc_accounts c) i = None then Inr (False, c)
      else Inr (True, c\<lparr>acc_accounts := AList.delete i (acc_accounts c), acc_balances := AList.delete i (acc_balances c),
                        acc_revision := acc_revision c + 1, acc_lastUpdated := now\<rparr>))"

definition acc_updateBalance :: "(jsval \<Rightarrow> jsnum) \<Rightarrow> int \<Rightarrow> jsval \<Rightarrow> jsval \<Rightarrow> jsval \<Rightarrow> accounts \<Rightarrow> bool \<times> accounts" where
  "acc_updateBalance toNumber now i balance symb c =
     (if map_of (acc_accounts c) i = None then (False, c)
      else (True, c\<lparr>acc_balances := AList.update i \<lparr>bm_balance = or_zero (toNumber balance), bm_currencySymbol = defined_or symb naira,
                       bm_lastUpdated = iso now, bm_isStale = False\<rparr> (acc_balances c), acc_lastUpdated := now\<rparr>))"

definition markBalancesStale :: "accounts \<Rightarrow> accounts" where
  "markBalancesStale c = c\<lparr>acc_balances := map (\<lambda>(i, b). (i, b\<lparr>bm_isStale := True\<rparr>)) (acc_balances c)\<rparr>"

section \<open>Hydration\<close>

text \<open>The account a loaded one replaces: by id, else by platform and user name if the loaded one has a name.\<close>

definition replaced_account :: "obj \<Rightarrow> (jsval, obj) jsmap \<Rightarrow> store_error + obj option" where
  "replaced_account raw old =
     (case map_of old (obj_get raw ''id'') of
        Some a \<Rightarrow> Inr (Some a)
      | None \<Rightarrow>
          if \<not> truthy (obj_get raw ''accountUsername'') then Inr None
          else (case lower_of (js_or (platform_of raw) (JStr [])) of
                  Inl e \<Rightarrow> Inl e
                | Inr p \<Rightarrow> (case lower_of (obj_get raw ''accountUsername'') of
                              Inl e \<Rightarrow> Inl e
                            | Inr u \<Rightarrow> find_account p u (map snd old))))"

definition loaded_password :: "obj \<Rightarrow> obj option \<Rightarrow> store_error + jsval" where
  "loaded_password raw existing =
     (case isMaskedPassword (obj_get raw ''accountPassword'') of
        Inl e \<Rightarrow> Inl e
      | Inr False \<Rightarrow> Inr (obj_get raw ''accountPassword'')
      | Inr True \<Rightarrow>
          (case isMaskedPassword (obj_get raw ''account_password'') of
             Inl e \<Rightarrow> Inl e
           | Inr False \<Rightarrow> Inr (obj_get raw ''account_password'')
           | Inr True \<Rightarrow>
               (case existing of
                  None \<Rightarrow> Inr PROTECTED
                | Some a \<Rightarrow>
                    (case isMaskedPassword (obj_get a ''accountPassword'') of
                       Inl e \<Rightarrow> Inl e
                     | Inr False \<Rightarrow> Inr (obj_get a ''accountPassword'')
                     | Inr True \<Rightarrow> Inr PROTECTED))))"

definition load_account ::
  "(jsval \<Rightarrow> jsnum) \<Rightarrow> int \<Rightarrow> (jsval, obj) jsmap \<Rightarrow> obj \<Rightarrow> accounts \<Rightarrow> store_error + accounts" where
  "load_account toNumber now old raw c =
     (case replaced_account raw old of
        Inl e \<Rightarrow> Inl e
      | Inr existing \<Rightarrow>
          (case loaded_password raw existing of
             Inl e \<Rightarrow> Inl e
           | Inr pwd \<Rightarrow>
               let a = AList.update ''accountPassword'' pwd (sanitized raw)
               in Inr (c\<lparr>acc_accounts := AList.update (obj_get a ''id'') a (acc_accounts c),
                         acc_balances := note_balance toNumber (js_or (obj_get a ''lastUpdated'') (iso now)) a (acc_balances c)\<rparr>)))"

text \<open>An error leaves what was loaded before it.\<close>

fun load_accounts ::
  "(jsval \<Rightarrow> jsnum) \<Rightarrow> int \<Rightarrow> (jsval, obj) jsmap \<Rightarrow> obj list \<Rightarrow> accounts \<Rightarrow> store_error option \<times> accounts" where
  "load_accounts toNumber now old [] c = (None, c)"
| "load_accounts toNumber now old (raw # raws) c =
     (case load_account toNumber now old raw c of Inl e \<Rightarrow> (Some e, c) | Inr c' \<Rightarrow> load_accounts toNumber now old raws c')"

definition acc_hydrate :: "(jsval \<Rightarrow> jsnum) \<Rightarrow> int \<Rightarrow> obj list \<Rightarrow> nat option \<Rightarrow> accounts \<Rightarrow> store_error option \<times> accounts" where
  "acc_hydrate toNumber now raws revision c =
     (case load_accounts toNumber now (acc_accounts c) raws (c\<lparr>acc_accounts := []\<rparr>) of
        (Some e, c') \<Rightarrow> (Some e, c')
      | (None, c') \<Rightarrow>
          (None, c'\<lparr>acc_revision := (case revision of Some r \<Rightarrow> r | None \<Rightarrow> acc_revision c' + 1), acc_lastUpdated := now\<rparr>))"

section \<open>Lemmas\<close>

lemma sanitize_ok: "\<exists>v'. sanitize False v = Inr v'"
  using all_gated [of v] by (auto simp: gated_def)

lemma sanitized_ok: "sanitize_members False d = Inr (sanitized d)"
proof -
  have "gated_members d" using all_gated by (rule members_gated)
  then show ?thesis by (auto simp: gated_members_def sanitized_def)
qed

lemma sanitized_Cons:
  "sanitized ((k, v) # d) =
     (if secret_key k then (if k = ''accountPassword'' then (k, PROTECTED) # sanitized d else sanitized d)
      else (k, projr (sanitize False v)) # sanitized d)"
  using sanitized_ok [of d] sanitize_ok [of v] by (auto simp: sanitized_def [of "(k, v) # d"] with_member_def)

text \<open>A member that is not secret survives the gate; a plain value unchanged.\<close>

lemma sanitized_get: "\<not> secret_key k \<Longrightarrow> obj_get (sanitized d) k = projr (sanitize False (obj_get d k))"
proof (induction d)
  case Nil
  then show ?case by (simp add: sanitized_def obj_get_def)
next
  case (Cons m d)
  obtain k' v where "m = (k', v)" by fastforce
  with Cons show ?case by (auto simp: sanitized_Cons obj_get_def)
qed

fun plain :: "jsval \<Rightarrow> bool" where
  "plain (JArr xs) = False"
| "plain (JObj kvs) = False"
| "plain _ = True"

lemma sanitize_plain [simp]: "plain v \<Longrightarrow> sanitize t v = Inr v"
  by (cases v) auto

lemma falsy_plain: "\<not> truthy v \<Longrightarrow> plain v"
  by (cases v) auto

lemma sanitize_truthy: "truthy (projr (sanitize False v)) = truthy v"
  using sanitize_ok [of v] by (cases v) auto

lemma sanitized_platform:
  assumes "platform_of d = JStr p"
  shows "js_or (obj_get (sanitized d) ''platformDisplayName'') (JStr p) = JStr p"
proof -
  have "\<not> secret_key ''platformDisplayName''" by (simp add: secret_key_def FORBIDDEN_SECRET_KEYS_def)
  from sanitized_get [OF this, of d] assms show ?thesis
    using sanitize_truthy [of "obj_get d ''platformDisplayName''"]
    by (auto simp: platform_of_def js_or_def split: if_splits)
qed

section \<open>Uniqueness\<close>

definition typed :: "obj \<Rightarrow> bool" where
  "typed a \<longleftrightarrow> (\<exists>p. js_or (platform_of a) (JStr []) = JStr p) \<and> (\<exists>u. obj_get a ''accountUsername'' = JStr u)"

text \<open>What makes an account the same to the operator: platform and user name, up to case.\<close>

definition ident :: "obj \<Rightarrow> (store_error + string) \<times> (store_error + string)" where
  "ident a = (lower_of (js_or (platform_of a) (JStr [])), lower_of (obj_get a ''accountUsername''))"

definition accounts_map_ok :: "(jsval, obj) jsmap \<Rightarrow> bool" where
  "accounts_map_ok m \<longleftrightarrow> distinct (map fst m) \<and>
     (\<forall>i a. map_of m i = Some a \<longrightarrow> typed a \<and> obj_get a ''id'' = i \<and> truthy i) \<and>
     (\<forall>i j a b. map_of m i = Some a \<and> map_of m j = Some b \<and> ident a = ident b \<longrightarrow> i = j)"

lemma accounts_unique: "accounts_map_ok m \<Longrightarrow> map_of m i = Some a \<Longrightarrow> map_of m j = Some b \<Longrightarrow> ident a = ident b \<Longrightarrow> i = j"
  unfolding accounts_map_ok_def by blast

lemma ident_typed: "typed a \<Longrightarrow> \<exists>p u. ident a = (Inr p, Inr u)"
  by (auto simp: typed_def ident_def)

lemma find_account_find:
  "\<forall>a\<in>set as. typed a \<Longrightarrow> find_account p u as = Inr (List.find (\<lambda>a. ident a = (Inr p, Inr u)) as)"
  by (induction as) (auto simp: typed_def ident_def)

lemma values_lookup: "distinct (map fst m) \<Longrightarrow> a \<in> set (map snd m) \<longleftrightarrow> (\<exists>i. map_of m i = Some a)"
  by (force simp: image_iff)

lemma found_account:
  assumes "accounts_map_ok m"
  shows "find_account p u (map snd m) = Inr r \<Longrightarrow>
    (case r of Some a \<Rightarrow> map_of m (obj_get a ''id'') = Some a \<and> ident a = (Inr p, Inr u)
             | None \<Rightarrow> \<forall>i a. map_of m i = Some a \<longrightarrow> ident a \<noteq> (Inr p, Inr u))"
proof -
  assume r: "find_account p u (map snd m) = Inr r"
  have d: "distinct (map fst m)" using assms by (simp add: accounts_map_ok_def)
  have t: "\<And>i a. map_of m i = Some a \<Longrightarrow> typed a \<and> obj_get a ''id'' = i"
    using assms by (simp add: accounts_map_ok_def)
  have "typed a" if "a \<in> set (map snd m)" for a using that t by (simp only: values_lookup [OF d]) blast
  then have "\<forall>a\<in>set (map snd m). typed a" by blast
  from find_account_find [OF this] r have f: "r = List.find (\<lambda>a. ident a = (Inr p, Inr u)) (map snd m)" by simp
  show ?thesis
  proof (cases r)
    case None
    with f have "List.find (\<lambda>a. ident a = (Inr p, Inr u)) (map snd m) = None" by simp
    then have n: "\<not> (\<exists>a. a \<in> set (map snd m) \<and> ident a = (Inr p, Inr u))" unfolding find_None_iff .
    have "ident a \<noteq> (Inr p, Inr u)" if "map_of m i = Some a" for i a
      using n values_lookup [OF d, of a] that by blast
    with None show ?thesis by simp
  next
    case (Some a)
    with f have "List.find (\<lambda>a. ident a = (Inr p, Inr u)) (map snd m) = Some a" by simp
    then have "a \<in> set (map snd m)" "ident a = (Inr p, Inr u)" by (auto simp only: find_Some_iff nth_mem)
    moreover from this(1) obtain i where "map_of m i = Some a" using values_lookup [OF d] by blast
    moreover from this t have "obj_get a ''id'' = i" by blast
    ultimately show ?thesis using Some by simp
  qed
qed

lemma record_get [simp]:
  "obj_get (account_record now newId platform lp pwd ex s) ''id'' = js_or (obj_get s ''id'') newId"
  "obj_get (account_record now newId platform lp pwd ex s) ''accountPassword'' = pwd"
  "obj_get (account_record now newId platform lp pwd ex s) ''accountUsername'' = obj_get s ''accountUsername''"
  "obj_get (account_record now newId platform lp pwd ex s) ''platformDisplayName'' = js_or (obj_get s ''platformDisplayName'') platform"
  "obj_get (account_record now newId platform lp pwd ex s) ''platformId'' = js_or (obj_get s ''platformId'') (JStr lp)"
  by (simp_all add: account_record_def obj_get_def)

lemma record_platform:
  assumes "platform_of d = JStr p"
  shows "js_or (platform_of (account_record now newId (JStr p) (toLowerCase p) pwd ex (sanitized d))) (JStr []) = JStr p"
proof (cases "p = []")
  case True
  have k: "\<not> secret_key ''platformId''" by (simp add: secret_key_def FORBIDDEN_SECRET_KEYS_def)
  from True assms have "obj_get d ''platformId'' = JStr []" by (auto simp: platform_of_def js_or_def split: if_splits)
  with sanitized_get [OF k, of d] have i: "obj_get (sanitized d) ''platformId'' = JStr []" by simp
  have "platform_of (account_record now newId (JStr []) (toLowerCase []) pwd ex (sanitized d)) = JStr []"
    unfolding platform_of_def record_get i using sanitized_platform [OF assms] True by (simp add: js_or_def toLowerCase_def)
  with True show ?thesis by (simp add: js_or_def)
next
  case False
  then show ?thesis unfolding platform_of_def record_get sanitized_platform [OF assms] by (simp add: js_or_def)
qed

lemma record_ident:
  assumes "platform_of d = JStr p" and "obj_get d ''accountUsername'' = JStr u"
  shows "typed (account_record now newId (JStr p) (toLowerCase p) pwd ex (sanitized d))"
    and "ident (account_record now newId (JStr p) (toLowerCase p) pwd ex (sanitized d)) = (Inr (toLowerCase p), Inr (toLowerCase u))"
proof -
  have "\<not> secret_key ''accountUsername''" by (simp add: secret_key_def FORBIDDEN_SECRET_KEYS_def)
  from sanitized_get [OF this, of d] assms(2) have "obj_get (sanitized d) ''accountUsername'' = JStr u" by simp
  with record_platform [OF assms(1)]
  show "typed (account_record now newId (JStr p) (toLowerCase p) pwd ex (sanitized d))"
    "ident (account_record now newId (JStr p) (toLowerCase p) pwd ex (sanitized d)) = (Inr (toLowerCase p), Inr (toLowerCase u))"
    by (simp_all add: typed_def ident_def)
qed

lemma put_map_ok:
  assumes "accounts_map_ok m" and "typed a" and "obj_get a ''id'' = i" and "truthy i"
    and "\<And>j b. map_of m j = Some b \<Longrightarrow> ident b = ident a \<Longrightarrow> j = i"
  shows "accounts_map_ok (AList.update i a m)"
  using assms distinct_update [of m i a] unfolding accounts_map_ok_def update_conv'
  by (auto simp: fun_upd_def split: if_splits)

text \<open>What a successful upsert did.\<close>

lemma upsert_result:
  assumes "acc_upsert toNumber now newId d expected c = Inr (a, c')"
  obtains p u existing pwd where "platform_of d = JStr p" and "obj_get d ''accountUsername'' = JStr u"
    and "find_account (toLowerCase p) (toLowerCase u) (map snd (acc_accounts c)) = Inr existing"
    and "existing = None \<or> optional_get existing ''id'' = obj_get d ''id''"
    and "kept_password (obj_get d ''accountPassword'')
      (if existing \<noteq> None then existing else if truthy (obj_get d ''id'') then acc_getById (obj_get d ''id'') c else None) = Inr pwd"
    and "a = account_record now newId (JStr p) (toLowerCase p) pwd existing (sanitized d)"
    and "c' = put_account toNumber now a c"
proof (cases "platform_of d")
  case (JStr p)
  show thesis
  proof (cases "obj_get d ''accountUsername''")
    case u: (JStr u)
    from JStr u assms show thesis
      by (auto simp: acc_upsert_def findByPlatformAndUsername_def acc_getAll_def Let_def split: if_splits sum.splits intro: that)
  qed (use JStr assms in \<open>auto simp: acc_upsert_def findByPlatformAndUsername_def split: if_splits\<close>)
qed (use assms in \<open>auto simp: acc_upsert_def findByPlatformAndUsername_def split: if_splits\<close>)

lemma sanitized_id: "plain (obj_get d ''id'') \<Longrightarrow> obj_get (sanitized d) ''id'' = obj_get d ''id''"
proof -
  have "\<not> secret_key ''id''" by (simp add: secret_key_def FORBIDDEN_SECRET_KEYS_def)
  then show "plain (obj_get d ''id'') \<Longrightarrow> ?thesis" by (simp add: sanitized_get)
qed

lemma upsert_map_ok:
  assumes "accounts_map_ok (acc_accounts c)" and "acc_upsert toNumber now newId d expected c = Inr (a, c')"
    and "plain (obj_get d ''id'')" and "truthy newId"
  shows "accounts_map_ok (acc_accounts c')"
proof -
  from upsert_result [OF assms(2)] obtain p u existing pwd where
    d: "platform_of d = JStr p" "obj_get d ''accountUsername'' = JStr u"
    and f: "find_account (toLowerCase p) (toLowerCase u) (map snd (acc_accounts c)) = Inr existing"
    and e: "existing = None \<or> optional_get existing ''id'' = obj_get d ''id''"
    and a: "a = account_record now newId (JStr p) (toLowerCase p) pwd existing (sanitized d)"
    and c': "c' = put_account toNumber now a c" .
  have t: "truthy (obj_get a ''id'')" using assms(4) by (simp add: a js_or_def)
  have "j = obj_get a ''id''" if "map_of (acc_accounts c) j = Some b" "ident b = ident a" for j b
  proof (cases existing)
    case None
    with found_account [OF assms(1) f] that record_ident(2) [OF d] show ?thesis by (simp add: a)
  next
    case (Some ex)
    with found_account [OF assms(1) f] have ex: "map_of (acc_accounts c) (obj_get ex ''id'') = Some ex"
      "ident ex = (Inr (toLowerCase p), Inr (toLowerCase u))" by simp_all
    with that record_ident(2) [OF d] have "j = obj_get ex ''id''"
      using assms(1) unfolding accounts_map_ok_def a by metis
    moreover have "truthy (obj_get ex ''id'')" using assms(1) ex(1) unfolding accounts_map_ok_def by blast
    ultimately show ?thesis using e Some sanitized_id [OF assms(3)] by (simp add: a js_or_def optional_get_def)
  qed
  from put_map_ok [OF assms(1) _ refl t this] record_ident(1) [OF d] show ?thesis by (simp add: a c' put_account_def)
qed

text \<open>Changes that keep the id, the platform and the user name.\<close>

definition same_account :: "obj \<Rightarrow> obj \<Rightarrow> bool" where
  "same_account a b \<longleftrightarrow> (\<forall>k\<in>{''id'', ''platformId'', ''platformDisplayName'', ''accountUsername''}. obj_get a k = obj_get b k)"

lemma same_ident: "same_account a b \<Longrightarrow> ident a = ident b \<and> typed a = typed b \<and> obj_get a ''id'' = obj_get b ''id''"
  by (simp add: same_account_def ident_def typed_def platform_of_def)

lemma same_execution: "same_account (with_execution_state now su a) a" "same_account (stopped_account now reason a) a"
  by (simp_all add: same_account_def with_execution_state_def stopped_account_def)

lemma same_put_ok:
  assumes "accounts_map_ok m" and "map_of m i = Some a" and "same_account b a"
  shows "accounts_map_ok (AList.update i b m)"
proof -
  note i = same_ident [OF assms(3)]
  have a: "typed a" "obj_get a ''id'' = i" "truthy i" using assms(1,2) unfolding accounts_map_ok_def by blast+
  have "j = i" if "map_of m j = Some b'" "ident b' = ident b" for j b'
    using assms(1,2) that i unfolding accounts_map_ok_def by metis
  from put_map_ok [OF assms(1) _ _ a(3) this] a i show ?thesis by simp
qed

lemma map_same_ok:
  assumes "\<And>a. same_account (f a) a" and "accounts_map_ok m"
  shows "accounts_map_ok (map (\<lambda>(i, a). (i, f a)) m)"
proof -
  have l: "map_of (map (\<lambda>(i, a). (i, f a)) m) = map_option f \<circ> map_of m" by (simp add: map_of_map)
  have k: "map fst (map (\<lambda>(i, a). (i, f a)) m) = map fst m" by (simp add: case_prod_beta)
  note same = same_ident [OF assms(1)]
  show ?thesis unfolding accounts_map_ok_def l k
  proof (intro conjI allI impI; (elim conjE)?)
    show "distinct (map fst m)" using assms(2) by (simp add: accounts_map_ok_def)
    fix i b assume "(map_option f \<circ> map_of m) i = Some b"
    then obtain a where "map_of m i = Some a" "b = f a" by auto
    then show "typed b" "obj_get b ''id'' = i" "truthy i" using assms(2) same unfolding accounts_map_ok_def by blast+
  next
    fix i j b b' assume "(map_option f \<circ> map_of m) i = Some b" "(map_option f \<circ> map_of m) j = Some b'" "ident b = ident b'"
    then obtain a a' where a: "map_of m i = Some a" "map_of m j = Some a'" "ident (f a) = ident (f a')" by auto
    then have "ident a = ident a'" using same by metis
    with assms(2) a(1,2) show "i = j" by (rule accounts_unique)
  qed
qed

lemma delete_map_ok: "accounts_map_ok m \<Longrightarrow> accounts_map_ok (AList.delete i m)"
  using distinct_delete [of m i] unfolding accounts_map_ok_def delete_conv' by (auto split: if_splits)

text \<open>Lists that can be loaded: typed accounts with distinct identities.\<close>

definition loadable :: "obj list \<Rightarrow> bool" where
  "loadable raws \<longleftrightarrow> (\<forall>raw\<in>set raws. typed raw \<and> plain (obj_get raw ''id'') \<and> truthy (obj_get raw ''id'')) \<and>
     (\<forall>raw\<in>set raws. \<forall>raw'\<in>set raws. ident raw = ident raw' \<longrightarrow> obj_get raw ''id'' = obj_get raw' ''id'')"

lemma loaded_get: "\<not> secret_key k \<Longrightarrow> plain (obj_get raw k) \<Longrightarrow>
  obj_get (AList.update ''accountPassword'' pwd (sanitized raw)) k = obj_get raw k"
  by (auto simp: sanitized_get secret_key_def FORBIDDEN_SECRET_KEYS_def)

lemma loaded_ident:
  assumes "typed raw" and "plain (obj_get raw ''id'')"
  shows "ident (AList.update ''accountPassword'' pwd (sanitized raw)) = ident raw"
    and "typed (AList.update ''accountPassword'' pwd (sanitized raw))"
    and "obj_get (AList.update ''accountPassword'' pwd (sanitized raw)) ''id'' = obj_get raw ''id''"
proof -
  let ?a = "AList.update ''accountPassword'' pwd (sanitized raw)"
  have k: "\<not> secret_key ''id''" "\<not> secret_key ''accountUsername''" "\<not> secret_key ''platformDisplayName''" "\<not> secret_key ''platformId''"
    by (simp_all add: secret_key_def FORBIDDEN_SECRET_KEYS_def)
  have u: "obj_get ?a ''accountUsername'' = obj_get raw ''accountUsername''"
    using assms(1) by (intro loaded_get k) (auto simp: typed_def)
  have "plain (obj_get raw ''platformDisplayName'')"
    using assms(1) falsy_plain by (auto simp: typed_def platform_of_def js_or_def split: if_splits)
  then have dn: "obj_get ?a ''platformDisplayName'' = obj_get raw ''platformDisplayName''" by (rule loaded_get [OF k(3)])
  have "plain (obj_get raw ''platformId'')" if "\<not> truthy (obj_get raw ''platformDisplayName'')"
    using assms(1) that falsy_plain by (auto simp: typed_def platform_of_def js_or_def split: if_splits)
  then have "platform_of ?a = platform_of raw"
    using loaded_get [OF k(4), of raw pwd] dn by (auto simp: platform_of_def js_or_def)
  with u show "ident ?a = ident raw" "typed ?a" using assms(1) by (simp_all add: ident_def typed_def)
  show "obj_get ?a ''id'' = obj_get raw ''id''" by (rule loaded_get [OF k(1) assms(2)])
qed

definition loaded_from :: "obj list \<Rightarrow> accounts \<Rightarrow> bool" where
  "loaded_from raws c \<longleftrightarrow> accounts_map_ok (acc_accounts c) \<and>
     (\<forall>i a. map_of (acc_accounts c) i = Some a \<longrightarrow> (\<exists>raw\<in>set raws. obj_get raw ''id'' = i \<and> ident raw = ident a))"

lemma load_one:
  assumes "loadable (done @ [raw])" and "loaded_from done c" and "load_account toNumber now old raw c = Inr c'"
  shows "loaded_from (done @ [raw]) c'"
proof -
  from assms(3) obtain pwd where c': "acc_accounts c' = AList.update (obj_get (AList.update ''accountPassword'' pwd (sanitized raw)) ''id'')
      (AList.update ''accountPassword'' pwd (sanitized raw)) (acc_accounts c)"
    by (auto simp: load_account_def Let_def split: sum.splits)
  have r: "typed raw" "plain (obj_get raw ''id'')" "truthy (obj_get raw ''id'')" using assms(1) by (simp_all add: loadable_def)
  note a = loaded_ident [OF r(1,2), of pwd]
  have "j = obj_get raw ''id''" if "map_of (acc_accounts c) j = Some b" "ident b = ident raw" for j b
  proof -
    from assms(2) that(1) obtain old' where o: "old' \<in> set done" "obj_get old' ''id'' = j" "ident old' = ident b"
      unfolding loaded_from_def by blast
    moreover have "old' \<in> set (done @ [raw])" "raw \<in> set (done @ [raw])" using o(1) by simp_all
    ultimately show ?thesis using assms(1) that(2) unfolding loadable_def by metis
  qed
  then have "accounts_map_ok (acc_accounts c')"
    unfolding c' a(3) using assms(2) a r by (intro put_map_ok) (auto simp: loaded_from_def)
  then show ?thesis using assms(2) a
    unfolding loaded_from_def c' a(3) update_conv' by (auto simp: fun_upd_def split: if_splits)
qed

lemma loads_ok: "loadable (done @ raws) \<Longrightarrow> loaded_from done c \<Longrightarrow>
  accounts_map_ok (acc_accounts (snd (load_accounts toNumber now old raws c)))"
proof (induction raws arbitrary: "done" c)
  case (Cons raw raws)
  show ?case
  proof (cases "load_account toNumber now old raw c")
    case (Inl e)
    with Cons.prems show ?thesis by (simp add: loaded_from_def)
  next
    case (Inr c')
    have "loadable (done @ [raw])" using Cons.prems(1) by (simp add: loadable_def)
    from load_one [OF this Cons.prems(2) Inr] Cons.IH [of "done @ [raw]" c'] Cons.prems(1) Inr show ?thesis by simp
  qed
qed (simp add: loaded_from_def)

lemma hydrate_map_ok: "loadable raws \<Longrightarrow> accounts_map_ok (acc_accounts (snd (acc_hydrate toNumber now raws r c)))"
  using loads_ok [of "[]" raws "c\<lparr>acc_accounts := []\<rparr>" toNumber now "acc_accounts c"]
  by (auto simp: acc_hydrate_def loaded_from_def accounts_map_ok_def split: prod.splits option.splits)

section \<open>Runs of the container\<close>

inductive accounts_step :: "(jsval \<Rightarrow> jsnum) \<Rightarrow> accounts \<Rightarrow> accounts \<Rightarrow> bool" for toNumber :: "jsval \<Rightarrow> jsnum" where
  upserted: "acc_upsert toNumber now newId d expected c = Inr (a, c') \<Longrightarrow> plain (obj_get d ''id'') \<Longrightarrow> truthy newId \<Longrightarrow>
    accounts_step toNumber c c'"
| state_changed: "acc_updateExecutionState now i su expected c = Inr (r, c') \<Longrightarrow> accounts_step toNumber c c'"
| removed: "acc_delete now i expected c = Inr (b, c') \<Longrightarrow> accounts_step toNumber c c'"
| stopped: "accounts_step toNumber c (acc_resetObservedStates now reason c)"
| balance_read: "accounts_step toNumber c (snd (acc_updateBalance toNumber now i v symb c))"
| balances_old: "accounts_step toNumber c (markBalancesStale c)"
| cleared: "accounts_step toNumber c (acc_reset now c)"
| loaded: "loadable raws \<Longrightarrow> accounts_step toNumber c (snd (acc_hydrate toNumber now raws r c))"

definition accounts_start :: "accounts \<Rightarrow> bool" where
  "accounts_start c \<longleftrightarrow> (\<exists>now. c = new_accounts now)"

lemma step_map_ok: "accounts_step toNumber c c' \<Longrightarrow> accounts_map_ok (acc_accounts c) \<Longrightarrow> accounts_map_ok (acc_accounts c')"
proof (induction rule: accounts_step.induct)
  case (upserted now newId d expected c a c')
  from upsert_map_ok [OF upserted.prems upserted.hyps] show ?case .
next
  case (state_changed now i su expected c r c')
  then show ?case using same_put_ok [OF _ _ same_execution(1)]
    by (auto simp: acc_updateExecutionState_def acc_getById_def Let_def split: if_splits option.splits)
next
  case (removed now i expected c b c')
  then show ?case using delete_map_ok by (auto simp: acc_delete_def split: if_splits)
next
  case (stopped c now reason)
  then show ?case using map_same_ok [OF same_execution(2)] by (simp add: acc_resetObservedStates_def)
next
  case (loaded raws c now r)
  from loaded.hyps show ?case by (rule hydrate_map_ok)
qed (simp_all add: acc_updateBalance_def markBalancesStale_def acc_reset_def accounts_map_ok_def [of "[]"])

interpretation accounts_run: machine_invariant accounts_start "accounts_step toNumber" "\<lambda>c. accounts_map_ok (acc_accounts c)"
  by unfold_locales (auto simp: accounts_start_def new_accounts_def accounts_map_ok_def [of "[]"] intro: step_map_ok)

section \<open>Properties\<close>


definition num_of :: "jsval \<Rightarrow> jsnum" where
  "num_of v = (case v of JNum n \<Rightarrow> n | _ \<Rightarrow> NaN)"

definition sample_raw :: "string \<Rightarrow> string \<Rightarrow> string \<Rightarrow> obj" where
  "sample_raw i u pwd = [(''id'', JStr i), (''platformDisplayName'', JStr ''SportyBet''), (''accountUsername'', JStr u), (''accountPassword'', JStr pwd)]"

definition one_account :: accounts where
  "one_account = snd (projr (acc_upsert num_of 1 (JStr ''new'') (sample_raw ''a1'' ''joe'' ''hunter2'') None (new_accounts 0)))"

definition two_accounts :: accounts where
  "two_accounts = snd (projr (acc_upsert num_of 2 (JStr ''new'') (sample_raw ''a2'' ''jane'' ''swordfish'') None one_account))"

lemma sample_upsert_reached:
  assumes "reach accounts_start (accounts_step num_of) c" and "\<not> isl (acc_upsert num_of now (JStr ''new'') (sample_raw i u pwd) None c)"
  shows "reach accounts_start (accounts_step num_of) (snd (projr (acc_upsert num_of now (JStr ''new'') (sample_raw i u pwd) None c)))"
    (is "reach _ _ (snd (projr ?r))")
proof -
  have "?r = Inr (fst (projr ?r), snd (projr ?r))" using assms(2) by (cases ?r) auto
  moreover have "plain (obj_get (sample_raw i u pwd) ''id'')" "truthy (JStr ''new'')" by (simp_all add: sample_raw_def obj_get_def)
  ultimately have "accounts_step num_of c (snd (projr ?r))" by (rule upserted)
  with assms(1) show ?thesis by (rule reach_step)
qed

lemma one_account_reached: "reach accounts_start (accounts_step num_of) one_account"
proof -
  have "reach accounts_start (accounts_step num_of) (new_accounts 0)"
    by (rule reach_start) (auto simp: accounts_start_def)
  then show ?thesis unfolding one_account_def by (rule sample_upsert_reached) code_simp
qed

lemma two_accounts_reached: "reach accounts_start (accounts_step num_of) two_accounts"
  unfolding two_accounts_def by (rule sample_upsert_reached [OF one_account_reached]) code_simp


text \<open>A masked password overwrites nothing: when an update of an account with a real password carries a masked one,
  as every client that read the exported account sends, the account keeps its real password.\<close>

theorem masked_update_keeps_password:
  assumes "reach accounts_start (accounts_step toNumber) c"
    and "acc_getById (JStr i) c = Some old" and "obj_get old ''accountPassword'' = JStr p" and "\<not> masked_string p"
    and "obj_get d ''id'' = JStr i" and "isMaskedPassword (obj_get d ''accountPassword'') = Inr True"
    and "acc_upsert toNumber now newId d expected c = Inr (a, c')"
  shows "obj_get a ''accountPassword'' = JStr p \<and> acc_getById (JStr i) c' = Some a"
proof -
  have ok: "accounts_map_ok (acc_accounts c)" by (rule accounts_run.reach_good [OF assms(1)])
  then have t: "truthy (JStr i)" using assms(2) unfolding accounts_map_ok_def acc_getById_def by blast
  from upsert_result [OF assms(7)] obtain pl u existing pwd where
    f: "find_account (toLowerCase pl) (toLowerCase u) (map snd (acc_accounts c)) = Inr existing"
    and e: "existing = None \<or> optional_get existing ''id'' = obj_get d ''id''"
    and k: "kept_password (obj_get d ''accountPassword'')
      (if existing \<noteq> None then existing else if truthy (obj_get d ''id'') then acc_getById (obj_get d ''id'') c else None) = Inr pwd"
    and a: "a = account_record now newId (JStr pl) (toLowerCase pl) pwd existing (sanitized d)"
    and c': "c' = put_account toNumber now a c" .
  have "(if existing \<noteq> None then existing else if truthy (obj_get d ''id'') then acc_getById (obj_get d ''id'') c else None) = Some old"
    using e found_account [OF ok f] assms(2,5) t by (auto simp: optional_get_def acc_getById_def split: option.splits)
  with k assms(3,4,6) have "pwd = JStr p" by (auto simp: kept_password_def masked_string_def split: if_splits)
  moreover have "obj_get a ''id'' = JStr i" using sanitized_id [of d] assms(5) t by (simp add: a js_or_def)
  ultimately show ?thesis by (simp add: a c' put_account_def acc_getById_def update_conv')
qed

theorem masked_update_keeps_password_witness:
  "\<exists>a c'. acc_upsert num_of 3 (JStr ''new'') (sample_raw ''a1'' ''joe2'' ''[PROTECTED]'') (Some 2) one_account = Inr (a, c') \<and>
     obj_get a ''accountPassword'' = JStr ''hunter2'' \<and> obj_get a ''accountUsername'' = JStr ''joe2''"
proof -
  let ?d = "sample_raw ''a1'' ''joe2'' ''[PROTECTED]''" and ?old = "the (acc_getById (JStr ''a1'') one_account)"
  let ?r = "acc_upsert num_of 3 (JStr ''new'') ?d (Some 2) one_account"
  have "isl ?r = False" "obj_get (fst (projr ?r)) ''accountUsername'' = JStr ''joe2''" by code_simp+
  then have r: "?r = Inr (fst (projr ?r), snd (projr ?r))" by (cases ?r) auto
  have "acc_getById (JStr ''a1'') one_account \<noteq> None" by code_simp
  then have old: "acc_getById (JStr ''a1'') one_account = Some ?old" by auto
  have "obj_get ?old ''accountPassword'' = JStr ''hunter2''" "\<not> masked_string ''hunter2''" "obj_get ?d ''id'' = JStr ''a1''"
    "isMaskedPassword (obj_get ?d ''accountPassword'') = Inr True" by code_simp+
  from masked_update_keeps_password [OF one_account_reached old this r]
  show ?thesis using r \<open>obj_get (fst (projr ?r)) ''accountUsername'' = JStr ''joe2''\<close> by blast
qed

end
