(* ===== verification/AccountsStore.thy ===== *)
theory AccountsStore
  imports AccountsContainer "HOL-Library.Multiset"
begin

text \<open>
  Accounts on disk and in memory together: the table (\<^verbatim>\<open>persistence/adapters/AccountsAdapter.mjs\<close>) with its
  encrypted passwords, the revisions (\<^verbatim>\<open>MetadataAdapter.mjs\<close>), the transactions
  (\<^verbatim>\<open>persistence/ConsistencyGroupManager.mjs\<close>) and the accounts domain of \<^verbatim>\<open>StateStore.mjs\<close> that writes table
  and container. A column that holds JSON text is the value it was printed from. \<open>seal\<close> and \<open>unseal\<close> are the
  cipher of the vault key; an error inside a transaction rolls the tables back, the containers stay as they
  are.
\<close>

section \<open>Passwords at rest\<close>

definition adapter_masked :: "string \<Rightarrow> bool" where
  "adapter_masked s \<longleftrightarrow> s = [] \<or> s = ''[PROTECTED]'' \<or> includes_str s ''***'' \<or> includes_str s bullets"

definition enc_prefix :: string where
  "enc_prefix = ''enc:v1:''"

definition starts_with :: "string \<Rightarrow> string \<Rightarrow> bool" where
  "starts_with s pre \<longleftrightarrow> take (length pre) s = pre"

definition encryptLocalPassword :: "(string \<Rightarrow> string) \<Rightarrow> string \<Rightarrow> string" where
  "encryptLocalPassword sl pw =
     (if adapter_masked pw then []
      else if starts_with pw enc_prefix then pw
      else enc_prefix @ sl pw)"

definition decryptLocalPassword :: "(string \<Rightarrow> string option) \<Rightarrow> string \<Rightarrow> string" where
  "decryptLocalPassword us stored =
     (if adapter_masked stored then []
      else if \<not> starts_with stored enc_prefix then stored
      else case us (drop (length enc_prefix) stored) of Some p \<Rightarrow> p | None \<Rightarrow> [])"

section \<open>The table\<close>

record account_row =
  ar_id :: jsval
  ar_user :: string
  ar_name :: jsval
  ar_platform_id :: string
  ar_platform_display_name :: jsval
  ar_username :: jsval
  ar_password :: string
  ar_balance :: jsnum
  ar_currency :: jsval
  ar_backend_state :: jsval
  ar_category :: jsval
  ar_description :: jsval
  ar_actions :: jsval
  ar_tags :: jsval
  ar_config :: jsval
  ar_desired :: jsval
  ar_observed :: jsval
  ar_reason :: jsval
  ar_last_updated :: jsval
  ar_last_synchronization :: jsval

record crypto =
  seal :: "string \<Rightarrow> string"
  unseal :: "string \<Rightarrow> string option"
  to_number :: "jsval \<Rightarrow> jsnum"

fun adapter_password :: "(string \<Rightarrow> string) \<Rightarrow> jsval \<Rightarrow> store_error + string" where
  "adapter_password sl (JStr s) = Inr (if adapter_masked s then [] else encryptLocalPassword sl s)"
| "adapter_password sl (JArr xs) = (if JStr ''***'' \<in> set xs \<or> JStr bullets \<in> set xs then Inr [] else Inl StoreTypeError)"
| "adapter_password sl v = (if truthy v then Inl StoreTypeError else Inr [])"

definition preserved_password :: "(string \<Rightarrow> string) \<Rightarrow> account_row option \<Rightarrow> string" where
  "preserved_password sl r =
     (case r of None \<Rightarrow> [] | Some row \<Rightarrow> if adapter_masked (ar_password row) then [] else encryptLocalPassword sl (ar_password row))"

definition same_user_row :: "string \<Rightarrow> string \<Rightarrow> jsval \<Rightarrow> account_row \<Rightarrow> bool" where
  "same_user_row u platformId username r \<longleftrightarrow> ar_user r = u \<and> ar_platform_id r = platformId \<and> ar_username r = username"

definition row_balance :: "(jsval \<Rightarrow> jsnum) \<Rightarrow> obj \<Rightarrow> jsnum" where
  "row_balance num a =
     (if obj_get a ''lastKnownBalance'' \<notin> {JUndef, JNull} then num (obj_get a ''lastKnownBalance'')
      else if obj_get a ''currentBalance'' \<notin> {JUndef, JNull} then num (obj_get a ''currentBalance'')
      else Fin 0)"

definition row_of_account :: "(jsval \<Rightarrow> jsnum) \<Rightarrow> int \<Rightarrow> string \<Rightarrow> string \<Rightarrow> string \<Rightarrow> obj \<Rightarrow> account_row" where
  "row_of_account num now u platformId pwd a =
     \<lparr>ar_id = obj_get a ''id'', ar_user = u, ar_name = js_or (obj_get a ''name'') (obj_get a ''accountUsername''),
      ar_platform_id = platformId,
      ar_platform_display_name = js_or (obj_get a ''platformDisplayName'') (js_or (obj_get a ''name'') (JStr platformId)),
      ar_username = obj_get a ''accountUsername'', ar_password = pwd, ar_balance = row_balance num a,
      ar_currency = js_or (obj_get a ''currencySymbol'') naira,
      ar_backend_state = js_or (obj_get a ''backendState'') (JStr ''READY''),
      ar_category = js_or (obj_get a ''presentationCategory'') (JStr ''Healthy''),
      ar_description = js_or (obj_get a ''statusDescription'') (JStr ''Active & Synchronized''),
      ar_actions = js_or (obj_get a ''availableActions'') JNull,
      ar_tags = js_or (obj_get a ''tags'') (JArr []),
      ar_config = js_or (obj_get a ''effectiveConfig'') JNull,
      ar_desired = js_or (obj_get a ''desiredState'') (JStr ''STOPPED''),
      ar_observed = js_or (obj_get a ''observedState'') (JStr ''STOPPED''),
      ar_reason = js_or (obj_get a ''executionStatusReason'') JNull,
      ar_last_updated = js_or (obj_get a ''lastUpdated'') (iso now),
      ar_last_synchronization = js_or (obj_get a ''lastSynchronization'') (iso now)\<rparr>"

text \<open>What the update branch of the insertion keeps of the row it meets.\<close>

definition coalesce :: "jsval \<Rightarrow> jsval \<Rightarrow> jsval" where
  "coalesce v d = (if v = JNull then d else v)"

definition merge_row :: "account_row \<Rightarrow> account_row \<Rightarrow> account_row" where
  "merge_row excluded old =
     excluded\<lparr>ar_id := ar_id old, ar_user := ar_user old,
       ar_platform_display_name := coalesce (ar_platform_display_name excluded) (ar_platform_display_name old),
       ar_password := (if adapter_masked (ar_password excluded) then ar_password old else ar_password excluded),
       ar_actions := coalesce (ar_actions excluded) (ar_actions old),
       ar_desired := coalesce (ar_desired excluded) (ar_desired old),
       ar_observed := coalesce (ar_observed excluded) (ar_observed old)\<rparr>"

definition insert_or_merge :: "account_row \<Rightarrow> account_row list \<Rightarrow> account_row list" where
  "insert_or_merge row t =
     (if \<exists>r\<in>set t. ar_id r = ar_id row then map (\<lambda>r. if ar_id r = ar_id row then merge_row row r else r) t else t @ [row])"

text \<open>Values SQLite accepts in text columns that are not null. A number in such a column, which it would store as its
  text, and a null id, which it would store, are refused here.\<close>

fun text_value :: "jsval \<Rightarrow> bool" where
  "text_value (JStr s) = True"
| "text_value _ = False"

fun date_value :: "jsval \<Rightarrow> bool" where
  "date_value (JStr s) = True"
| "date_value (JNum n) = True"
| "date_value _ = False"

definition row_accepted :: "account_row \<Rightarrow> bool" where
  "row_accepted r \<longleftrightarrow> list_all text_value [ar_id r, ar_name r, ar_username r, ar_platform_display_name r, ar_currency r,
     ar_backend_state r, ar_category r, ar_description r, ar_desired r, ar_observed r] \<and>
     date_value (ar_last_updated r) \<and> date_value (ar_last_synchronization r) \<and> ar_balance r \<noteq> NaN \<and>
     (ar_reason r = JNull \<or> text_value (ar_reason r))"

definition adapter_upsert :: "crypto \<Rightarrow> int \<Rightarrow> string \<Rightarrow> obj \<Rightarrow> account_row list \<Rightarrow> store_error + account_row list" where
  "adapter_upsert cr now u a t =
     (case lower_of (js_or (obj_get a ''platformId'') (js_or (obj_get a ''platformDisplayName'') (JStr ''unknown''))) of
        Inl e \<Rightarrow> Inl e
      | Inr platformId \<Rightarrow>
          (case adapter_password (seal cr) (obj_get a ''accountPassword'') of
             Inl e \<Rightarrow> Inl e
           | Inr incoming \<Rightarrow>
               let existing = List.find (same_user_row u platformId (obj_get a ''accountUsername'')) t;
                   preserved = preserved_password (seal cr) existing;
                   t1 = (case existing of
                           Some r \<Rightarrow> if ar_id r \<noteq> obj_get a ''id'' then filter (\<lambda>x. ar_id x \<noteq> ar_id r) t else t
                         | None \<Rightarrow> t);
                   row = row_of_account (to_number cr) now u platformId (if incoming \<noteq> [] then incoming else preserved) a
               in if \<not> row_accepted row then Inl SqlFailure
                  else let t2 = insert_or_merge row t1
                       in if \<exists>r\<in>set t2. ar_id r \<noteq> ar_id row \<and> same_user_row (ar_user (the (List.find (\<lambda>x. ar_id x = ar_id row) t2))) platformId (ar_username row) r
                          then Inl SqlFailure else Inr t2))"

definition adapter_delete :: "string \<Rightarrow> jsval \<Rightarrow> account_row list \<Rightarrow> account_row list" where
  "adapter_delete u i t = filter (\<lambda>r. \<not> (ar_user r = u \<and> ar_id r = i)) t"

definition stop_row :: "string \<Rightarrow> jsval \<Rightarrow> account_row \<Rightarrow> account_row" where
  "stop_row u reason r = (if ar_user r = u then r\<lparr>ar_observed := JStr ''STOPPED'', ar_reason := reason\<rparr> else r)"

definition adapter_resetObservedStates :: "string \<Rightarrow> jsval \<Rightarrow> account_row list \<Rightarrow> account_row list" where
  "adapter_resetObservedStates u reason t = map (stop_row u reason) t"

definition adapter_deleteAllForUser :: "string \<Rightarrow> account_row list \<Rightarrow> account_row list" where
  "adapter_deleteAllForUser u t = filter (\<lambda>r. ar_user r \<noteq> u) t"

fun adapter_upserts :: "crypto \<Rightarrow> int \<Rightarrow> string \<Rightarrow> obj list \<Rightarrow> account_row list \<Rightarrow> store_error + account_row list" where
  "adapter_upserts cr now u [] t = Inr t"
| "adapter_upserts cr now u (a # as) t =
     (case adapter_upsert cr now u a t of Inl e \<Rightarrow> Inl e | Inr t' \<Rightarrow> adapter_upserts cr now u as t')"

definition adapter_replaceAll :: "crypto \<Rightarrow> int \<Rightarrow> string \<Rightarrow> obj list \<Rightarrow> account_row list \<Rightarrow> store_error + account_row list" where
  "adapter_replaceAll cr now u as t =
     (case adapter_upserts cr now u as t of
        Inl e \<Rightarrow> Inl e
      | Inr t' \<Rightarrow>
          let ids = filter truthy (map (\<lambda>a. obj_get a ''id'') as)
          in Inr (if ids = [] then t' else filter (\<lambda>r. \<not> (ar_user r = u \<and> ar_id r \<notin> set ids)) t'))"

definition getRawPassword :: "(string \<Rightarrow> string option) \<Rightarrow> string \<Rightarrow> jsval \<Rightarrow> account_row list \<Rightarrow> string" where
  "getRawPassword us u i t =
     (if \<not> truthy i then []
      else case List.find (\<lambda>r. ar_user r = u \<and> ar_id r = i) t of
             None \<Rightarrow> []
           | Some r \<Rightarrow> if ar_password r = [] then [] else decryptLocalPassword us (ar_password r))"

text \<open>White space of the ASCII range, as \<^verbatim>\<open>trim\<close> and \<^verbatim>\<open>\s\<close> see it.\<close>

definition js_space :: "char \<Rightarrow> bool" where
  "js_space c \<longleftrightarrow> of_char c \<in> {9, 10, 11, 12, 13, 32 :: nat}"

definition js_trim :: "string \<Rightarrow> string" where
  "js_trim s = rev (dropWhile js_space (rev (dropWhile js_space s)))"

definition CANONICAL_PLATFORM_NAMES :: "(string \<times> string) list" where
  "CANONICAL_PLATFORM_NAMES =
     [(''sportybet'', ''SportyBet''), (''bet9ja'', ''Bet9ja''), (''betking'', ''BetKing''), (''1xbet'', ''1xBet''),
      (''betway'', ''Betway''), (''bet365'', ''Bet365''), (''pinnacle'', ''Pinnacle'')]"

fun js_string :: "jsval \<Rightarrow> string" where
  "js_string (JStr s) = s"
| "js_string _ = []"

definition formatPlatformDisplayName :: "jsval \<Rightarrow> jsval \<Rightarrow> jsval" where
  "formatPlatformDisplayName rawPlatform fallback =
     (if \<not> truthy rawPlatform then js_or fallback (JStr ''Unknown'')
      else let clean = js_trim (js_string rawPlatform);
               lower = filter (\<lambda>c. \<not> js_space c) (toLowerCase clean)
           in JStr (case map_of CANONICAL_PLATFORM_NAMES lower of Some n \<Rightarrow> n | None \<Rightarrow> clean))"

definition account_of_row :: "(string \<Rightarrow> string option) \<Rightarrow> account_row \<Rightarrow> obj" where
  "account_of_row us r =
     (let pw = decryptLocalPassword us (ar_password r) in
      [(''id'', ar_id r), (''userId'', JStr (ar_user r)), (''name'', ar_name r), (''platformId'', JStr (ar_platform_id r)),
       (''platformDisplayName'', formatPlatformDisplayName (js_or (ar_platform_display_name r) (JStr (ar_platform_id r))) (ar_name r)),
       (''accountUsername'', ar_username r), (''accountPassword'', if pw \<noteq> [] then JStr pw else PROTECTED),
       (''lastKnownBalance'', JNum (ar_balance r)), (''currencySymbol'', ar_currency r), (''backendState'', ar_backend_state r),
       (''desiredState'', js_or (ar_desired r) (JStr ''STOPPED'')), (''observedState'', js_or (ar_observed r) (JStr ''STOPPED'')),
       (''executionStatusReason'', js_or (ar_reason r) JNull), (''presentationCategory'', ar_category r),
       (''statusDescription'', ar_description r), (''isSelectable'', JBool True),
       (''availableActions'', js_or (ar_actions r) default_actions), (''pendingOperation'', JNull),
       (''tags'', ar_tags r), (''effectiveConfig'', ar_config r),
       (''lastUpdated'', ar_last_updated r), (''lastSynchronization'', ar_last_synchronization r)])"

text \<open>\<open>newest\<close> is SQLite's order by \<^verbatim>\<open>last_updated\<close>, newest first.\<close>

definition listByUser :: "(account_row list \<Rightarrow> account_row list) \<Rightarrow> (string \<Rightarrow> string option) \<Rightarrow> string \<Rightarrow> account_row list \<Rightarrow> obj list" where
  "listByUser newest us u t = map (account_of_row us) (newest (filter (\<lambda>r. ar_user r = u) t))"

section \<open>Revisions and transactions\<close>

record meta_row =
  m_etag :: "string option"
  m_revision :: nat
  m_validated :: int

record state_store =
  st_accounts :: accounts
  st_rows :: "account_row list"
  st_meta :: "(string, meta_row) jsmap"
  st_user :: string

definition metadata_set :: "string \<Rightarrow> string option \<Rightarrow> nat \<Rightarrow> int \<Rightarrow> (string, meta_row) jsmap \<Rightarrow> (string, meta_row) jsmap" where
  "metadata_set key etag revision now m =
     AList.update key \<lparr>m_etag = (if etag \<noteq> None then etag else case map_of m key of Some r \<Rightarrow> m_etag r | None \<Rightarrow> None),
       m_revision = revision, m_validated = now\<rparr> m"

definition current_revision :: "string \<Rightarrow> state_store \<Rightarrow> nat" where
  "current_revision key s = (case map_of (st_meta s) key of Some r \<Rightarrow> m_revision r | None \<Rightarrow> 1)"

definition executeGroupTransaction ::
  "string \<Rightarrow> nat option \<Rightarrow> int \<Rightarrow> (nat \<Rightarrow> state_store \<Rightarrow> (store_error + 'r) \<times> state_store) \<Rightarrow> state_store
    \<Rightarrow> (store_error + 'r \<times> nat) \<times> state_store" where
  "executeGroupTransaction key expected now mutationFn s =
     (let cur = current_revision key s in
      if expected \<noteq> None \<and> expected \<noteq> Some cur then (Inl (RevisionConflict key (the expected) cur), s)
      else case mutationFn (cur + 1) s of
             (Inl e, s') \<Rightarrow> (Inl e, s'\<lparr>st_rows := st_rows s, st_meta := st_meta s\<rparr>)
           | (Inr r, s') \<Rightarrow> (Inr (r, cur + 1), s'\<lparr>st_meta := metadata_set key None (cur + 1) now (st_meta s')\<rparr>))"

section \<open>The accounts domain of the store\<close>

record store_env =
  se_crypto :: crypto
  se_now :: int
  se_newId :: jsval
  se_newId2 :: jsval

definition write_account :: "store_env \<Rightarrow> obj \<Rightarrow> nat \<Rightarrow> state_store \<Rightarrow> (store_error + obj) \<times> state_store" where
  "write_account env account nextRev s =
     (let target = obj_merge [(''id'', js_or (obj_get account ''id'') (se_newId env))] account in
      case adapter_upsert (se_crypto env) (se_now env) (st_user s) target (st_rows s) of
        Inl e \<Rightarrow> (Inl e, s)
      | Inr t \<Rightarrow>
          (case acc_upsert (to_number (se_crypto env)) (se_now env) (se_newId2 env) target None (st_accounts s) of
             Inl e \<Rightarrow> (Inl e, s\<lparr>st_rows := t\<rparr>)
           | Inr (a, c) \<Rightarrow> (Inr a, s\<lparr>st_rows := t, st_accounts := c\<rparr>)))"

definition accounts_upsert :: "store_env \<Rightarrow> obj \<Rightarrow> nat option \<Rightarrow> state_store \<Rightarrow> (store_error + obj \<times> nat) \<times> state_store" where
  "accounts_upsert env account expected s = executeGroupTransaction ''accounts'' expected (se_now env) (write_account env account) s"

definition accounts_delete :: "store_env \<Rightarrow> jsval \<Rightarrow> nat option \<Rightarrow> state_store \<Rightarrow> (store_error + bool \<times> nat) \<times> state_store" where
  "accounts_delete env i expected s =
     executeGroupTransaction ''accounts'' expected (se_now env)
       (\<lambda>nextRev s. case acc_delete (se_now env) i None (st_accounts s) of
                      Inl e \<Rightarrow> (Inl e, s\<lparr>st_rows := adapter_delete (st_user s) i (st_rows s)\<rparr>)
                    | Inr (b, c) \<Rightarrow> (Inr b, s\<lparr>st_rows := adapter_delete (st_user s) i (st_rows s), st_accounts := c\<rparr>)) s"

definition accounts_updateExecutionState ::
  "store_env \<Rightarrow> jsval \<Rightarrow> state_update \<Rightarrow> nat option \<Rightarrow> state_store \<Rightarrow> (store_error + obj option \<times> nat) \<times> state_store" where
  "accounts_updateExecutionState env i su expected s =
     executeGroupTransaction ''accounts'' expected (se_now env)
       (\<lambda>nextRev s.
          case acc_getById i (st_accounts s) of
            None \<Rightarrow> (Inr None, s)
          | Some cur \<Rightarrow>
              let updated = with_execution_state (se_now env) su cur in
              (case adapter_upsert (se_crypto env) (se_now env) (st_user s) updated (st_rows s) of
                 Inl e \<Rightarrow> (Inl e, s)
               | Inr t \<Rightarrow>
                   (case acc_updateExecutionState (se_now env) i su None (st_accounts s) of
                      Inl e \<Rightarrow> (Inl e, s\<lparr>st_rows := t\<rparr>)
                    | Inr (Some a, c) \<Rightarrow> (Inr (Some a), s\<lparr>st_rows := t, st_accounts := c\<rparr>)
                    | Inr (None, c) \<Rightarrow> (Inr (Some updated), s\<lparr>st_rows := t, st_accounts := c\<rparr>)))) s"

definition accounts_replaceAll :: "store_env \<Rightarrow> obj list \<Rightarrow> state_store \<Rightarrow> (store_error + obj list \<times> nat) \<times> state_store" where
  "accounts_replaceAll env accs s =
     executeGroupTransaction ''accounts'' None (se_now env)
       (\<lambda>nextRev s.
          case adapter_replaceAll (se_crypto env) (se_now env) (st_user s) accs (st_rows s) of
            Inl e \<Rightarrow> (Inl e, s)
          | Inr t \<Rightarrow>
              (case acc_hydrate (to_number (se_crypto env)) (se_now env) accs (Some nextRev) (st_accounts s) of
                 (Some e, c) \<Rightarrow> (Inl e, s\<lparr>st_rows := t, st_accounts := c\<rparr>)
               | (None, c) \<Rightarrow> (Inr accs, s\<lparr>st_rows := t, st_accounts := c\<rparr>))) s"

definition accounts_resetObservedStates :: "store_env \<Rightarrow> jsval \<Rightarrow> state_store \<Rightarrow> (store_error + bool \<times> nat) \<times> state_store" where
  "accounts_resetObservedStates env reason s =
     executeGroupTransaction ''accounts'' None (se_now env)
       (\<lambda>nextRev s. (Inr True, s\<lparr>st_rows := adapter_resetObservedStates (st_user s) reason (st_rows s),
                                st_accounts := acc_resetObservedStates (se_now env) reason (st_accounts s)\<rparr>)) s"

text \<open>The accounts part of a logout and of the start of a process; a hydration that fails empties the
  container.\<close>

definition accounts_logout :: "int \<Rightarrow> state_store \<Rightarrow> state_store" where
  "accounts_logout now s = s\<lparr>st_rows := adapter_deleteAllForUser (st_user s) (st_rows s), st_accounts := acc_reset now (st_accounts s)\<rparr>"

definition hydrate_accounts :: "(account_row list \<Rightarrow> account_row list) \<Rightarrow> store_env \<Rightarrow> state_store \<Rightarrow> state_store" where
  "hydrate_accounts newest env s =
     (case acc_hydrate (to_number (se_crypto env)) (se_now env) (listByUser newest (unseal (se_crypto env)) (st_user s) (st_rows s))
             (Some (current_revision ''accounts'' s)) (st_accounts s) of
        (Some e, c) \<Rightarrow> s\<lparr>st_accounts := acc_reset (se_now env) c\<rparr>
      | (None, c) \<Rightarrow> s\<lparr>st_accounts := c\<rparr>)"

definition initialize_accounts :: "(account_row list \<Rightarrow> account_row list) \<Rightarrow> store_env \<Rightarrow> state_store \<Rightarrow> state_store" where
  "initialize_accounts newest env s =
     (let s1 = s\<lparr>st_rows := adapter_resetObservedStates (st_user s) (JStr ''SYSTEM_BOOT_RECOVERY'') (st_rows s),
                 st_accounts := new_accounts (se_now env)\<rparr>;
          s2 = hydrate_accounts newest env s1
      in s2\<lparr>st_accounts := acc_resetObservedStates (se_now env) (JStr ''SYSTEM_BOOT_RECOVERY'') (st_accounts s2)\<rparr>)"

text \<open>Views for the outside.\<close>

definition getAccountByIdView :: "jsval \<Rightarrow> state_store \<Rightarrow> jsval" where
  "getAccountByIdView i s =
     (case acc_getById i (st_accounts s) of
        None \<Rightarrow> JNull
      | Some a \<Rightarrow>
          let bal = acc_getBalance (obj_get a ''id'') (st_accounts s)
          in JObj (obj_merge (spread (sanitizeAccountForExport (JObj a)))
               [(''currentBalance'', JNum (bm_balance bal)), (''currencySymbol'', bm_currencySymbol bal)]))"

section \<open>Lemmas\<close>

lemma adapter_upsert_result:
  assumes "adapter_upsert cr now u a t = Inr t'"
  obtains platformId incoming existing t1 row where
    "lower_of (js_or (obj_get a ''platformId'') (js_or (obj_get a ''platformDisplayName'') (JStr ''unknown''))) = Inr platformId"
    and "adapter_password (seal cr) (obj_get a ''accountPassword'') = Inr incoming"
    and "existing = List.find (same_user_row u platformId (obj_get a ''accountUsername'')) t"
    and "t1 = (case existing of Some r \<Rightarrow> if ar_id r \<noteq> obj_get a ''id'' then filter (\<lambda>x. ar_id x \<noteq> ar_id r) t else t | None \<Rightarrow> t)"
    and "row = row_of_account (to_number cr) now u platformId (if incoming \<noteq> [] then incoming else preserved_password (seal cr) existing) a"
    and "t' = insert_or_merge row t1"
  using assms by (auto simp: adapter_upsert_def Let_def split: sum.splits if_splits intro: that)

lemma kept_rows: "t1 = (case existing of Some r \<Rightarrow> if ar_id r \<noteq> i then filter (\<lambda>x. ar_id x \<noteq> ar_id r) t else t | None \<Rightarrow> t) \<Longrightarrow>
  r \<in> set t1 \<Longrightarrow> ar_id r = i \<Longrightarrow> r \<in> set t"
  by (auto split: option.splits if_splits)

lemma kept_back: "t1 = (case existing of Some r \<Rightarrow> if ar_id r \<noteq> i then filter (\<lambda>x. ar_id x \<noteq> ar_id r) t else t | None \<Rightarrow> t) \<Longrightarrow>
  r \<in> set t \<Longrightarrow> ar_id r = i \<Longrightarrow> r \<in> set t1"
  by (auto split: option.splits if_splits)

text \<open>The rows of an id after an insertion.\<close>

lemma rows_after:
  "r \<in> set (insert_or_merge row t) \<Longrightarrow> ar_id r = ar_id row \<Longrightarrow> r = row \<and> (\<forall>x\<in>set t. ar_id x \<noteq> ar_id row) \<or> (\<exists>x\<in>set t. ar_id x = ar_id row \<and> r = merge_row row x)"
  by (auto simp: insert_or_merge_def split: if_splits)

lemma row_present: "\<exists>r\<in>set (insert_or_merge row t). ar_id r = ar_id row"
proof (cases "\<exists>r\<in>set t. ar_id r = ar_id row")
  case True
  then obtain r where "r \<in> set t" "ar_id r = ar_id row" by blast
  then have "merge_row row r \<in> set (insert_or_merge row t)" by (auto simp: insert_or_merge_def)
  moreover have "ar_id (merge_row row r) = ar_id row" using \<open>ar_id r = ar_id row\<close> by (simp add: merge_row_def)
  ultimately show ?thesis by blast
qed (simp add: insert_or_merge_def)

lemma find_set: "List.find P xs = Some x \<Longrightarrow> x \<in> set xs \<and> P x"
  by (auto simp: find_Some_iff)

lemma raw_password:
  assumes "truthy i" and "\<exists>r\<in>set t. ar_user r = u \<and> ar_id r = i"
    and "\<And>r. r \<in> set t \<Longrightarrow> ar_user r = u \<Longrightarrow> ar_id r = i \<Longrightarrow> ar_password r = w" and "w \<noteq> []"
  shows "getRawPassword us u i t = decryptLocalPassword us w"
proof -
  obtain r where r: "List.find (\<lambda>r. ar_user r = u \<and> ar_id r = i) t = Some r"
    using assms(2) by (cases "List.find (\<lambda>r. ar_user r = u \<and> ar_id r = i) t") (auto simp: find_None_iff)
  then have "r \<in> set t" "ar_user r = u" "ar_id r = i" by (auto simp: find_Some_iff)
  with assms r show ?thesis by (simp add: getRawPassword_def)
qed

text \<open>What the code relies on of the cipher: it opens what it sealed, and the sealed text is hexadecimal digits and
  colons, which no mark of a masked password occurs in.\<close>

definition crypto_ok :: "crypto \<Rightarrow> bool" where
  "crypto_ok cr \<longleftrightarrow> (\<forall>p. unseal cr (seal cr p) = Some p \<and> \<not> adapter_masked (enc_prefix @ seal cr p))"

lemma decrypt_encrypted: "crypto_ok cr \<Longrightarrow> decryptLocalPassword (unseal cr) (enc_prefix @ seal cr p) = p"
  by (simp add: crypto_ok_def decryptLocalPassword_def starts_with_def)

lemma upsert_password:
  assumes "crypto_ok cr" and "adapter_upsert cr now u a t = Inr t'"
    and "obj_get a ''id'' = i" and "truthy i" and "\<forall>r\<in>set t. ar_id r = i \<longrightarrow> ar_user r = u"
    and "obj_get a ''accountPassword'' = JStr p" and "\<not> adapter_masked p" and "\<not> starts_with p enc_prefix"
  shows "getRawPassword (unseal cr) u i t' = p"
proof -
  from adapter_upsert_result [OF assms(2)] obtain pid incoming existing t1 row where
    "lower_of (js_or (obj_get a ''platformId'') (js_or (obj_get a ''platformDisplayName'') (JStr ''unknown''))) = Inr pid"
    and inc: "adapter_password (seal cr) (obj_get a ''accountPassword'') = Inr incoming"
    and "existing = List.find (same_user_row u pid (obj_get a ''accountUsername'')) t"
    and t1: "t1 = (case existing of Some r \<Rightarrow> if ar_id r \<noteq> obj_get a ''id'' then filter (\<lambda>x. ar_id x \<noteq> ar_id r) t else t | None \<Rightarrow> t)"
    and row: "row = row_of_account (to_number cr) now u pid (if incoming \<noteq> [] then incoming else preserved_password (seal cr) existing) a"
    and t': "t' = insert_or_merge row t1" .
  have w: "incoming = enc_prefix @ seal cr p"
    using inc assms(6-8) by (simp add: encryptLocalPassword_def)
  have m: "\<not> adapter_masked (enc_prefix @ seal cr p)" using assms(1) by (simp add: crypto_ok_def)
  have r: "ar_id row = i" "ar_user row = u" "ar_password row = enc_prefix @ seal cr p"
    using w assms(3) by (simp_all add: row row_of_account_def enc_prefix_def)
  have all: "ar_user x = u \<and> ar_password x = enc_prefix @ seal cr p" if "x \<in> set t'" "ar_id x = i" for x
  proof -
    have "x = row \<or> (\<exists>y\<in>set t1. ar_id y = i \<and> x = merge_row row y)" using rows_after [of x row t1] that r(1) t' by auto
    then show ?thesis
    proof
      assume "\<exists>y\<in>set t1. ar_id y = i \<and> x = merge_row row y"
      then obtain y where y: "y \<in> set t1" "ar_id y = i" "x = merge_row row y" by blast
      with kept_rows [OF t1] assms(3,5) have "ar_user y = u" by blast
      with y r m show ?thesis by (simp add: merge_row_def)
    qed (use r in simp)
  qed
  obtain x where "x \<in> set t'" "ar_id x = i" using row_present [of row t1] r(1) t' by auto
  with all have "\<exists>x\<in>set t'. ar_user x = u \<and> ar_id x = i" by blast
  from raw_password [OF assms(4) this, of "enc_prefix @ seal cr p" "unseal cr"] all show ?thesis
    by (simp add: decrypt_encrypted [OF assms(1)]) (simp add: enc_prefix_def)
qed

lemma upsert_keeps_password:
  assumes "adapter_upsert cr now u a t = Inr t'" and "obj_get a ''id'' = i"
    and "x \<in> set t" and "ar_id x = i" and "ar_user x = u" and "distinct (map ar_id t)" and "truthy i"
    and "adapter_password (seal cr) (obj_get a ''accountPassword'') = Inr []"
    and "\<forall>r\<in>set t. ar_user r = u \<and> ar_username r = obj_get a ''accountUsername'' \<longrightarrow> ar_id r = i"
    and "starts_with (ar_password x) enc_prefix" and "\<not> adapter_masked (ar_password x)"
  shows "getRawPassword us u i t' = getRawPassword us u i t"
proof -
  from adapter_upsert_result [OF assms(1)] obtain pid incoming existing t1 row where
    "lower_of (js_or (obj_get a ''platformId'') (js_or (obj_get a ''platformDisplayName'') (JStr ''unknown''))) = Inr pid"
    and inc: "adapter_password (seal cr) (obj_get a ''accountPassword'') = Inr incoming"
    and ex: "existing = List.find (same_user_row u pid (obj_get a ''accountUsername'')) t"
    and t1: "t1 = (case existing of Some r \<Rightarrow> if ar_id r \<noteq> obj_get a ''id'' then filter (\<lambda>x. ar_id x \<noteq> ar_id r) t else t | None \<Rightarrow> t)"
    and row: "row = row_of_account (to_number cr) now u pid (if incoming \<noteq> [] then incoming else preserved_password (seal cr) existing) a"
    and t': "t' = insert_or_merge row t1" .
  have only: "y = x" if "y \<in> set t" "ar_id y = i" for y using that assms(3,4,6) by (metis distinct_map inj_onD)
  have e: "existing = None \<or> existing = Some x"
  proof (cases existing)
    case (Some r)
    with ex find_set [of "same_user_row u pid (obj_get a ''accountUsername'')" t r] assms(9) only show ?thesis
      by (auto simp: same_user_row_def)
  qed simp
  have "encryptLocalPassword (seal cr) (ar_password x) = ar_password x"
    using assms(10,11) by (simp add: encryptLocalPassword_def)
  with e have pw: "ar_password row = ar_password x \<or> ar_password row = []"
    using inc assms(8,11) by (auto simp: row row_of_account_def preserved_password_def)
  have r: "ar_id row = i" using assms(2) by (simp add: row row_of_account_def)
  have xt: "x \<in> set t1" using kept_back [OF t1 assms(3)] assms(2,4) by simp
  have all: "ar_user y = u \<and> ar_password y = ar_password x" if "y \<in> set t'" "ar_id y = i" for y
  proof -
    from rows_after [of y row t1] that r xt assms(4) t' obtain z where z: "z \<in> set t1" "ar_id z = i" "y = merge_row row z" by auto
    with kept_rows [OF t1] assms(2) only have "z = x" by blast
    with z pw assms(5) show ?thesis by (auto simp: merge_row_def adapter_masked_def)
  qed
  obtain y where y: "y \<in> set t'" "ar_id y = i" using row_present [of row t1] r t' by auto
  have ne: "ar_password x \<noteq> []" using assms(10) by (auto simp: starts_with_def enc_prefix_def)
  have "getRawPassword us u i t' = decryptLocalPassword us (ar_password x)"
    using y all ne by (intro raw_password [OF assms(7)]) blast+
  moreover have "getRawPassword us u i t = decryptLocalPassword us (ar_password x)"
    using assms(3-5) only ne by (intro raw_password [OF assms(7)]) blast+
  ultimately show ?thesis by simp
qed

section \<open>The table between processes\<close>

definition rows_ok :: "account_row list \<Rightarrow> bool" where
  "rows_ok t \<longleftrightarrow> distinct (map ar_id t) \<and> (\<forall>r\<in>set t. row_accepted r)"

lemma coalesce_text: "text_value v \<Longrightarrow> coalesce v d = v"
  by (cases v) (auto simp: coalesce_def)

lemma merge_accepted: "row_accepted row \<Longrightarrow> ar_id old = ar_id row \<Longrightarrow> row_accepted (merge_row row old)"
  by (auto simp: row_accepted_def merge_row_def coalesce_text)

lemma map_rows_ok:
  assumes "rows_ok t" and "\<And>r. row_accepted r \<Longrightarrow> ar_id (f r) = ar_id r \<and> row_accepted (f r)"
  shows "rows_ok (map f t)"
proof -
  have "map ar_id (map f t) = map ar_id t" using assms by (simp add: rows_ok_def)
  then have "distinct (map ar_id (map f t))" using assms(1) by (simp only: rows_ok_def)
  moreover have "\<forall>r\<in>set (map f t). row_accepted r" using assms by (auto simp: rows_ok_def)
  ultimately show ?thesis unfolding rows_ok_def by blast
qed

lemma insert_rows_ok:
  assumes "rows_ok t" and "row_accepted row"
  shows "rows_ok (insert_or_merge row t)"
proof (cases "\<exists>r\<in>set t. ar_id r = ar_id row")
  case True
  have "rows_ok (map (\<lambda>r. if ar_id r = ar_id row then merge_row row r else r) t)"
    by (rule map_rows_ok [OF assms(1)]) (use merge_accepted [OF assms(2)] in \<open>simp add: merge_row_def\<close>)
  with True show ?thesis by (simp add: insert_or_merge_def)
next
  case False
  with assms show ?thesis by (auto simp: insert_or_merge_def rows_ok_def)
qed

lemma filter_rows_ok: "rows_ok t \<Longrightarrow> rows_ok (filter P t)"
  by (auto simp: rows_ok_def distinct_map intro: inj_on_subset)

lemma upsert_rows_ok:
  assumes "rows_ok t" and "adapter_upsert cr now u a t = Inr t'"
  shows "rows_ok t'"
  using assms insert_rows_ok filter_rows_ok
  by (auto simp: adapter_upsert_def Let_def split: sum.splits if_splits option.splits)

lemma stop_row_keeps [simp]:
  "ar_id (stop_row u reason r) = ar_id r" "ar_user (stop_row u reason r) = ar_user r" "ar_password (stop_row u reason r) = ar_password r"
  "ar_username (stop_row u reason r) = ar_username r"
  by (simp_all add: stop_row_def)

lemma reset_rows_ok: "rows_ok t \<Longrightarrow> rows_ok (adapter_resetObservedStates u (JStr x) t)"
  unfolding adapter_resetObservedStates_def by (rule map_rows_ok) (auto simp: row_accepted_def stop_row_def)

text \<open>Loading into an empty container never fails and keeps every row.\<close>

lemma account_row_get [simp]:
  "obj_get (account_of_row us r) ''id'' = ar_id r"
  "obj_get (account_of_row us r) ''accountUsername'' = ar_username r"
  "obj_get (account_of_row us r) ''account_password'' = JUndef"
  "obj_get (account_of_row us r) ''accountPassword'' =
     (if decryptLocalPassword us (ar_password r) \<noteq> [] then JStr (decryptLocalPassword us (ar_password r)) else PROTECTED)"
  "obj_get (account_of_row us r) ''platformDisplayName'' =
     formatPlatformDisplayName (js_or (ar_platform_display_name r) (JStr (ar_platform_id r))) (ar_name r)"
  "obj_get (account_of_row us r) ''platformId'' = JStr (ar_platform_id r)"
  by (simp_all add: account_of_row_def obj_get_def Let_def)

lemma format_text: "text_value v \<Longrightarrow> text_value d \<Longrightarrow> \<exists>n. formatPlatformDisplayName v d = JStr n"
  by (cases d) (auto simp: formatPlatformDisplayName_def js_or_def Let_def)

lemma row_platform:
  assumes "row_accepted r"
  shows "\<exists>p. lower_of (js_or (platform_of (account_of_row us r)) (JStr [])) = Inr p"
proof -
  have "text_value (js_or (ar_platform_display_name r) (JStr (ar_platform_id r)))" "text_value (ar_name r)"
    using assms by (auto simp: row_accepted_def js_or_def)
  from format_text [OF this] show ?thesis by (auto simp: platform_of_def js_or_def)
qed

definition loaded_row :: "(string \<Rightarrow> string option) \<Rightarrow> account_row \<Rightarrow> obj" where
  "loaded_row us r = AList.update ''accountPassword''
     (if masked_string (decryptLocalPassword us (ar_password r)) then PROTECTED else JStr (decryptLocalPassword us (ar_password r)))
     (sanitized (account_of_row us r))"

lemma load_row:
  assumes "row_accepted r"
  shows "\<exists>c'. load_account num now [] (account_of_row us r) c = Inr c' \<and>
    acc_accounts c' = AList.update (ar_id r) (loaded_row us r) (acc_accounts c)"
proof -
  let ?a = "account_of_row us r" and ?p = "decryptLocalPassword us (ar_password r)"
  obtain u where "ar_username r = JStr u" using assms by (cases "ar_username r") (auto simp: row_accepted_def)
  with row_platform [OF assms, of us] have "replaced_account ?a [] = Inr None" by (auto simp: replaced_account_def)
  moreover have "loaded_password ?a None = Inr (if masked_string ?p then PROTECTED else JStr ?p)"
    by (auto simp: loaded_password_def PROTECTED_def masked_string_def)
  moreover have "obj_get (AList.update ''accountPassword'' x (sanitized ?a)) ''id'' = ar_id r" for x
    using loaded_get [of "''id''" ?a x] assms by (cases "ar_id r") (auto simp: secret_key_def FORBIDDEN_SECRET_KEYS_def row_accepted_def)
  ultimately show ?thesis by (simp add: load_account_def loaded_row_def Let_def)
qed

lemma load_rows:
  "\<forall>r\<in>set rs. row_accepted r \<Longrightarrow> distinct (map ar_id rs) \<Longrightarrow>
   \<exists>c'. load_accounts num now [] (map (account_of_row us) rs) c = (None, c') \<and>
     (\<forall>r\<in>set rs. map_of (acc_accounts c') (ar_id r) = Some (loaded_row us r)) \<and>
     (\<forall>i. i \<notin> ar_id ` set rs \<longrightarrow> map_of (acc_accounts c') i = map_of (acc_accounts c) i)"
proof (induction rs arbitrary: c)
  case (Cons r rs)
  then have "row_accepted r" by simp
  from load_row [OF this] obtain c1 where c1: "load_account num now [] (account_of_row us r) c = Inr c1"
    "acc_accounts c1 = AList.update (ar_id r) (loaded_row us r) (acc_accounts c)" by blast
  have p: "\<forall>r\<in>set rs. row_accepted r" "distinct (map ar_id rs)" using Cons.prems by simp_all
  from Cons.IH [OF p, of c1] obtain c' where c': "load_accounts num now [] (map (account_of_row us) rs) c1 = (None, c')"
    "\<forall>r\<in>set rs. map_of (acc_accounts c') (ar_id r) = Some (loaded_row us r)"
    "\<forall>i. i \<notin> ar_id ` set rs \<longrightarrow> map_of (acc_accounts c') i = map_of (acc_accounts c1) i" by blast
  have "map_of (acc_accounts c') (ar_id r) = Some (loaded_row us r)"
    using c'(3) c1(2) Cons.prems(2) by (simp add: update_conv')
  moreover have "map_of (acc_accounts c') i = map_of (acc_accounts c) i" if "i \<notin> ar_id ` set (r # rs)" for i
    using c'(3) c1(2) that by (auto simp: update_conv')
  ultimately show ?case using c1(1) c'(1,2) by auto
qed simp

lemma initialized_row:
  assumes "rows_ok (st_rows s)" and "\<And>rs. mset (newest rs) = mset rs" and "r \<in> set (st_rows s)" and "ar_user r = st_user s"
  shows "acc_getById (ar_id r) (st_accounts (initialize_accounts newest env s)) =
    Some (stopped_account (se_now env) (JStr ''SYSTEM_BOOT_RECOVERY'')
      (loaded_row (unseal (se_crypto env)) (stop_row (st_user s) (JStr ''SYSTEM_BOOT_RECOVERY'') r)))"
proof -
  let ?t = "adapter_resetObservedStates (st_user s) (JStr ''SYSTEM_BOOT_RECOVERY'') (st_rows s)"
  let ?rs = "newest (filter (\<lambda>r. ar_user r = st_user s) ?t)"
  have ok: "rows_ok (filter (\<lambda>r. ar_user r = st_user s) ?t)" by (intro filter_rows_ok reset_rows_ok assms(1))
  have m: "mset ?rs = mset (filter (\<lambda>r. ar_user r = st_user s) ?t)" by (rule assms(2))
  then have "mset (map ar_id ?rs) = mset (map ar_id (filter (\<lambda>r. ar_user r = st_user s) ?t))" by (simp only: mset_map)
  then have d: "distinct (map ar_id ?rs)" using ok by (metis mset_eq_imp_distinct_iff rows_ok_def)
  have acc: "\<forall>r\<in>set ?rs. row_accepted r" using ok m by (metis mset_eq_setD rows_ok_def)
  obtain c' where c': "load_accounts (to_number (se_crypto env)) (se_now env) [] (map (account_of_row (unseal (se_crypto env))) ?rs)
      (new_accounts (se_now env)) = (None, c')"
    "\<forall>r\<in>set ?rs. map_of (acc_accounts c') (ar_id r) = Some (loaded_row (unseal (se_crypto env)) r)"
    using load_rows [OF acc d] by blast
  have "stop_row (st_user s) (JStr ''SYSTEM_BOOT_RECOVERY'') r \<in> set ?rs"
    using mset_eq_setD [OF m] assms(3,4) by (auto simp: adapter_resetObservedStates_def)
  with c'(2) have "map_of (acc_accounts c') (ar_id r) =
      Some (loaded_row (unseal (se_crypto env)) (stop_row (st_user s) (JStr ''SYSTEM_BOOT_RECOVERY'') r))" by (metis stop_row_keeps(1))
  with c'(1) show ?thesis
    by (simp add: initialize_accounts_def hydrate_accounts_def listByUser_def acc_hydrate_def new_accounts_def Let_def
        acc_resetObservedStates_def acc_getById_def map_of_map)
qed

section \<open>Concurrent edits\<close>

definition store_commit :: "store_env \<times> obj \<Rightarrow> nat \<Rightarrow> state_store \<Rightarrow> state_store option" where
  "store_commit w e s = (case accounts_upsert (fst w) (snd w) (Some e) s of (Inr r, s') \<Rightarrow> Some s' | (Inl err, s') \<Rightarrow> None)"

lemma committed_revision:
  "executeGroupTransaction key expected now f s = (Inr (r, n), s') \<Longrightarrow>
   n = Suc (current_revision key s) \<and> current_revision key s' = n \<and> (expected = None \<or> expected = Some (current_revision key s))"
  by (auto simp: executeGroupTransaction_def Let_def current_revision_def metadata_set_def update_conv' split: if_splits prod.splits sum.splits)

interpretation accounts_occ: occ_store "current_revision ''accounts''" store_commit
proof
  show "store_commit w e s = None" if "e \<noteq> current_revision ''accounts'' s" for w e s
    using that by (simp add: store_commit_def accounts_upsert_def executeGroupTransaction_def)
  show "current_revision ''accounts'' s' = Suc (current_revision ''accounts'' s)" if "store_commit w e s = Some s'" for w e s s'
    using that committed_revision [of "''accounts''" "Some e" "se_now (fst w)" "write_account (fst w) (snd w)" s]
    by (auto simp: store_commit_def accounts_upsert_def split: prod.splits sum.splits)
qed

section \<open>Properties\<close>


text \<open>A cipher for examples: it escapes the characters that occur in masks.\<close>

definition spell_char :: "char \<Rightarrow> string" where
  "spell_char c = (if c = CHR ''*'' then ''_s'' else if c = CHR 0xE2 then ''_e'' else if c = CHR ''_'' then ''__'' else [c])"

definition spell :: "string \<Rightarrow> string" where
  "spell p = concat (map spell_char p)"

fun unspell :: "string \<Rightarrow> string option" where
  "unspell [] = Some []"
| "unspell [c] = (if c = CHR ''_'' then None else Some [c])"
| "unspell (c # d # s) =
     (if c = CHR ''_''
      then map_option ((#) (if d = CHR ''s'' then CHR ''*'' else if d = CHR ''e'' then CHR 0xE2 else d)) (unspell s)
      else map_option ((#) c) (unspell (d # s)))"

definition sample_crypto :: crypto where
  "sample_crypto = \<lparr>seal = spell, unseal = unspell, to_number = num_of\<rparr>"

lemma unspell_plain: "c \<noteq> CHR ''_'' \<Longrightarrow> unspell (c # s) = map_option ((#) c) (unspell s)"
  by (cases s) auto

lemma unspell_spell: "unspell (spell p) = Some p"
  by (induction p) (auto simp: spell_def spell_char_def unspell_plain)

lemma includes_chars: "includes_str s n \<Longrightarrow> set n \<subseteq> set s"
proof (induction s)
  case (Cons c s)
  then show ?case using set_take_subset [of "length n" "c # s"] by auto
qed simp

lemma sample_crypto_ok: "crypto_ok sample_crypto"
proof -
  have c: "CHR ''*'' \<notin> set (enc_prefix @ spell p)" "CHR 0xE2 \<notin> set (enc_prefix @ spell p)" for p
    by (auto simp: enc_prefix_def spell_def spell_char_def split: if_splits)
  have "\<not> includes_str (enc_prefix @ spell p) ''***''" "\<not> includes_str (enc_prefix @ spell p) bullets" for p
    using c includes_chars [of "enc_prefix @ spell p" "''***''"] includes_chars [of "enc_prefix @ spell p" bullets]
    by (auto simp: bullets_def)
  then show ?thesis by (simp add: crypto_ok_def sample_crypto_def unspell_spell adapter_masked_def) (simp add: enc_prefix_def)
qed

definition sample_store :: state_store where
  "sample_store = \<lparr>st_accounts = new_accounts 0, st_rows = [], st_meta = [], st_user = ''u''\<rparr>"

definition sample_store_env :: store_env where
  "sample_store_env = \<lparr>se_crypto = sample_crypto, se_now = 5, se_newId = JStr ''n1'', se_newId2 = JStr ''n2''\<rparr>"

definition stored_once :: state_store where
  "stored_once = snd (accounts_upsert sample_store_env (sample_raw ''a1'' ''joe'' ''hunter2'') None sample_store)"


text \<open>No edit is lost: whatever edits of accounts arrive in whatever order, each naming the revision it was made on,
  the accepted ones were made on consecutive revisions, so each was made on the result of the one before.\<close>

theorem no_lost_account_edit:
  assumes "occ_run store_commit edits s = (vs, t)"
  shows "vs = [current_revision ''accounts'' s ..< current_revision ''accounts'' s + length vs] \<and>
    current_revision ''accounts'' t = current_revision ''accounts'' s + length vs"
  using accounts_occ.run_versions [OF assms] .

definition sample_edits :: "((store_env \<times> obj) \<times> nat) list" where
  "sample_edits = [((sample_store_env, sample_raw ''a1'' ''joe'' ''pw''), 1), ((sample_store_env, sample_raw ''a2'' ''jim'' ''pw''), 1),
     ((sample_store_env, sample_raw ''a3'' ''jon'' ''pw''), 2)]"

theorem no_lost_account_edit_witness: "fst (occ_run store_commit sample_edits sample_store) = [1, 2]"
proof -
  have "length (fst (occ_run store_commit sample_edits sample_store)) = 2" "current_revision ''accounts'' sample_store = 1" by code_simp+
  with no_lost_account_edit [of sample_edits sample_store, OF prod.collapse [symmetric]]
  have "fst (occ_run store_commit sample_edits sample_store) = [1 ..< 1 + 2]" by metis
  then show ?thesis by (simp add: upt_rec)
qed

text \<open>A stored password reads back: after a successful write of an account with a real password, the vault query
  returns exactly that password, and so does the container unless the password looks masked to it. The
  cipher is an argument; the account's id is not in use by another user.\<close>

theorem stored_password_reads_back:
  assumes "crypto_ok (se_crypto env)" and "accounts_upsert env account expected s = (Inr (a, n), s')"
    and "distinct (map fst account)" and "obj_get account ''id'' = JStr i" and "i \<noteq> []"
    and "obj_get account ''accountPassword'' = JStr p" and "\<not> masked_string p" and "\<not> starts_with p enc_prefix"
    and "\<forall>r\<in>set (st_rows s). ar_id r = JStr i \<longrightarrow> ar_user r = st_user s"
  shows "getRawPassword (unseal (se_crypto env)) (st_user s) (JStr i) (st_rows s') = p \<and>
    (\<exists>b. acc_getById (JStr i) (st_accounts s') = Some b \<and> obj_get b ''accountPassword'' = JStr p)"
proof -
  let ?target = "obj_merge [(''id'', js_or (obj_get account ''id'') (se_newId env))] account"
  have k: "k \<in> set (map fst account)" if "obj_get account k = JStr x" for k x
    using that by (auto simp: obj_get_def dest: map_of_SomeD split: option.splits) (metis fst_conv image_eqI map_of_SomeD)
  have tgt: "obj_get ?target ''id'' = JStr i" "obj_get ?target ''accountPassword'' = JStr p"
    using obj_get_merge [OF assms(3)] k assms(4,6) by auto
  from assms(2) obtain t c where
    t: "adapter_upsert (se_crypto env) (se_now env) (st_user s) ?target (st_rows s) = Inr t"
    and c: "acc_upsert (to_number (se_crypto env)) (se_now env) (se_newId2 env) ?target None (st_accounts s) = Inr (a, c)"
    and s': "st_rows s' = t" "st_accounts s' = c"
    by (auto simp: accounts_upsert_def executeGroupTransaction_def write_account_def Let_def split: if_splits prod.splits sum.splits)
  have am: "\<not> adapter_masked p" using assms(7) by (auto simp: masked_string_def adapter_masked_def mask_marks_def)
  from upsert_password [OF assms(1) t tgt(1) _ assms(9) tgt(2) am assms(8)] assms(5)
  have "getRawPassword (unseal (se_crypto env)) (st_user s) (JStr i) t = p" by simp
  moreover have "obj_get a ''accountPassword'' = JStr p \<and> obj_get a ''id'' = JStr i \<and> acc_getById (obj_get a ''id'') c = Some a"
  proof -
    from upsert_result [OF c] obtain pl existing pwd where
      "kept_password (obj_get ?target ''accountPassword'') existing = Inr pwd"
      "obj_get a ''accountPassword'' = pwd" "obj_get a ''id'' = js_or (obj_get (sanitized ?target) ''id'') (se_newId2 env)"
      "c = put_account (to_number (se_crypto env)) (se_now env) a (st_accounts s)" by (metis record_get(1,2))
    with tgt assms(5,7) sanitized_id [of ?target] show ?thesis
      by (simp add: kept_password_def js_or_def put_account_def acc_getById_def update_conv')
  qed
  ultimately show ?thesis using s' by auto
qed

theorem stored_password_reads_back_witness:
  "getRawPassword unspell ''u'' (JStr ''a1'') (st_rows stored_once) = ''hunter2''"
proof -
  let ?r = "accounts_upsert sample_store_env (sample_raw ''a1'' ''joe'' ''hunter2'') None sample_store"
  have ok: "\<not> isl (fst ?r)" by code_simp
  have r: "?r = (Inr (fst (projr (fst ?r)), snd (projr (fst ?r))), stored_once)"
    using ok unfolding stored_once_def by (cases ?r; cases "fst ?r") auto
  have c: "crypto_ok (se_crypto sample_store_env)" using sample_crypto_ok by (simp add: sample_store_env_def)
  have "distinct (map fst (sample_raw ''a1'' ''joe'' ''hunter2''))" "obj_get (sample_raw ''a1'' ''joe'' ''hunter2'') ''id'' = JStr ''a1''"
    "''a1'' \<noteq> []" "obj_get (sample_raw ''a1'' ''joe'' ''hunter2'') ''accountPassword'' = JStr ''hunter2''"
    "\<not> masked_string ''hunter2''" "\<not> starts_with ''hunter2'' enc_prefix"
    "\<forall>r\<in>set (st_rows sample_store). ar_id r = JStr ''a1'' \<longrightarrow> ar_user r = st_user sample_store" by code_simp+
  from stored_password_reads_back [OF c r this] show ?thesis
    by (simp add: sample_store_env_def sample_crypto_def sample_store_def)
qed

text \<open>C26. A restart restores the accounts: for every row of the user the container has, after the start of a process, the
  account with that id, user name and password (as far as the password does not look masked), and every
  account is observed as stopped, whatever was observed when the process ended.\<close>

theorem restart_restores_accounts:
  assumes "rows_ok (st_rows s)" and "\<forall>rs. mset (newest rs) = mset rs" and "r \<in> set (st_rows s)" and "ar_user r = st_user s"
  shows "\<exists>a. acc_getById (ar_id r) (st_accounts (initialize_accounts newest env s)) = Some a \<and>
    obj_get a ''id'' = ar_id r \<and> obj_get a ''accountUsername'' = ar_username r \<and> obj_get a ''observedState'' = JStr ''STOPPED'' \<and>
    obj_get a ''accountPassword'' = (let p = decryptLocalPassword (unseal (se_crypto env)) (ar_password r)
       in if masked_string p then PROTECTED else JStr p)"
proof -
  let ?r = "stop_row (st_user s) (JStr ''SYSTEM_BOOT_RECOVERY'') r" and ?us = "unseal (se_crypto env)"
  have acc: "row_accepted r" using assms(1,3) by (simp add: rows_ok_def)
  have k: "\<not> secret_key ''id''" "\<not> secret_key ''accountUsername''" by (simp_all add: secret_key_def FORBIDDEN_SECRET_KEYS_def)
  have pl: "plain (ar_id r)" "plain (ar_username r)" using acc by (cases "ar_id r"; cases "ar_username r"; simp add: row_accepted_def)+
  have g: "obj_get (loaded_row ?us ?r) ''id'' = ar_id r" "obj_get (loaded_row ?us ?r) ''accountUsername'' = ar_username r"
    using loaded_get [OF k(1), of "account_of_row ?us ?r"] loaded_get [OF k(2), of "account_of_row ?us ?r"] pl
    by (simp_all add: loaded_row_def)
  have p: "obj_get (loaded_row ?us ?r) ''accountPassword'' =
      (let p = decryptLocalPassword ?us (ar_password r) in if masked_string p then PROTECTED else JStr p)"
    by (simp add: loaded_row_def Let_def)
  have "acc_getById (ar_id r) (st_accounts (initialize_accounts newest env s)) =
      Some (stopped_account (se_now env) (JStr ''SYSTEM_BOOT_RECOVERY'') (loaded_row ?us ?r))"
    by (rule initialized_row) (use assms in auto)
  with g p show ?thesis by (simp add: stopped_account_def)
qed

theorem restart_restores_accounts_witness:
  "\<exists>a. acc_getById (JStr ''a1'') (st_accounts (initialize_accounts id sample_store_env stored_once)) = Some a \<and>
    obj_get a ''accountPassword'' = JStr ''hunter2'' \<and> obj_get a ''observedState'' = JStr ''STOPPED''"
proof -
  let ?r = "hd (st_rows stored_once)"
  have h: "rows_ok (st_rows stored_once)" "?r \<in> set (st_rows stored_once)" "ar_user ?r = st_user stored_once" "ar_id ?r = JStr ''a1''"
    "decryptLocalPassword (unseal (se_crypto sample_store_env)) (ar_password ?r) = ''hunter2''" "\<not> masked_string ''hunter2''" by code_simp+
  from restart_restores_accounts [OF h(1) _ h(2,3), of id sample_store_env] show ?thesis using h(4-6) by (auto simp: Let_def)
qed

text \<open>An update without a balance erases the stored one, and one without a desired state stops the account on
  disk: the defaults the adapter fills in are never null, so the clauses that were to keep the old values
  never apply.\<close>

theorem update_erases_balance:
  "ar_balance (merge_row (row_of_account num now u pid pw [(''id'', i), (''accountUsername'', n)]) old) = Fin 0 \<and>
   ar_desired (merge_row (row_of_account num now u pid pw [(''id'', i), (''accountUsername'', n)]) old) = JStr ''STOPPED''"
  by (simp add: merge_row_def row_of_account_def row_balance_def coalesce_def js_or_def obj_get_def)

text \<open>The two revisions drift apart: deleting an unknown account advances the revision on disk, which edits are
  checked against, but not the one of the container.\<close>

theorem revisions_drift:
  assumes "acc_getById i (st_accounts s) = None" and "acc_revision (st_accounts s) = current_revision ''accounts'' s"
    and "accounts_delete env i None s = (r, s')"
  shows "acc_revision (st_accounts s') = acc_revision (st_accounts s) \<and>
    current_revision ''accounts'' s' = Suc (acc_revision (st_accounts s'))"
  using assms by (auto simp: accounts_delete_def executeGroupTransaction_def acc_delete_def conflict_def acc_getById_def Let_def
      current_revision_def metadata_set_def update_conv')

end
