(* ===== verification/AutomationConfig.thy ===== *)
theory AutomationConfig
  imports AccountsStore
begin

text \<open>
  The automation configuration: the container in memory (\<^verbatim>\<open>state-store/memory/AutomationConfigContainer.mjs\<close>) with
  its validators, the table (\<^verbatim>\<open>persistence/adapters/ConfigAdapter.mjs\<close>), the configuration domain of
  \<^verbatim>\<open>StateStore.mjs\<close> that writes both, the start of a process, logout, and the adapter through which the
  synchronisation replaces the configuration (\<^verbatim>\<open>repositories/repositoryFactory.mjs\<close>). A category that is not a
  string is not considered; the validator refuses it.
\<close>

section \<open>JSON copies\<close>

text \<open>\<^verbatim>\<open>JSON.parse(JSON.stringify(v))\<close>: undefined members are dropped, undefined elements and numbers that are not finite
  become null.\<close>

fun json_clone :: "jsval \<Rightarrow> jsval" and json_members :: "obj \<Rightarrow> obj" and json_elements :: "jsval list \<Rightarrow> jsval list" where
  "json_clone (JNum n) = (if is_finite_num n then JNum n else JNull)"
| "json_clone (JArr xs) = JArr (json_elements xs)"
| "json_clone (JObj kvs) = JObj (json_members kvs)"
| "json_clone v = v"
| "json_members [] = []"
| "json_members ((k, v) # kvs) = (if v = JUndef then json_members kvs else (k, json_clone v) # json_members kvs)"
| "json_elements [] = []"
| "json_elements (x # xs) = (if x = JUndef then JNull else json_clone x) # json_elements xs"

section \<open>The container\<close>

abbreviation num :: "rat \<Rightarrow> jsval" where
  "num r \<equiv> JNum (Fin r)"

definition CATEGORIES :: "string list" where
  "CATEGORIES = [''pricing'', ''risk'', ''rebet'', ''proxy'', ''execution'', ''browserSpawning'', ''advancedRuntime'']"

definition default_pricing :: obj where
  "default_pricing =
     [(''mode'', JStr ''PROFIT_TARGET''), (''baseStake'', num 1000), (''targetProfit'', num 30000),
      (''minimumAcceptableProfit'', num 5000), (''resolutionStrategy'', JStr ''CLAMP_THEN_REDUCE_PROFIT''),
      (''platformIncrement'', num 100), (''selectionPreference'', JStr ''ROUND_NUMBERS''), (''restorePolicyOnRebet'', JBool True)]"

definition default_risk :: obj where
  "default_risk =
     [(''autoAcceptOddsChanges'', JBool True), (''maxStake'', num 10000), (''minimumStake'', num 10),
      (''abortOnMarketSuspend'', JBool True), (''maxAllowedOddsDriftPercent'', num 5), (''stopLossThreshold'', num 25000),
      (''maxOpenOrdersTotal'', num 10), (''emergencyKillswitchActive'', JBool False)]"

definition default_rebet :: obj where
  "default_rebet =
     [(''maxRebetAttempts'', num 3), (''restorePolicyOnRebet'', JBool True), (''rebetDelayMs'', num 1500),
      (''exponentialBackoff'', JBool True), (''backoffMultiplier'', num (3 / 2)), (''haltOnRepeatedRejection'', JBool True)]"

definition default_proxy :: obj where
  "default_proxy =
     [(''proxyAllocationMode'', JStr ''round_robin''), (''proxyFailureMode'', JStr ''loose''), (''maxAccountsPerProxy'', num 3),
      (''masterUseProxy'', JBool False), (''connectionTimeoutMs'', num 5000), (''rotateOnRateLimit'', JBool True),
      (''customDnsServers'', JArr [JStr ''1.1.1.1'', JStr ''8.8.8.8''])]"

definition default_execution :: obj where
  "default_execution =
     [(''timeouts'', JObj [(''resultTimeoutMs'', num 30000), (''navigationTimeoutMs'', num 10000), (''loginTimeoutMs'', num 25000),
         (''decisionFreshnessTTLMs'', num 5000), (''reconciliationTimeoutMs'', num 12000)]),
      (''retries'', JObj [(''maxExecutionRetries'', num 2), (''maxRecoveryAttempts'', num 3), (''recoveryBaseDelayMs'', num 1000)]),
      (''keyboardTypingDelayMs'', num 10), (''maxRecordedActions'', num 50), (''orderTimeoutMs'', num 8000),
      (''retryCount'', num 2), (''enforceOrderSequencing'', JBool True), (''interPlatformDelayMs'', num 250),
      (''pacingStrategy'', JStr ''AGGRESSIVE'')]"

definition default_spawning :: obj where
  "default_spawning =
     [(''slaveMode'', JStr ''headful''), (''maxAccountsToSpawn'', num 4), (''masterUseProxy'', JBool False),
      (''debugSlowMo'', num 0), (''spawnStaggerIntervalMs'', num 1200), (''headlessMemorySaver'', JBool False),
      (''enableGpuAcceleration'', JBool True)]"

definition default_runtime :: obj where
  "default_runtime =
     [(''browserBinary'', JStr ''chrome''), (''useStealthPlugin'', JBool True), (''randomizeUserAgent'', JBool True),
      (''blockWebRTC'', JBool True), (''matchProxyTimezone'', JBool True), (''canvasSpoofing'', JBool True),
      (''disableWebRtc'', JBool True), (''spoofAudioContext'', JBool True), (''isolateCookiesPerSession'', JBool True),
      (''customUserAgentOverride'', JStr ''''), (''recordActionSequence'', JBool False), (''replayActionSequence'', JBool False)]"

definition createDefaultGlobalConfig :: obj where
  "createDefaultGlobalConfig =
     [(''pricing'', JObj default_pricing), (''risk'', JObj default_risk), (''rebet'', JObj default_rebet),
      (''proxy'', JObj default_proxy), (''execution'', JObj default_execution), (''browserSpawning'', JObj default_spawning),
      (''advancedRuntime'', JObj default_runtime)]"

datatype config_error =
    StoreError store_error
  | UnknownCategory string
  | SecretFound string

record config =
  cf_global :: obj
  cf_overrides :: "(jsval, jsval) jsmap"
  cf_revision :: nat
  cf_updated :: int

definition new_config :: "int \<Rightarrow> config" where
  "new_config now = \<lparr>cf_global = createDefaultGlobalConfig, cf_overrides = [], cf_revision = 1, cf_updated = now\<rparr>"

definition cfg_reset :: "int \<Rightarrow> config \<Rightarrow> config" where
  "cfg_reset now c = c\<lparr>cf_global := createDefaultGlobalConfig, cf_overrides := [], cf_revision := 1, cf_updated := now\<rparr>"

definition validateGlobalConfig :: "obj \<Rightarrow> config_error + unit" where
  "validateGlobalConfig cfg =
     (case List.find (\<lambda>cat. \<not> truthy (obj_get cfg cat) \<or> \<not> typeof_object (obj_get cfg cat)) CATEGORIES of
        Some cat \<Rightarrow> Inl (StoreError (ValidationError ''missing required category''))
      | None \<Rightarrow> Inr ())"

definition validateCategoryValues :: "string \<Rightarrow> jsval \<Rightarrow> config_error + unit" where
  "validateCategoryValues category vals =
     (if category \<notin> set CATEGORIES then Inl (StoreError (ValidationError ''unknown category''))
      else if \<not> truthy vals \<or> \<not> typeof_object vals \<or> is_array vals then Inl (StoreError (ValidationError ''not an object''))
      else Inr ())"

definition merge_category :: "string \<times> jsval \<Rightarrow> obj \<Rightarrow> obj" where
  "merge_category m base =
     (if truthy (obj_get base (fst m)) \<and> typeof_object (snd m)
      then AList.update (fst m) (JObj (obj_merge (spread (obj_get base (fst m))) (spread (snd m)))) base
      else if truthy (snd m) \<and> typeof_object (snd m) then AList.update (fst m) (snd m) base
      else base)"

definition hydrated_config :: "int \<Rightarrow> obj \<Rightarrow> obj \<Rightarrow> nat option \<Rightarrow> config \<Rightarrow> config" where
  "hydrated_config now global overrides revision c =
     c\<lparr>cf_global := global, cf_overrides := map (\<lambda>(k, v). (JStr k, json_clone v)) overrides,
       cf_revision := (case revision of Some r \<Rightarrow> r | None \<Rightarrow> cf_revision c + 1), cf_updated := now\<rparr>"

definition cfg_hydrate :: "int \<Rightarrow> jsval \<Rightarrow> obj \<Rightarrow> nat option \<Rightarrow> config \<Rightarrow> config_error option \<times> config" where
  "cfg_hydrate now globalConfig overrides revision c =
     (if truthy globalConfig \<and> typeof_object globalConfig
      then let base = fold merge_category (spread globalConfig) createDefaultGlobalConfig in
           (case validateGlobalConfig base of
              Inl e \<Rightarrow> (Some e, c)
            | Inr _ \<Rightarrow> (None, hydrated_config now (json_members base) overrides revision c))
      else (None, hydrated_config now createDefaultGlobalConfig overrides revision c))"

definition getGlobalConfig :: "config \<Rightarrow> obj" where
  "getGlobalConfig c = json_members (cf_global c)"

definition getCategory :: "string \<Rightarrow> config \<Rightarrow> config_error + jsval" where
  "getCategory category c =
     (if \<not> truthy (obj_get (cf_global c) category) then Inl (UnknownCategory category)
      else Inr (json_clone (obj_get (cf_global c) category)))"

definition cfg_conflict :: "string \<Rightarrow> nat option \<Rightarrow> config \<Rightarrow> config_error + unit" where
  "cfg_conflict key expected c =
     (case expected of
        Some r \<Rightarrow> if r \<noteq> cf_revision c then Inl (StoreError (RevisionConflict key r (cf_revision c))) else Inr ()
      | None \<Rightarrow> Inr ())"

definition cfg_updateCategory :: "int \<Rightarrow> string \<Rightarrow> jsval \<Rightarrow> nat option \<Rightarrow> config \<Rightarrow> config_error + jsval \<times> config" where
  "cfg_updateCategory now category vals expected c =
     (case cfg_conflict ''global_config'' expected c of
        Inl e \<Rightarrow> Inl e
      | Inr _ \<Rightarrow>
          (case validateCategoryValues category vals of
             Inl e \<Rightarrow> Inl e
           | Inr _ \<Rightarrow>
               let c' = c\<lparr>cf_global := AList.update category
                            (JObj (obj_merge (spread (obj_get (cf_global c) category)) (spread vals))) (cf_global c),
                          cf_revision := cf_revision c + 1, cf_updated := now\<rparr>
               in map_sum id (\<lambda>v. (v, c')) (getCategory category c')))"

definition default_override :: jsval where
  "default_override = JObj [(''betCycleEnabled'', JBool True), (''pricingSource'', JStr ''GLOBAL''), (''riskSource'', JStr ''GLOBAL''),
     (''rebetSource'', JStr ''GLOBAL'')]"

definition getAccountOverride :: "jsval \<Rightarrow> config \<Rightarrow> jsval" where
  "getAccountOverride i c = (case map_of (cf_overrides c) i of Some v \<Rightarrow> js_or v default_override | None \<Rightarrow> default_override)"

definition cfg_updateAccountOverride :: "int \<Rightarrow> jsval \<Rightarrow> obj \<Rightarrow> nat option \<Rightarrow> config \<Rightarrow> config_error + jsval \<times> config" where
  "cfg_updateAccountOverride now i updates expected c =
     (case cfg_conflict ''account_config'' expected c of
        Inl e \<Rightarrow> Inl e
      | Inr _ \<Rightarrow>
          let updated = JObj (obj_merge (spread (getAccountOverride i c)) updates)
          in Inr (updated, c\<lparr>cf_overrides := AList.update i updated (cf_overrides c),
                             cf_revision := cf_revision c + 1, cf_updated := now\<rparr>))"

section \<open>The table\<close>

definition cfg_save :: "string \<Rightarrow> jsval \<Rightarrow> (string, obj) jsmap \<Rightarrow> config_error + (string, obj) jsmap" where
  "cfg_save u cfg t =
     (case assertZeroSecrets cfg of
        Inl k \<Rightarrow> Inl (SecretFound k)
      | Inr _ \<Rightarrow>
          if list_ex (\<lambda>cat. js_get cfg cat = JUndef) CATEGORIES then Inl (StoreError SqlFailure)
          else Inr (AList.update u (map (\<lambda>cat. (cat, json_clone (js_get cfg cat))) CATEGORIES) t))"

definition cfg_get :: "string \<Rightarrow> (string, obj) jsmap \<Rightarrow> obj" where
  "cfg_get u t = (case map_of t u of None \<Rightarrow> createDefaultGlobalConfig | Some row \<Rightarrow> row)"

definition cfg_deleteForUser :: "string \<Rightarrow> (string, obj) jsmap \<Rightarrow> (string, obj) jsmap" where
  "cfg_deleteForUser u t = AList.delete u t"

section \<open>The configuration domain of the store\<close>

record config_store =
  cs_store :: state_store
  cs_config :: config
  cs_rows :: "(string, obj) jsmap"

text \<open>The transaction of \<open>executeGroupTransaction\<close> over the tables of accounts and configuration.\<close>

definition config_transaction ::
  "string \<Rightarrow> nat option \<Rightarrow> int \<Rightarrow> (nat \<Rightarrow> config_store \<Rightarrow> (config_error + 'r) \<times> config_store) \<Rightarrow> config_store
    \<Rightarrow> (config_error + 'r \<times> nat) \<times> config_store" where
  "config_transaction key expected now mutationFn s =
     (let cur = current_revision key (cs_store s) in
      if expected \<noteq> None \<and> expected \<noteq> Some cur then (Inl (StoreError (RevisionConflict key (the expected) cur)), s)
      else case mutationFn (cur + 1) s of
             (Inl e, s') \<Rightarrow> (Inl e, s'\<lparr>cs_store := (cs_store s')\<lparr>st_rows := st_rows (cs_store s), st_meta := st_meta (cs_store s)\<rparr>,
                                     cs_rows := cs_rows s\<rparr>)
           | (Inr r, s') \<Rightarrow> (Inr (r, cur + 1),
                s'\<lparr>cs_store := (cs_store s')\<lparr>st_meta := metadata_set key None (cur + 1) now (st_meta (cs_store s'))\<rparr>\<rparr>))"

definition write_category :: "store_env \<Rightarrow> string \<Rightarrow> jsval \<Rightarrow> nat \<Rightarrow> config_store \<Rightarrow> (config_error + jsval) \<times> config_store" where
  "write_category env category vals nextRev s =
     (case getCategory category (cs_config s) of
        Inl e \<Rightarrow> (Inl e, s)
      | Inr current \<Rightarrow>
          let fullConfig = AList.update category (JObj (obj_merge (spread current) (spread vals))) (getGlobalConfig (cs_config s)) in
          (case cfg_save (st_user (cs_store s)) (JObj fullConfig) (cs_rows s) of
             Inl e \<Rightarrow> (Inl e, s)
           | Inr t \<Rightarrow>
               (case cfg_updateCategory (se_now env) category vals None (cs_config s) of
                  Inl e \<Rightarrow> (Inl e, s\<lparr>cs_rows := t\<rparr>)
                | Inr (v, c) \<Rightarrow> (Inr v, s\<lparr>cs_rows := t, cs_config := c\<rparr>))))"

definition config_updateCategory ::
  "store_env \<Rightarrow> string \<Rightarrow> jsval \<Rightarrow> nat option \<Rightarrow> config_store \<Rightarrow> (config_error + jsval \<times> nat) \<times> config_store" where
  "config_updateCategory env category vals expected s =
     config_transaction ''global_config'' expected (se_now env) (write_category env category vals) s"

definition override_config :: "store_env \<Rightarrow> jsval \<Rightarrow> obj \<Rightarrow> config_store \<Rightarrow> (config_error + jsval) \<times> config_store" where
  "override_config env i updates s =
     (case cfg_updateAccountOverride (se_now env) i updates None (cs_config s) of
        Inl e \<Rightarrow> (Inl e, s)
      | Inr (v, c) \<Rightarrow> (Inr v, s\<lparr>cs_config := c\<rparr>))"

definition overridden_account :: "int \<Rightarrow> obj \<Rightarrow> obj \<Rightarrow> obj" where
  "overridden_account now override acc = obj_merge acc [(''effectiveConfig'', JObj override), (''lastUpdated'', iso now)]"

definition write_override :: "store_env \<Rightarrow> jsval \<Rightarrow> obj \<Rightarrow> nat \<Rightarrow> config_store \<Rightarrow> (config_error + jsval) \<times> config_store" where
  "write_override env i updates nextRev s =
     (let st = cs_store s; updatedOverride = obj_merge (spread (getAccountOverride i (cs_config s))) updates in
      case acc_getById i (st_accounts st) of
        None \<Rightarrow> override_config env i updates s
      | Some acc \<Rightarrow>
          let updatedAcc = overridden_account (se_now env) updatedOverride acc in
          (case adapter_upsert (se_crypto env) (se_now env) (st_user st) updatedAcc (st_rows st) of
             Inl e \<Rightarrow> (Inl (StoreError e), s)
           | Inr t \<Rightarrow>
               override_config env i updates
                 (s\<lparr>cs_store := st\<lparr>st_rows := t,
                     st_accounts := (st_accounts st)\<lparr>acc_accounts := AList.update i updatedAcc (acc_accounts (st_accounts st))\<rparr>\<rparr>\<rparr>)))"

definition config_updateAccountOverride ::
  "store_env \<Rightarrow> jsval \<Rightarrow> obj \<Rightarrow> nat option \<Rightarrow> config_store \<Rightarrow> (config_error + jsval \<times> nat) \<times> config_store" where
  "config_updateAccountOverride env i updates expected s =
     config_transaction ''accounts'' expected (se_now env) (write_override env i updates) s"

section \<open>Start, logout and synchronisation\<close>

definition overrides_of :: "obj list \<Rightarrow> obj" where
  "overrides_of accs =
     fold (\<lambda>a m. if truthy (obj_get a ''effectiveConfig'') \<and> typeof_object (obj_get a ''effectiveConfig'')
                 then AList.update (js_string (obj_get a ''id'')) (obj_get a ''effectiveConfig'') m else m) accs []"

definition hydrate_config :: "(account_row list \<Rightarrow> account_row list) \<Rightarrow> store_env \<Rightarrow> config_store \<Rightarrow> config_store" where
  "hydrate_config newest env s =
     (let st = cs_store s;
          accs = listByUser newest (unseal (se_crypto env)) (st_user st) (st_rows st);
          loaded = fst (acc_hydrate (to_number (se_crypto env)) (se_now env) accs (Some (current_revision ''accounts'' st)) (st_accounts st)) = None;
          overrides = (if loaded then overrides_of accs else [])
      in s\<lparr>cs_store := hydrate_accounts newest env st,
           cs_config := (case cfg_hydrate (se_now env) (JObj (cfg_get (st_user st) (cs_rows s))) overrides
                                 (Some (current_revision ''global_config'' st)) (cs_config s) of
                           (Some e, c) \<Rightarrow> cfg_reset (se_now env) c
                         | (None, c) \<Rightarrow> c)\<rparr>)"

definition initialize_config :: "(account_row list \<Rightarrow> account_row list) \<Rightarrow> store_env \<Rightarrow> config_store \<Rightarrow> config_store" where
  "initialize_config newest env s =
     (let st = cs_store s;
          booted = st\<lparr>st_rows := adapter_resetObservedStates (st_user st) (JStr ''SYSTEM_BOOT_RECOVERY'') (st_rows st),
                      st_accounts := new_accounts (se_now env)\<rparr>;
          s1 = hydrate_config newest env (s\<lparr>cs_store := booted, cs_config := new_config (se_now env)\<rparr>);
          st1 = cs_store s1
      in s1\<lparr>cs_store := st1\<lparr>st_accounts := acc_resetObservedStates (se_now env) (JStr ''SYSTEM_BOOT_RECOVERY'') (st_accounts st1)\<rparr>\<rparr>)"

definition config_logout :: "int \<Rightarrow> config_store \<Rightarrow> config_store" where
  "config_logout now s =
     s\<lparr>cs_store := accounts_logout now (cs_store s), cs_config := cfg_reset now (cs_config s),
       cs_rows := cfg_deleteForUser (st_user (cs_store s)) (cs_rows s)\<rparr>"

text \<open>What the synchronisation does with a configuration it received; the error of the table is swallowed.\<close>

definition repo_hydrate_config :: "int \<Rightarrow> jsval \<Rightarrow> config_store \<Rightarrow> config_error option \<times> config_store" where
  "repo_hydrate_config now globalConfig s =
     (if \<not> truthy globalConfig then (None, s)
      else case cfg_hydrate now globalConfig [] None (cs_config s) of
             (Some e, c) \<Rightarrow> (Some e, s\<lparr>cs_config := c\<rparr>)
           | (None, c) \<Rightarrow>
               (None, s\<lparr>cs_config := c,
                        cs_rows := (case cfg_save (st_user (cs_store s)) globalConfig (cs_rows s) of
                                      Inl _ \<Rightarrow> cs_rows s | Inr t \<Rightarrow> t)\<rparr>))"

section \<open>Documents that are JSON\<close>

lemma json_clone_undef [simp]: "json_clone v = JUndef \<longleftrightarrow> v = JUndef"
  by (cases v) auto

lemma json_idem [simp]:
  "json_clone (json_clone v) = json_clone v" "json_members (json_members kvs) = json_members kvs" "json_elements (json_elements xs) = json_elements xs"
  by (induction v and kvs and xs rule: json_clone_json_members_json_elements.induct) auto

definition json_obj :: "obj \<Rightarrow> bool" where
  "json_obj g \<longleftrightarrow> (\<forall>m\<in>set g. snd m \<noteq> JUndef \<and> json_clone (snd m) = snd m)"

lemma json_members_id: "json_obj g \<Longrightarrow> json_members g = g"
  by (induction g) (auto simp: json_obj_def)

lemma json_obj_simps [simp]: "json_obj []" "json_obj (m # g) \<longleftrightarrow> snd m \<noteq> JUndef \<and> json_clone (snd m) = snd m \<and> json_obj g"
  by (auto simp: json_obj_def)

lemma json_obj_members [simp]: "json_obj (json_members g)"
proof (induction g)
  case (Cons m g)
  then show ?case by (cases m) auto
qed simp

lemma set_update_subset: "set (AList.update k v m) \<subseteq> insert (k, v) (set m)"
  by (induction m) auto

lemma json_obj_update: "json_obj g \<Longrightarrow> v \<noteq> JUndef \<Longrightarrow> json_clone v = v \<Longrightarrow> json_obj (AList.update k v g)"
  using set_update_subset [of k v g] by (fastforce simp: json_obj_def)

lemma json_obj_merge: "json_obj g \<Longrightarrow> json_obj over \<Longrightarrow> json_obj (obj_merge g over)"
  by (induction over arbitrary: g) (auto simp: json_obj_update)

lemma obj_get_in: "obj_get g k \<noteq> JUndef \<Longrightarrow> (k, obj_get g k) \<in> set g"
  by (auto simp: obj_get_def dest: map_of_SomeD split: option.splits)

lemma json_obj_get: "json_obj g \<Longrightarrow> json_clone (obj_get g k) = obj_get g k"
  using obj_get_in [of g k] by (cases "obj_get g k = JUndef") (auto simp: json_obj_def)

lemma json_obj_nested: "json_obj g \<Longrightarrow> obj_get g k = JObj kvs \<Longrightarrow> json_obj kvs"
  using json_obj_get [of g k] json_obj_members [of kvs] by simp

lemma keys_json_members: "set (map fst (json_members g)) \<subseteq> set (map fst g)"
proof (induction g)
  case (Cons m g)
  then show ?case by (cases m) auto
qed simp

lemma distinct_json_members: "distinct (map fst g) \<Longrightarrow> distinct (map fst (json_members g))"
proof (induction g)
  case (Cons m g)
  then show ?case using keys_json_members [of g] by (cases m) auto
qed simp

lemma obj_get_absent: "k \<notin> set (map fst g) \<Longrightarrow> obj_get g k = JUndef"
  by (metis map_of_eq_None_iff obj_get_def option.simps(4) set_map)

lemma obj_get_json_members: "distinct (map fst g) \<Longrightarrow> obj_get (json_members g) k = json_clone (obj_get g k)"
proof (induction g)
  case (Cons m g)
  obtain k' v where m: "m = (k', v)" by fastforce
  have "obj_get (json_members g) k' = JUndef"
    using Cons.prems keys_json_members [of g] by (intro obj_get_absent) (auto simp: m)
  with Cons show ?case by (auto simp: m obj_get_def split: option.splits)
qed (simp add: obj_get_def)

lemma keys_merge: "set (map fst (obj_merge g over)) = set (map fst g) \<union> set (map fst over)"
  by (induction over arbitrary: g) (auto simp: dom_update [unfolded dom_map_of_conv_image_fst])

lemma distinct_merge: "distinct (map fst g) \<Longrightarrow> distinct (map fst (obj_merge g over))"
  by (induction over arbitrary: g) (auto simp: distinct_update)

section \<open>Complete configurations\<close>

definition default_category :: "string \<Rightarrow> obj" where
  "default_category cat = spread (obj_get createDefaultGlobalConfig cat)"

definition complete_category :: "string \<Rightarrow> jsval \<Rightarrow> bool" where
  "complete_category cat v \<longleftrightarrow>
     (case v of JObj kvs \<Rightarrow> distinct (map fst kvs) \<and> set (map fst (default_category cat)) \<subseteq> set (map fst kvs) | _ \<Rightarrow> False)"

definition complete :: "obj \<Rightarrow> bool" where
  "complete g \<longleftrightarrow> json_obj g \<and> distinct (map fst g) \<and> (\<forall>cat\<in>set CATEGORIES. complete_category cat (obj_get g cat))"

lemma default_complete: "complete createDefaultGlobalConfig"
  by code_simp

lemma json_elements_id: "json_elements xs = xs \<Longrightarrow> x \<in> set xs \<Longrightarrow> x \<noteq> JUndef \<and> json_clone x = x"
  by (induction xs) (auto split: if_splits)

lemma json_obj_spread: "json_clone v = v \<Longrightarrow> json_obj (spread v)"
proof (cases v)
  case (JArr xs)
  moreover assume "json_clone v = v"
  ultimately show ?thesis by (auto simp: json_obj_def dest: set_zip_rightD json_elements_id)
next
  case (JObj kvs)
  moreover assume "json_clone v = v"
  ultimately show ?thesis using json_obj_members [of kvs] by simp
qed auto

lemma json_merged: "json_obj base \<Longrightarrow> json_obj over \<Longrightarrow> json_clone (JObj (obj_merge base over)) = JObj (obj_merge base over)"
  by (simp add: json_members_id json_obj_merge)

lemma complete_category_merge:
  "complete_category cat v \<Longrightarrow> complete_category cat (JObj (obj_merge (spread v) over))"
  using keys_merge [of "spread v" over] by (cases v) (auto simp: complete_category_def distinct_merge)

lemma complete_update:
  assumes "complete g" and "v \<noteq> JUndef" and "json_clone v = v" and "cat \<in> set CATEGORIES \<Longrightarrow> complete_category cat v"
  shows "complete (AList.update cat v g)"
  using assms by (auto simp: complete_def json_obj_update distinct_update)

lemma complete_merged:
  assumes "complete g" and "json_obj over"
  shows "complete (AList.update cat (JObj (obj_merge (spread (obj_get g cat)) over)) g)"
proof (rule complete_update)
  from assms(1) have "json_obj g" by (simp add: complete_def)
  then show "json_clone (JObj (obj_merge (spread (obj_get g cat)) over)) = JObj (obj_merge (spread (obj_get g cat)) over)"
    by (intro json_merged json_obj_spread json_obj_get assms(2))
  show "complete_category cat (JObj (obj_merge (spread (obj_get g cat)) over))" if "cat \<in> set CATEGORIES"
    using assms(1) that by (intro complete_category_merge) (simp add: complete_def)
qed (use assms in simp_all)

lemma complete_truthy: "complete g \<Longrightarrow> cat \<in> set CATEGORIES \<Longrightarrow> truthy (obj_get g cat)"
  by (cases "obj_get g cat") (auto simp: complete_def complete_category_def)

lemma complete_merge_category:
  assumes "complete g" and "snd m \<noteq> JUndef" and "json_clone (snd m) = snd m"
  shows "complete (merge_category m g)"
  unfolding merge_category_def
  using assms complete_truthy [OF assms(1), of "fst m"]
  by (auto intro!: complete_merged complete_update json_obj_spread)

lemma complete_merges: "complete g \<Longrightarrow> json_obj ms \<Longrightarrow> complete (fold merge_category ms g)"
  by (induction ms arbitrary: g) (auto intro: complete_merge_category)

text \<open>Whatever the document, the validation that follows the merge succeeds.\<close>

definition has_categories :: "obj \<Rightarrow> bool" where
  "has_categories g \<longleftrightarrow> (\<forall>cat\<in>set CATEGORIES. truthy (obj_get g cat) \<and> typeof_object (obj_get g cat))"

lemma has_categories_merges: "has_categories g \<Longrightarrow> has_categories (fold merge_category ms g)"
proof (induction ms arbitrary: g)
  case (Cons m ms)
  then have "has_categories (merge_category m g)" by (auto simp: has_categories_def merge_category_def)
  with Cons.IH show ?case by simp
qed simp

lemma validate_passes: "has_categories g \<Longrightarrow> validateGlobalConfig g = Inr ()"
  by (auto simp: validateGlobalConfig_def has_categories_def find_None_iff split: option.splits dest!: find_Some_iff [THEN iffD1])

lemma default_has_categories: "has_categories createDefaultGlobalConfig"
  by code_simp

lemma hydrate_never_fails: "fst (cfg_hydrate now g ovs ver c) = None"
  using validate_passes [OF has_categories_merges [OF default_has_categories]] by (simp add: cfg_hydrate_def Let_def)

lemma hydrated_global:
  "cf_global (snd (cfg_hydrate now g ovs ver c)) =
     (if truthy g \<and> typeof_object g then json_members (fold merge_category (spread g) createDefaultGlobalConfig) else createDefaultGlobalConfig)"
  using validate_passes [OF has_categories_merges [OF default_has_categories]]
  by (simp add: cfg_hydrate_def hydrated_config_def Let_def)

lemma hydrated_overrides:
  "cf_overrides (snd (cfg_hydrate now g ovs ver c)) = map (\<lambda>(k, v). (JStr k, json_clone v)) ovs"
  using validate_passes [OF has_categories_merges [OF default_has_categories]]
  by (simp add: cfg_hydrate_def hydrated_config_def Let_def)

lemma complete_hydrated:
  assumes "json_clone g = g"
  shows "complete (cf_global (snd (cfg_hydrate now g ovs ver c)))"
  using complete_merges [OF default_complete json_obj_spread [OF assms]] default_complete
  by (simp add: hydrated_global json_members_id complete_def)

lemma updated_global:
  assumes "cfg_updateCategory now cat vals expected c = Inr (v, c')"
  shows "cf_global c' = AList.update cat (JObj (obj_merge (spread (obj_get (cf_global c) cat)) (spread vals))) (cf_global c)"
    and "cf_overrides c' = cf_overrides c" and "cat \<in> set CATEGORIES"
  using assms by (auto simp: cfg_updateCategory_def validateCategoryValues_def Let_def map_sum_def split: sum.splits if_splits)

section \<open>Runs of the container\<close>

inductive config_step :: "config \<Rightarrow> config \<Rightarrow> bool" where
  category_changed: "cfg_updateCategory now cat vals expected c = Inr (v, c') \<Longrightarrow> json_clone vals = vals \<Longrightarrow> config_step c c'"
| override_changed: "cfg_updateAccountOverride now i updates expected c = Inr (v, c') \<Longrightarrow> config_step c c'"
| hydrated: "cfg_hydrate now g ovs ver c = (r, c') \<Longrightarrow> json_clone g = g \<Longrightarrow> config_step c c'"
| config_reset: "config_step c (cfg_reset now c)"

definition config_start :: "config \<Rightarrow> bool" where
  "config_start c \<longleftrightarrow> (\<exists>now. c = new_config now)"

lemma step_complete: "config_step c c' \<Longrightarrow> complete (cf_global c) \<Longrightarrow> complete (cf_global c')"
proof (induction rule: config_step.induct)
  case (category_changed now cat vals expected c v c')
  then show ?case by (simp add: updated_global(1) complete_merged json_obj_spread)
next
  case (override_changed now i updates expected c v c')
  then show ?case by (auto simp: cfg_updateAccountOverride_def Let_def split: sum.splits)
next
  case (hydrated now g ovs ver c r c')
  then show ?case using complete_hydrated [of g now ovs ver c] by simp
qed (simp add: cfg_reset_def default_complete)

interpretation config_run: machine_invariant config_start config_step "\<lambda>c. complete (cf_global c)"
  by unfold_locales (auto simp: config_start_def new_config_def default_complete intro: step_complete)

section \<open>Overrides between processes\<close>

lemma row_config [simp]: "obj_get (account_of_row us r) ''effectiveConfig'' = ar_config r"
  by (simp add: account_of_row_def obj_get_def Let_def)

definition note_override :: "obj \<Rightarrow> obj \<Rightarrow> obj" where
  "note_override a m = (if truthy (obj_get a ''effectiveConfig'') \<and> typeof_object (obj_get a ''effectiveConfig'')
     then AList.update (js_string (obj_get a ''id'')) (obj_get a ''effectiveConfig'') m else m)"

lemma overrides_of_fold: "overrides_of accs = fold note_override accs []"
  by (simp add: overrides_of_def note_override_def [abs_def])

lemma note_override_other: "js_string (obj_get a ''id'') \<noteq> k \<Longrightarrow> map_of (note_override a m) k = map_of m k"
  by (simp add: note_override_def update_conv')

lemma overrides_other:
  "\<forall>a\<in>set accs. js_string (obj_get a ''id'') \<noteq> k \<Longrightarrow> map_of (fold note_override accs m) k = map_of m k"
  by (induction accs arbitrary: m) (simp_all add: note_override_other)

lemma overrides_present:
  "distinct (map (\<lambda>a. js_string (obj_get a ''id'')) accs) \<Longrightarrow> a \<in> set accs \<Longrightarrow> obj_get a ''effectiveConfig'' = JObj v \<Longrightarrow>
   map_of (fold note_override accs m) (js_string (obj_get a ''id'')) = Some (JObj v)"
proof (induction accs arbitrary: m)
  case (Cons b accs)
  show ?case
  proof (cases "a = b")
    case True
    with Cons.prems(1) have "\<forall>x\<in>set accs. js_string (obj_get x ''id'') \<noteq> js_string (obj_get a ''id'')" by auto (metis imageI)
    with True Cons.prems(3) show ?thesis by (simp add: overrides_other) (simp add: note_override_def update_conv')
  next
    case False
    with Cons show ?thesis by simp
  qed
qed simp

lemma map_of_strings: "map_of (map (\<lambda>(k, v). (JStr k, json_clone v)) m) (JStr k) = map_option json_clone (map_of m k)"
  by (induction m) auto

lemma initialized_config:
  "cs_config (initialize_config newest env s) =
     cs_config (hydrate_config newest env (s\<lparr>cs_store := (cs_store s)\<lparr>st_rows := adapter_resetObservedStates (st_user (cs_store s))
       (JStr ''SYSTEM_BOOT_RECOVERY'') (st_rows (cs_store s)), st_accounts := new_accounts (se_now env)\<rparr>, cs_config := new_config (se_now env)\<rparr>))"
  by (simp add: initialize_config_def Let_def)

lemma hydrate_config_cases:
  "cs_config (hydrate_config newest env s) =
     (let st = cs_store s; accs = listByUser newest (unseal (se_crypto env)) (st_user st) (st_rows st) in
      snd (cfg_hydrate (se_now env) (JObj (cfg_get (st_user st) (cs_rows s)))
        (if fst (acc_hydrate (to_number (se_crypto env)) (se_now env) accs (Some (current_revision ''accounts'' st)) (st_accounts st)) = None
         then overrides_of accs else [])
        (Some (current_revision ''global_config'' st)) (cs_config s)))"
  using hydrate_never_fails by (auto simp: hydrate_config_def Let_def split: prod.splits option.splits) (metis fst_conv option.distinct(1))+

lemma initialized_override:
  assumes "rows_ok (st_rows (cs_store s))" and "\<And>rs. mset (newest rs) = mset rs"
    and "r \<in> set (st_rows (cs_store s))" and "ar_user r = st_user (cs_store s)" and "ar_id r = JStr i" and "ar_config r = JObj v"
  shows "getAccountOverride (JStr i) (cs_config (initialize_config newest env s)) = JObj (json_members v)"
proof -
  let ?st = "cs_store s" and ?us = "unseal (se_crypto env)"
  let ?t = "adapter_resetObservedStates (st_user ?st) (JStr ''SYSTEM_BOOT_RECOVERY'') (st_rows ?st)"
  let ?rs = "newest (filter (\<lambda>r. ar_user r = st_user ?st) ?t)"
  have ok: "rows_ok (filter (\<lambda>r. ar_user r = st_user ?st) ?t)" by (intro filter_rows_ok reset_rows_ok assms(1))
  have m: "mset ?rs = mset (filter (\<lambda>r. ar_user r = st_user ?st) ?t)" by (rule assms(2))
  then have "mset (map ar_id ?rs) = mset (map ar_id (filter (\<lambda>r. ar_user r = st_user ?st) ?t))" by (simp only: mset_map)
  then have d: "distinct (map ar_id ?rs)" using ok by (metis mset_eq_imp_distinct_iff rows_ok_def)
  have acc: "\<forall>r\<in>set ?rs. row_accepted r" using ok m by (metis mset_eq_setD rows_ok_def)
  have str: "ar_id x = JStr (js_string (ar_id x))" if "x \<in> set ?rs" for x
    using acc that by (cases "ar_id x") (auto simp: row_accepted_def)
  have ds: "distinct (map (\<lambda>a. js_string (obj_get a ''id'')) (map (account_of_row ?us) ?rs))"
    using d str by (auto simp: distinct_map inj_on_def comp_def) metis
  let ?r = "stop_row (st_user ?st) (JStr ''SYSTEM_BOOT_RECOVERY'') r"
  have c: "ar_config ?r = ar_config r" by (simp add: stop_row_def)
  have r: "?r \<in> set ?rs" using mset_eq_setD [OF m] assms(3,4) by (auto simp: adapter_resetObservedStates_def)
  have "map_of (overrides_of (map (account_of_row ?us) ?rs)) i = Some (JObj v)"
    using overrides_present [OF ds, of "account_of_row ?us ?r" v "[]"] r assms(5,6) c by (auto simp: overrides_of_fold)
  moreover from load_rows [OF acc d] obtain c' where
    "load_accounts (to_number (se_crypto env)) (se_now env) [] (map (account_of_row ?us) ?rs) (new_accounts (se_now env)) = (None, c')" by blast
  ultimately show ?thesis
    by (simp add: initialized_config hydrate_config_cases Let_def listByUser_def acc_hydrate_def new_accounts_def
        getAccountOverride_def hydrated_overrides map_of_strings js_or_def)
qed

section \<open>Writes and the next process\<close>

lemma merges_other: "cat \<notin> fst ` set ms \<Longrightarrow> obj_get (fold merge_category ms g) cat = obj_get g cat"
  by (induction ms arbitrary: g) (auto simp: merge_category_def)

lemma merges_get:
  "distinct (map fst ms) \<Longrightarrow> (cat, v) \<in> set ms \<Longrightarrow> truthy (obj_get g cat) \<Longrightarrow> typeof_object v \<Longrightarrow>
   obj_get (fold merge_category ms g) cat = JObj (obj_merge (spread (obj_get g cat)) (spread v))"
proof (induction ms arbitrary: g)
  case (Cons m ms)
  show ?case
  proof (cases "m = (cat, v)")
    case True
    with Cons.prems show ?thesis by (simp add: merges_other) (simp add: merge_category_def)
  next
    case False
    with Cons.prems(2) have "cat \<in> fst ` set ms" by force
    with Cons.prems(1) have "fst m \<noteq> cat" by auto
    then have "obj_get (merge_category m g) cat = obj_get g cat" by (simp add: merge_category_def)
    with False Cons show ?thesis by simp
  qed
qed simp

lemma distinct_categories: "distinct CATEGORIES"
  by code_simp

lemma transaction_cases:
  assumes "config_transaction key expected now f s = (r, s')"
  obtains (stale) e where "r = Inl e" "s' = s"
  | (failed) e s1 where "f (Suc (current_revision key (cs_store s))) s = (Inl e, s1)" "r = Inl e"
      "s' = s1\<lparr>cs_store := (cs_store s1)\<lparr>st_rows := st_rows (cs_store s), st_meta := st_meta (cs_store s)\<rparr>, cs_rows := cs_rows s\<rparr>"
  | (committed) v s1 where "f (Suc (current_revision key (cs_store s))) s = (Inr v, s1)" "r = Inr (v, Suc (current_revision key (cs_store s)))"
      "s' = s1\<lparr>cs_store := (cs_store s1)\<lparr>st_meta := metadata_set key None (Suc (current_revision key (cs_store s))) now (st_meta (cs_store s1))\<rparr>\<rparr>"
proof (cases "expected \<noteq> None \<and> expected \<noteq> Some (current_revision key (cs_store s))")
  case True
  with assms stale show ?thesis by (auto simp: config_transaction_def)
next
  case False
  let ?f = "f (Suc (current_revision key (cs_store s))) s"
  have r: "(r, s') = (case ?f of
      (Inl e, s1) \<Rightarrow> (Inl e, s1\<lparr>cs_store := (cs_store s1)\<lparr>st_rows := st_rows (cs_store s), st_meta := st_meta (cs_store s)\<rparr>, cs_rows := cs_rows s\<rparr>)
    | (Inr v, s1) \<Rightarrow> (Inr (v, Suc (current_revision key (cs_store s))),
        s1\<lparr>cs_store := (cs_store s1)\<lparr>st_meta := metadata_set key None (Suc (current_revision key (cs_store s))) now (st_meta (cs_store s1))\<rparr>\<rparr>))"
    unfolding assms [symmetric] config_transaction_def Let_def if_not_P [OF False] by (simp only: Suc_eq_plus1)
  show ?thesis
  proof (cases "fst ?f")
    case (Inl e)
    then have "?f = (Inl e, snd ?f)" by (metis prod.collapse)
    with r show ?thesis by (intro failed [of e "snd ?f"]) (simp_all split: prod.splits)
  next
    case (Inr v)
    then have "?f = (Inr v, snd ?f)" by (metis prod.collapse)
    with r show ?thesis by (intro committed [of v "snd ?f"]) (simp_all split: prod.splits)
  qed
qed

lemma category_written:
  assumes "config_updateCategory env cat vals expected s = (Inr (v, n), s')"
  obtains t where "cat \<in> set CATEGORIES" and "truthy (obj_get (cf_global (cs_config s)) cat)"
    and "cfg_save (st_user (cs_store s)) (JObj (AList.update cat (JObj (obj_merge (spread (json_clone (obj_get (cf_global (cs_config s)) cat)))
           (spread vals))) (getGlobalConfig (cs_config s)))) (cs_rows s) = Inr t"
    and "cs_rows s' = t"
    and "cf_global (cs_config s') = AList.update cat (JObj (obj_merge (spread (obj_get (cf_global (cs_config s)) cat)) (spread vals))) (cf_global (cs_config s))"
    and "cf_overrides (cs_config s') = cf_overrides (cs_config s)" and "st_user (cs_store s') = st_user (cs_store s)"
    and "st_rows (cs_store s') = st_rows (cs_store s)" and "st_accounts (cs_store s') = st_accounts (cs_store s)"
  using assms unfolding config_updateCategory_def
proof (cases rule: transaction_cases)
  case (committed w s1)
  from committed(1) obtain current t c where
    "getCategory cat (cs_config s) = Inr current"
    "cfg_save (st_user (cs_store s)) (JObj (AList.update cat (JObj (obj_merge (spread current) (spread vals))) (getGlobalConfig (cs_config s)))) (cs_rows s) = Inr t"
    "cfg_updateCategory (se_now env) cat vals None (cs_config s) = Inr (w, c)" "s1 = s\<lparr>cs_rows := t, cs_config := c\<rparr>"
    by (auto simp: write_category_def Let_def split: sum.splits)
  with committed(3) updated_global [OF this(3)] show ?thesis
    by (intro that [of t]) (auto simp: getCategory_def split: if_splits)
qed simp_all

definition config_member :: "string \<Rightarrow> string \<Rightarrow> config \<Rightarrow> jsval" where
  "config_member cat k c = js_get (obj_get (getGlobalConfig c) cat) k"

lemma complete_get: "complete (cf_global c) \<Longrightarrow> obj_get (getGlobalConfig c) cat = obj_get (cf_global c) cat"
  by (simp add: getGlobalConfig_def complete_def json_members_id)

lemma complete_saved:
  assumes "cfg_save u (JObj g) t = Inr t'" and "complete g"
  shows "cfg_get u t' = map (\<lambda>cat. (cat, obj_get g cat)) CATEGORIES"
  using assms json_obj_get [of g] by (auto simp: cfg_save_def cfg_get_def complete_def update_conv' split: sum.splits if_splits)

lemma restored_member:
  assumes "complete g" and "cat \<in> set CATEGORIES" and "row = map (\<lambda>cat. (cat, obj_get g cat)) CATEGORIES"
  shows "js_get (obj_get (json_members (fold merge_category row createDefaultGlobalConfig)) cat) k = js_get (obj_get g cat) k"
proof -
  obtain kvs where kvs: "obj_get g cat = JObj kvs" "distinct (map fst kvs)" "set (map fst (default_category cat)) \<subseteq> set (map fst kvs)"
    using assms(1,2) by (cases "obj_get g cat") (auto simp: complete_def complete_category_def)
  have row: "distinct (map fst row)" "(cat, JObj kvs) \<in> set row" using assms(2,3) kvs(1) distinct_categories by (auto simp: comp_def image_iff)
  have j: "json_obj g" using assms(1) by (simp add: complete_def)
  then have "json_obj row" using assms(1) complete_truthy [OF assms(1)] by (force simp: assms(3) json_obj_def [of "map _ _"] json_obj_get)
  then have c: "complete (fold merge_category row createDefaultGlobalConfig)" by (rule complete_merges [OF default_complete])
  have "obj_get (fold merge_category row createDefaultGlobalConfig) cat = JObj (obj_merge (default_category cat) kvs)"
    using merges_get [OF row, of createDefaultGlobalConfig] complete_truthy [OF default_complete assms(2)] by (simp add: default_category_def)
  moreover have "json_members (fold merge_category row createDefaultGlobalConfig) = fold merge_category row createDefaultGlobalConfig"
    using c by (simp add: complete_def json_members_id)
  moreover have "obj_get (obj_merge (default_category cat) kvs) k = obj_get kvs k"
    using obj_get_merge [OF kvs(2), of "default_category cat" k] kvs(3) obj_get_absent [of k "default_category cat"] obj_get_absent [of k kvs]
    by auto
  ultimately show ?thesis by (simp add: kvs(1))
qed

lemma override_result: "override_config env i updates s = (r, s') \<Longrightarrow>
  r = Inr (JObj (obj_merge (spread (getAccountOverride i (cs_config s))) updates)) \<and> cs_store s' = cs_store s \<and> cs_rows s' = cs_rows s \<and>
  getAccountOverride i (cs_config s') = JObj (obj_merge (spread (getAccountOverride i (cs_config s))) updates) \<and>
  cf_global (cs_config s') = cf_global (cs_config s)"
  by (auto simp: override_config_def cfg_updateAccountOverride_def cfg_conflict_def Let_def getAccountOverride_def update_conv' js_or_def)

lemma override_row:
  assumes "adapter_upsert cr now u (overridden_account now ov acc) t = Inr t'" and "obj_get acc ''id'' = i"
    and "\<forall>r\<in>set t. ar_id r = i \<longrightarrow> ar_user r = u"
  shows "\<exists>r\<in>set t'. ar_id r = i \<and> ar_user r = u \<and> ar_config r = JObj ov"
proof -
  let ?a = "overridden_account now ov acc"
  from adapter_upsert_result [OF assms(1)] obtain pid incoming existing t1 row where
    "lower_of (js_or (obj_get ?a ''platformId'') (js_or (obj_get ?a ''platformDisplayName'') (JStr ''unknown''))) = Inr pid"
    and "adapter_password (seal cr) (obj_get ?a ''accountPassword'') = Inr incoming"
    and "existing = List.find (same_user_row u pid (obj_get ?a ''accountUsername'')) t"
    and t1: "t1 = (case existing of Some r \<Rightarrow> if ar_id r \<noteq> obj_get ?a ''id'' then filter (\<lambda>x. ar_id x \<noteq> ar_id r) t else t | None \<Rightarrow> t)"
    and row: "row = row_of_account (to_number cr) now u pid (if incoming \<noteq> [] then incoming else preserved_password (seal cr) existing) ?a"
    and t': "t' = insert_or_merge row t1" .
  have o: "obj_get (overridden_account now ov acc) ''id'' = i" "obj_get (overridden_account now ov acc) ''effectiveConfig'' = JObj ov"
    using assms(2) by (simp_all add: overridden_account_def)
  then have r: "ar_id row = i" "ar_user row = u" "ar_config row = JObj ov" by (simp_all add: row row_of_account_def js_or_def)
  obtain x where x: "x \<in> set t'" "ar_id x = i" using row_present [of row t1] t' r(1) by metis
  with rows_after [of x row t1] t' r(1) consider "x = row" | y where "y \<in> set t1" "ar_id y = i" "x = merge_row row y" by auto
  then show ?thesis
  proof cases
    case 2
    with kept_rows [OF t1] o(1) assms(3) have "ar_user y = u" by metis
    with 2 r have "ar_user x = u" "ar_config x = JObj ov" by (simp_all add: merge_row_def)
    with x show ?thesis by blast
  qed (use x r in auto)
qed

lemma override_restored:
  assumes "config_updateAccountOverride env (JStr i) updates expected s = (Inr (v, n), s')"
    and "acc_getById (JStr i) (st_accounts (cs_store s)) = Some acc" and "accounts_map_ok (acc_accounts (st_accounts (cs_store s)))"
    and "rows_ok (st_rows (cs_store s))" and "\<forall>r\<in>set (st_rows (cs_store s)). ar_id r = JStr i \<longrightarrow> ar_user r = st_user (cs_store s)"
    and "\<forall>rs. mset (newest rs) = mset rs"
  shows "getAccountOverride (JStr i) (cs_config (initialize_config newest env' s')) = json_clone (getAccountOverride (JStr i) (cs_config s'))"
proof -
  let ?ov = "obj_merge (spread (getAccountOverride (JStr i) (cs_config s))) updates"
  have id: "obj_get acc ''id'' = JStr i" using assms(2,3) by (auto simp: accounts_map_ok_def acc_getById_def)
  from assms(1) [unfolded config_updateAccountOverride_def] show ?thesis
  proof (cases rule: transaction_cases)
    case (committed w s1)
    then obtain t where
      t: "adapter_upsert (se_crypto env) (se_now env) (st_user (cs_store s)) (overridden_account (se_now env) ?ov acc) (st_rows (cs_store s)) = Inr t"
      and o: "override_config env (JStr i) updates (s\<lparr>cs_store := (cs_store s)\<lparr>st_rows := t, st_accounts := (st_accounts (cs_store s))
        \<lparr>acc_accounts := AList.update (JStr i) (overridden_account (se_now env) ?ov acc) (acc_accounts (st_accounts (cs_store s)))\<rparr>\<rparr>\<rparr>) = (Inr w, s1)"
      using assms(2) by (auto simp: write_override_def Let_def split: sum.splits)
    from override_result [OF o] committed(3) have s': "st_rows (cs_store s') = t" "st_user (cs_store s') = st_user (cs_store s)"
      "getAccountOverride (JStr i) (cs_config s') = JObj ?ov" by simp_all
    from override_row [OF t id assms(5)] obtain r where "r \<in> set t" "ar_id r = JStr i" "ar_user r = st_user (cs_store s)" "ar_config r = JObj ?ov" by blast
    with initialized_override [of s' newest r i ?ov env'] upsert_rows_ok [OF assms(4) t] assms(6) s' show ?thesis by simp
  qed simp_all
qed

lemma synced_overrides:
  "truthy g \<Longrightarrow> repo_hydrate_config now g s = (r, s') \<Longrightarrow> r = None \<and> (\<forall>i. getAccountOverride i (cs_config s') = default_override) \<and> cs_store s' = cs_store s"
  using hydrate_never_fails [of now g "[]" None "cs_config s"] hydrated_overrides [of now g "[]" None "cs_config s"]
  by (auto simp: repo_hydrate_config_def getAccountOverride_def split: prod.splits option.splits if_splits)

section \<open>Properties\<close>

text \<open>C33. The configuration is always complete: in every run of the container, each of the seven categories can be read
  and is an object that has every member of the default configuration, whatever was written or loaded.\<close>

theorem config_always_complete:
  assumes "reach config_start config_step c" and "cat \<in> set CATEGORIES"
  shows "\<exists>kvs. getCategory cat c = Inr (JObj kvs) \<and> set (map fst (default_category cat)) \<subseteq> set (map fst kvs)"
proof -
  have ok: "complete (cf_global c)" by (rule config_run.reach_good [OF assms(1)])
  then obtain kvs where "obj_get (cf_global c) cat = JObj kvs" "set (map fst (default_category cat)) \<subseteq> set (map fst kvs)"
    using assms(2) by (cases "obj_get (cf_global c) cat") (auto simp: complete_def complete_category_def)
  moreover have "json_members kvs = kvs" using ok calculation(1) by (auto simp: complete_def intro: json_members_id json_obj_nested)
  ultimately show ?thesis by (simp add: getCategory_def)
qed

definition limit_values :: obj where
  "limit_values = [(''maxStake'', num 50)]"

definition limited_config :: config where
  "limited_config = snd (projr (cfg_updateCategory 1 ''risk'' (JObj limit_values) None (new_config 0)))"

theorem config_always_complete_witness:
  "\<exists>kvs. getCategory ''risk'' limited_config = Inr (JObj kvs) \<and> set (map fst default_risk) \<subseteq> set (map fst kvs)"
proof -
  let ?r = "cfg_updateCategory 1 ''risk'' (JObj limit_values) None (new_config 0)"
  have "\<not> isl ?r" by code_simp
  then have "?r = Inr (fst (projr ?r), limited_config)" unfolding limited_config_def by (cases ?r) auto
  moreover have "json_clone (JObj limit_values) = JObj limit_values" by code_simp
  ultimately have "config_step (new_config 0) limited_config" by (rule category_changed)
  moreover have "reach config_start config_step (new_config 0)" by (rule reach_start) (auto simp: config_start_def)
  ultimately have "reach config_start config_step limited_config" by (blast intro: reach_step)
  moreover have "''risk'' \<in> set CATEGORIES" "default_category ''risk'' = default_risk" by code_simp+
  ultimately show ?thesis using config_always_complete [of limited_config "''risk''"] by simp
qed

text \<open>A rejected change of the configuration leaves no trace: a category update or an override that throws leaves tables,
  revisions, container and accounts as they were, although the table is written before the container
  validates the values.\<close>

theorem rejected_config_changes_nothing:
  "(isl (fst (config_updateCategory env cat vals expected s)) \<longrightarrow> snd (config_updateCategory env cat vals expected s) = s) \<and>
   (isl (fst (config_updateAccountOverride env i updates expected s)) \<longrightarrow> snd (config_updateAccountOverride env i updates expected s) = s)"
proof (intro conjI impI)
  assume l: "isl (fst (config_updateCategory env cat vals expected s))"
  obtain r s' where c: "config_updateCategory env cat vals expected s = (r, s')" by fastforce
  from c [unfolded config_updateCategory_def] have "s' = s"
  proof (cases rule: transaction_cases)
    case (failed e s1)
    then have "s1 = s \<or> (\<exists>t. s1 = s\<lparr>cs_rows := t\<rparr>)" by (auto simp: write_category_def Let_def split: sum.splits)
    with failed(3) show ?thesis by auto
  qed (use c l in auto)
  with c show "snd (config_updateCategory env cat vals expected s) = s" by simp
next
  assume l: "isl (fst (config_updateAccountOverride env i updates expected s))"
  obtain r s' where c: "config_updateAccountOverride env i updates expected s = (r, s')" by fastforce
  from c [unfolded config_updateAccountOverride_def] have "s' = s"
  proof (cases rule: transaction_cases)
    case (failed e s1)
    then have "s1 = s" using override_result by (fastforce simp: write_override_def Let_def split: sum.splits option.splits)
    with failed(3) show ?thesis by auto
  qed (use c l in auto)
  with c show "snd (config_updateAccountOverride env i updates expected s) = s" by simp
qed

definition sample_config_store :: config_store where
  "sample_config_store = \<lparr>cs_store = stored_once, cs_config = new_config 0, cs_rows = []\<rparr>"

theorem rejected_config_changes_nothing_witness:
  "snd (config_updateCategory sample_store_env ''risk'' (JArr []) None sample_config_store) = sample_config_store \<and>
   snd (config_updateAccountOverride sample_store_env (JStr ''a1'') [] (Some 7) sample_config_store) = sample_config_store"
proof -
  have "isl (fst (config_updateCategory sample_store_env ''risk'' (JArr []) None sample_config_store))"
    "isl (fst (config_updateAccountOverride sample_store_env (JStr ''a1'') [] (Some 7) sample_config_store))" by code_simp+
  with rejected_config_changes_nothing [of sample_store_env "''risk''" "JArr []" None sample_config_store]
    rejected_config_changes_nothing [of sample_store_env _ _ "Some 7" sample_config_store "JStr ''a1''" "[]"]
  show ?thesis by blast
qed

text \<open>A category update changes exactly what it names: the members given get their values, every other member of every
  category, the overrides of accounts and the accounts stay as they were.\<close>

theorem category_update_exact:
  assumes "config_updateCategory env cat (JObj vals) expected s = (Inr (v, n), s')"
    and "complete (cf_global (cs_config s))" and "json_obj vals" and "distinct (map fst vals)"
  shows "config_member c k (cs_config s') = (if c = cat \<and> k \<in> set (map fst vals) then obj_get vals k else config_member c k (cs_config s)) \<and>
    (\<forall>i. getAccountOverride i (cs_config s') = getAccountOverride i (cs_config s)) \<and> st_accounts (cs_store s') = st_accounts (cs_store s)"
proof -
  from category_written [OF assms(1)] have w:
    "cf_global (cs_config s') = AList.update cat (JObj (obj_merge (spread (obj_get (cf_global (cs_config s)) cat)) vals)) (cf_global (cs_config s))"
    "cf_overrides (cs_config s') = cf_overrides (cs_config s)" "st_accounts (cs_store s') = st_accounts (cs_store s)" "cat \<in> set CATEGORIES"
    by (metis spread.simps(1))+
  then have o: "\<forall>i. getAccountOverride i (cs_config s') = getAccountOverride i (cs_config s)" by (simp add: getAccountOverride_def)
  have c': "complete (cf_global (cs_config s'))" using complete_merged [OF assms(2,3)] w(1) by simp
  obtain kvs where "obj_get (cf_global (cs_config s)) cat = JObj kvs"
    using assms(2) w(4) by (cases "obj_get (cf_global (cs_config s)) cat") (auto simp: complete_def complete_category_def)
  then have "config_member c k (cs_config s') = (if c = cat \<and> k \<in> set (map fst vals) then obj_get vals k else config_member c k (cs_config s))"
    using obj_get_merge [OF assms(4), of kvs k] complete_get [OF c'] complete_get [OF assms(2)] w(1) by (auto simp: config_member_def)
  with o w(3) show ?thesis by blast
qed

definition limited_store :: config_store where
  "limited_store = snd (config_updateCategory sample_store_env ''risk'' (JObj limit_values) None sample_config_store)"

lemma limited_update:
  "\<exists>v n. config_updateCategory sample_store_env ''risk'' (JObj limit_values) None sample_config_store = (Inr (v, n), limited_store)"
proof -
  let ?r = "config_updateCategory sample_store_env ''risk'' (JObj limit_values) None sample_config_store"
  have "\<not> isl (fst ?r)" by code_simp
  then show ?thesis unfolding limited_store_def by (cases ?r; cases "fst ?r") auto
qed

lemma sample_complete: "complete (cf_global (cs_config sample_config_store))" "json_obj limit_values" "distinct (map fst limit_values)"
  by (simp_all add: sample_config_store_def new_config_def default_complete limit_values_def)

theorem category_update_exact_witness:
  "config_member ''risk'' ''maxStake'' (cs_config limited_store) = num 50 \<and>
   config_member ''risk'' ''minimumStake'' (cs_config limited_store) = num 10"
proof -
  from limited_update obtain v n where
    u: "config_updateCategory sample_store_env ''risk'' (JObj limit_values) None sample_config_store = (Inr (v, n), limited_store)" by blast
  have "config_member ''risk'' ''minimumStake'' (cs_config sample_config_store) = num 10" by code_simp
  with category_update_exact [OF u sample_complete, of "''risk''" "''maxStake''"] category_update_exact [OF u sample_complete, of "''risk''" "''minimumStake''"]
  show ?thesis by (simp add: limit_values_def obj_get_def)
qed

text \<open>C32. The configuration survives a restart: after a successful category update, the next process reads, for every
  member of every category, the value the process had when it ended.\<close>

theorem config_survives_restart:
  assumes "config_updateCategory env cat (JObj vals) expected s = (Inr (v, n), s')"
    and "complete (cf_global (cs_config s))" and "json_obj vals" and "c \<in> set CATEGORIES"
  shows "config_member c k (cs_config (initialize_config newest env' s')) = config_member c k (cs_config s')"
proof -
  from category_written [OF assms(1)] obtain t where w:
    "cfg_save (st_user (cs_store s)) (JObj (AList.update cat (JObj (obj_merge (spread (json_clone (obj_get (cf_global (cs_config s)) cat)))
       vals)) (getGlobalConfig (cs_config s)))) (cs_rows s) = Inr t" "cs_rows s' = t"
    "cf_global (cs_config s') = AList.update cat (JObj (obj_merge (spread (obj_get (cf_global (cs_config s)) cat)) vals)) (cf_global (cs_config s))"
    "st_user (cs_store s') = st_user (cs_store s)" by (metis spread.simps(1))
  have j: "json_obj (cf_global (cs_config s))" using assms(2) by (simp add: complete_def)
  have c': "complete (cf_global (cs_config s'))" using complete_merged [OF assms(2,3)] w(3) by simp
  have "cfg_save (st_user (cs_store s)) (JObj (cf_global (cs_config s'))) (cs_rows s) = Inr t"
    using w(1,3) j by (simp add: json_obj_get getGlobalConfig_def json_members_id)
  from complete_saved [OF this c'] have "cfg_get (st_user (cs_store s')) (cs_rows s') = map (\<lambda>c. (c, obj_get (cf_global (cs_config s')) c)) CATEGORIES"
    using w(2,4) by simp
  from restored_member [OF c' assms(4) this, of k] show ?thesis
    by (simp add: config_member_def complete_get [OF c', unfolded getGlobalConfig_def] initialized_config hydrate_config_cases Let_def getGlobalConfig_def hydrated_global)
qed

theorem config_survives_restart_witness:
  "config_member ''risk'' ''maxStake'' (cs_config (initialize_config id sample_store_env limited_store)) = num 50"
proof -
  from limited_update obtain v n where
    u: "config_updateCategory sample_store_env ''risk'' (JObj limit_values) None sample_config_store = (Inr (v, n), limited_store)" by blast
  have "''risk'' \<in> set CATEGORIES" "config_member ''risk'' ''maxStake'' (cs_config limited_store) = num 50" by code_simp+
  with config_survives_restart [OF u sample_complete(1,2) this(1), of "''maxStake''" id sample_store_env] show ?thesis by simp
qed

text \<open>The overrides of an account survive a restart: after a successful override of an account that exists, the next
  process uses the override in place when the process ended.\<close>

theorem override_survives_restart:
  assumes "config_updateAccountOverride env (JStr i) updates expected s = (Inr (v, n), s')"
    and "acc_getById (JStr i) (st_accounts (cs_store s)) = Some acc" and "accounts_map_ok (acc_accounts (st_accounts (cs_store s)))"
    and "rows_ok (st_rows (cs_store s))" and "\<forall>r\<in>set (st_rows (cs_store s)). ar_id r = JStr i \<longrightarrow> ar_user r = st_user (cs_store s)"
    and "\<forall>rs. mset (newest rs) = mset rs"
  shows "getAccountOverride (JStr i) (cs_config (initialize_config newest env' s')) = json_clone (getAccountOverride (JStr i) (cs_config s'))"
  using assms by (rule override_restored)

definition cycle_off :: obj where
  "cycle_off = [(''betCycleEnabled'', JBool False)]"

definition switched_off :: config_store where
  "switched_off = snd (config_updateAccountOverride sample_store_env (JStr ''a1'') cycle_off None sample_config_store)"

lemma switched_off_update:
  "\<exists>v n. config_updateAccountOverride sample_store_env (JStr ''a1'') cycle_off None sample_config_store = (Inr (v, n), switched_off)"
proof -
  let ?r = "config_updateAccountOverride sample_store_env (JStr ''a1'') cycle_off None sample_config_store"
  have "\<not> isl (fst ?r)" by code_simp
  then show ?thesis unfolding switched_off_def by (cases ?r; cases "fst ?r") auto
qed

lemma sample_rows: "rows_ok (st_rows (cs_store sample_config_store))"
    "\<forall>r\<in>set (st_rows (cs_store sample_config_store)). ar_id r = JStr ''a1'' \<longrightarrow> ar_user r = st_user (cs_store sample_config_store)"
    "acc_getById (JStr ''a1'') (st_accounts (cs_store sample_config_store)) \<noteq> None"
  by code_simp+

lemma one_in_map: "accounts_map_ok [(i, a)] \<longleftrightarrow> typed a \<and> obj_get a ''id'' = i \<and> truthy i"
  by (auto simp: accounts_map_ok_def split: if_splits)

lemma sample_accounts_ok: "accounts_map_ok (acc_accounts (st_accounts (cs_store sample_config_store)))"
proof -
  let ?m = "acc_accounts (st_accounts (cs_store sample_config_store))"
  have "length ?m = 1" by code_simp
  then have m: "?m = [(fst (hd ?m), snd (hd ?m))]" by (cases ?m) auto
  have "js_or (platform_of (snd (hd ?m))) (JStr []) = JStr ''SportyBet''" "obj_get (snd (hd ?m)) ''accountUsername'' = JStr ''joe''"
    "obj_get (snd (hd ?m)) ''id'' = fst (hd ?m)" "truthy (fst (hd ?m))" by code_simp+
  then have "typed (snd (hd ?m)) \<and> obj_get (snd (hd ?m)) ''id'' = fst (hd ?m) \<and> truthy (fst (hd ?m))" by (simp add: typed_def)
  then show ?thesis by (subst m) (simp only: one_in_map)
qed

theorem override_survives_restart_witness:
  "js_get (getAccountOverride (JStr ''a1'') (cs_config (initialize_config id sample_store_env switched_off))) ''betCycleEnabled'' = JBool False"
proof -
  from switched_off_update obtain v n where
    u: "config_updateAccountOverride sample_store_env (JStr ''a1'') cycle_off None sample_config_store = (Inr (v, n), switched_off)" by blast
  from sample_rows(3) obtain acc where acc: "acc_getById (JStr ''a1'') (st_accounts (cs_store sample_config_store)) = Some acc" by blast
  have "js_get (json_clone (getAccountOverride (JStr ''a1'') (cs_config switched_off))) ''betCycleEnabled'' = JBool False" by code_simp
  with override_survives_restart [OF u acc sample_accounts_ok sample_rows(1,2), of id sample_store_env] show ?thesis by simp
qed

text \<open>A synchronisation forgets every override: whatever configuration it brings, all accounts are on the default
  override afterwards, so a bet cycle the operator switched off is on again, although the accounts and
  their rows, which hold the overrides, stay as they were.\<close>

theorem sync_forgets_overrides:
  assumes "truthy g" and "repo_hydrate_config now g s = (r, s')"
  shows "r = None \<and> (\<forall>i. getAccountOverride i (cs_config s') = default_override) \<and> cs_store s' = cs_store s"
  using assms by (rule synced_overrides)

theorem sync_forgets_overrides_witness:
  "js_get (getAccountOverride (JStr ''a1'') (cs_config switched_off)) ''betCycleEnabled'' = JBool False \<and>
   js_get (getAccountOverride (JStr ''a1'') (cs_config (snd (repo_hydrate_config 9 (JObj createDefaultGlobalConfig) switched_off)))) ''betCycleEnabled'' = JBool True"
proof -
  have "js_get (getAccountOverride (JStr ''a1'') (cs_config switched_off)) ''betCycleEnabled'' = JBool False" by code_simp
  moreover have "js_get default_override ''betCycleEnabled'' = JBool True" by code_simp
  ultimately show ?thesis
    using sync_forgets_overrides [of "JObj createDefaultGlobalConfig" 9 switched_off, OF _ prod.collapse [symmetric]] by simp
qed

end
