(* ===== verification/ExecutionPayload.thy ===== *)
theory ExecutionPayload
  imports AutomationConfig
begin

text \<open>
  What the execution plane is given: the vault of credentials in memory
  (\<^verbatim>\<open>runtime-manager/boundary/VaultCredentialPipeline.mjs\<close>) and the builder of policies and of the initialisation
  and activation payloads (\<^verbatim>\<open>ExecutionPayloadBuilder.mjs\<close>). The ciphers of the native core and of Node are
  arguments, as are the conversions of the standard library from values to numbers and strings. User names and
  ids that are not strings, which no table accepts, do not become names of policies.
\<close>

section \<open>The vault\<close>

datatype vault_mode = NativeMode | NodeMode

record vault_entry =
  ve_cipher :: string
  ve_mode :: vault_mode
  ve_updated :: int

type_synonym vault = "(string, vault_entry) jsmap"

text \<open>The native cipher may fail when its storage root is not initialised; the text of Node's cipher stands for nonce,
  text and tag.\<close>

record vault_io =
  encryptAead :: "string \<Rightarrow> string \<Rightarrow> string option"
  decryptAead :: "string \<Rightarrow> string \<Rightarrow> string option"
  gcmSeal :: "string \<Rightarrow> string \<Rightarrow> string"
  gcmOpen :: "string \<Rightarrow> string \<Rightarrow> string option"

definition vault_aad :: "string \<Rightarrow> string" where
  "vault_aad accountId = ''ACP_VAULT_'' @ accountId"

definition evictCredential :: "string \<Rightarrow> vault \<Rightarrow> vault" where
  "evictCredential accountId v = AList.delete accountId v"

definition storeCredential :: "vault_io \<Rightarrow> int \<Rightarrow> jsval \<Rightarrow> jsval \<Rightarrow> vault \<Rightarrow> vault" where
  "storeCredential io now accountId plaintextPassword v =
     (case (accountId, plaintextPassword) of
        (JStr i, JStr p) \<Rightarrow>
          if i = [] \<or> masked_string p then v
          else AList.update i
                 (case encryptAead io (vault_aad i) p of
                    Some c \<Rightarrow> \<lparr>ve_cipher = c, ve_mode = NativeMode, ve_updated = now\<rparr>
                  | None \<Rightarrow> \<lparr>ve_cipher = gcmSeal io (vault_aad i) p, ve_mode = NodeMode, ve_updated = now\<rparr>)
                 (evictCredential i v)
      | _ \<Rightarrow> v)"

definition open_entry :: "vault_io \<Rightarrow> string \<Rightarrow> vault_entry \<Rightarrow> string option" where
  "open_entry io i e =
     (case ve_mode e of
        NativeMode \<Rightarrow> decryptAead io (vault_aad i) (ve_cipher e)
      | NodeMode \<Rightarrow> gcmOpen io (vault_aad i) (ve_cipher e))"

definition vault_password :: "vault_io \<Rightarrow> jsval \<Rightarrow> vault \<Rightarrow> string option" where
  "vault_password io i v =
     (case map_of v (js_string i) of
        None \<Rightarrow> None
      | Some e \<Rightarrow> (case open_entry io (js_string i) e of Some p \<Rightarrow> if masked_string p then None else Some p | None \<Rightarrow> None))"

text \<open>The second and third sources: the row of the account, then the account in memory. An error there is ignored.\<close>

definition container_password :: "jsval \<Rightarrow> accounts \<Rightarrow> jsval" where
  "container_password i c =
     (case acc_getById i c of
        None \<Rightarrow> JUndef
      | Some a \<Rightarrow> (case isMaskedPassword (obj_get a ''accountPassword'') of Inr False \<Rightarrow> obj_get a ''accountPassword'' | _ \<Rightarrow> JUndef))"

definition decryptCredential ::
  "vault_io \<Rightarrow> (string \<Rightarrow> string option) \<Rightarrow> int \<Rightarrow> state_store \<Rightarrow> jsval \<Rightarrow> jsval \<Rightarrow> vault \<Rightarrow> (store_error + jsval) \<times> vault" where
  "decryptCredential io us now st accountId fallbackPassword v =
     (case vault_password io accountId v of
        Some p \<Rightarrow> (Inr (JStr p), v)
      | None \<Rightarrow>
          let raw = getRawPassword us (st_user st) accountId (st_rows st); held = container_password accountId (st_accounts st) in
          if \<not> masked_string raw then (Inr (JStr raw), storeCredential io now accountId (JStr raw) v)
          else if held \<noteq> JUndef then (Inr held, storeCredential io now accountId held v)
          else if \<not> truthy fallbackPassword then (Inr (JStr []), v)
          else (case isMaskedPassword fallbackPassword of
                  Inl e \<Rightarrow> (Inl e, v)
                | Inr True \<Rightarrow> (Inr (JStr []), v)
                | Inr False \<Rightarrow> (Inr fallbackPassword, storeCredential io now accountId fallbackPassword v)))"

definition hasCredential :: "string \<Rightarrow> vault \<Rightarrow> bool" where
  "hasCredential i v = (map_of v i \<noteq> None)"

definition vault_clear :: "vault \<Rightarrow> vault" where
  "vault_clear v = []"

section \<open>Policies\<close>

definition nullish :: "jsval \<Rightarrow> jsval \<Rightarrow> jsval" where
  "nullish a b = (if a = JUndef \<or> a = JNull then b else a)"

definition to_num :: "(jsval \<Rightarrow> jsnum) \<Rightarrow> jsval \<Rightarrow> jsval" where
  "to_num number v = JNum (number v)"

definition bet_cycle_section :: "jsval \<Rightarrow> jsval" where
  "bet_cycle_section overrides =
     JObj [(''Execution'', JObj [(''Enabled'', JBool (js_get overrides ''betCycleEnabled'' \<noteq> JBool False)),
       (''Description'', JStr ''Gate flag dictating whether this account is authorized to execute physical bet submission cycles'')])]"

definition pricing_section :: "(jsval \<Rightarrow> jsnum) \<Rightarrow> jsval \<Rightarrow> jsval \<Rightarrow> jsval" where
  "pricing_section number pricing custom =
     JObj [(''Strategy'', JObj
        [(''Mode'', js_or (js_get custom ''mode'') (js_or (js_get pricing ''mode'') (JStr ''PROFIT_TARGET''))),
         (''BaseStake'', to_num number (nullish (js_get custom ''baseStake'') (nullish (js_get pricing ''baseStake'') (num 100)))),
         (''TargetProfit'', to_num number (nullish (js_get custom ''targetProfit'') (nullish (js_get pricing ''targetProfit'') (num 30)))),
         (''MinimumAcceptableProfit'', to_num number
            (nullish (js_get custom ''minimumAcceptableProfit'') (nullish (js_get pricing ''minimumAcceptableProfit'') (num 0)))),
         (''ResolutionStrategy'', js_or (js_get custom ''resolutionStrategy'')
            (js_or (js_get pricing ''resolutionStrategy'') (JStr ''CLAMP_THEN_REDUCE_PROFIT'')))]),
       (''Behavior'', JObj
        [(''PlatformIncrement'', to_num number (nullish (js_get pricing ''platformIncrement'') (num 1))),
         (''SelectionPreference'', js_or (js_get pricing ''selectionPreference'') (JStr ''ROUND_NUMBERS'')),
         (''RestorePolicyOnRebet'', JBool (js_get pricing ''restorePolicyOnRebet'' \<noteq> JBool False))])]"

definition rebet_section :: "(jsval \<Rightarrow> jsnum) \<Rightarrow> jsval \<Rightarrow> jsval \<Rightarrow> jsval" where
  "rebet_section number rebet custom =
     JObj [(''Strategy'', JObj
       [(''MaxRebetAttempts'', to_num number (nullish (js_get custom ''maxRebetAttempts'') (nullish (js_get rebet ''maxRebetAttempts'') (num 1)))),
        (''RebetStakeIncrement'', to_num number
           (nullish (js_get custom ''rebetStakeIncrement'') (nullish (js_get rebet ''rebetStakeIncrement'') (num 10))))])]"

definition execution_section :: "(jsval \<Rightarrow> jsnum) \<Rightarrow> jsval \<Rightarrow> jsval" where
  "execution_section number execution =
     JObj [(''Timeouts'', JObj
       [(''ResultTimeoutMs'', to_num number (js_or (js_get execution ''orderTimeoutMs'') (num 30000))),
        (''NavigationTimeoutMs'', to_num number (js_or (js_get execution ''navigationTimeoutMs'') (num 10000))),
        (''LoginTimeoutMs'', to_num number (js_or (js_get execution ''loginTimeoutMs'') (num 25000))),
        (''DecisionFreshnessTTLMs'', to_num number (js_or (js_get execution ''decisionFreshnessTTLMs'') (num 3000))),
        (''ReconciliationTimeoutMs'', to_num number (js_or (js_get execution ''reconciliationTimeoutMs'') (num 120000)))]),
      (''Pacing'', JObj
       [(''KeyboardTypingDelayMs'', to_num number (nullish (js_get execution ''keyboardTypingDelayMs'') (num 10))),
        (''PacingStrategy'', js_or (js_get execution ''pacingStrategy'') (JStr ''AGGRESSIVE''))])]"

definition risk_limits :: "(jsval \<Rightarrow> jsnum) \<Rightarrow> jsval \<Rightarrow> jsval \<Rightarrow> jsval" where
  "risk_limits number risk custom =
     JObj [(''MaxStake'', to_num number (nullish (js_get custom ''maxStake'') (nullish (js_get risk ''maxStake'')
              (nullish (js_get risk ''stopLossThreshold'') (num 10000))))),
           (''MinimumStake'', to_num number (nullish (js_get custom ''minimumStake'') (nullish (js_get risk ''minimumStake'') (num 10)))),
           (''AutoAcceptOddsChanges'', JBool (truthy (js_get risk ''autoAcceptOddsChanges'')))]"

definition or_empty :: "jsval \<Rightarrow> jsval" where
  "or_empty v = js_or v (JObj [])"

text \<open>The overrides are an object wherever the code calls it; the default argument is the empty one.\<close>

definition buildPolicyDocument :: "(jsval \<Rightarrow> jsnum) \<Rightarrow> jsval \<Rightarrow> jsval \<Rightarrow> jsval" where
  "buildPolicyDocument number globalConfig overrides =
     (let custom = (\<lambda>k. or_empty (js_get overrides k)); global = (\<lambda>k. or_empty (js_get globalConfig k));
          limits = risk_limits number (global ''risk'') (custom ''customRisk'')
      in JObj [(''BetCycle'', bet_cycle_section overrides),
               (''Pricing'', pricing_section number (global ''pricing'') (custom ''customPricing'')),
               (''Rebet'', rebet_section number (global ''rebet'') (custom ''customRebet'')),
               (''Execution'', execution_section number (global ''execution'')),
               (''RiskManagement'', JObj [(''Policy'', limits), (''Limits'', limits)])])"

section \<open>Passwords\<close>

record payload_env =
  pe_io :: vault_io
  pe_unseal :: "string \<Rightarrow> string option"
  pe_number :: "jsval \<Rightarrow> jsnum"
  pe_string :: "jsval \<Rightarrow> string"
  pe_now :: int

definition resolvePassword :: "payload_env \<Rightarrow> state_store \<Rightarrow> obj \<Rightarrow> vault \<Rightarrow> (store_error + jsval) \<times> vault" where
  "resolvePassword env st acc v =
     (case isMaskedPassword (obj_get acc ''accountPassword'') of
        Inl e \<Rightarrow> (Inl e, v)
      | Inr False \<Rightarrow> (Inr (obj_get acc ''accountPassword''), v)
      | Inr True \<Rightarrow>
          (case isMaskedPassword (obj_get acc ''rawPassword'') of
             Inl e \<Rightarrow> (Inl e, v)
           | Inr False \<Rightarrow> (Inr (obj_get acc ''rawPassword''), v)
           | Inr True \<Rightarrow>
               (case decryptCredential (pe_io env) (pe_unseal env) (pe_now env) st (obj_get acc ''id'')
                       (js_or (obj_get acc ''rawPassword'') (obj_get acc ''accountPassword'')) v of
                  (Inl e, v1) \<Rightarrow> (Inl e, v1)
                | (Inr p, v1) \<Rightarrow>
                    if truthy p \<and> isMaskedPassword p = Inr False then (Inr p, v1)
                    else let raw = getRawPassword (pe_unseal env) (st_user st) (obj_get acc ''id'') (st_rows st)
                         in if \<not> masked_string raw
                            then (Inr (JStr raw), storeCredential (pe_io env) (pe_now env) (obj_get acc ''id'') (JStr raw) v1)
                            else (Inr (JStr []), v1))))"

section \<open>The initialisation payload\<close>

datatype payload_error =
    NoAccountsStaged
  | CredentialMissing jsval
  | PayloadTypeError

datatype targets = NoTargets | IdArray "jsval list" | IdSet "jsval list"

definition not_suspended :: "obj \<Rightarrow> bool" where
  "not_suspended a \<longleftrightarrow> obj_get a ''backendState'' \<noteq> JStr ''SUSPENDED''"

definition id_map :: "obj list \<Rightarrow> (jsval, obj) jsmap" where
  "id_map accs = fold (\<lambda>a. AList.update (obj_get a ''id'') a) accs []"

definition target_set :: "targets \<Rightarrow> jsval list \<Rightarrow> obj list \<Rightarrow> jsval list option" where
  "target_set targets staged accs =
     (case targets of
        IdSet ids \<Rightarrow> Some ids
      | _ \<Rightarrow> if staged \<noteq> [] \<and> list_ex (\<lambda>a. obj_get a ''id'' \<in> set staged) accs then Some staged else None)"

definition selected_accounts :: "targets \<Rightarrow> jsval list \<Rightarrow> obj list \<Rightarrow> obj list" where
  "selected_accounts targets staged accs =
     (case targets of
        IdArray (i # is) \<Rightarrow> filter not_suspended (List.map_filter (map_of (id_map accs)) (i # is))
      | _ \<Rightarrow>
          (case target_set targets staged accs of
             Some ids \<Rightarrow> filter (\<lambda>a. obj_get a ''id'' \<in> set ids \<and> not_suspended a) accs
           | None \<Rightarrow> filter not_suspended accs))"

definition platform_id :: "obj \<Rightarrow> store_error + string" where
  "platform_id a = lower_of (js_or (obj_get a ''platformId'') (js_or (obj_get a ''platformDisplayName'') (JStr ''sportybet'')))"

definition blank_password :: "jsval \<Rightarrow> payload_error + bool" where
  "blank_password p =
     (if \<not> truthy p then Inr True else case p of JStr s \<Rightarrow> Inr (js_trim s = []) | _ \<Rightarrow> Inl PayloadTypeError)"

definition compile_account :: "payload_env \<Rightarrow> state_store \<Rightarrow> bool \<Rightarrow> obj \<Rightarrow> vault \<Rightarrow> (payload_error + obj) \<times> vault" where
  "compile_account env st master acc v =
     (case resolvePassword env st acc v of
        (Inl _, v1) \<Rightarrow> (Inl PayloadTypeError, v1)
      | (Inr p, v1) \<Rightarrow>
          (case blank_password p of
             Inl e \<Rightarrow> (Inl e, v1)
           | Inr True \<Rightarrow> (Inl (CredentialMissing (obj_get acc ''accountUsername'')), v1)
           | Inr False \<Rightarrow>
               (case platform_id acc of
                  Inl _ \<Rightarrow> (Inl PayloadTypeError, v1)
                | Inr pid \<Rightarrow>
                    (Inr [(''id'', obj_get acc ''id''), (''role'', JStr (if master then ''master'' else ''slave'')), (''platformId'', JStr pid),
                          (''username'', obj_get acc ''accountUsername''), (''password'', p),
                          (''proxyUrl'', js_or (obj_get acc ''proxyUrl'') JNull)], v1))))"

fun compile_accounts :: "payload_env \<Rightarrow> state_store \<Rightarrow> bool \<Rightarrow> obj list \<Rightarrow> vault \<Rightarrow> (payload_error + obj list) \<times> vault" where
  "compile_accounts env st master [] v = (Inr [], v)"
| "compile_accounts env st master (a # as) v =
     (case compile_account env st master a v of
        (Inl e, v1) \<Rightarrow> (Inl e, v1)
      | (Inr c, v1) \<Rightarrow>
          (case compile_accounts env st False as v1 of
             (Inl e, v2) \<Rightarrow> (Inl e, v2)
           | (Inr cs, v2) \<Rightarrow> (Inr (c # cs), v2)))"

definition init_settings :: "(jsval \<Rightarrow> string) \<Rightarrow> jsval \<Rightarrow> jsval" where
  "init_settings str g =
     (let sp = (\<lambda>k. js_get (js_get g ''browserSpawning'') k); px = (\<lambda>k. js_get (js_get g ''proxy'') k);
          rt = (\<lambda>k. js_get (js_get g ''advancedRuntime'') k); s = (\<lambda>v. JStr (str v))
      in JObj
       [(''Spawning'', JObj
          [(''max_accounts_to_spawn'', s (js_or (sp ''maxAccountsToSpawn'') (num 2))),
           (''slave_mode'', js_or (sp ''slaveMode'') (JStr ''headful'')),
           (''master_use_proxy'', s (nullish (sp ''masterUseProxy'') (JBool False))),
           (''debug_slow_mo'', s (nullish (sp ''debugSlowMo'') (num 0))),
           (''spawn_stagger_interval_ms'', s (js_or (sp ''spawnStaggerIntervalMs'') (num 1200)))]),
        (''Proxy'', JObj
          [(''proxy_allocation_mode'', js_or (px ''proxyAllocationMode'') (JStr ''round_robin'')),
           (''proxy_failure_mode'', js_or (px ''proxyFailureMode'') (JStr ''loose'')),
           (''max_accounts_per_proxy'', s (js_or (px ''maxAccountsPerProxy'') (num 3)))]),
        (''AntiDetection'', JObj
          [(''use_stealth_plugin'', s (nullish (rt ''useStealthPlugin'') (JBool False))),
           (''browser_binary'', js_or (rt ''browserBinary'') (JStr ''chrome'')),
           (''randomize_user_agent'', s (nullish (rt ''randomizeUserAgent'') (JBool False))),
           (''block_webrtc'', s (nullish (rt ''blockWebRTC'') (JBool False))),
           (''match_proxy_timezone'', s (nullish (rt ''matchProxyTimezone'') (JBool True))),
           (''canvas_spoofing'', s (nullish (rt ''canvasSpoofing'') (JBool False)))]),
        (''Stealth'', JObj
          [(''browser_binary'', js_or (rt ''browserBinary'') (JStr ''chrome'')),
           (''use_stealth_plugin'', JBool (truthy (rt ''useStealthPlugin'')))]),
        (''Memory'', JObj
          [(''record_action_sequence'', s (nullish (rt ''recordActionSequence'') (JBool False))),
           (''replay_action_sequence'', s (nullish (rt ''replayActionSequence'') (JBool False))),
           (''hotkey_placebet'', JStr ''b'')])])"

definition proxy_pool :: "jsval \<Rightarrow> jsval list" where
  "proxy_pool g =
     (case js_get (js_get g ''proxy'') ''proxyPool'' of
        JArr xs \<Rightarrow> xs
      | _ \<Rightarrow> (case js_get (js_get g ''proxy'') ''proxies'' of JArr xs \<Rightarrow> xs | _ \<Rightarrow> []))"

definition proxy_url :: "jsval \<Rightarrow> jsval" where
  "proxy_url p = (case p of JStr s \<Rightarrow> JStr (js_trim s) | _ \<Rightarrow> js_or (js_get p ''url'') (JStr []))"

definition unique_proxies :: "jsval \<Rightarrow> obj list \<Rightarrow> jsval list" where
  "unique_proxies g accs =
     js_set (filter truthy (map proxy_url (filter truthy
       (proxy_pool g @ filter truthy (map (\<lambda>a. obj_get a ''proxyUrl'') accs)))))"

definition note_policy :: "(jsval \<Rightarrow> jsnum) \<Rightarrow> jsval \<Rightarrow> config \<Rightarrow> obj \<Rightarrow> obj \<Rightarrow> obj" where
  "note_policy number g c acc m =
     (let doc = buildPolicyDocument number g (getAccountOverride (obj_get acc ''id'') c);
          m1 = AList.update (js_string (obj_get acc ''accountUsername'')) doc m
      in if truthy (obj_get acc ''id'') then AList.update (js_string (obj_get acc ''id'')) doc m1 else m1)"

definition account_policies :: "(jsval \<Rightarrow> jsnum) \<Rightarrow> jsval \<Rightarrow> config \<Rightarrow> obj list \<Rightarrow> obj" where
  "account_policies number g c accs = fold (note_policy number g c) accs []"

text \<open>The container has no method \<^verbatim>\<open>toSettingsIniObject\<close>, so the last member is built from an empty object.\<close>

definition init_configuration :: jsval where
  "init_configuration =
     JObj [(''pricing'', JObj [(''mode'', JStr ''PROFIT_TARGET''), (''baseStake'', num 100), (''targetProfit'', num 25)]),
           (''risk'', JObj [(''maxStake'', num 5000)])]"

definition fleet_member :: "obj \<Rightarrow> jsval" where
  "fleet_member a = JObj (obj_merge a [(''accountId'', obj_get a ''id''), (''role'', obj_get a ''role''),
     (''username'', obj_get a ''username''), (''password'', obj_get a ''password'')])"

definition buildInitializationPayload ::
  "payload_env \<Rightarrow> config_store \<Rightarrow> jsval list \<Rightarrow> targets \<Rightarrow> vault \<Rightarrow> (payload_error + obj) \<times> vault" where
  "buildInitializationPayload env s staged targets v =
     (let g = JObj (getGlobalConfig (cs_config s));
          accs = selected_accounts targets staged (acc_getAll (st_accounts (cs_store s)))
      in if accs = [] then (Inl NoAccountsStaged, v)
         else case compile_accounts env (cs_store s) True accs v of
                (Inl e, v1) \<Rightarrow> (Inl e, v1)
              | (Inr compiled, v1) \<Rightarrow>
                  (Inr [(''protocolVersion'', JStr ''3.0''), (''settings'', init_settings (pe_string env) g),
                        (''accounts'', JArr (map JObj compiled)), (''proxies'', JArr (unique_proxies g accs)),
                        (''policy'', JObj [(''defaultPolicy'', buildPolicyDocument (pe_number env) g (JObj [])),
                           (''accountPolicies'', JObj (account_policies (pe_number env) g (cs_config s) accs))]),
                        (''fleet'', JObj [(''accounts'', JArr (map fleet_member compiled))]),
                        (''configuration'', init_configuration)], v1))"

section \<open>The activation payload\<close>

definition buildActivateAccountPayload :: "payload_env \<Rightarrow> config_store \<Rightarrow> obj \<Rightarrow> vault \<Rightarrow> (payload_error + obj) \<times> vault" where
  "buildActivateAccountPayload env s account v =
     (case resolvePassword env (cs_store s) account v of
        (Inl _, v1) \<Rightarrow> (Inl PayloadTypeError, v1)
      | (Inr password, v1) \<Rightarrow>
          let policy = buildPolicyDocument (pe_number env) (JObj (getGlobalConfig (cs_config s)))
                         (getAccountOverride (obj_get account ''id'') (cs_config s)) in
          (case platform_id account of
             Inl _ \<Rightarrow> (Inl PayloadTypeError, v1)
           | Inr pid \<Rightarrow>
               (Inr [(''accountId'', obj_get account ''id''),
                     (''account'', JObj [(''id'', obj_get account ''id''),
                        (''username'', js_or (obj_get account ''accountUsername'') (obj_get account ''username'')),
                        (''password'', password), (''platformId'', JStr pid), (''policy'', policy)]),
                     (''proxyUrl'', js_or (obj_get account ''proxyUrl'') JNull), (''policy'', policy)], v1)))"

section \<open>Passwords are real\<close>

definition usable :: "jsval \<Rightarrow> bool" where
  "usable p \<longleftrightarrow> p = JStr [] \<or> isMaskedPassword p = Inr False"

lemma usable_string [simp]: "usable (JStr s) \<longleftrightarrow> s = [] \<or> \<not> masked_string s"
  by (auto simp: usable_def)

lemma container_usable: "container_password i c \<noteq> JUndef \<Longrightarrow> usable (container_password i c)"
  by (auto simp: container_password_def usable_def split: option.splits sum.splits bool.splits if_splits)

lemma decrypt_usable: "decryptCredential io us now st i fb v = (Inr p, v') \<Longrightarrow> usable p"
  using container_usable [of i "st_accounts st"]
  by (auto simp: decryptCredential_def vault_password_def usable_def Let_def split: option.splits if_splits sum.splits bool.splits)

lemma resolve_usable: "resolvePassword env st acc v = (Inr p, v') \<Longrightarrow> usable p"
  by (auto simp: resolvePassword_def usable_def Let_def split: sum.splits bool.splits prod.splits if_splits)

definition ready :: "bool \<Rightarrow> obj \<Rightarrow> obj \<Rightarrow> bool" where
  "ready master acc c \<longleftrightarrow> obj_get c ''id'' = obj_get acc ''id'' \<and> obj_get c ''username'' = obj_get acc ''accountUsername'' \<and>
     obj_get c ''role'' = JStr (if master then ''master'' else ''slave'') \<and>
     (\<exists>p. obj_get c ''password'' = JStr p \<and> \<not> masked_string p \<and> js_trim p \<noteq> [])"

lemma compiled_ready: "compile_account env st master acc v = (Inr c, v') \<Longrightarrow> ready master acc c"
proof -
  assume c: "compile_account env st master acc v = (Inr c, v')"
  then obtain p v1 pid where p: "resolvePassword env st acc v = (Inr p, v1)" "blank_password p = Inr False"
    and c': "c = [(''id'', obj_get acc ''id''), (''role'', JStr (if master then ''master'' else ''slave'')), (''platformId'', JStr pid),
      (''username'', obj_get acc ''accountUsername''), (''password'', p), (''proxyUrl'', js_or (obj_get acc ''proxyUrl'') JNull)]"
    by (auto simp: compile_account_def split: prod.splits sum.splits bool.splits)
  from p(2) obtain w where "p = JStr w" "js_trim w \<noteq> []" "w \<noteq> []"
    by (cases p) (auto simp: blank_password_def split: if_splits)
  with resolve_usable [OF p(1)] c' show ?thesis by (simp add: ready_def obj_get_def)
qed

lemma compiled_all_ready:
  "compile_accounts env st master accs v = (Inr cs, v') \<Longrightarrow>
   length cs = length accs \<and> (\<forall>n < length accs. ready (master \<and> n = 0) (accs ! n) (cs ! n))"
proof (induction accs arbitrary: master v cs)
  case (Cons a accs)
  then obtain c v1 ds where c: "compile_account env st master a v = (Inr c, v1)" "compile_accounts env st False accs v1 = (Inr ds, v')" "cs = c # ds"
    by (auto split: prod.splits sum.splits)
  from compiled_ready [OF c(1)] Cons.IH [OF c(2)] show ?case by (auto simp: c(3) nth_Cons split: nat.splits)
qed simp

section \<open>Selection and policies\<close>

lemma id_map_in: "map_of (fold (\<lambda>a. AList.update (obj_get a ''id'') a) accs m) i = Some a \<Longrightarrow>
  map_of m i = Some a \<or> a \<in> set accs \<and> obj_get a ''id'' = i"
proof (induction accs arbitrary: m)
  case (Cons b accs)
  from Cons.IH [of "AList.update (obj_get b ''id'') b m"] Cons.prems show ?case by (auto simp: update_conv' split: if_splits)
qed simp

lemma in_map_filter: "y \<in> set (List.map_filter f xs) \<longleftrightarrow> (\<exists>x\<in>set xs. f x = Some y)"
  by (induction xs) (auto simp: map_filter_simps split: option.splits)

lemma selected_array: "ids \<noteq> [] \<Longrightarrow> a \<in> set (selected_accounts (IdArray ids) staged accs) \<Longrightarrow>
  a \<in> set accs \<and> not_suspended a \<and> obj_get a ''id'' \<in> set ids"
proof -
  assume "ids \<noteq> []" "a \<in> set (selected_accounts (IdArray ids) staged accs)"
  then have "a \<in> set (filter not_suspended (List.map_filter (map_of (id_map accs)) ids))"
    unfolding selected_accounts_def by (cases ids) simp_all
  then obtain i where "not_suspended a" "i \<in> set ids" "map_of (id_map accs) i = Some a" by (auto simp: in_map_filter)
  with id_map_in [of accs "[]" i a] show ?thesis by (simp add: id_map_def)
qed

lemma selected_in: "a \<in> set (selected_accounts targets staged accs) \<Longrightarrow> a \<in> set accs \<and> not_suspended a"
proof (cases "\<exists>ids. targets = IdArray ids \<and> ids \<noteq> []")
  case True
  moreover assume "a \<in> set (selected_accounts targets staged accs)"
  ultimately show ?thesis using selected_array by blast
next
  case False
  moreover assume "a \<in> set (selected_accounts targets staged accs)"
  ultimately show ?thesis
    by (cases targets; cases "target_set targets staged accs") (auto simp: selected_accounts_def split: list.splits)
qed

lemma note_policy_other:
  "js_string (obj_get a ''accountUsername'') \<noteq> k \<Longrightarrow> (truthy (obj_get a ''id'') \<Longrightarrow> js_string (obj_get a ''id'') \<noteq> k) \<Longrightarrow>
   map_of (note_policy number g c a m) k = map_of m k"
  by (auto simp: note_policy_def Let_def update_conv')

lemma note_policy_id:
  "obj_get a ''id'' = JStr i \<Longrightarrow> i \<noteq> [] \<Longrightarrow> map_of (note_policy number g c a m) i = Some (buildPolicyDocument number g (getAccountOverride (JStr i) c))"
  by (simp add: note_policy_def Let_def update_conv')

lemma policy_by_id:
  assumes "\<forall>a\<in>set accs. obj_get a ''accountUsername'' \<noteq> JStr i \<and> is_string (obj_get a ''id'') \<and> is_string (obj_get a ''accountUsername'')"
    and "i \<noteq> []" and "(\<exists>a\<in>set accs. obj_get a ''id'' = JStr i) \<or> map_of m i = Some (buildPolicyDocument number g (getAccountOverride (JStr i) c))"
  shows "map_of (fold (note_policy number g c) accs m) i = Some (buildPolicyDocument number g (getAccountOverride (JStr i) c))"
  using assms(1,3)
proof (induction accs arbitrary: m)
  case (Cons a accs)
  obtain n where n: "obj_get a ''id'' = JStr n" using Cons.prems(1) by (cases "obj_get a ''id''") auto
  obtain u where u: "obj_get a ''accountUsername'' = JStr u" "u \<noteq> i" using Cons.prems(1) by (cases "obj_get a ''accountUsername''") auto
  show ?case
  proof (cases "n = i")
    case True
    with Cons n note_policy_id [OF _ assms(2)] show ?thesis by simp
  next
    case False
    with Cons.prems(2) n note_policy_other [of a i number g c m] u
    have "(\<exists>a\<in>set accs. obj_get a ''id'' = JStr i) \<or> map_of (note_policy number g c a m) i = Some (buildPolicyDocument number g (getAccountOverride (JStr i) c))"
      by auto
    with Cons show ?thesis by simp
  qed
qed simp

lemma payload_parts:
  assumes "buildInitializationPayload env s staged targets v = (Inr payload, v')"
  obtains cs where "compile_accounts env (cs_store s) True (selected_accounts targets staged (acc_getAll (st_accounts (cs_store s)))) v = (Inr cs, v')"
    and "obj_get payload ''accounts'' = JArr (map JObj cs)" and "selected_accounts targets staged (acc_getAll (st_accounts (cs_store s))) \<noteq> []"
    and "js_get (obj_get payload ''policy'') ''accountPolicies'' =
      JObj (account_policies (pe_number env) (JObj (getGlobalConfig (cs_config s))) (cs_config s)
        (selected_accounts targets staged (acc_getAll (st_accounts (cs_store s)))))"
    and "obj_get payload ''configuration'' = init_configuration"
  using assms
  by (auto simp: buildInitializationPayload_def Let_def obj_get_def split: if_splits prod.splits sum.splits intro!: that)

definition enabled_flag :: "jsval \<Rightarrow> jsval" where
  "enabled_flag policy = js_get (js_get (js_get policy ''BetCycle'') ''Execution'') ''Enabled''"

lemma enabled_of_policy: "enabled_flag (buildPolicyDocument number g ov) = JBool (js_get ov ''betCycleEnabled'' \<noteq> JBool False)"
  by (simp add: enabled_flag_def buildPolicyDocument_def bet_cycle_section_def Let_def obj_get_def)

definition vault_io_ok :: "vault_io \<Rightarrow> bool" where
  "vault_io_ok io \<longleftrightarrow> (\<forall>a p c. encryptAead io a p = Some c \<longrightarrow> decryptAead io a c = Some p) \<and>
     (\<forall>a p. gcmOpen io a (gcmSeal io a p) = Some p)"

lemma stored_password:
  assumes "vault_io_ok io" and "i \<noteq> []" and "\<not> masked_string p"
  shows "vault_password io (JStr j) (storeCredential io now (JStr i) (JStr p) v) = (if j = i then Some p else vault_password io (JStr j) v)"
proof -
  let ?e = "case encryptAead io (vault_aad i) p of
      Some c \<Rightarrow> \<lparr>ve_cipher = c, ve_mode = NativeMode, ve_updated = now\<rparr>
    | None \<Rightarrow> \<lparr>ve_cipher = gcmSeal io (vault_aad i) p, ve_mode = NodeMode, ve_updated = now\<rparr>"
  have v: "storeCredential io now (JStr i) (JStr p) v = AList.update i ?e (AList.delete i v)"
    using assms(2,3) by (simp add: storeCredential_def evictCredential_def)
  have o: "open_entry io i ?e = Some p" using assms(1) by (auto simp: open_entry_def vault_io_ok_def split: option.splits)
  show ?thesis
  proof (cases "j = i")
    case True
    with o assms(3) show ?thesis by (simp add: v vault_password_def update_conv')
  next
    case False
    then show ?thesis by (simp add: v vault_password_def update_conv' delete_conv')
  qed
qed

lemma json_update_get: "v \<noteq> JUndef \<Longrightarrow> obj_get (json_members (AList.update k v g)) k = json_clone v"
proof (induction g)
  case (Cons m g)
  then show ?case by (cases m) (auto simp: obj_get_def)
qed (simp add: obj_get_def)

lemma override_off:
  assumes "config_updateAccountOverride env i [(k, JBool b)] expected s = (Inr (w, n), s')"
  shows "js_get (json_clone (getAccountOverride i (cs_config s'))) k = JBool b"
  using assms [unfolded config_updateAccountOverride_def]
proof (cases rule: transaction_cases)
  case (committed x s1)
  have "getAccountOverride i (cs_config s1) = JObj (AList.update k (JBool b) (spread (getAccountOverride i (cs_config s))))"
    using committed(1) by (auto simp: write_override_def Let_def split: option.splits sum.splits dest!: override_result)
  with committed(3) show ?thesis by (simp add: json_update_get)
qed simp_all

section \<open>Properties\<close>

text \<open>C28. A start names its accounts and they are ready: the payload that initialises the execution plane for named accounts
  holds only accounts that were named, exist and are not suspended, each with a real password, the first as
  master and every other as slave.\<close>

theorem initialised_accounts_ready:
  assumes "buildInitializationPayload env s staged (IdArray ids) v = (Inr payload, v')" and "ids \<noteq> []"
  shows "\<exists>cs. obj_get payload ''accounts'' = JArr (map JObj cs) \<and> cs \<noteq> [] \<and> obj_get (hd cs) ''role'' = JStr ''master'' \<and>
    (\<forall>c\<in>set (tl cs). obj_get c ''role'' = JStr ''slave'') \<and>
    (\<forall>c\<in>set cs. obj_get c ''id'' \<in> set ids \<and> (\<exists>p. obj_get c ''password'' = JStr p \<and> \<not> masked_string p \<and> js_trim p \<noteq> []) \<and>
       (\<exists>a\<in>set (acc_getAll (st_accounts (cs_store s))). obj_get a ''id'' = obj_get c ''id'' \<and> not_suspended a))"
proof -
  let ?accs = "selected_accounts (IdArray ids) staged (acc_getAll (st_accounts (cs_store s)))"
  from payload_parts [OF assms(1)] obtain cs where cs: "compile_accounts env (cs_store s) True ?accs v = (Inr cs, v')"
    "obj_get payload ''accounts'' = JArr (map JObj cs)" "?accs \<noteq> []" by metis
  from compiled_all_ready [OF cs(1)] have len: "length cs = length ?accs"
    and rd: "\<And>n. n < length cs \<Longrightarrow> ready (n = 0) (?accs ! n) (cs ! n)" by auto
  have ne: "cs \<noteq> []" using len cs(3) by auto
  then have hd: "obj_get (hd cs) ''role'' = JStr ''master''" using rd [of 0] by (simp add: ready_def hd_conv_nth)
  have tl: "obj_get c ''role'' = JStr ''slave''" if "c \<in> set (tl cs)" for c
  proof -
    from that obtain n where "n < length (tl cs)" "c = tl cs ! n" by (metis in_set_conv_nth)
    then have "Suc n < length cs" "c = cs ! Suc n" by (auto simp: nth_tl)
    with rd [of "Suc n"] show ?thesis by (simp add: ready_def)
  qed
  have all: "obj_get c ''id'' \<in> set ids \<and> (\<exists>p. obj_get c ''password'' = JStr p \<and> \<not> masked_string p \<and> js_trim p \<noteq> []) \<and>
      (\<exists>a\<in>set (acc_getAll (st_accounts (cs_store s))). obj_get a ''id'' = obj_get c ''id'' \<and> not_suspended a)" if "c \<in> set cs" for c
  proof -
    from that obtain n where n: "n < length cs" "c = cs ! n" by (metis in_set_conv_nth)
    then have "?accs ! n \<in> set ?accs" using len by simp
    from selected_array [OF assms(2) this] rd [OF n(1)] n(2) show ?thesis by (auto simp: ready_def)
  qed
  show ?thesis using cs(2) ne hd tl all by blast
qed

definition sample_vault_io :: vault_io where
  "sample_vault_io = \<lparr>encryptAead = \<lambda>a p. None, decryptAead = \<lambda>a c. None, gcmSeal = \<lambda>a p. p, gcmOpen = \<lambda>a c. Some c\<rparr>"

definition sample_payload_env :: payload_env where
  "sample_payload_env = \<lparr>pe_io = sample_vault_io, pe_unseal = unspell, pe_number = num_of, pe_string = js_string, pe_now = 7\<rparr>"

definition sample_payload :: obj where
  "sample_payload = projr (fst (buildInitializationPayload sample_payload_env sample_config_store [] (IdArray [JStr ''a1'']) []))"

lemma sample_payload_built:
  "\<exists>v. buildInitializationPayload sample_payload_env sample_config_store [] (IdArray [JStr ''a1'']) [] = (Inr sample_payload, v)"
proof -
  let ?r = "buildInitializationPayload sample_payload_env sample_config_store [] (IdArray [JStr ''a1'']) []"
  have "\<not> isl (fst ?r)" by code_simp
  then show ?thesis unfolding sample_payload_def by (cases ?r; cases "fst ?r") auto
qed

theorem initialised_accounts_ready_witness:
  "\<exists>c. obj_get sample_payload ''accounts'' = JArr [JObj c] \<and> obj_get c ''role'' = JStr ''master'' \<and> obj_get c ''id'' = JStr ''a1''"
proof -
  from sample_payload_built initialised_accounts_ready [of sample_payload_env sample_config_store "[]" "[JStr ''a1'']" "[]" sample_payload]
  obtain cs where cs: "obj_get sample_payload ''accounts'' = JArr (map JObj cs)" "cs \<noteq> []" "obj_get (hd cs) ''role'' = JStr ''master''"
    "\<forall>c\<in>set cs. obj_get c ''id'' \<in> set [JStr ''a1'']" by blast
  have "(case obj_get sample_payload ''accounts'' of JArr xs \<Rightarrow> length xs | _ \<Rightarrow> 0) = 1" by code_simp
  with cs(1) have "length cs = 1" by simp
  then obtain c where "cs = [c]" by (cases cs) auto
  with cs show ?thesis by auto
qed


definition named_first :: "string \<Rightarrow> obj list \<Rightarrow> bool" where
  "named_first i accs \<longleftrightarrow> accs \<noteq> [] \<and> obj_get (hd accs) ''id'' = JStr i \<and>
     (\<forall>a\<in>set accs. obj_get a ''accountUsername'' \<noteq> JStr i \<and> is_string (obj_get a ''id'') \<and> is_string (obj_get a ''accountUsername''))"

definition restarted_off :: config_store where
  "restarted_off = initialize_config id sample_store_env switched_off"

definition restarted_payload :: obj where
  "restarted_payload = projr (fst (buildInitializationPayload sample_payload_env restarted_off [JStr ''a1''] NoTargets []))"


text \<open>C29. A synchronised fleet bets again: after a synchronisation brought any configuration, the execution plane is given
  an enabled bet cycle for every account it starts with, also for those the operator had switched off.\<close>

theorem synchronised_fleet_bets_again:
  assumes "truthy g" and "repo_hydrate_config now g s = (r, s')"
    and "buildInitializationPayload penv s' staged targets v = (Inr payload, v')"
    and "\<forall>a\<in>set (selected_accounts targets staged (acc_getAll (st_accounts (cs_store s)))).
      obj_get a ''accountUsername'' \<noteq> JStr i \<and> is_string (obj_get a ''id'') \<and> is_string (obj_get a ''accountUsername'')"
    and "b \<in> set (selected_accounts targets staged (acc_getAll (st_accounts (cs_store s))))" and "obj_get b ''id'' = JStr i" and "i \<noteq> []"
  shows "enabled_flag (js_get (js_get (obj_get payload ''policy'') ''accountPolicies'') i) = JBool True"
proof -
  let ?accs = "selected_accounts targets staged (acc_getAll (st_accounts (cs_store s)))"
  let ?g = "JObj (getGlobalConfig (cs_config s'))"
  from synced_overrides [OF assms(1,2)] have o: "getAccountOverride (JStr i) (cs_config s') = default_override" "cs_store s' = cs_store s" by blast+
  from payload_parts [OF assms(3)] o(2) have p: "js_get (obj_get payload ''policy'') ''accountPolicies'' =
      JObj (account_policies (pe_number penv) ?g (cs_config s') ?accs)" by metis
  have "map_of (account_policies (pe_number penv) ?g (cs_config s') ?accs) i =
      Some (buildPolicyDocument (pe_number penv) ?g (getAccountOverride (JStr i) (cs_config s')))"
    unfolding account_policies_def by (rule policy_by_id [OF assms(4,7)]) (use assms(5,6) in blast)
  then show ?thesis using p by (simp add: obj_get_def enabled_of_policy o(1) default_override_def)
qed

definition synced_off :: config_store where
  "synced_off = snd (repo_hydrate_config 9 (JObj createDefaultGlobalConfig) switched_off)"

definition synced_payload :: obj where
  "synced_payload = projr (fst (buildInitializationPayload sample_payload_env synced_off [JStr ''a1''] NoTargets []))"

theorem synchronised_fleet_bets_again_witness:
  "js_get (getAccountOverride (JStr ''a1'') (cs_config switched_off)) ''betCycleEnabled'' = JBool False \<and>
   enabled_flag (js_get (js_get (obj_get synced_payload ''policy'') ''accountPolicies'') ''a1'') = JBool True"
proof -
  let ?r = "buildInitializationPayload sample_payload_env synced_off [JStr ''a1''] NoTargets []"
  let ?accs = "selected_accounts NoTargets [JStr ''a1''] (acc_getAll (st_accounts (cs_store switched_off)))"
  have "\<not> isl (fst ?r)" by code_simp
  then have p: "?r = (Inr synced_payload, snd ?r)" unfolding synced_payload_def by (cases ?r; cases "fst ?r") auto
  have h: "repo_hydrate_config 9 (JObj createDefaultGlobalConfig) switched_off =
      (fst (repo_hydrate_config 9 (JObj createDefaultGlobalConfig) switched_off), synced_off)" by (simp add: synced_off_def)
  have "named_first ''a1'' ?accs" by code_simp
  then have sel: "\<forall>a\<in>set ?accs. obj_get a ''accountUsername'' \<noteq> JStr ''a1'' \<and> is_string (obj_get a ''id'') \<and> is_string (obj_get a ''accountUsername'')"
    "hd ?accs \<in> set ?accs" "obj_get (hd ?accs) ''id'' = JStr ''a1''" by (auto simp: named_first_def)
  have off: "js_get (getAccountOverride (JStr ''a1'') (cs_config switched_off)) ''betCycleEnabled'' = JBool False" by code_simp
  have "enabled_flag (js_get (js_get (obj_get synced_payload ''policy'') ''accountPolicies'') ''a1'') = JBool True"
    by (rule synchronised_fleet_bets_again [OF _ h p sel]) simp_all
  with off show ?thesis by blast
qed

text \<open>A stored credential reads back: after a real password was stored for an account, the vault answers exactly that
  password, whatever table, container and fallback hold and whichever cipher was used, and the credentials of
  the other accounts are as before.\<close>

theorem credential_reads_back:
  assumes "vault_io_ok io" and "i \<noteq> []" and "\<not> masked_string p" and "v' = storeCredential io now (JStr i) (JStr p) v"
  shows "decryptCredential io us now' st (JStr i) fb v' = (Inr (JStr p), v') \<and>
    (\<forall>j. j \<noteq> i \<longrightarrow> vault_password io (JStr j) v' = vault_password io (JStr j) v) \<and>
    vault_password io (JStr i) (evictCredential i v') = None"
proof -
  have "vault_password io (JStr i) (AList.delete i v') = None" by (simp add: vault_password_def delete_conv')
  with stored_password [OF assms(1-3), of _ now v] assms(4) show ?thesis by (simp add: decryptCredential_def evictCredential_def)
qed

theorem credential_reads_back_witness:
  "decryptCredential sample_vault_io unspell 9 sample_store (JStr ''a1'') (JStr ''other'') (storeCredential sample_vault_io 3 (JStr ''a1'') (JStr ''hunter2'') []) =
     (Inr (JStr ''hunter2''), storeCredential sample_vault_io 3 (JStr ''a1'') (JStr ''hunter2'') [])"
proof -
  have "vault_io_ok sample_vault_io" by (simp add: vault_io_ok_def sample_vault_io_def)
  moreover have "\<not> masked_string ''hunter2''" by code_simp
  ultimately show ?thesis
    using credential_reads_back [of sample_vault_io "''a1''" "''hunter2''" _ 3 "[]" unspell 9 sample_store "JStr ''other''", OF _ _ _ refl] by simp
qed

text \<open>With nothing staged the whole fleet starts: an empty list of accounts selects every account that is not
  suspended, although the builder is documented to filter strictly to staged accounts.\<close>

theorem unstaged_start_takes_all:
  "selected_accounts (IdArray []) [] accs = filter not_suspended accs"
  by (simp add: selected_accounts_def target_set_def)

text \<open>Accounts of the same user name on two platforms share the entry of that name: it holds the policy of the later
  one.\<close>

theorem shared_username_shares_policy:
  assumes "obj_get a ''accountUsername'' = JStr u" and "obj_get b ''accountUsername'' = JStr u"
    and "obj_get a ''id'' = JStr i" and "obj_get b ''id'' = JStr j" and "i \<noteq> u" and "j \<noteq> u"
  shows "obj_get (account_policies number g c [a, b]) u = buildPolicyDocument number g (getAccountOverride (JStr j) c)"
  using assms by (simp add: account_policies_def note_policy_def Let_def)

text \<open>The last member of the payload is the same whatever the configuration is, and the nested timeouts of the
  configuration reach no policy: the default configuration asks for a freshness of five seconds and a
  reconciliation after twelve, the policy says three and a hundred and twenty.\<close>

theorem configuration_member_constant:
  assumes "buildInitializationPayload env s staged targets v = (Inr payload, v')"
  shows "obj_get payload ''configuration'' = init_configuration"
  using payload_parts [OF assms] by metis

definition policy_timeout :: "jsval \<Rightarrow> string \<Rightarrow> jsval" where
  "policy_timeout policy k = js_get (js_get (js_get policy ''Execution'') ''Timeouts'') k"

theorem nested_timeouts_ignored:
  "policy_timeout (buildPolicyDocument num_of (JObj createDefaultGlobalConfig) (JObj [])) ''DecisionFreshnessTTLMs'' = num 3000 \<and>
   policy_timeout (buildPolicyDocument num_of (JObj createDefaultGlobalConfig) (JObj [])) ''ReconciliationTimeoutMs'' = num 120000 \<and>
   js_get (js_get (obj_get createDefaultGlobalConfig ''execution'') ''timeouts'') ''decisionFreshnessTTLMs'' = num 5000"
  by code_simp

end
