(* ===== verification/ConfigCommands.thy ===== *)
theory ConfigCommands
  imports ExecutionPayload SyncOutbox ExecutionBoundary
begin

text \<open>
  The handlers of the category Persistence (\<^verbatim>\<open>command/registerCommands.mjs\<close>): registration of accounts, the
  configuration of accounts and of the fleet, and the actions on accounts. Each composes the state store, the
  vault of credentials, the pipe to the execution plane and the synchronisation with the backend. A handler
  runs its own steps without interruption. The source and the category of an update are strings.
\<close>

section \<open>State and surroundings\<close>

record config_plane =
  kp_store :: config_store
  kp_vault :: vault
  kp_outbox :: outbox_state
  kp_staged :: "jsval list"
  kp_active :: "jsval list"
  kp_boundary :: boundary

record config_env =
  ke_store :: store_env
  ke_vault :: vault_io
  ke_sync :: sync_env
  ke_enc :: "jsval \<Rightarrow> string"
  ke_outboxId :: string
  ke_io :: pipe_io
  ke_msgId :: string
  ke_degraded :: bool
  ke_message :: "boundary_error \<Rightarrow> string"

datatype persistence_error =
    AccountRefused store_error
  | ConfigRefused config_error
  | PolicyRejected sync_err

definition plane_accounts :: "config_plane \<Rightarrow> accounts" where
  "plane_accounts p = st_accounts (cs_store (kp_store p))"

definition ke_number :: "config_env \<Rightarrow> jsval \<Rightarrow> jsnum" where
  "ke_number env = to_number (se_crypto (ke_store env))"

definition with_store :: "config_plane \<Rightarrow> 'r \<times> state_store \<Rightarrow> 'r \<times> config_plane" where
  "with_store p rs = (fst rs, p\<lparr>kp_store := (kp_store p)\<lparr>cs_store := snd rs\<rparr>\<rparr>)"

definition upsert_in :: "config_env \<Rightarrow> obj \<Rightarrow> config_plane \<Rightarrow> (store_error + obj \<times> nat) \<times> config_plane" where
  "upsert_in env a p = with_store p (accounts_upsert (ke_store env) a None (cs_store (kp_store p)))"

definition delete_in :: "config_env \<Rightarrow> jsval \<Rightarrow> config_plane \<Rightarrow> (store_error + bool \<times> nat) \<times> config_plane" where
  "delete_in env i p = with_store p (accounts_delete (ke_store env) i None (cs_store (kp_store p)))"

definition remember :: "config_env \<Rightarrow> jsval \<Rightarrow> jsval \<Rightarrow> config_plane \<Rightarrow> config_plane" where
  "remember env i pw p =
     (if truthy pw then p\<lparr>kp_vault := storeCredential (ke_vault env) (se_now (ke_store env)) i pw (kp_vault p)\<rparr> else p)"

definition unstage_in :: "jsval \<Rightarrow> config_plane \<Rightarrow> config_plane" where
  "unstage_in i p = p\<lparr>kp_staged := removeAll i (kp_staged p), kp_active := removeAll i (kp_active p)\<rparr>"

definition stage_in :: "jsval \<Rightarrow> config_plane \<Rightarrow> config_plane" where
  "stage_in i p = p\<lparr>kp_staged := (if i \<in> set (kp_staged p) then kp_staged p else kp_staged p @ [i])\<rparr>"

definition sync_in :: "config_env \<Rightarrow> string \<Rightarrow> jsval \<Rightarrow> config_plane \<Rightarrow> (sync_err + sync_result) \<times> config_plane" where
  "sync_in env ty payload p =
     (case syncMutation (ke_enc env) (ke_sync env) (ke_outboxId env) ty payload (kp_outbox p) of (r, ob) \<Rightarrow> (r, p\<lparr>kp_outbox := ob\<rparr>))"

section \<open>Registration\<close>

fun synced_id :: "sync_result \<Rightarrow> jsval" where
  "synced_id (Synced v) = js_get v ''id''"
| "synced_id _ = JUndef"

text \<open>The backend chose another id.\<close>

definition rename_account :: "config_env \<Rightarrow> obj \<Rightarrow> jsval \<Rightarrow> jsval \<Rightarrow> config_plane \<Rightarrow> obj \<times> config_plane" where
  "rename_account env created newId pw p =
     (let oldId = obj_get created ''id'';
          (created', p1) = (case delete_in env oldId p of
             (Inl e, q) \<Rightarrow> (created, q)
           | (Inr _, q) \<Rightarrow> (let c = obj_merge created [(''id'', newId)] in (c, snd (upsert_in env c q))));
          p2 = remember env newId pw p1
      in (created', if oldId \<in> set (kp_staged p2) then stage_in (obj_get created' ''id'') (unstage_in oldId p2) else p2))"

definition undo_registration :: "config_env \<Rightarrow> jsval \<Rightarrow> config_plane \<Rightarrow> config_plane" where
  "undo_registration env i p =
     (let p1 = snd (delete_in env i p); p2 = snd (delete_in env i p1)
      in unstage_in i (p2\<lparr>kp_vault := evictCredential (js_string i) (kp_vault p2)\<rparr>))"

definition registerAccountHandler :: "config_env \<Rightarrow> jsval \<Rightarrow> config_plane \<Rightarrow> (persistence_error + jsval) \<times> config_plane" where
  "registerAccountHandler env cmd p =
     (let payload = js_get cmd ''payload''; pw = js_get payload ''accountPassword'' in
      case upsert_in env (SecretsGate.spread payload) p of
        (Inl e, p1) \<Rightarrow> (Inl (AccountRefused e), p1)
      | (Inr (created, _), p1) \<Rightarrow>
          let i = obj_get created ''id''; p2 = snd (upsert_in env created (remember env i pw p1)) in
          (case sync_in env ''REGISTER_ACCOUNT'' (JObj (obj_merge [(''id'', i)] (SecretsGate.spread payload))) p2 of
             (Inl e, p3) \<Rightarrow> (Inl (PolicyRejected e), undo_registration env i p3)
           | (Inr r, p3) \<Rightarrow>
               if truthy (synced_id r) \<and> synced_id r \<noteq> i
               then (case rename_account env created (synced_id r) pw p3 of (c, p4) \<Rightarrow> (Inr (JObj c), p4))
               else (Inr (JObj created), p3)))"

section \<open>Actions\<close>

definition accountActionHandler :: "config_env \<Rightarrow> jsval \<Rightarrow> config_plane \<Rightarrow> (persistence_error + jsval) \<times> config_plane" where
  "accountActionHandler env cmd p =
     (Inr (JObj [(''executed'', JBool True)]),
      snd (sync_in env ''ACCOUNT_ACTION''
        (JObj [(''accountId'', js_get cmd ''target''), (''action'', js_get (js_get cmd ''payload'') ''actionType'')]) p))"

definition bulkActionHandler :: "jsval \<Rightarrow> config_plane \<Rightarrow> (persistence_error + jsval) \<times> config_plane" where
  "bulkActionHandler cmd p = (Inr (JObj [(''bulkExecuted'', JBool True)]), p)"

section \<open>Configuration\<close>

type_synonym policy_dispatch = "boundary \<Rightarrow> (boundary_error + dispatched) \<times> boundary"

fun dispatch_all :: "policy_dispatch list \<Rightarrow> boundary \<Rightarrow> boundary_error option \<times> boundary" where
  "dispatch_all [] b = (None, b)"
| "dispatch_all (d # ds) b = (case d b of (Inl e, b1) \<Rightarrow> (Some e, b1) | (Inr _, b1) \<Rightarrow> dispatch_all ds b1)"

definition send_policy :: "config_env \<Rightarrow> jsval \<Rightarrow> jsval \<Rightarrow> jsval \<Rightarrow> jsval \<Rightarrow> policy_dispatch" where
  "send_policy env cmd category policy accountId =
     updatePolicy (ke_io env) (ke_msgId env) (js_string (js_get cmd ''traceId'')) False (ke_degraded env) (se_now (ke_store env))
       (JObj [(''accountId'', accountId)]) category policy"

definition send_reset :: "config_env \<Rightarrow> jsval \<Rightarrow> jsval \<Rightarrow> policy_dispatch" where
  "send_reset env cmd target =
     resetPolicy (ke_io env) (ke_msgId env) (js_string (js_get cmd ''traceId'')) False (ke_degraded env) (se_now (ke_store env))
       (JObj [(''accountId'', target)]) target"

definition connected :: "config_plane \<Rightarrow> bool" where
  "connected p \<longleftrightarrow> activeConnections (transport (kp_boundary p)) \<noteq> []"

definition dispatch_in :: "policy_dispatch list \<Rightarrow> config_plane \<Rightarrow> boundary_error option \<times> config_plane" where
  "dispatch_in ds p =
     (if connected p then (case dispatch_all ds (kp_boundary p) of (e, b) \<Rightarrow> (e, p\<lparr>kp_boundary := b\<rparr>)) else (None, p))"

definition out_of_sync :: "config_env \<Rightarrow> jsval \<Rightarrow> boundary_error \<Rightarrow> config_plane \<Rightarrow> config_plane" where
  "out_of_sync env i e p =
     snd (with_store p (accounts_updateExecutionState (ke_store env) i
       \<lparr>su_desiredState = JUndef, su_observedState = JStr ''OUT_OF_SYNC'',
        su_executionStatusReason = JStr (''DISPATCH_FAILED: '' @ ke_message env e)\<rparr> None (cs_store (kp_store p))))"

definition override_in :: "config_env \<Rightarrow> jsval \<Rightarrow> obj \<Rightarrow> config_plane \<Rightarrow> (config_error + jsval) \<times> config_plane" where
  "override_in env i updates p =
     (case config_updateAccountOverride (ke_store env) i updates None (kp_store p) of
        (Inl e, s) \<Rightarrow> (Inl e, p\<lparr>kp_store := s\<rparr>)
      | (Inr (v, _), s) \<Rightarrow> (Inr v, p\<lparr>kp_store := s\<rparr>))"

definition toggleBetCycleHandler :: "config_env \<Rightarrow> jsval \<Rightarrow> config_plane \<Rightarrow> (persistence_error + jsval) \<times> config_plane" where
  "toggleBetCycleHandler env cmd p =
     (let target = js_get cmd ''target''; enabled = js_get (js_get cmd ''payload'') ''enabled'' in
      case override_in env target [(''betCycleEnabled'', enabled)] p of
        (Inl e, p1) \<Rightarrow> (Inl (ConfigRefused e), p1)
      | (Inr updated, p1) \<Rightarrow>
          let p2 = (case dispatch_in [setBetCycle (ke_io env) (ke_msgId env) (js_string (js_get cmd ''traceId'')) False (ke_degraded env)
                            target (JBool (truthy enabled))] p1 of
                      (Some e, q) \<Rightarrow> out_of_sync env target e q
                    | (None, q) \<Rightarrow> q);
              p3 = snd (sync_in env ''TOGGLE_BET_CYCLE'' (JObj [(''accountId'', target), (''enabled'', enabled)]) p2)
          in (Inr (JObj [(''toggled'', JBool True), (''enabled'', enabled), (''updated'', updated)]), p3))"

definition is_custom :: "jsval \<Rightarrow> bool" where
  "is_custom v \<longleftrightarrow> toLowerCase (js_string v) = ''custom''"

definition category_updates :: "jsval \<Rightarrow> bool \<Rightarrow> jsval \<Rightarrow> obj" where
  "category_updates cat custom vals =
     (let source = JStr (if custom then ''custom'' else ''global''); v = (if custom then nullish vals JNull else JNull) in
      if cat = JStr ''pricing'' \<or> cat = JStr ''Pricing'' then [(''pricingSource'', source), (''customPricing'', v)]
      else if cat = JStr ''risk'' \<or> cat = JStr ''Risk'' then [(''riskSource'', source), (''customRisk'', v)]
      else if cat = JStr ''rebet'' \<or> cat = JStr ''Rebet'' then [(''rebetSource'', source), (''customRebet'', v)]
      else if truthy cat then [(js_string cat, v)]
      else [])"

text \<open>The names under which the execution plane knows an account: its id, then its user name where it differs.\<close>

definition account_names :: "jsval \<Rightarrow> accounts \<Rightarrow> jsval list" where
  "account_names target c =
     (let u = (case acc_getById target c of Some a \<Rightarrow> obj_get a ''accountUsername'' | None \<Rightarrow> JUndef)
      in target # (if truthy u \<and> u \<noteq> target then [u] else []))"

definition updateAccountConfigHandler :: "config_env \<Rightarrow> jsval \<Rightarrow> config_plane \<Rightarrow> (persistence_error + jsval) \<times> config_plane" where
  "updateAccountConfigHandler env cmd p =
     (let payload = js_get cmd ''payload''; target = js_get cmd ''target''; cat = js_get payload ''category'';
          custom = is_custom (js_or (js_get payload ''source'') (JStr ''custom'')) in
      case override_in env target (category_updates cat custom (js_get payload ''values'')) p of
        (Inl e, p1) \<Rightarrow> (Inl (ConfigRefused e), p1)
      | (Inr updated, p1) \<Rightarrow>
          let policy = buildPolicyDocument (ke_number env) (JObj (getGlobalConfig (cs_config (kp_store p1)))) updated;
              names = account_names target (plane_accounts p1);
              resets = (if custom then [] else map (send_reset env cmd) names);
              sends = map (send_policy env cmd (js_or cat (JStr ''Staking'')) policy) names;
              p2 = (case dispatch_in (resets @ sends) p1 of
                      (Some e, q) \<Rightarrow> out_of_sync env target e q
                    | (None, q) \<Rightarrow> q);
              p3 = snd (sync_in env ''UPDATE_ACCOUNT_CONFIG''
                     (JObj [(''accountId'', target), (''category'', cat), (''config'', js_get payload ''values'')]) p2)
          in (Inr (JObj [(''updated'', JBool True), (''accountConfig'', updated)]), p3))"

definition reset_updates :: obj where
  "reset_updates = [(''pricingSource'', JStr ''global''), (''customPricing'', JNull), (''riskSource'', JStr ''global''), (''customRisk'', JNull),
     (''rebetSource'', JStr ''global''), (''customRebet'', JNull)]"

definition resetAccountConfigHandler :: "config_env \<Rightarrow> jsval \<Rightarrow> config_plane \<Rightarrow> (persistence_error + jsval) \<times> config_plane" where
  "resetAccountConfigHandler env cmd p =
     (let target = js_get cmd ''target'' in
      case override_in env target reset_updates p of
        (Inl e, p1) \<Rightarrow> (Inl (ConfigRefused e), p1)
      | (Inr updated, p1) \<Rightarrow>
          let p2 = snd (dispatch_in (map (send_reset env cmd) (account_names target (plane_accounts p1))) p1);
              p3 = snd (sync_in env ''RESET_ACCOUNT_CONFIG'' (JObj [(''accountId'', target)]) p2)
          in (Inr (JObj [(''reset'', JBool True), (''accountConfig'', updated)]), p3))"

definition has_custom :: "jsval \<Rightarrow> bool" where
  "has_custom overrides \<longleftrightarrow> list_ex (\<lambda>k. is_custom (js_get overrides k)) [''pricingSource'', ''riskSource'', ''rebetSource'']"

definition tailored_sends :: "config_env \<Rightarrow> jsval \<Rightarrow> config \<Rightarrow> obj \<Rightarrow> policy_dispatch list" where
  "tailored_sends env cmd c acc =
     (let overrides = getAccountOverride (obj_get acc ''id'') c;
          policy = buildPolicyDocument (ke_number env) (JObj (getGlobalConfig c)) overrides;
          u = obj_get acc ''accountUsername''; i = obj_get acc ''id'' in
      if has_custom overrides
      then send_policy env cmd JNull policy (js_or u i) #
           (if truthy i \<and> truthy u \<and> i \<noteq> u then [send_policy env cmd JNull policy i] else [])
      else [])"

definition updateGlobalConfigHandler :: "config_env \<Rightarrow> jsval \<Rightarrow> config_plane \<Rightarrow> (persistence_error + jsval) \<times> config_plane" where
  "updateGlobalConfigHandler env cmd p =
     (let payload = js_get cmd ''payload''; cat = js_get payload ''category'' in
      case config_updateCategory (ke_store env) (js_string cat) (js_get payload ''values'') None (kp_store p) of
        (Inl e, s) \<Rightarrow> (Inl (ConfigRefused e), p\<lparr>kp_store := s\<rparr>)
      | (Inr (updated, _), s) \<Rightarrow>
          let p1 = p\<lparr>kp_store := s\<rparr>; c = cs_config s;
              full = buildPolicyDocument (ke_number env) (JObj (getGlobalConfig c)) (JObj []);
              p2 = snd (dispatch_in (send_policy env cmd cat full JUndef #
                     concat (map (tailored_sends env cmd c) (acc_getAll (st_accounts (cs_store s))))) p1);
              p3 = snd (sync_in env ''UPDATE_GLOBAL_CONFIG'' payload p2)
          in (Inr updated, p3))"

definition verifyCheckoutHandler :: "jsval \<Rightarrow> config_plane \<Rightarrow> (persistence_error + jsval) \<times> config_plane" where
  "verifyCheckoutHandler cmd p = (Inr (JObj [(''verified'', JBool True)]), p)"

definition run_persistence :: "config_env \<Rightarrow> jsval \<Rightarrow> config_plane \<Rightarrow> ((persistence_error + jsval) \<times> config_plane) option" where
  "run_persistence env cmd p =
     (let ty = js_get cmd ''type'' in
      if ty = JStr ''REGISTER_ACCOUNT'' then Some (registerAccountHandler env cmd p)
      else if ty = JStr ''ACCOUNT_ACTION'' then Some (accountActionHandler env cmd p)
      else if ty = JStr ''BULK_ACTION'' then Some (bulkActionHandler cmd p)
      else if ty = JStr ''TOGGLE_BET_CYCLE'' then Some (toggleBetCycleHandler env cmd p)
      else if ty = JStr ''UPDATE_ACCOUNT_CONFIG'' then Some (updateAccountConfigHandler env cmd p)
      else if ty = JStr ''RESET_ACCOUNT_CONFIG'' then Some (resetAccountConfigHandler env cmd p)
      else if ty = JStr ''UPDATE_GLOBAL_CONFIG'' then Some (updateGlobalConfigHandler env cmd p)
      else if ty = JStr ''VERIFY_CHECKOUT'' then Some (verifyCheckoutHandler cmd p)
      else None)"

section \<open>Frames\<close>

lemma sync_in_frame [frame_simps]:
  "kp_store (snd (sync_in env ty payload p)) = kp_store p" "kp_vault (snd (sync_in env ty payload p)) = kp_vault p"
  "kp_staged (snd (sync_in env ty payload p)) = kp_staged p" "kp_boundary (snd (sync_in env ty payload p)) = kp_boundary p"
  by (simp_all add: sync_in_def split: prod.splits)

lemma dispatch_in_frame [frame_simps]:
  "kp_store (snd (dispatch_in ds p)) = kp_store p" "kp_outbox (snd (dispatch_in ds p)) = kp_outbox p"
  by (simp_all add: dispatch_in_def split: prod.splits)

lemma out_of_sync_frame [frame_simps]:
  "cs_config (kp_store (out_of_sync env i e p)) = cs_config (kp_store p)" "kp_boundary (out_of_sync env i e p) = kp_boundary p"
  "kp_outbox (out_of_sync env i e p) = kp_outbox p"
  by (simp_all add: out_of_sync_def with_store_def)

lemma unstage_simps [simp]:
  "kp_store (unstage_in i p) = kp_store p" "kp_vault (unstage_in i p) = kp_vault p"
  "set (kp_staged (unstage_in i p)) = set (kp_staged p) - {i}" "set (kp_active (unstage_in i p)) = set (kp_active p) - {i}"
  by (simp_all add: unstage_in_def)

section \<open>Accounts that are deleted\<close>

lemma deleted_account:
  assumes "delete_in env i p = (r, q)"
  shows "acc_getById i (plane_accounts q) = None" and "\<forall>x\<in>set (st_rows (cs_store (kp_store q))). \<not> (ar_user x = st_user (cs_store (kp_store q)) \<and> ar_id x = i)"
    and "st_user (cs_store (kp_store q)) = st_user (cs_store (kp_store p))" and "kp_vault q = kp_vault p"
  using assms
  by (auto simp: delete_in_def with_store_def accounts_delete_def executeGroupTransaction_def acc_delete_def conflict_def plane_accounts_def
      adapter_delete_def acc_getById_def Let_def delete_conv' split: sum.splits prod.splits if_splits option.splits)

lemma rolled_back:
  assumes "q = undo_registration env (JStr n) p"
  shows "acc_getById (JStr n) (plane_accounts q) = None"
    and "\<forall>x\<in>set (st_rows (cs_store (kp_store q))). \<not> (ar_user x = st_user (cs_store (kp_store q)) \<and> ar_id x = JStr n)"
    and "\<not> hasCredential n (kp_vault q)" and "JStr n \<notin> set (kp_staged q)" and "JStr n \<notin> set (kp_active q)"
proof -
  let ?p1 = "snd (delete_in env (JStr n) p)"
  obtain r p2 where d: "delete_in env (JStr n) ?p1 = (r, p2)" by fastforce
  have q: "q = unstage_in (JStr n) (p2\<lparr>kp_vault := evictCredential n (kp_vault p2)\<rparr>)"
    using assms d by (simp add: undo_registration_def Let_def)
  show "acc_getById (JStr n) (plane_accounts q) = None"
    "\<forall>x\<in>set (st_rows (cs_store (kp_store q))). \<not> (ar_user x = st_user (cs_store (kp_store q)) \<and> ar_id x = JStr n)"
    using deleted_account [OF d] by (simp_all add: q plane_accounts_def)
  show "\<not> hasCredential n (kp_vault q)" "JStr n \<notin> set (kp_staged q)" "JStr n \<notin> set (kp_active q)"
    by (simp_all add: q hasCredential_def evictCredential_def delete_conv')
qed

lemma created_id:
  assumes "accounts_upsert env account expected s = (Inr (a, m), s')" and "distinct (map fst account)"
    and "obj_get account ''id'' = JStr i" and "i \<noteq> []"
  shows "obj_get a ''id'' = JStr i"
proof -
  let ?target = "obj_merge [(''id'', js_or (obj_get account ''id'') (se_newId env))] account"
  have "''id'' \<in> set (map fst account)" using assms(3) obj_get_absent [of "''id''" account] by fastforce
  then have tgt: "obj_get ?target ''id'' = JStr i" using obj_get_merge [OF assms(2)] assms(3) by simp
  from assms(1) obtain c where
    c: "acc_upsert (to_number (se_crypto env)) (se_now env) (se_newId2 env) ?target None (st_accounts s) = Inr (a, c)"
    by (auto simp: accounts_upsert_def executeGroupTransaction_def write_account_def Let_def split: if_splits prod.splits sum.splits)
  from upsert_result [OF c] have "obj_get a ''id'' = js_or (obj_get (sanitized ?target) ''id'') (se_newId2 env)" by (metis record_get(1))
  then show ?thesis using tgt assms(4) sanitized_id [of ?target] by (simp add: js_or_def)
qed

section \<open>Messages on the wire\<close>

definition reached :: "pipe_io \<Rightarrow> boundary \<Rightarrow> nat list" where
  "reached io b = filter (write_succeeds io) (activeConnections (transport b))"

definition on_wire :: "pipe_io \<Rightarrow> string \<times> jsval \<Rightarrow> boundary \<Rightarrow> boundary" where
  "on_wire io m b = b\<lparr>transport := (transport b)\<lparr>wire := wire (transport b) @ map (\<lambda>c. (c, m)) (reached io b)\<rparr>, watch := start (watch b)\<rparr>"

definition sends :: "pipe_io \<Rightarrow> policy_dispatch \<Rightarrow> string \<times> jsval \<Rightarrow> bool" where
  "sends io d m \<longleftrightarrow> (\<forall>b. isListening (transport b) \<longrightarrow> (\<exists>r. d b = (Inr r, on_wire io m b)))"

lemma guarded_sends: "sends io (guardedDispatch io msgId traceId False False ty payload) (ty, payload)"
  by (auto simp: sends_def guardedDispatch_def dispatchEnvelope_def startServer_def transportStart_def broadcast_def on_wire_def reached_def Let_def)

lemma on_wire_simps [simp]:
  "isListening (transport (on_wire io m b)) = isListening (transport b)" "reached io (on_wire io m b) = reached io b"
  "wire (transport (on_wire io m b)) = wire (transport b) @ map (\<lambda>c. (c, m)) (reached io b)"
  by (simp_all add: on_wire_def reached_def)

lemma dispatch_all_sends:
  "list_all2 (sends io) ds ms \<Longrightarrow> isListening (transport b) \<Longrightarrow>
   \<exists>b'. dispatch_all ds b = (None, b') \<and> wire (transport b') = wire (transport b) @ concat (map (\<lambda>m. map (\<lambda>c. (c, m)) (reached io b)) ms)"
proof (induction ds ms arbitrary: b rule: list_all2_induct)
  case (Cons d ds m ms)
  from Cons.hyps(1) Cons.prems obtain r where "d b = (Inr r, on_wire io m b)" by (auto simp: sends_def)
  with Cons.IH [of "on_wire io m b"] Cons.prems show ?case by auto
qed simp

definition policy_message :: "config_env \<Rightarrow> jsval \<Rightarrow> jsval \<Rightarrow> jsval \<Rightarrow> string \<times> jsval" where
  "policy_message env category policy name =
     (''CONFIG:UPDATE_POLICY'', JObj [(''target'', js_or name (JStr ''ALL'')), (''category'', category), (''values'', policy),
        (''operationId'', JStr (''op_pol_'' @ dec_string (nat (se_now (ke_store env)))))])"

lemma send_policy_sends: "\<not> ke_degraded env \<Longrightarrow> sends (ke_io env) (send_policy env cmd category policy name) (policy_message env category policy name)"
  using guarded_sends [of "ke_io env" "ke_msgId env" "js_string (js_get cmd ''traceId'')" "''CONFIG:UPDATE_POLICY''"]
  by (simp add: send_policy_def updatePolicy_def policy_message_def obj_get_def js_or_def sends_def)

definition tailored_messages :: "config_env \<Rightarrow> config \<Rightarrow> obj \<Rightarrow> (string \<times> jsval) list" where
  "tailored_messages env c acc =
     (let overrides = getAccountOverride (obj_get acc ''id'') c; u = obj_get acc ''accountUsername''; i = obj_get acc ''id'';
          m = policy_message env JNull (buildPolicyDocument (ke_number env) (JObj (getGlobalConfig c)) overrides) in
      if has_custom overrides then m (js_or u i) # (if truthy i \<and> truthy u \<and> i \<noteq> u then [m i] else []) else [])"

lemma tailored_all:
  "\<not> ke_degraded env \<Longrightarrow>
   list_all2 (sends (ke_io env)) (concat (map (tailored_sends env cmd c) accs)) (concat (map (tailored_messages env c) accs))"
  by (induction accs) (auto simp: tailored_sends_def tailored_messages_def Let_def send_policy_sends intro!: list_all2_appendI)

section \<open>Configuration after a handler\<close>

lemma override_in_result:
  assumes "override_in env i updates p = (Inr v, p')"
  shows "v = JObj (obj_merge (SecretsGate.spread (getAccountOverride i (cs_config (kp_store p)))) updates)"
    and "getAccountOverride i (cs_config (kp_store p')) = v" and "cf_global (cs_config (kp_store p')) = cf_global (cs_config (kp_store p))"
    and "kp_boundary p' = kp_boundary p" and "kp_outbox p' = kp_outbox p"
proof -
  from assms obtain n s where u: "config_updateAccountOverride (ke_store env) i updates None (kp_store p) = (Inr (v, n), s)" and p': "p' = p\<lparr>kp_store := s\<rparr>"
    by (auto simp: override_in_def split: prod.splits sum.splits)
  from u [unfolded config_updateAccountOverride_def]
  have "v = JObj (obj_merge (SecretsGate.spread (getAccountOverride i (cs_config (kp_store p)))) updates) \<and> getAccountOverride i (cs_config s) = v \<and>
    cf_global (cs_config s) = cf_global (cs_config (kp_store p))"
  proof (cases rule: transaction_cases)
    case (committed w s1)
    have "w = JObj (obj_merge (SecretsGate.spread (getAccountOverride i (cs_config (kp_store p)))) updates) \<and>
        getAccountOverride i (cs_config s1) = w \<and> cf_global (cs_config s1) = cf_global (cs_config (kp_store p))"
      using committed(1) by (auto simp: write_override_def Let_def split: option.splits sum.splits dest!: override_result)
    with committed show ?thesis by simp
  qed simp_all
  then show "v = JObj (obj_merge (SecretsGate.spread (getAccountOverride i (cs_config (kp_store p)))) updates)"
    "getAccountOverride i (cs_config (kp_store p')) = v" "cf_global (cs_config (kp_store p')) = cf_global (cs_config (kp_store p))"
    "kp_boundary p' = kp_boundary p" "kp_outbox p' = kp_outbox p" by (simp_all add: p')
qed

text \<open>No index of an array is a member name that ends in a letter.\<close>

definition last_letter :: "string \<Rightarrow> bool" where
  "last_letter k \<longleftrightarrow> k \<noteq> [] \<and> 65 \<le> (of_char (last k) :: nat)"

lemma index_no_letter: "last_letter k \<Longrightarrow> dec_string n \<noteq> k"
proof
  assume "last_letter k" "dec_string n = k"
  moreover have "last (dec_string n) = digit_char (n mod 10)" by (simp add: dec_string.simps [of n])
  ultimately show False using digit_char_value [of "n mod 10"] mod_less_divisor [of 10 n] by (auto simp: last_letter_def)
qed

lemma spread_member_get: "last_letter k \<Longrightarrow> js_get v k = obj_get (SecretsGate.spread v) k"
proof (cases v)
  case (JArr xs)
  moreover assume "last_letter k"
  ultimately have "k \<notin> set (map fst (SecretsGate.spread v))" using index_no_letter by (auto dest!: set_zip_leftD)
  from obj_get_absent [OF this] JArr show ?thesis by simp
qed (simp_all add: obj_get_def)

lemma global_handler_frame:
  assumes "updateGlobalConfigHandler env cmd p = (Inr r, p')"
  shows "plane_accounts p' = plane_accounts p" and "cf_overrides (cs_config (kp_store p')) = cf_overrides (cs_config (kp_store p))"
proof -
  let ?u = "config_updateCategory (ke_store env) (js_string (js_get (js_get cmd ''payload'') ''category'')) (js_get (js_get cmd ''payload'') ''values'') None (kp_store p)"
  from assms obtain n s where u: "?u = (Inr (r, n), s)"
    by (auto simp: updateGlobalConfigHandler_def Let_def split: prod.splits sum.splits)
  with assms have "kp_store p' = s" by (auto simp: updateGlobalConfigHandler_def Let_def frame_simps)
  with category_written [OF u] show "plane_accounts p' = plane_accounts p" "cf_overrides (cs_config (kp_store p')) = cf_overrides (cs_config (kp_store p))"
    by (metis plane_accounts_def)+
qed

definition account_policy :: "config_env \<Rightarrow> jsval \<Rightarrow> config_plane \<Rightarrow> jsval" where
  "account_policy env i p = buildPolicyDocument (ke_number env) (JObj (getGlobalConfig (cs_config (kp_store p)))) (getAccountOverride i (cs_config (kp_store p)))"

definition fleet_policy :: "config_env \<Rightarrow> config_plane \<Rightarrow> jsval" where
  "fleet_policy env p = buildPolicyDocument (ke_number env) (JObj (getGlobalConfig (cs_config (kp_store p)))) (JObj [])"

lemma policy_sections:
  "js_get (buildPolicyDocument number g ov) ''Pricing'' = pricing_section number (or_empty (js_get g ''pricing'')) (or_empty (js_get ov ''customPricing''))"
  "js_get (buildPolicyDocument number g ov) ''Rebet'' = rebet_section number (or_empty (js_get g ''rebet'')) (or_empty (js_get ov ''customRebet''))"
  "js_get (buildPolicyDocument number g ov) ''Execution'' = execution_section number (or_empty (js_get g ''execution''))"
  "js_get (buildPolicyDocument number g ov) ''RiskManagement'' =
     (let l = risk_limits number (or_empty (js_get g ''risk'')) (or_empty (js_get ov ''customRisk'')) in JObj [(''Policy'', l), (''Limits'', l)])"
  by (simp_all add: buildPolicyDocument_def Let_def obj_get_def)

lemma sync_rejected_outbox: "syncMutation enc env i ty payload s = (Inl e, s') \<Longrightarrow> outbox s' = outbox s"
  by (auto simp: syncMutation_def mutation_failed_def queue_mutation_def dispatchMutation_def retry_authenticated_def keep_token_def degrade_def
      split: if_splits prod.splits reply.splits option.splits reauth_reply.splits)

section \<open>Properties\<close>


definition forbidden :: sync_err where
  "forbidden = \<lparr>err_code = ''HTTP_403'', err_message = ''forbidden'', err_status = 403, err_retryable = None\<rparr>"

definition sample_config_plane :: config_plane where
  "sample_config_plane = \<lparr>kp_store = sample_config_store, kp_vault = [], kp_outbox = (new_outbox None)\<lparr>isConnected := True\<rparr>, kp_staged = [],
     kp_active = [], kp_boundary = sample_boundary [1]\<rparr>"

definition sample_config_env :: "reply \<Rightarrow> config_env" where
  "sample_config_env answer = \<lparr>ke_store = sample_store_env, ke_vault = sample_vault_io, ke_sync = sample_sync_env (\<lambda>n. answer),
     ke_enc = js_string, ke_outboxId = ''o9'', ke_io = ExecutionBoundary.sample_io, ke_msgId = ''m'', ke_degraded = False, ke_message = (\<lambda>e. [])\<rparr>"

definition sample_config_command :: "obj \<Rightarrow> jsval" where
  "sample_config_command payload = JObj [(''target'', JStr ''a1''), (''payload'', JObj payload)]"

definition refused_plane :: config_plane where
  "refused_plane = snd (registerAccountHandler (sample_config_env (Refused forbidden)) (sample_config_command (sample_raw ''a1'' ''joe'' ''hunter2'')) sample_config_plane)"


lemma handler_succeeds:
  "isl (fst (updateGlobalConfigHandler env cmd p)) = isl (fst (config_updateCategory (ke_store env) (js_string (js_get (js_get cmd ''payload'') ''category''))
     (js_get (js_get cmd ''payload'') ''values'') None (kp_store p)))"
  "isl (fst (toggleBetCycleHandler env cmd p)) =
     isl (fst (config_updateAccountOverride (ke_store env) (js_get cmd ''target'') [(''betCycleEnabled'', js_get (js_get cmd ''payload'') ''enabled'')] None (kp_store p)))"
  "isl (fst (resetAccountConfigHandler env cmd p)) = isl (fst (config_updateAccountOverride (ke_store env) (js_get cmd ''target'') reset_updates None (kp_store p)))"
  by (auto simp: updateGlobalConfigHandler_def toggleBetCycleHandler_def resetAccountConfigHandler_def override_in_def Let_def split: prod.splits sum.splits)

lemma handled: "\<not> isl (fst x) \<Longrightarrow> x = (Inr (projr (fst x)), snd x)"
  by (cases x; cases "fst x") auto

text \<open>A reset gives the account the policy of the fleet: after the overrides of an account were reset, its policy has the
  pricing, rebet, execution and risk sections of the fleet, and its bet cycle is on or off as before.\<close>

theorem reset_restores_fleet_policy:
  assumes "resetAccountConfigHandler env cmd p = (Inr r, p')" and "i = js_get cmd ''target''"
  shows "(\<forall>k\<in>{''Pricing'', ''Rebet'', ''Execution'', ''RiskManagement''}. js_get (account_policy env i p') k = js_get (fleet_policy env p') k) \<and>
    fleet_policy env p' = fleet_policy env p \<and> enabled_flag (account_policy env i p') = enabled_flag (account_policy env i p)"
proof -
  from assms obtain v p1 where o: "override_in env i reset_updates p = (Inr v, p1)" and s: "kp_store p' = kp_store p1"
    by (auto simp: resetAccountConfigHandler_def Let_def frame_simps split: prod.splits sum.splits)
  let ?cur = "SecretsGate.spread (getAccountOverride i (cs_config (kp_store p)))"
  from override_in_result [OF o] have ov: "getAccountOverride i (cs_config (kp_store p')) = JObj (obj_merge ?cur reset_updates)"
    and g: "cf_global (cs_config (kp_store p')) = cf_global (cs_config (kp_store p))" by (simp_all add: s)
  have m: "obj_get (obj_merge ?cur reset_updates) ''customPricing'' = JNull" "obj_get (obj_merge ?cur reset_updates) ''customRisk'' = JNull"
    "obj_get (obj_merge ?cur reset_updates) ''customRebet'' = JNull"
    "obj_get (obj_merge ?cur reset_updates) ''betCycleEnabled'' = obj_get ?cur ''betCycleEnabled''"
    by (simp_all add: reset_updates_def)
  have e: "or_empty JNull = or_empty JUndef" by (simp add: or_empty_def js_or_def)
  have cur: "js_get (getAccountOverride i (cs_config (kp_store p))) ''betCycleEnabled'' = obj_get ?cur ''betCycleEnabled''"
    by (rule spread_member_get) (simp add: last_letter_def)
  have "js_get (account_policy env i p') k = js_get (fleet_policy env p') k"
    if "k = ''Pricing'' \<or> k = ''Rebet'' \<or> k = ''Execution'' \<or> k = ''RiskManagement''" for k
    using that by (elim disjE) (simp_all add: account_policy_def fleet_policy_def policy_sections ov m e obj_get_def [of "[]"])
  moreover have "enabled_flag (account_policy env i p') = enabled_flag (account_policy env i p)"
    by (simp add: account_policy_def enabled_of_policy ov m(4) cur)
  ultimately show ?thesis by (auto simp: fleet_policy_def getGlobalConfig_def g)
qed

definition tailored_override :: jsval where
  "tailored_override = JObj [(''pricingSource'', JStr ''custom''), (''customPricing'', JObj [(''baseStake'', num 5)])]"

definition small_store :: config_store where
  "small_store = \<lparr>cs_store = sample_store\<lparr>st_accounts := (new_accounts 0)
       \<lparr>acc_accounts := [(JStr ''a1'', [(''id'', JStr ''a1''), (''accountUsername'', JStr ''joe'')])]\<rparr>\<rparr>,
     cs_config = (new_config 0)\<lparr>cf_overrides := [(JStr ''a1'', tailored_override)]\<rparr>, cs_rows = []\<rparr>"

definition small_plane :: config_plane where
  "small_plane = \<lparr>kp_store = small_store, kp_vault = [], kp_outbox = (new_outbox None)\<lparr>isConnected := True\<rparr>, kp_staged = [],
     kp_active = [], kp_boundary = sample_boundary [1]\<rparr>"

definition reset_plane :: config_plane where
  "reset_plane = snd (resetAccountConfigHandler (sample_config_env (Accepted JUndef)) (sample_config_command []) small_plane)"

theorem reset_restores_fleet_policy_witness:
  "js_get (account_policy (sample_config_env (Accepted JUndef)) (JStr ''a1'') reset_plane) ''Pricing'' =
     js_get (fleet_policy (sample_config_env (Accepted JUndef)) reset_plane) ''Pricing'' \<and>
   js_get (getAccountOverride (JStr ''a1'') (cs_config (kp_store small_plane))) ''customPricing'' = JObj [(''baseStake'', num 5)]"
proof -
  let ?r = "resetAccountConfigHandler (sample_config_env (Accepted JUndef)) (sample_config_command []) small_plane"
  have "\<not> isl (fst ?r)" unfolding handler_succeeds by code_simp
  then have r: "?r = (Inr (projr (fst ?r)), reset_plane)" unfolding reset_plane_def by (rule handled)
  have t: "JStr ''a1'' = js_get (sample_config_command []) ''target''" by code_simp
  have "js_get (getAccountOverride (JStr ''a1'') (cs_config (kp_store small_plane))) ''customPricing'' = JObj [(''baseStake'', num 5)]" by code_simp
  with reset_restores_fleet_policy [OF r t] show ?thesis by simp
qed

text \<open>A toggle takes effect: after the bet cycle of an account was switched, the policy the control plane builds for it
  says so, and with the execution plane connected and the authority not degraded, every connection that can
  be written received the switch.\<close>

theorem toggle_takes_effect:
  assumes "toggleBetCycleHandler env cmd p = (Inr r, p')" and "i = js_get cmd ''target''" and "js_get (js_get cmd ''payload'') ''enabled'' = JBool b"
  shows "enabled_flag (account_policy env i p') = JBool b \<and>
    (\<not> ke_degraded env \<and> isListening (transport (kp_boundary p)) \<and> c \<in> set (reached (ke_io env) (kp_boundary p)) \<longrightarrow>
      (c, ''FLEET:SET_BET_CYCLE'', JObj [(''targetBrowserId'', i), (''isEnabled'', JBool b)]) \<in> set (wire (transport (kp_boundary p'))))"
proof -
  let ?d = "setBetCycle (ke_io env) (ke_msgId env) (js_string (js_get cmd ''traceId'')) False (ke_degraded env) i (JBool b)"
  obtain x p1 where o: "override_in env i [(''betCycleEnabled'', JBool b)] p = (x, p1)" by fastforce
  with assms obtain v where x: "x = Inr v" by (cases x) (auto simp: toggleBetCycleHandler_def Let_def)
  obtain e q where d: "dispatch_in [?d] p1 = (e, q)" by fastforce
  have p': "p' = snd (sync_in env ''TOGGLE_BET_CYCLE'' (JObj [(''accountId'', i), (''enabled'', JBool b)])
      (case e of Some e' \<Rightarrow> out_of_sync env i e' q | None \<Rightarrow> q))"
    using assms o x d by (auto simp: toggleBetCycleHandler_def Let_def split: option.splits)
  have q: "kp_store q = kp_store p1" using dispatch_in_frame(1) [of "[?d]" p1] d by simp
  have cfg: "cs_config (kp_store p') = cs_config (kp_store p1)" by (cases e) (simp_all add: p' frame_simps q)
  have bd: "kp_boundary p' = kp_boundary q" by (cases e) (simp_all add: p' frame_simps)
  from override_in_result [OF o [unfolded x]]
  have ov: "getAccountOverride i (cs_config (kp_store p')) =
      JObj (obj_merge (SecretsGate.spread (getAccountOverride i (cs_config (kp_store p)))) [(''betCycleEnabled'', JBool b)])"
    and b: "kp_boundary p1 = kp_boundary p" by (simp_all add: cfg)
  have "(c, ''FLEET:SET_BET_CYCLE'', JObj [(''targetBrowserId'', i), (''isEnabled'', JBool b)]) \<in> set (wire (transport (kp_boundary p')))"
    if "\<not> ke_degraded env" "isListening (transport (kp_boundary p))" "c \<in> set (reached (ke_io env) (kp_boundary p))"
  proof -
    have "list_all2 (sends (ke_io env)) [?d] [(''FLEET:SET_BET_CYCLE'', JObj [(''targetBrowserId'', i), (''isEnabled'', JBool b)])]"
      using guarded_sends [of "ke_io env" "ke_msgId env"] that(1) by (simp add: setBetCycle_def [abs_def] sends_def)
    from dispatch_all_sends [OF this that(2)] that(3) d b bd show ?thesis
      by (auto simp: dispatch_in_def connected_def reached_def split: prod.splits if_splits)
  qed
  then show ?thesis by (auto simp: account_policy_def enabled_of_policy ov)
qed

definition off_payload :: obj where
  "off_payload = [(''enabled'', JBool False)]"

definition toggled_plane :: config_plane where
  "toggled_plane = snd (toggleBetCycleHandler (sample_config_env (Accepted JUndef)) (sample_config_command off_payload) sample_config_plane)"

theorem toggle_takes_effect_witness:
  "enabled_flag (account_policy (sample_config_env (Accepted JUndef)) (JStr ''a1'') toggled_plane) = JBool False \<and>
   (1, ''FLEET:SET_BET_CYCLE'', JObj [(''targetBrowserId'', JStr ''a1''), (''isEnabled'', JBool False)]) \<in> set (wire (transport (kp_boundary toggled_plane)))"
proof -
  let ?r = "toggleBetCycleHandler (sample_config_env (Accepted JUndef)) (sample_config_command off_payload) sample_config_plane"
  have "\<not> isl (fst ?r)" unfolding handler_succeeds by code_simp
  then have r: "?r = (Inr (projr (fst ?r)), toggled_plane)" unfolding toggled_plane_def by (rule handled)
  have t: "JStr ''a1'' = js_get (sample_config_command off_payload) ''target''"
    "js_get (js_get (sample_config_command off_payload) ''payload'') ''enabled'' = JBool False" by code_simp+
  have "\<not> ke_degraded (sample_config_env (Accepted JUndef))" "isListening (transport (kp_boundary sample_config_plane))"
    "1 \<in> set (reached (ke_io (sample_config_env (Accepted JUndef))) (kp_boundary sample_config_plane))"
    by (simp_all add: sample_config_env_def sample_config_plane_def sample_boundary_def reached_def ExecutionBoundary.sample_io_def)
  with toggle_takes_effect [OF r t, of 1] show ?thesis by simp
qed

text \<open>C31. Accounts with overrides keep their policies through a change of the fleet: when a category changes, every connection
  that can be written receives, after the policy for the whole fleet, the tailored policy of every account
  with a custom category, under its user name.\<close>

theorem tailored_policies_reasserted:
  assumes "updateGlobalConfigHandler env cmd p = (Inr r, p')"
    and "\<not> ke_degraded env" and "isListening (transport (kp_boundary p))" and "c \<in> set (reached (ke_io env) (kp_boundary p))"
    and "a \<in> set (acc_getAll (plane_accounts p'))" and "has_custom (getAccountOverride (obj_get a ''id'') (cs_config (kp_store p')))"
  shows "\<exists>xs. wire (transport (kp_boundary p')) = wire (transport (kp_boundary p)) @
      map (\<lambda>c. (c, policy_message env (js_get (js_get cmd ''payload'') ''category'') (fleet_policy env p') JUndef)) (reached (ke_io env) (kp_boundary p)) @ xs \<and>
    (c, policy_message env JNull (account_policy env (obj_get a ''id'') p') (js_or (obj_get a ''accountUsername'') (obj_get a ''id''))) \<in> set xs"
proof -
  let ?cat = "js_get (js_get cmd ''payload'') ''category''" and ?b = "kp_boundary p"
  from assms(1) obtain n s where u: "config_updateCategory (ke_store env) (js_string ?cat) (js_get (js_get cmd ''payload'') ''values'') None (kp_store p) = (Inr (r, n), s)"
    by (auto simp: updateGlobalConfigHandler_def Let_def split: prod.splits sum.splits)
  let ?full = "buildPolicyDocument (ke_number env) (JObj (getGlobalConfig (cs_config s))) (JObj [])"
  let ?ds = "send_policy env cmd ?cat ?full JUndef # concat (map (tailored_sends env cmd (cs_config s)) (acc_getAll (st_accounts (cs_store s))))"
  have p': "p' = snd (sync_in env ''UPDATE_GLOBAL_CONFIG'' (js_get cmd ''payload'') (snd (dispatch_in ?ds (p\<lparr>kp_store := s\<rparr>))))"
    using assms(1) u by (simp add: updateGlobalConfigHandler_def Let_def)
  have st: "kp_store p' = s" by (simp add: p' frame_simps)
  have conn: "connected (p\<lparr>kp_store := s\<rparr>)" using assms(4) by (auto simp: connected_def reached_def)
  have "list_all2 (sends (ke_io env)) ?ds (policy_message env ?cat ?full JUndef #
      concat (map (tailored_messages env (cs_config s)) (acc_getAll (st_accounts (cs_store s)))))"
    by (intro list.rel_intros(2) send_policy_sends assms(2) tailored_all)
  from dispatch_all_sends [OF this assms(3)] obtain b' where b': "dispatch_all ?ds ?b = (None, b')"
    "wire (transport b') = wire (transport ?b) @ concat (map (\<lambda>m. map (\<lambda>c. (c, m)) (reached (ke_io env) ?b)) (policy_message env ?cat ?full JUndef #
      concat (map (tailored_messages env (cs_config s)) (acc_getAll (st_accounts (cs_store s))))))" by blast
  have bd: "kp_boundary p' = b'" using b'(1) conn by (simp add: p' frame_simps dispatch_in_def)
  have "policy_message env JNull (account_policy env (obj_get a ''id'') p') (js_or (obj_get a ''accountUsername'') (obj_get a ''id''))
      \<in> set (tailored_messages env (cs_config s) a)"
    using assms(6) by (simp add: tailored_messages_def account_policy_def st Let_def)
  moreover have "a \<in> set (acc_getAll (st_accounts (cs_store s)))" using assms(5) by (simp add: plane_accounts_def st)
  ultimately have "(c, policy_message env JNull (account_policy env (obj_get a ''id'') p') (js_or (obj_get a ''accountUsername'') (obj_get a ''id'')))
      \<in> set (concat (map (\<lambda>m. map (\<lambda>c. (c, m)) (reached (ke_io env) ?b)) (concat (map (tailored_messages env (cs_config s)) (acc_getAll (st_accounts (cs_store s)))))))"
    using assms(4) by auto
  then show ?thesis using b'(2) by (auto simp: bd fleet_policy_def st)
qed

definition risk_payload :: obj where
  "risk_payload = [(''category'', JStr ''risk''), (''values'', JObj limit_values)]"

definition changed_plane :: config_plane where
  "changed_plane = snd (updateGlobalConfigHandler (sample_config_env (Accepted JUndef)) (sample_config_command risk_payload) small_plane)"

theorem tailored_policies_reasserted_witness:
  "(1, policy_message (sample_config_env (Accepted JUndef)) JNull (account_policy (sample_config_env (Accepted JUndef)) (JStr ''a1'') changed_plane) (JStr ''joe''))
     \<in> set (wire (transport (kp_boundary changed_plane)))"
proof -
  let ?env = "sample_config_env (Accepted JUndef)" and ?p = small_plane
  let ?r = "updateGlobalConfigHandler ?env (sample_config_command risk_payload) ?p" and ?a = "hd (acc_getAll (plane_accounts changed_plane))"
  have "\<not> isl (fst ?r)" unfolding handler_succeeds by code_simp
  then have r: "?r = (Inr (projr (fst ?r)), changed_plane)" unfolding changed_plane_def by (rule handled)
  have h: "\<not> ke_degraded ?env" "isListening (transport (kp_boundary ?p))" "1 \<in> set (reached (ke_io ?env) (kp_boundary ?p))"
    by (simp_all add: sample_config_env_def small_plane_def sample_boundary_def reached_def ExecutionBoundary.sample_io_def)
  from global_handler_frame [OF r]
  have f: "plane_accounts changed_plane = plane_accounts small_plane" "getAccountOverride (JStr ''a1'') (cs_config (kp_store changed_plane)) = tailored_override"
    by (simp_all add: getAccountOverride_def small_plane_def small_store_def tailored_override_def js_or_def)
  have acc: "acc_getAll (plane_accounts small_plane) = [[(''id'', JStr ''a1''), (''accountUsername'', JStr ''joe'')]]" "has_custom tailored_override" by code_simp+
  then have a: "?a \<in> set (acc_getAll (plane_accounts changed_plane))" "has_custom (getAccountOverride (obj_get ?a ''id'') (cs_config (kp_store changed_plane)))"
    "obj_get ?a ''id'' = JStr ''a1''" "obj_get ?a ''accountUsername'' = JStr ''joe''" by (simp_all add: f acc obj_get_def)
  from tailored_policies_reasserted [OF r h a(1,2)] a(3,4) show ?thesis by (auto simp: js_or_def)
qed

text \<open>A rejection by policy is swallowed: the handlers of account actions report success, and nothing is queued though
  they log that the mutation is in the outbox.\<close>

theorem rejected_action_reported_done:
  assumes "syncMutation (ke_enc env) (ke_sync env) (ke_outboxId env) ''ACCOUNT_ACTION''
      (JObj [(''accountId'', js_get cmd ''target''), (''action'', js_get (js_get cmd ''payload'') ''actionType'')]) (kp_outbox p) = (Inl e, ob)"
  shows "fst (accountActionHandler env cmd p) = Inr (JObj [(''executed'', JBool True)]) \<and>
    outbox (kp_outbox (snd (accountActionHandler env cmd p))) = outbox (kp_outbox p)"
  using assms sync_rejected_outbox [OF assms] by (simp add: accountActionHandler_def sync_in_def)

text \<open>When the backend gives a registered account another id, the credential stays in the vault under the old one.\<close>

lemma remember_other: "i \<noteq> newId \<Longrightarrow> i = JStr n \<Longrightarrow> hasCredential n (kp_vault (remember env newId pw p)) = hasCredential n (kp_vault p)"
  by (auto simp: remember_def storeCredential_def hasCredential_def evictCredential_def update_conv' delete_conv'
      split: jsval.splits option.splits)

lemma upsert_vault: "kp_vault (snd (upsert_in env a p)) = kp_vault p"
  by (simp add: upsert_in_def with_store_def)

theorem renamed_account_keeps_old_credential:
  assumes "obj_get created ''id'' = JStr n" and "newId \<noteq> JStr n" and "hasCredential n (kp_vault p)"
  shows "hasCredential n (kp_vault (snd (rename_account env created newId pw p)))"
proof -
  obtain r q where d: "delete_in env (JStr n) p = (r, q)" by fastforce
  have v: "kp_vault q = kp_vault p" by (rule deleted_account(4) [OF d])
  have k: "kp_vault (stage_in i x) = kp_vault x" for i x by (simp add: stage_in_def)
  show ?thesis using assms remember_other [of "JStr n" newId n env pw] v
    by (cases r) (auto simp: rename_account_def d Let_def upsert_vault k split: prod.splits)
qed

end
