(* ===== verification/AccountRoutes.thy ===== *)
theory AccountRoutes
  imports ConfigCommands SecurityFacade
begin

text \<open>
  The HTTP ingress in front of the state store: the token of the local console and the middleware that asks for it
  (\<^verbatim>\<open>api-server/middleware/auth.mjs\<close>), and the routes that change accounts
  (\<^verbatim>\<open>api-server/routes/accountsRoutes.mjs\<close>) through the repository of \<^verbatim>\<open>repositories/repositoryFactory.mjs\<close>. An answer is its
  status code with the account it shows; messages, broadcasts and the cache file are left out. A token is bytes;
  headers and ids are strings.
\<close>

section \<open>The token of the local console\<close>

record auth_config =
  activeToken :: "string option"
  requireAuth :: bool

text \<open>\<open>pe_token\<close>, \<open>pe_required\<close> and \<open>pe_production\<close> are the environment of the process, \<open>pe_file\<close> the token file where it can
  be read, \<open>pe_random\<close> the token a process draws.\<close>

record process_env =
  pe_token :: string
  pe_required :: string
  pe_production :: bool
  pe_file :: "string option"
  pe_random :: string

definition initial_auth :: "process_env \<Rightarrow> auth_config" where
  "initial_auth pe =
     \<lparr>activeToken = (if pe_token pe \<noteq> [] then Some (pe_token pe) else None),
      requireAuth = (pe_production pe \<or> pe_required pe = ''true'' \<or> pe_token pe \<noteq> [])\<rparr>"

definition saved_token :: "process_env \<Rightarrow> string option" where
  "saved_token pe =
     (case pe_file pe of
        Some f \<Rightarrow> if pe_token pe = [] \<and> length (js_trim f) \<ge> 16 then Some (js_trim f) else None
      | None \<Rightarrow> None)"

text \<open>The configuration, and what is written to the token file.\<close>

definition initIpcToken :: "process_env \<Rightarrow> auth_config \<Rightarrow> auth_config \<times> string option" where
  "initIpcToken pe cfg =
     (case activeToken cfg of
        Some t \<Rightarrow> (cfg\<lparr>requireAuth := (pe_required pe \<noteq> ''false'')\<rparr>, None)
      | None \<Rightarrow>
          let generated = (if pe_token pe \<noteq> [] then pe_token pe else case saved_token pe of Some t \<Rightarrow> t | None \<Rightarrow> ''ipc_'' @ pe_random pe)
          in (\<lparr>activeToken = Some generated, requireAuth = (pe_required pe \<noteq> ''false'')\<rparr>, Some generated))"

definition bearer :: "string \<Rightarrow> string" where
  "bearer t = (if starts_with t ''Bearer '' then js_trim (drop 7 t) else js_trim t)"

definition isValidToken :: "auth_config \<Rightarrow> string \<Rightarrow> bool" where
  "isValidToken cfg t =
     (if \<not> requireAuth cfg then True
      else case activeToken cfg of
             None \<Rightarrow> False
           | Some a \<Rightarrow> t \<noteq> [] \<and> a \<noteq> [] \<and> bearer t = a)"

definition PUBLIC_PATHS :: "string list" where
  "PUBLIC_PATHS = [''/api/v1/system/health'', ''/api/v1/system/ping'', ''/api/v1/system/network-endpoints'', ''/health'', ''/health/'', ''/ping'', ''/ping/'']"

datatype admission = Admitted "string option" | HttpDenied nat

text \<open>An absent header is the empty string.\<close>

definition ingressAuthMiddleware :: "auth_config \<Rightarrow> string \<Rightarrow> string \<Rightarrow> string \<Rightarrow> admission" where
  "ingressAuthMiddleware cfg path authorizationHeader xToken =
     (if \<not> requireAuth cfg then Admitted (Some ''dev-local'')
      else if path \<in> set PUBLIC_PATHS then Admitted None
      else if \<not> isValidToken cfg (if authorizationHeader \<noteq> [] then authorizationHeader else xToken) then HttpDenied 401
      else Admitted (Some ''authenticated-operator''))"

definition requireOperational :: "'b acp \<Rightarrow> admission" where
  "requireOperational w = (if isDegraded w then HttpDenied 503 else Admitted None)"

definition requireCapability :: "string \<Rightarrow> 'b acp \<Rightarrow> admission" where
  "requireCapability capability w =
     (if isDegraded w then HttpDenied 503
      else if status (authorize capability w) \<noteq> ''OPERATIONAL'' then HttpDenied 403
      else Admitted None)"

section \<open>The repository of accounts\<close>

text \<open>A revision that is no natural number matches none.\<close>

definition nat_of_num :: "jsnum \<Rightarrow> nat option" where
  "nat_of_num n = (case n of Fin q \<Rightarrow> let k = nat \<lfloor>q\<rfloor> in if of_nat k = q then Some k else None | _ \<Rightarrow> None)"

definition upsert_at :: "config_env \<Rightarrow> obj \<Rightarrow> jsnum option \<Rightarrow> config_plane \<Rightarrow> (store_error + obj \<times> nat) \<times> config_plane" where
  "upsert_at env a expected p =
     (case expected of
        None \<Rightarrow> upsert_in env a p
      | Some n \<Rightarrow>
          (case nat_of_num n of
             None \<Rightarrow> (Inl (RevisionConflict ''accounts'' 0 (current_revision ''accounts'' (cs_store (kp_store p)))), p)
           | Some k \<Rightarrow> with_store p (accounts_upsert (ke_store env) a (Some k) (cs_store (kp_store p)))))"

definition repo_update :: "config_env \<Rightarrow> string \<Rightarrow> obj \<Rightarrow> jsnum option \<Rightarrow> config_plane \<Rightarrow> (store_error + obj \<times> nat) \<times> config_plane" where
  "repo_update env i updates expected p =
     (let existing = (case acc_getById (JStr i) (plane_accounts p) of Some a \<Rightarrow> a | None \<Rightarrow> [])
      in upsert_at env (obj_merge (obj_merge existing updates) [(''id'', JStr i)]) expected p)"

record bulk_result =
  bk_successful :: nat
  bk_failed :: nat
  bk_errors :: "jsval list"

definition bulk_status :: "string \<Rightarrow> obj option" where
  "bulk_status type =
     (if type = ''BULK_ACTIVATE'' then Some [(''backendState'', JStr ''ACTIVE''), (''presentationCategory'', JStr ''Healthy'')]
      else if type = ''BULK_DEACTIVATE'' then Some [(''backendState'', JStr ''SUSPENDED''), (''presentationCategory'', JStr ''Neutral'')]
      else None)"

fun bulkAction :: "config_env \<Rightarrow> string \<Rightarrow> jsval list \<Rightarrow> bulk_result \<Rightarrow> config_plane \<Rightarrow> (store_error + bulk_result) \<times> config_plane" where
  "bulkAction env type [] r p = (Inr r, p)"
| "bulkAction env type (i # ids) r p =
     (case acc_getById i (plane_accounts p) of
        None \<Rightarrow> bulkAction env type ids (r\<lparr>bk_failed := bk_failed r + 1, bk_errors := bk_errors r @ [i]\<rparr>) p
      | Some acc \<Rightarrow>
          if type = ''BULK_DELETE''
          then (case delete_in env i p of
                  (Inl e, p1) \<Rightarrow> (Inl e, p1)
                | (Inr _, p1) \<Rightarrow> bulkAction env type ids (r\<lparr>bk_successful := bk_successful r + 1\<rparr>) p1)
          else (case bulk_status type of
                  None \<Rightarrow> bulkAction env type ids r p
                | Some st \<Rightarrow>
                    (case upsert_in env (obj_merge acc st) p of
                       (Inl e, p1) \<Rightarrow> (Inl e, p1)
                     | (Inr _, p1) \<Rightarrow> bulkAction env type ids (r\<lparr>bk_successful := bk_successful r + 1\<rparr>) p1)))"

section \<open>The routes\<close>

text \<open>An answer: its code, and the account it shows.\<close>

type_synonym answer = "nat \<times> jsval"

record revision_headers =
  rh_expected :: "string option"
  rh_ifMatch :: string

definition expected_revision :: "config_env \<Rightarrow> revision_headers \<Rightarrow> jsval \<Rightarrow> jsnum option" where
  "expected_revision env h body =
     (case rh_expected h of
        Some v \<Rightarrow> Some (ke_number env (JStr v))
      | None \<Rightarrow>
          if rh_ifMatch h \<noteq> []
          then (let match = js_trim (filter (\<lambda>c. c \<notin> {CHR 0x22, CHR 0x27, CHR ''W'', CHR ''/''}) (rh_ifMatch h)) in
                if match \<noteq> [] \<and> ke_number env (JStr match) \<noteq> NaN then Some (ke_number env (JStr match)) else None)
          else if js_get body ''expectedRevision'' \<notin> {JUndef, JNull} then Some (ke_number env (js_get body ''expectedRevision''))
          else None)"

definition is_conflict :: "store_error \<Rightarrow> bool" where
  "is_conflict e = (case e of RevisionConflict k a b \<Rightarrow> True | _ \<Rightarrow> False)"

definition patchAccount :: "config_env \<Rightarrow> 'b acp \<Rightarrow> string \<Rightarrow> revision_headers \<Rightarrow> jsval \<Rightarrow> config_plane \<Rightarrow> answer \<times> config_plane" where
  "patchAccount env w accountId h body p =
     (if \<not> isCommandPermitted ''UPDATE_ACCOUNT_CREDENTIALS'' w then ((403, JUndef), p)
      else if status (authorize CAP_CONFIG_MODIFY w) \<noteq> ''OPERATIONAL'' then ((403, JUndef), p)
      else if acc_getById (JStr accountId) (plane_accounts p) = None then ((404, JUndef), p)
      else
        let updates = SecretsGate.spread body;
            p1 = remember env (JStr accountId) (obj_get updates ''accountPassword'') p in
        (case repo_update env accountId updates (expected_revision env h body) p1 of
           (Inl e, p2) \<Rightarrow> ((if is_conflict e then 409 else 500, JUndef), p2)
         | (Inr (updated, _), p2) \<Rightarrow>
             ((200, sanitizeAccountForExport (JObj updated)),
              snd (sync_in env ''UPDATE_ACCOUNT_CREDENTIALS'' (JObj (obj_merge [(''accountId'', JStr accountId)] updates)) p2))))"

text \<open>What the action route does once the command was handled.\<close>

definition accountActionDone :: "config_env \<Rightarrow> string \<Rightarrow> string \<Rightarrow> config_plane \<Rightarrow> (store_error + unit) \<times> config_plane" where
  "accountActionDone env type accountId p =
     (if type = ''DELETE_ACCOUNT'' then (case delete_in env (JStr accountId) (unstage_in (JStr accountId) p) of (r, p') \<Rightarrow> (map_sum id (\<lambda>_. ()) r, p'))
      else if type = ''ACTIVATE_ACCOUNT''
      then (case repo_update env accountId [(''backendState'', JStr ''ACTIVE''), (''presentationCategory'', JStr ''Healthy'')] None p of
              (r, p') \<Rightarrow> (map_sum id (\<lambda>_. ()) r, p'))
      else if type = ''DEACTIVATE_ACCOUNT''
      then (case repo_update env accountId [(''backendState'', JStr ''SUSPENDED''), (''presentationCategory'', JStr ''Neutral'')] None
                   (unstage_in (JStr accountId) p) of
              (r, p') \<Rightarrow> (map_sum id (\<lambda>_. ()) r, p'))
      else (Inr (), p))"

definition bulk_mutation :: "string \<Rightarrow> string option" where
  "bulk_mutation type =
     map_of [(''BULK_DELETE'', ''DELETE_ACCOUNT''), (''BULK_ACTIVATE'', ''ACTIVATE_ACCOUNT''), (''BULK_DEACTIVATE'', ''DEACTIVATE_ACCOUNT'')] type"

definition bulkActionDone :: "config_env \<Rightarrow> string \<Rightarrow> jsval list \<Rightarrow> config_plane \<Rightarrow> (store_error + bulk_result) \<times> config_plane" where
  "bulkActionDone env type ids p =
     (case bulkAction env type ids \<lparr>bk_successful = 0, bk_failed = 0, bk_errors = []\<rparr> p of
        (Inl e, p1) \<Rightarrow> (Inl e, p1)
      | (Inr r, p1) \<Rightarrow>
          let p2 = (if type \<in> {''BULK_DELETE'', ''BULK_DEACTIVATE''} then fold unstage_in ids p1 else p1) in
          (Inr r, case bulk_mutation type of
                    None \<Rightarrow> p2
                  | Some m \<Rightarrow> fold (\<lambda>i q. snd (sync_in env ''ACCOUNT_ACTION'' (JObj [(''accountId'', i), (''action'', JStr m)]) q)) ids p2))"

section \<open>Tokens\<close>

lemma trim_idem [simp]: "js_trim (js_trim s) = js_trim s"
proof -
  have d: "dropWhile js_space (rev (dropWhile js_space (rev t))) = rev (dropWhile js_space (rev t))" if "dropWhile js_space t = t" for t :: string
  proof (cases t)
    case (Cons c cs)
    with that have "\<not> js_space c" by (metis dropWhile_eq_Cons_conv)
    then show ?thesis by (simp add: Cons dropWhile_append)
  qed simp
  show ?thesis using d [of "dropWhile js_space s"] by (simp add: js_trim_def)
qed

lemma trim_id: "\<forall>c\<in>set s. \<not> js_space c \<Longrightarrow> js_trim s = s"
proof -
  assume a: "\<forall>c\<in>set s. \<not> js_space c"
  have "dropWhile js_space t = t" if "set t \<subseteq> set s" for t using a that by (cases t) auto
  then show ?thesis by (simp add: js_trim_def)
qed

section \<open>Accounts\<close>

lemma upsert_rejected: "accounts_upsert env account expected s = (Inl e, s') \<Longrightarrow> s' = s"
  by (auto simp: accounts_upsert_def executeGroupTransaction_def write_account_def Let_def split: if_splits prod.splits sum.splits)

lemma with_store_simps [simp]: "fst (with_store p rs) = fst rs" "kp_vault (snd (with_store p rs)) = kp_vault p"
  "cs_store (kp_store (snd (with_store p rs))) = snd rs"
  by (simp_all add: with_store_def)

lemma with_store_same: "with_store p (r, cs_store (kp_store p)) = (r, p)"
  by (simp add: with_store_def)

lemma with_store_rejected:
  assumes "with_store p (accounts_upsert env a expected (cs_store (kp_store p))) = (Inl e, p')"
  shows "p' = p"
proof -
  obtain r s1 where u: "accounts_upsert env a expected (cs_store (kp_store p)) = (r, s1)" by fastforce
  with assms have "r = Inl e" by (simp add: with_store_def)
  with u have "s1 = cs_store (kp_store p)" using upsert_rejected by blast
  with assms u show ?thesis by (simp add: with_store_def)
qed

lemma upsert_at_rejected: "upsert_at env a expected p = (Inl e, p') \<Longrightarrow> p' = p"
  by (auto simp: upsert_at_def upsert_in_def dest: with_store_rejected split: option.splits)

lemma upsert_at_revision:
  "upsert_at env a (Some n) p = (Inr r, p') \<Longrightarrow> n = Fin (of_nat (current_revision ''accounts'' (cs_store (kp_store p))))"
  by (auto simp: upsert_at_def with_store_def nat_of_num_def accounts_upsert_def executeGroupTransaction_def Let_def
      split: option.splits jsnum.splits if_splits)

lemma upsert_at_vault: "kp_vault (snd (upsert_at env a expected p)) = kp_vault p"
  by (auto simp: upsert_at_def upsert_in_def split: option.splits)

lemma remember_frame [simp]: "kp_store (remember env i pw p) = kp_store p" "plane_accounts (remember env i pw p) = plane_accounts p"
  by (simp_all add: remember_def plane_accounts_def)

lemma repo_update_rejected: "repo_update env i updates expected p = (Inl e, p') \<Longrightarrow> p' = p"
  unfolding repo_update_def Let_def by (rule upsert_at_rejected)

lemma repo_update_vault: "kp_vault (snd (repo_update env i updates expected p)) = kp_vault p"
  by (simp add: repo_update_def Let_def upsert_at_vault)

text \<open>What a patch does, by its answer.\<close>

lemma patch_cases:
  assumes "patchAccount env w i h body p = (a, p')"
  obtains (refused) "p' = p" "fst a \<in> {403, 404}"
  | (rejected) e where "p' = remember env (JStr i) (obj_get (SecretsGate.spread body) ''accountPassword'') p" "fst a = (if is_conflict e then 409 else 500)"
      "fst (repo_update env i (SecretsGate.spread body) (expected_revision env h body) p') = Inl e"
  | (updated) r q where "fst a = 200" "isCommandPermitted ''UPDATE_ACCOUNT_CREDENTIALS'' w" "status (authorize CAP_CONFIG_MODIFY w) = ''OPERATIONAL''"
      "repo_update env i (SecretsGate.spread body) (expected_revision env h body)
         (remember env (JStr i) (obj_get (SecretsGate.spread body) ''accountPassword'') p) = (Inr r, q)" "kp_store p' = kp_store q"
proof -
  let ?u = "SecretsGate.spread body"
  let ?p1 = "remember env (JStr i) (obj_get ?u ''accountPassword'') p"
  obtain r q where u: "repo_update env i ?u (expected_revision env h body) ?p1 = (r, q)" by fastforce
  consider "fst a \<in> {403, 404} \<and> p' = p"
    | "isCommandPermitted ''UPDATE_ACCOUNT_CREDENTIALS'' w" "status (authorize CAP_CONFIG_MODIFY w) = ''OPERATIONAL''"
      "acc_getById (JStr i) (plane_accounts p) \<noteq> None"
    using assms by (auto simp: patchAccount_def split: if_splits)
  then show thesis
  proof cases
    case 1
    with refused show thesis by blast
  next
    case 2
    with assms u have run: "(a, p') = (case r of
        Inl e \<Rightarrow> ((if is_conflict e then 409 else 500, JUndef), q)
      | Inr (updated, _) \<Rightarrow> ((200, sanitizeAccountForExport (JObj updated)),
          snd (sync_in env ''UPDATE_ACCOUNT_CREDENTIALS'' (JObj (obj_merge [(''accountId'', JStr i)] ?u)) q)))"
      by (simp add: patchAccount_def Let_def split: sum.splits prod.splits)
    show thesis
    proof (cases r)
      case (Inl e)
      then have "q = ?p1" using u repo_update_rejected by blast
      with Inl run u rejected show thesis by simp
    next
      case (Inr x)
      with run have "fst a = 200" "kp_store p' = kp_store q" by (auto simp: frame_simps split: prod.splits)
      with Inr u 2 updated show thesis by blast
    qed
  qed
qed

section \<open>Results\<close>


definition sample_process :: process_env where
  "sample_process = \<lparr>pe_token = [], pe_required = [], pe_production = True, pe_file = None, pe_random = ''0123456789abcdef''\<rparr>"


text \<open>The token of the console survives a restart: a process without a token in its environment takes the one the process before
  it wrote, which was drawn without spaces or read from the file.\<close>

theorem console_token_survives_restart:
  assumes "pe_token pe = []" and "pe_token pe' = []" and "initIpcToken pe (initial_auth pe) = (cfg, Some f)" and "pe_file pe' = Some f"
    and "\<forall>c\<in>set (pe_random pe). \<not> js_space c" and "length (pe_random pe) \<ge> 12"
  shows "activeToken (fst (initIpcToken pe' (initial_auth pe'))) = activeToken cfg"
proof -
  have f: "f = (case saved_token pe of Some t \<Rightarrow> t | None \<Rightarrow> ''ipc_'' @ pe_random pe)" and c: "activeToken cfg = Some f"
    using assms(1,3) by (auto simp: initIpcToken_def initial_auth_def Let_def)
  have "\<forall>c\<in>set ''ipc_''. \<not> js_space c" by code_simp
  with assms(5) have "js_trim (''ipc_'' @ pe_random pe) = ''ipc_'' @ pe_random pe" by (intro trim_id) auto
  with assms(6) have "js_trim f = f \<and> length f \<ge> 16"
    by (auto simp: f saved_token_def split: option.splits if_splits)
  with assms(2,4) show ?thesis by (simp add: initIpcToken_def initial_auth_def saved_token_def Let_def c)
qed

theorem console_token_survives_restart_witness:
  "activeToken (fst (initIpcToken (sample_process\<lparr>pe_file := Some ''ipc_0123456789abcdef'', pe_random := ''other''\<rparr>)
      (initial_auth (sample_process\<lparr>pe_file := Some ''ipc_0123456789abcdef'', pe_random := ''other''\<rparr>)))) = Some ''ipc_0123456789abcdef''"
proof -
  let ?pe' = "sample_process\<lparr>pe_file := Some ''ipc_0123456789abcdef'', pe_random := ''other''\<rparr>"
  have x: "initIpcToken sample_process (initial_auth sample_process) = (\<lparr>activeToken = Some ''ipc_0123456789abcdef'', requireAuth = True\<rparr>, Some ''ipc_0123456789abcdef'')"
    and pe: "pe_token sample_process = []" "pe_token ?pe' = []" "pe_file ?pe' = Some ''ipc_0123456789abcdef''"
    "\<forall>c\<in>set (pe_random sample_process). \<not> js_space c" "length (pe_random sample_process) \<ge> 12" by code_simp+
  from console_token_survives_restart [OF pe(1,2) x pe(3-5)] show ?thesis by simp
qed

text \<open>The environment can switch authentication off in production, although the configuration starts out requiring it there: then every
  request is admitted.\<close>

theorem production_auth_switched_off:
  assumes "pe_required pe = ''false''" and "pe_production pe"
  shows "requireAuth (initial_auth pe) \<and>
    ingressAuthMiddleware (fst (initIpcToken pe (initial_auth pe))) path authorizationHeader xToken = Admitted (Some ''dev-local'')"
  using assms by (auto simp: initIpcToken_def initial_auth_def ingressAuthMiddleware_def Let_def split: option.splits)

theorem production_auth_switched_off_witness:
  "ingressAuthMiddleware (fst (initIpcToken (sample_process\<lparr>pe_required := ''false''\<rparr>) (initial_auth (sample_process\<lparr>pe_required := ''false''\<rparr>))))
     ''/api/v1/accounts'' [] [] = Admitted (Some ''dev-local'')"
  using production_auth_switched_off [of "sample_process\<lparr>pe_required := ''false''\<rparr>"] by (simp add: sample_process_def)

text \<open>A patch changes accounts only when it is answered with success, outside lockdown and revocation, with the capability to modify the
  configuration, and on the revision the request names, if it names one.\<close>

theorem patch_authorised:
  assumes "patchAccount env w i h body p = (a, p')" and "kp_store p' \<noteq> kp_store p"
  shows "fst a = 200 \<and> getSystemState w \<notin> {REVOKED, COMPROMISED, TAMPER_SUSPECTED} \<and> \<not> isSessionRevokedSync w \<and>
    status (authorize CAP_CONFIG_MODIFY w) = ''OPERATIONAL'' \<and>
    (\<forall>n. expected_revision env h body = Some n \<longrightarrow> n = Fin (of_nat (current_revision ''accounts'' (cs_store (kp_store p)))))"
  using assms(1)
proof (cases rule: patch_cases)
  case (updated r q)
  have "n = Fin (of_nat (current_revision ''accounts'' (cs_store (kp_store p))))" if "expected_revision env h body = Some n" for n
    using updated(4) unfolding that repo_update_def Let_def by (auto dest: upsert_at_revision)
  with updated show ?thesis by (auto simp: isCommandPermitted_def Let_def)
qed (use assms(2) in auto)

definition managing_acp :: "(string \<times> document) acp" where
  "managing_acp = session_acp\<lparr>inMemoryState := Some ((the (inMemoryState session_acp))\<lparr>state := OPERATIONAL,
     authorization := Some \<lparr>authStatus = ''VALID'', capability_set = None\<rparr>\<rparr>)\<rparr>"

definition no_headers :: revision_headers where
  "no_headers = \<lparr>rh_expected = None, rh_ifMatch = []\<rparr>"

abbreviation sample_patch :: "obj \<Rightarrow> answer \<times> config_plane" where
  "sample_patch body \<equiv> patchAccount (sample_config_env (Refused forbidden)) managing_acp ''a1'' no_headers (JObj body) sample_config_plane"

theorem patch_authorised_witness:
  "let r = sample_patch [(''name'', JStr ''Main''), (''expectedRevision'', num 2)] in
   kp_store (snd r) \<noteq> kp_store sample_config_plane \<and> fst (fst r) = 200"
proof -
  let ?r = "sample_patch [(''name'', JStr ''Main''), (''expectedRevision'', num 2)]"
  have ne: "kp_store (snd ?r) \<noteq> kp_store sample_config_plane" by code_simp
  from patch_authorised [OF prod.collapse [symmetric] ne] ne show ?thesis by (simp add: Let_def)
qed

text \<open>A patch answered with a revision conflict has already replaced the password: memory and table are as before, but the vault, which
  the execution plane is given its credentials from, holds the password of the refused request.\<close>

theorem refused_patch_changes_password:
  assumes "patchAccount env w i h (JObj body) p = (a, p')" and "fst a = 409" and "obj_get body ''accountPassword'' = JStr pw"
    and "vault_io_ok (ke_vault env)" and "i \<noteq> []" and "\<not> masked_string pw"
  shows "kp_store p' = kp_store p \<and>
    decryptCredential (ke_vault env) us now (cs_store (kp_store p')) (JStr i) fallback (kp_vault p') = (Inr (JStr pw), kp_vault p')"
  using assms(1)
proof (cases rule: patch_cases)
  case (rejected e)
  have "pw \<noteq> []" using assms(6) by (auto simp: masked_string_def)
  then have v: "kp_vault p' = storeCredential (ke_vault env) (se_now (ke_store env)) (JStr i) (JStr pw) (kp_vault p)"
    by (simp add: rejected(1) remember_def assms(3))
  have st: "kp_store p' = kp_store p" by (simp add: rejected(1))
  have "vault_password (ke_vault env) (JStr i) (kp_vault p') = Some pw" by (simp add: v stored_password [OF assms(4-6)])
  then show ?thesis by (simp add: decryptCredential_def st)
qed (use assms(2) in auto)

theorem refused_patch_changes_password_witness:
  "let r = sample_patch [(''accountPassword'', JStr ''intruder''), (''expectedRevision'', num 7)] in
   fst (fst r) = 409 \<and> kp_store (snd r) = kp_store sample_config_plane \<and>
   fst (decryptCredential sample_vault_io unspell 9 (cs_store (kp_store (snd r))) (JStr ''a1'') JUndef (kp_vault (snd r))) = Inr (JStr ''intruder'')"
proof -
  let ?b = "[(''accountPassword'', JStr ''intruder''), (''expectedRevision'', num 7)]"
  have c: "fst (fst (sample_patch ?b)) = 409" "obj_get ?b ''accountPassword'' = JStr ''intruder''" "\<not> masked_string ''intruder''" by code_simp+
  have io: "vault_io_ok (ke_vault (sample_config_env (Refused forbidden)))" by (simp add: sample_config_env_def vault_io_ok_def sample_vault_io_def)
  have e: "ke_vault (sample_config_env (Refused forbidden)) = sample_vault_io" by (simp add: sample_config_env_def)
  from refused_patch_changes_password [OF prod.collapse [symmetric] c(1,2) io _ c(3), of unspell 9 JUndef] c(1)
  show ?thesis unfolding e by (auto simp: Let_def)
qed

text \<open>The credential of an account outlives it: after the account was deleted through the action route it is in neither memory, table nor
  staging, but the vault still opens its password.\<close>

theorem deleted_account_keeps_credential:
  assumes "accountActionDone env ''DELETE_ACCOUNT'' i p = (r, p')" and "vault_password io (JStr i) (kp_vault p) = Some pw"
  shows "acc_getById (JStr i) (plane_accounts p') = None \<and>
    (\<forall>x\<in>set (st_rows (cs_store (kp_store p'))). \<not> (ar_user x = st_user (cs_store (kp_store p')) \<and> ar_id x = JStr i)) \<and>
    decryptCredential io us now (cs_store (kp_store p')) (JStr i) fallback (kp_vault p') = (Inr (JStr pw), kp_vault p')"
proof -
  obtain q where q: "delete_in env (JStr i) (unstage_in (JStr i) p) = (q, p')"
    using assms(1) by (auto simp: accountActionDone_def split: prod.splits)
  from deleted_account [OF q] assms(2) show ?thesis by (simp add: decryptCredential_def)
qed

definition vaulted_plane :: config_plane where
  "vaulted_plane = remember (sample_config_env (Refused forbidden)) (JStr ''a1'') (JStr ''hunter2'') sample_config_plane"

theorem deleted_account_keeps_credential_witness:
  "let p' = snd (accountActionDone (sample_config_env (Refused forbidden)) ''DELETE_ACCOUNT'' ''a1'' vaulted_plane) in
   acc_getById (JStr ''a1'') (plane_accounts p') = None \<and>
   fst (decryptCredential sample_vault_io unspell 9 (cs_store (kp_store p')) (JStr ''a1'') JUndef (kp_vault p')) = Inr (JStr ''hunter2'')"
proof -
  have v: "vault_password sample_vault_io (JStr ''a1'') (kp_vault vaulted_plane) = Some ''hunter2''" by code_simp
  from deleted_account_keeps_credential [OF prod.collapse [symmetric] v, of "sample_config_env (Refused forbidden)" unspell 9 JUndef]
  show ?thesis by (simp add: Let_def)
qed

lemma delete_in_total:
  "\<exists>x q. delete_in env i p = (Inr x, q) \<and> (\<forall>j. acc_getById j (plane_accounts p) = None \<longrightarrow> acc_getById j (plane_accounts q) = None)"
  by (auto simp: delete_in_def with_store_def accounts_delete_def executeGroupTransaction_def acc_delete_def conflict_def plane_accounts_def
      acc_getById_def Let_def delete_conv')

text \<open>A bulk deletion ends, accounts for every id it was given as a success or a failure, and leaves none of them in memory.\<close>

theorem bulk_delete_complete:
  "\<exists>r' p'. bulkAction env ''BULK_DELETE'' ids r p = (Inr r', p') \<and>
     bk_successful r' + bk_failed r' = bk_successful r + bk_failed r + length ids \<and>
     (\<forall>i. i \<in> set ids \<or> acc_getById i (plane_accounts p) = None \<longrightarrow> acc_getById i (plane_accounts p') = None)"
proof (induction ids arbitrary: r p)
  case (Cons i ids)
  show ?case
  proof (cases "acc_getById i (plane_accounts p)")
    case None
    from Cons.IH [of "r\<lparr>bk_failed := bk_failed r + 1, bk_errors := bk_errors r @ [i]\<rparr>" p] None show ?thesis by auto
  next
    case (Some acc)
    obtain x q where d: "delete_in env i p = (Inr x, q)" and keep: "\<And>j. acc_getById j (plane_accounts p) = None \<Longrightarrow> acc_getById j (plane_accounts q) = None"
      using delete_in_total by blast
    from Cons.IH [of "r\<lparr>bk_successful := bk_successful r + 1\<rparr>" q] Some d keep deleted_account(1) [OF d] show ?thesis by auto
  qed
qed simp

theorem bulk_delete_complete_witness:
  "acc_getById (JStr ''a1'') (plane_accounts sample_config_plane) \<noteq> None \<and>
   acc_getById (JStr ''a1'') (plane_accounts (snd (bulkAction (sample_config_env (Refused forbidden)) ''BULK_DELETE'' [JStr ''zz'', JStr ''a1'']
     \<lparr>bk_successful = 0, bk_failed = 0, bk_errors = []\<rparr> sample_config_plane))) = None"
proof -
  have "acc_getById (JStr ''a1'') (plane_accounts sample_config_plane) \<noteq> None" by code_simp
  with bulk_delete_complete [of "sample_config_env (Refused forbidden)" "[JStr ''zz'', JStr ''a1'']" "\<lparr>bk_successful = 0, bk_failed = 0, bk_errors = []\<rparr>" sample_config_plane]
  show ?thesis by (metis list.set_intros(1) list.set_intros(2) snd_conv)
qed

text \<open>An unknown bulk operation is answered as done although it neither succeeded nor failed on any account that exists.\<close>

theorem unknown_bulk_reported_done:
  assumes "type \<notin> {''BULK_DELETE'', ''BULK_ACTIVATE'', ''BULK_DEACTIVATE''}" and "\<forall>i\<in>set ids. acc_getById i (plane_accounts p) \<noteq> None"
  shows "bulkActionDone env type ids p = (Inr \<lparr>bk_successful = 0, bk_failed = 0, bk_errors = []\<rparr>, p)"
proof -
  have "bulkAction env type ids r p = (Inr r, p)" for r
    using assms(2) assms(1) by (induction ids) (auto simp: bulk_status_def)
  then show ?thesis using assms(1) by (simp add: bulkActionDone_def bulk_mutation_def)
qed

theorem unknown_bulk_reported_done_witness:
  "bulkActionDone (sample_config_env (Refused forbidden)) ''BULK_PAUSE'' [JStr ''a1''] sample_config_plane =
     (Inr \<lparr>bk_successful = 0, bk_failed = 0, bk_errors = []\<rparr>, sample_config_plane)"
proof -
  have "acc_getById (JStr ''a1'') (plane_accounts sample_config_plane) \<noteq> None" by code_simp
  then show ?thesis using unknown_bulk_reported_done [of "''BULK_PAUSE''" "[JStr ''a1'']" sample_config_plane] by simp
qed

end
