(* ===== verification/UserSettings.thy ===== *)
theory UserSettings
  imports AutomationConfig SecurityFacade
begin

text \<open>
  The settings of the operator: the container in memory (\<^verbatim>\<open>state-store/memory/SettingsContainer.mjs\<close>), the table
  (\<^verbatim>\<open>persistence/adapters/SettingsAdapter.mjs\<close>), the settings domain of \<^verbatim>\<open>StateStore.mjs\<close> that writes both, and the
  intents of \<^verbatim>\<open>api-server/routes/settingsRoutes.mjs\<close> with their step-up challenge. Request ids, messages and the
  broadcast of the snapshot, which is the one of the answer, are left out. The conversions SQLite makes for
  the type of a column are parameters.
\<close>

section \<open>Transactions of a consistency group\<close>

definition meta_revision :: "string \<Rightarrow> (string, meta_row) jsmap \<Rightarrow> nat" where
  "meta_revision key m = (case map_of m key of Some r \<Rightarrow> m_revision r | None \<Rightarrow> 1)"

text \<open>\<open>meta\<close> and \<open>set_meta\<close> read and write the revisions of a domain's tables, \<open>rollback s s'\<close> is \<open>s'\<close> with the tables of \<open>s\<close>.\<close>

definition group_transaction ::
  "('s \<Rightarrow> (string, meta_row) jsmap) \<Rightarrow> ((string, meta_row) jsmap \<Rightarrow> 's \<Rightarrow> 's) \<Rightarrow> ('s \<Rightarrow> 's \<Rightarrow> 's) \<Rightarrow> string \<Rightarrow> nat option \<Rightarrow> int
    \<Rightarrow> ('s \<Rightarrow> (config_error + 'r) \<times> 's) \<Rightarrow> 's \<Rightarrow> (config_error + 'r) \<times> 's" where
  "group_transaction meta set_meta rollback key expected now f s =
     (let cur = meta_revision key (meta s) in
      if expected \<noteq> None \<and> expected \<noteq> Some cur then (Inl (StoreError (RevisionConflict key (the expected) cur)), s)
      else case f s of
             (Inl e, s') \<Rightarrow> (Inl e, rollback s s')
           | (Inr r, s') \<Rightarrow> (Inr r, set_meta (metadata_set key None (cur + 1) now (meta s')) s'))"

section \<open>The container\<close>

definition default_profile :: obj where
  "default_profile =
     [(''name'', JStr ''Operator''), (''email'', JStr ''operator@betting-automation.internal''), (''pendingEmail'', JNull), (''avatarUrl'', JNull)]"

definition settings_capabilities :: obj where
  "settings_capabilities =
     [(''canChangeName'', JBool True), (''canChangeEmail'', JBool True), (''canChangePassword'', JBool True), (''canConfigureMFA'', JBool True),
      (''canRevokeSessions'', JBool True), (''canDeleteAccount'', JBool False), (''canCancelDeletion'', JBool False)]"

definition available :: "obj \<Rightarrow> jsval" where
  "available d = JObj [(''status'', JStr ''AVAILABLE''), (''data'', JObj d)]"

definition createDefaultUserSettings :: "string \<Rightarrow> obj" where
  "createDefaultUserSettings u =
     [(''userId'', JStr u), (''profile'', available default_profile),
      (''security'', available [(''accountStatus'', JStr ''ACTIVE''), (''deletionScheduledAt'', JNull), (''mfaEnabled'', JBool False),
         (''activeSessions'', num 1)]),
      (''presentationPreferences'', JObj [(''theme'', JStr ''light''), (''density'', JStr ''comfortable'')]),
      (''notifications'', available [(''emailAlerts'', JBool True), (''pushAlerts'', JBool False), (''weeklyReport'', JBool True)]),
      (''capabilities'', JObj settings_capabilities)]"

record settings =
  sc_user :: string
  sc_settings :: obj
  sc_revision :: nat
  sc_updated :: int

definition new_settings :: "int \<Rightarrow> string \<Rightarrow> settings" where
  "new_settings now u = \<lparr>sc_user = u, sc_settings = createDefaultUserSettings u, sc_revision = 1, sc_updated = now\<rparr>"

definition sc_reset :: "int \<Rightarrow> string \<Rightarrow> settings \<Rightarrow> settings" where
  "sc_reset now u c = c\<lparr>sc_user := u, sc_settings := createDefaultUserSettings u, sc_revision := 1, sc_updated := now\<rparr>"

definition sc_hydrate :: "int \<Rightarrow> jsval \<Rightarrow> nat option \<Rightarrow> settings \<Rightarrow> settings" where
  "sc_hydrate now v revision c =
     c\<lparr>sc_settings := (if truthy v \<and> typeof_object v then spread (json_clone v) else createDefaultUserSettings (sc_user c)),
       sc_revision := (case revision of Some r \<Rightarrow> r | None \<Rightarrow> sc_revision c + 1), sc_updated := now\<rparr>"

definition sc_conflict :: "string \<Rightarrow> nat option \<Rightarrow> settings \<Rightarrow> config_error + unit" where
  "sc_conflict key expected c =
     (case expected of
        Some r \<Rightarrow> if r \<noteq> sc_revision c then Inl (StoreError (RevisionConflict key r (sc_revision c))) else Inr ()
      | None \<Rightarrow> Inr ())"

definition sc_put :: "int \<Rightarrow> string \<Rightarrow> obj \<Rightarrow> settings \<Rightarrow> settings" where
  "sc_put now section v c =
     c\<lparr>sc_settings := AList.update section (JObj v) (sc_settings c), sc_revision := sc_revision c + 1, sc_updated := now\<rparr>"

definition sc_updateProfile :: "int \<Rightarrow> obj \<Rightarrow> nat option \<Rightarrow> settings \<Rightarrow> config_error + settings" where
  "sc_updateProfile now profileData expected c =
     (case sc_conflict ''settings_profile'' expected c of
        Inl e \<Rightarrow> Inl e
      | Inr _ \<Rightarrow>
          let profile = obj_get (sc_settings c) ''profile'' in
          if profile \<in> {JUndef, JNull} then Inl (StoreError StoreTypeError)
          else Inr (sc_put now ''profile''
                 (AList.update ''data'' (JObj (obj_merge (spread (js_get profile ''data'')) profileData)) (spread profile)) c))"

definition sc_updatePresentation :: "int \<Rightarrow> obj \<Rightarrow> nat option \<Rightarrow> settings \<Rightarrow> config_error + settings" where
  "sc_updatePresentation now prefs expected c =
     (case sc_conflict ''settings_presentation'' expected c of
        Inl e \<Rightarrow> Inl e
      | Inr _ \<Rightarrow> Inr (sc_put now ''presentationPreferences''
                   (obj_merge (spread (obj_get (sc_settings c) ''presentationPreferences'')) prefs) c))"

definition sc_updateSecurity :: "int \<Rightarrow> obj \<Rightarrow> nat option \<Rightarrow> settings \<Rightarrow> config_error + settings" where
  "sc_updateSecurity now sec expected c =
     (case sc_conflict ''settings_security'' expected c of
        Inl e \<Rightarrow> Inl e
      | Inr _ \<Rightarrow> Inr (sc_put now ''security'' (obj_merge (spread (obj_get (sc_settings c) ''security'')) sec) c))"

section \<open>The table\<close>

text \<open>\<open>as_text\<close> is the text SQLite stores for a number in a text column, \<open>as_integer\<close> what it stores for a text in an
  integer column.\<close>

record sqlite =
  as_text :: "jsnum \<Rightarrow> string"
  as_integer :: "string \<Rightarrow> jsval"

fun bindable :: "jsval \<Rightarrow> bool" where
  "bindable (JBool b) = False"
| "bindable (JArr xs) = False"
| "bindable (JObj kvs) = False"
| "bindable _ = True"

fun text_column :: "sqlite \<Rightarrow> jsval \<Rightarrow> jsval" where
  "text_column sq (JStr s) = JStr s"
| "text_column sq (JNum n) = (if n = NaN then JNull else JStr (as_text sq n))"
| "text_column sq _ = JNull"

fun integer_column :: "sqlite \<Rightarrow> jsval \<Rightarrow> jsval" where
  "integer_column sq (JStr s) = as_integer sq s"
| "integer_column sq (JNum n) = (if n = NaN then JNull else JNum n)"
| "integer_column sq _ = JNull"

record settings_row =
  sr_name :: jsval
  sr_email :: jsval
  sr_pending_email :: jsval
  sr_avatar_url :: jsval
  sr_mfa :: bool
  sr_sessions :: jsval
  sr_theme :: jsval
  sr_density :: jsval
  sr_email_alerts :: bool
  sr_push_alerts :: bool
  sr_weekly_report :: bool
  sr_updated_at :: int

definition settings_params :: "int \<Rightarrow> obj \<Rightarrow> settings_row" where
  "settings_params now s =
     (let profile = js_get (obj_get s ''profile'') ''data''; security = js_get (obj_get s ''security'') ''data'';
          pres = obj_get s ''presentationPreferences''; notifs = js_get (obj_get s ''notifications'') ''data''
      in \<lparr>sr_name = js_or (js_get profile ''name'') (JStr ''Operator''),
          sr_email = js_or (js_get profile ''email'') (JStr ''operator@betting-automation.internal''),
          sr_pending_email = js_or (js_get profile ''pendingEmail'') JNull, sr_avatar_url = js_or (js_get profile ''avatarUrl'') JNull,
          sr_mfa = truthy (js_get security ''mfaEnabled''), sr_sessions = js_or (js_get security ''activeSessions'') (num 1),
          sr_theme = js_or (js_get pres ''theme'') (JStr ''light''), sr_density = js_or (js_get pres ''density'') (JStr ''comfortable''),
          sr_email_alerts = (js_get notifs ''emailAlerts'' \<noteq> JBool False), sr_push_alerts = truthy (js_get notifs ''pushAlerts''),
          sr_weekly_report = (js_get notifs ''weeklyReport'' \<noteq> JBool False), sr_updated_at = now\<rparr>)"

definition settings_stored :: "sqlite \<Rightarrow> settings_row \<Rightarrow> settings_row" where
  "settings_stored sq r =
     r\<lparr>sr_name := text_column sq (sr_name r), sr_email := text_column sq (sr_email r),
       sr_pending_email := text_column sq (sr_pending_email r), sr_avatar_url := text_column sq (sr_avatar_url r),
       sr_sessions := integer_column sq (sr_sessions r), sr_theme := text_column sq (sr_theme r),
       sr_density := text_column sq (sr_density r)\<rparr>"

definition settings_save :: "sqlite \<Rightarrow> int \<Rightarrow> string \<Rightarrow> obj \<Rightarrow> (string, settings_row) jsmap \<Rightarrow> config_error + (string, settings_row) jsmap" where
  "settings_save sq now u s t =
     (case assertZeroSecrets (JObj s) of
        Inl k \<Rightarrow> Inl (SecretFound k)
      | Inr _ \<Rightarrow>
          let r = settings_params now s in
          if list_all bindable [sr_name r, sr_email r, sr_pending_email r, sr_avatar_url r, sr_sessions r, sr_theme r, sr_density r]
          then Inr (AList.update u (settings_stored sq r) t) else Inl (StoreError SqlFailure))"

definition settings_of_row :: "string \<Rightarrow> settings_row \<Rightarrow> obj" where
  "settings_of_row u r =
     [(''userId'', JStr u),
      (''profile'', available [(''name'', sr_name r), (''email'', sr_email r), (''pendingEmail'', sr_pending_email r), (''avatarUrl'', sr_avatar_url r)]),
      (''security'', available [(''accountStatus'', JStr ''ACTIVE''), (''deletionScheduledAt'', JNull), (''mfaEnabled'', JBool (sr_mfa r)),
         (''activeSessions'', sr_sessions r)]),
      (''presentationPreferences'', JObj [(''theme'', sr_theme r), (''density'', sr_density r)]),
      (''notifications'', available [(''emailAlerts'', JBool (sr_email_alerts r)), (''pushAlerts'', JBool (sr_push_alerts r)),
         (''weeklyReport'', JBool (sr_weekly_report r))]),
      (''capabilities'', JObj settings_capabilities)]"

definition settings_get :: "string \<Rightarrow> (string, settings_row) jsmap \<Rightarrow> obj" where
  "settings_get u t = (case map_of t u of None \<Rightarrow> createDefaultUserSettings u | Some r \<Rightarrow> settings_of_row u r)"

definition settings_deleteForUser :: "string \<Rightarrow> (string, settings_row) jsmap \<Rightarrow> (string, settings_row) jsmap" where
  "settings_deleteForUser u t = AList.delete u t"

section \<open>The settings domain of the store\<close>

record settings_store =
  ss_user :: string
  ss_meta :: "(string, meta_row) jsmap"
  ss_settings :: settings
  ss_rows :: "(string, settings_row) jsmap"

definition ss_rollback :: "settings_store \<Rightarrow> settings_store \<Rightarrow> settings_store" where
  "ss_rollback s s' = s'\<lparr>ss_meta := ss_meta s, ss_rows := ss_rows s\<rparr>"

definition ss_set_meta :: "(string, meta_row) jsmap \<Rightarrow> settings_store \<Rightarrow> settings_store" where
  "ss_set_meta m s = s\<lparr>ss_meta := m\<rparr>"

abbreviation settings_transaction ::
  "nat option \<Rightarrow> int \<Rightarrow> (settings_store \<Rightarrow> (config_error + 'r) \<times> settings_store) \<Rightarrow> settings_store \<Rightarrow> (config_error + 'r) \<times> settings_store" where
  "settings_transaction \<equiv> group_transaction ss_meta ss_set_meta ss_rollback ''settings''"

text \<open>The table is written first, then the container; the answer is the container's snapshot.\<close>

definition write_settings ::
  "sqlite \<Rightarrow> int \<Rightarrow> obj \<Rightarrow> (settings \<Rightarrow> config_error + settings) \<Rightarrow> settings_store \<Rightarrow> (config_error + obj) \<times> settings_store" where
  "write_settings sq now targetSettings update s =
     (case settings_save sq now (ss_user s) targetSettings (ss_rows s) of
        Inl e \<Rightarrow> (Inl e, s)
      | Inr t \<Rightarrow>
          (case update (ss_settings s) of
             Inl e \<Rightarrow> (Inl e, s\<lparr>ss_rows := t\<rparr>)
           | Inr c \<Rightarrow> (Inr (sc_settings c), s\<lparr>ss_rows := t, ss_settings := c\<rparr>)))"

definition with_section :: "string \<Rightarrow> obj \<Rightarrow> obj \<Rightarrow> obj" where
  "with_section section patch current = AList.update section (JObj (obj_merge (spread (obj_get current section)) patch)) current"

definition settings_updateProfile ::
  "sqlite \<Rightarrow> int \<Rightarrow> obj \<Rightarrow> nat option \<Rightarrow> settings_store \<Rightarrow> (config_error + obj) \<times> settings_store" where
  "settings_updateProfile sq now profile expected s =
     settings_transaction expected now
       (\<lambda>s. write_settings sq now (with_section ''profile'' profile (sc_settings (ss_settings s))) (sc_updateProfile now profile None) s) s"

definition settings_updatePresentation ::
  "sqlite \<Rightarrow> int \<Rightarrow> obj \<Rightarrow> nat option \<Rightarrow> settings_store \<Rightarrow> (config_error + obj) \<times> settings_store" where
  "settings_updatePresentation sq now prefs expected s =
     settings_transaction expected now
       (\<lambda>s. write_settings sq now (with_section ''presentation'' prefs (sc_settings (ss_settings s))) (sc_updatePresentation now prefs None) s) s"

definition settings_updateSecurity ::
  "sqlite \<Rightarrow> int \<Rightarrow> obj \<Rightarrow> nat option \<Rightarrow> settings_store \<Rightarrow> (config_error + obj) \<times> settings_store" where
  "settings_updateSecurity sq now sec expected s =
     settings_transaction expected now
       (\<lambda>s. write_settings sq now (with_section ''security'' sec (sc_settings (ss_settings s))) (sc_updateSecurity now sec None) s) s"

definition settings_updatePreferences ::
  "sqlite \<Rightarrow> int \<Rightarrow> obj \<Rightarrow> nat option \<Rightarrow> settings_store \<Rightarrow> (config_error + obj) \<times> settings_store" where
  "settings_updatePreferences sq now prefs expected s = settings_updatePresentation sq now prefs expected s"

text \<open>The start of a process and a logout.\<close>

definition settings_start :: "int \<Rightarrow> settings_store \<Rightarrow> settings_store" where
  "settings_start now s =
     s\<lparr>ss_settings := sc_hydrate now (JObj (settings_get (ss_user s) (ss_rows s))) (Some (meta_revision ''settings'' (ss_meta s)))
                        (new_settings now (ss_user s))\<rparr>"

definition settings_logout :: "int \<Rightarrow> settings_store \<Rightarrow> settings_store" where
  "settings_logout now s =
     s\<lparr>ss_rows := settings_deleteForUser (ss_user s) (ss_rows s), ss_settings := sc_reset now (ss_user s) (ss_settings s)\<rparr>"

section \<open>Settings intents\<close>

definition STEP_UP_REQUIRED :: "jsval list" where
  "STEP_UP_REQUIRED = [JStr ''DELETE_ACCOUNT'', JStr ''UPDATE_PASSWORD'', JStr ''CHANGE_PASSWORD'', JStr ''CHANGE_EMAIL'']"

definition requiresStepUp :: "jsval \<Rightarrow> jsval \<Rightarrow> bool" where
  "requiresStepUp type payload \<longleftrightarrow>
     type \<in> set STEP_UP_REQUIRED \<or> type = JStr ''CONFIGURE_MFA'' \<and> js_get payload ''enabled'' = JBool False"

text \<open>\<^verbatim>\<open>{ ...payload }\<close>, which spreads a string into its characters.\<close>

fun payload_members :: "jsval \<Rightarrow> obj" where
  "payload_members (JStr s) = spread (JArr (map (\<lambda>c. JStr [c]) s))"
| "payload_members v = spread v"

text \<open>The switch of the route: what each intent asks of the settings repository and the section it answers.\<close>

datatype settings_edit = EditProfile obj | EditPresentation obj | EditSecurity obj

definition intent_effect :: "int \<Rightarrow> jsval \<Rightarrow> jsval \<Rightarrow> config_error + settings_edit option \<times> string" where
  "intent_effect now type payload =
     (if type \<in> {JStr ''UPDATE_PROFILE'', JStr ''CHANGE_EMAIL''} \<and> payload = JNull then Inl (StoreError StoreTypeError)
      else Inr
       (if type = JStr ''UPDATE_PROFILE'' then (Some (EditProfile [(''name'', js_get payload ''name'')]), ''PROFILE'')
        else if type = JStr ''CHANGE_EMAIL'' then (Some (EditProfile [(''pendingEmail'', js_get payload ''email'')]), ''PROFILE'')
        else if type = JStr ''UPDATE_NOTIFICATIONS'' then (Some (EditProfile (payload_members payload)), ''NOTIFICATIONS'')
        else if type \<in> {JStr ''UPDATE_PASSWORD'', JStr ''CONFIGURE_MFA'', JStr ''REVOKE_SESSIONS''} then (None, ''SECURITY'')
        else if type = JStr ''DELETE_ACCOUNT''
        then (Some (EditSecurity [(''accountStatus'', JStr ''PENDING_DELETION''), (''deletionScheduledAt'', iso (now + 14 * 86400000))]), ''SECURITY'')
        else if type = JStr ''CANCEL_DELETION''
        then (Some (EditSecurity [(''accountStatus'', JStr ''ACTIVE''), (''deletionScheduledAt'', JNull)]), ''SECURITY'')
        else if type \<in> {JStr ''UPDATE_PRESENTATION'', JStr ''UPDATE_PREFERENCES''}
        then (Some (EditPresentation (payload_members payload)), ''PRESENTATION'')
        else (None, ''PROFILE'')))"

fun edit_settings :: "sqlite \<Rightarrow> int \<Rightarrow> settings_edit \<Rightarrow> nat option \<Rightarrow> settings_store \<Rightarrow> (config_error + obj) \<times> settings_store" where
  "edit_settings sq now (EditProfile p) expected s = settings_updateProfile sq now p expected s"
| "edit_settings sq now (EditPresentation p) expected s = settings_updatePreferences sq now p expected s"
| "edit_settings sq now (EditSecurity p) expected s = settings_updateSecurity sq now p expected s"

definition settings_mirror ::
  "sqlite \<Rightarrow> int \<Rightarrow> jsval \<Rightarrow> jsval \<Rightarrow> settings_store \<Rightarrow> (config_error + string) \<times> settings_store" where
  "settings_mirror sq now type payload s =
     (case intent_effect now type payload of
        Inl e \<Rightarrow> (Inl e, s)
      | Inr (None, section) \<Rightarrow> (Inr section, s)
      | Inr (Some e, section) \<Rightarrow>
          (case edit_settings sq now e None s of (Inl err, s') \<Rightarrow> (Inl err, s') | (Inr v, s') \<Rightarrow> (Inr section, s')))"

text \<open>An answer has a status code, the status of the acknowledgement and the snapshot; \<open>Thrown\<close> is an error that reaches the
  framework. \<open>backend\<close> answers what is submitted to it or fails.\<close>

datatype intent_answer =
    Answer nat jsval "obj option"
  | Thrown config_error

definition intent_fields :: "jsval \<Rightarrow> jsval \<times> jsval \<times> jsval" where
  "intent_fields body =
     (js_get body ''type'', (if js_get body ''payload'' = JUndef then JObj [] else js_get body ''payload''), js_get body ''stepUpSecret'')"

definition step_up ::
  "(obj \<Rightarrow> string + jsval) \<Rightarrow> bool \<Rightarrow> jsval \<Rightarrow> jsval \<Rightarrow> jsval \<Rightarrow> intent_answer option \<times> obj list" where
  "step_up backend loggedIn type payload stepUpSecret =
     (let providedSecret = js_or stepUpSecret (js_or (js_get payload ''currentPassword'') JNull);
          intent = [(''type'', type), (''payload'', payload), (''stepUpSecret'', providedSecret)]
      in if \<not> truthy providedSecret then (Some (Answer 200 (JStr ''REQUIRES_STEP_UP'') None), [])
         else if \<not> loggedIn then (Some (Answer 403 (JStr ''CHALLENGE_FAILED'') None), [])
         else case backend intent of
                Inl e \<Rightarrow> (Some (Answer 403 (JStr ''CHALLENGE_FAILED'') None), [intent])
              | Inr ack \<Rightarrow>
                  if js_get ack ''status'' \<notin> {JStr ''ACCEPTED'', JStr ''APPLIED''}
                  then (Some (Answer 403 (js_or (js_get ack ''status'') (JStr ''CHALLENGE_FAILED'')) None), [intent])
                  else (None, [intent]))"

definition settings_intent ::
  "(obj \<Rightarrow> string + jsval) \<Rightarrow> bool \<Rightarrow> sqlite \<Rightarrow> int \<Rightarrow> 'b acp \<Rightarrow> jsval \<Rightarrow> settings_store \<Rightarrow> intent_answer \<times> obj list \<times> settings_store" where
  "settings_intent backend loggedIn sq now w body s =
     (case intent_fields body of
        (type, payload, stepUpSecret) \<Rightarrow>
          if \<not> isCommandPermitted ''SETTINGS_INTENT'' w then (Answer 403 (JStr ''REJECTED'') None, [], s)
          else if \<not> truthy type then (Answer 400 (JStr ''REJECTED'') None, [], s)
          else
            (case (if requiresStepUp type payload then step_up backend loggedIn type payload stepUpSecret
                   else (None, if loggedIn then [[(''type'', type), (''payload'', payload)]] else [])) of
               (Some a, sent) \<Rightarrow> (a, sent, s)
             | (None, sent) \<Rightarrow>
                 (case settings_mirror sq now type payload s of
                    (Inl e, s') \<Rightarrow> (Thrown e, sent, s')
                  | (Inr section, s') \<Rightarrow> (Answer 200 (JStr ''ACCEPTED'') (Some (sc_settings (ss_settings s'))), sent, s'))))"

section \<open>Edits of a consistency group\<close>

definition group_commit ::
  "('s \<Rightarrow> (string, meta_row) jsmap) \<Rightarrow> ((string, meta_row) jsmap \<Rightarrow> 's \<Rightarrow> 's) \<Rightarrow> ('s \<Rightarrow> 's \<Rightarrow> 's) \<Rightarrow> string \<Rightarrow> int
    \<Rightarrow> ('w \<Rightarrow> 's \<Rightarrow> (config_error + 'r) \<times> 's) \<Rightarrow> 'w \<Rightarrow> nat \<Rightarrow> 's \<Rightarrow> 's option" where
  "group_commit meta set_meta rollback key now mutate w e s =
     (case group_transaction meta set_meta rollback key (Some e) now (mutate w) s of (Inr r, s') \<Rightarrow> Some s' | (Inl err, s') \<Rightarrow> None)"

lemma group_cases:
  assumes "group_transaction meta set_meta rollback key expected now f s = (r, s')"
  obtains (stale) e where "r = Inl e" "s' = s"
  | (failed) e s1 where "f s = (Inl e, s1)" "r = Inl e" "s' = rollback s s1"
  | (committed) v s1 where "f s = (Inr v, s1)" "r = Inr v" "expected = None \<or> expected = Some (meta_revision key (meta s))"
      "s' = set_meta (metadata_set key None (Suc (meta_revision key (meta s))) now (meta s1)) s1"
proof (cases "expected \<noteq> None \<and> expected \<noteq> Some (meta_revision key (meta s))")
  case True
  with assms stale show ?thesis by (auto simp: group_transaction_def)
next
  case False
  obtain x s1 where f: "f s = (x, s1)" by fastforce
  have "(r, s') = (case x of Inl e \<Rightarrow> (Inl e, rollback s s1)
      | Inr v \<Rightarrow> (Inr v, set_meta (metadata_set key None (Suc (meta_revision key (meta s))) now (meta s1)) s1))"
    unfolding assms [symmetric] group_transaction_def Let_def if_not_P [OF False] by (simp add: f split: sum.split)
  with False f failed committed show ?thesis by (cases x) auto
qed

lemma meta_revision_set [simp]: "meta_revision key (metadata_set key etag n now m) = n"
  by (simp add: meta_revision_def metadata_set_def update_conv')

text \<open>The domain of a consistency group: its tables roll back and its revisions read as written.\<close>

locale group_store =
  fixes meta :: "'s \<Rightarrow> (string, meta_row) jsmap"
    and set_meta :: "(string, meta_row) jsmap \<Rightarrow> 's \<Rightarrow> 's"
    and rollback :: "'s \<Rightarrow> 's \<Rightarrow> 's"
    and mutate :: "'w \<Rightarrow> 's \<Rightarrow> (config_error + 'r) \<times> 's"
  assumes meta_set: "meta (set_meta m s) = m"
    and undone: "mutate w s = (Inl e, s') \<Longrightarrow> rollback s s' = s"
begin

lemma rejected_unchanged: "group_transaction meta set_meta rollback key expected now (mutate w) s = (Inl e, s') \<Longrightarrow> s' = s"
  by (erule group_cases) (auto simp: undone)

lemma stale_refused: "e \<noteq> meta_revision key (meta s) \<Longrightarrow> group_commit meta set_meta rollback key now mutate w e s = None"
  by (simp add: group_commit_def group_transaction_def)

lemma commit_bumps:
  "group_commit meta set_meta rollback key now mutate w e s = Some s' \<Longrightarrow> meta_revision key (meta s') = Suc (meta_revision key (meta s))"
  by (auto simp: group_commit_def meta_set split: prod.splits sum.splits elim!: group_cases)

end

sublocale group_store \<subseteq> occ: occ_store "\<lambda>s. meta_revision key (meta s)" "group_commit meta set_meta rollback key now mutate" for key and now
  by unfold_locales (auto simp: stale_refused commit_bumps)

section \<open>Edits of the settings\<close>

fun edit_target :: "settings_edit \<Rightarrow> obj \<Rightarrow> obj" where
  "edit_target (EditProfile p) cur = with_section ''profile'' p cur"
| "edit_target (EditPresentation p) cur = with_section ''presentation'' p cur"
| "edit_target (EditSecurity p) cur = with_section ''security'' p cur"

fun edit_container :: "int \<Rightarrow> settings_edit \<Rightarrow> settings \<Rightarrow> config_error + settings" where
  "edit_container now (EditProfile p) c = sc_updateProfile now p None c"
| "edit_container now (EditPresentation p) c = sc_updatePresentation now p None c"
| "edit_container now (EditSecurity p) c = sc_updateSecurity now p None c"

definition edit_write :: "sqlite \<Rightarrow> int \<Rightarrow> settings_edit \<Rightarrow> settings_store \<Rightarrow> (config_error + obj) \<times> settings_store" where
  "edit_write sq now e s = write_settings sq now (edit_target e (sc_settings (ss_settings s))) (edit_container now e) s"

lemma edit_settings_transaction: "edit_settings sq now e expected s = settings_transaction expected now (edit_write sq now e) s"
proof -
  have "edit_container now e = (\<lambda>c. edit_container now e c)" "edit_write sq now e = (\<lambda>s. edit_write sq now e s)" by simp_all
  then show ?thesis
    by (cases e) (simp_all add: settings_updateProfile_def settings_updatePresentation_def settings_updateSecurity_def
        settings_updatePreferences_def edit_write_def)
qed

lemma edit_write_failed: "edit_write sq now e s = (Inl err, s') \<Longrightarrow> ss_rollback s s' = s"
  by (auto simp: edit_write_def write_settings_def ss_rollback_def split: sum.splits)

interpretation settings_group: group_store ss_meta ss_set_meta ss_rollback "edit_write sq now" for sq and now
  by unfold_locales (auto simp: ss_set_meta_def edit_write_failed)

lemma edit_rejected: "edit_settings sq now e expected s = (Inl err, s') \<Longrightarrow> s' = s"
  unfolding edit_settings_transaction by (rule settings_group.rejected_unchanged)

lemma edit_accepted:
  assumes "edit_settings sq now e expected s = (Inr v, s')"
  obtains t c where "settings_save sq now (ss_user s) (edit_target e (sc_settings (ss_settings s))) (ss_rows s) = Inr t"
    "edit_container now e (ss_settings s) = Inr c" "ss_rows s' = t" "ss_settings s' = c" "ss_user s' = ss_user s"
  using assms unfolding edit_settings_transaction
  by (auto simp: edit_write_def write_settings_def ss_set_meta_def split: sum.splits elim!: group_cases)

text \<open>An intent changes the store by one accepted edit, or not at all.\<close>

lemma mirror_cases:
  assumes "settings_mirror sq now type payload s = (r, s')"
  obtains (none) "s' = s" "\<not> isl r \<Longrightarrow> \<exists>sec. intent_effect now type payload = Inr (None, sec)"
  | (edit) e sec v where "intent_effect now type payload = Inr (Some e, sec)" "edit_settings sq now e None s = (Inr v, s')" "r = Inr sec"
  using assms edit_rejected
  by (auto simp: settings_mirror_def simp del: edit_settings.simps split: sum.splits prod.splits option.splits)

section \<open>What an edit leaves on disk\<close>

fun edit_members :: "settings_edit \<Rightarrow> obj" where
  "edit_members (EditProfile p) = p"
| "edit_members (EditPresentation p) = p"
| "edit_members (EditSecurity p) = p"

definition plain_edit :: "settings_edit \<Rightarrow> bool" where
  "plain_edit e \<longleftrightarrow> ''data'' \<notin> set (map fst (edit_members e))"

lemma merge_other: "k \<notin> set (map fst over) \<Longrightarrow> obj_get (obj_merge base over) k = obj_get base k"
  by (induction over arbitrary: base) auto

lemma js_get_spread: "\<not> is_array v \<Longrightarrow> obj_get (spread v) k = js_get v k"
  by (cases v) (auto simp: obj_get_def)

lemma target_data: "''data'' \<notin> set (map fst patch) \<Longrightarrow> \<not> is_array (obj_get cur section) \<Longrightarrow>
   js_get (obj_get (with_section section patch cur) k) ''data'' = js_get (obj_get cur k) ''data''"
  by (simp add: with_section_def merge_other js_get_spread)

lemma target_other: "k \<noteq> section \<Longrightarrow> obj_get (with_section section patch cur) k = obj_get cur k"
  by (simp add: with_section_def)

definition sections_ok :: "obj \<Rightarrow> bool" where
  "sections_ok s \<longleftrightarrow> \<not> is_array (obj_get s ''profile'') \<and> \<not> is_array (obj_get s ''security'')"

lemma target_params: "plain_edit e \<Longrightarrow> sections_ok cur \<Longrightarrow> settings_params now (edit_target e cur) = settings_params now cur"
  by (cases e) (auto simp: settings_params_def plain_edit_def sections_ok_def target_data target_other)

lemma saved_row: "settings_save sq now u x t = Inr t' \<Longrightarrow> map_of t' u = Some (settings_stored sq (settings_params now x))"
  by (auto simp: settings_save_def Let_def update_conv' split: sum.splits if_splits)

lemma edit_saves_previous:
  assumes "edit_settings sq now e expected s = (Inr v, s')" and "plain_edit e" and "sections_ok (sc_settings (ss_settings s))"
  shows "map_of (ss_rows s') (ss_user s') = Some (settings_stored sq (settings_params now (sc_settings (ss_settings s))))"
  using assms(1) by (rule edit_accepted) (auto simp: target_params [OF assms(2,3)] dest: saved_row)

text \<open>Rows whose columns read back as they were written.\<close>

definition text_ok :: "jsval \<Rightarrow> bool" where
  "text_ok v \<longleftrightarrow> (case v of JStr s \<Rightarrow> s \<noteq> [] | _ \<Rightarrow> False)"

definition settings_row_ok :: "settings_row \<Rightarrow> bool" where
  "settings_row_ok r \<longleftrightarrow> list_all text_ok [sr_name r, sr_email r, sr_theme r, sr_density r] \<and>
     (sr_pending_email r = JNull \<or> text_ok (sr_pending_email r)) \<and> (sr_avatar_url r = JNull \<or> text_ok (sr_avatar_url r)) \<and>
     (case sr_sessions r of JNum (Fin q) \<Rightarrow> q \<noteq> 0 | _ \<Rightarrow> False)"

lemma text_okE: "text_ok v \<Longrightarrow> \<exists>x. v = JStr x \<and> x \<noteq> []"
  by (cases v) (auto simp: text_ok_def)

lemma row_reads_back: "settings_row_ok r \<Longrightarrow> settings_params now (settings_of_row u r) = r\<lparr>sr_updated_at := now\<rparr>"
  by (cases r) (auto simp: settings_params_def settings_of_row_def available_def settings_row_ok_def obj_get_def js_or_def
      dest!: text_okE split: jsval.splits jsnum.splits)

lemma row_stored: "settings_row_ok r \<Longrightarrow> settings_stored sq r = r"
  by (cases r) (auto simp: settings_stored_def settings_row_ok_def dest!: text_okE split: jsval.splits jsnum.splits)

lemma row_json: "settings_row_ok r \<Longrightarrow> json_members (settings_of_row u r) = settings_of_row u r"
  by (cases r) (auto simp: settings_of_row_def available_def settings_capabilities_def settings_row_ok_def
      dest!: text_okE split: jsval.splits jsnum.splits)

definition default_row :: "int \<Rightarrow> settings_row" where
  "default_row now = settings_params now (createDefaultUserSettings [])"

lemma default_row_ok: "settings_row_ok (default_row now)" "createDefaultUserSettings u = settings_of_row u (default_row now)"
  by (simp_all add: default_row_def settings_params_def createDefaultUserSettings_def available_def default_profile_def obj_get_def
      js_or_def settings_row_ok_def text_ok_def settings_of_row_def)

lemma row_ok_updated [simp]: "settings_row_ok (r\<lparr>sr_updated_at := now\<rparr>) = settings_row_ok r"
  "settings_of_row u (r\<lparr>sr_updated_at := now\<rparr>) = settings_of_row u r"
  by (simp_all add: settings_row_ok_def settings_of_row_def)

lemma row_sections: "sections_ok (settings_of_row u r)"
  by (simp add: sections_ok_def settings_of_row_def available_def obj_get_def)

lemma started_settings:
  "map_of (ss_rows s) (ss_user s) = Some r \<Longrightarrow> settings_row_ok r \<Longrightarrow> sc_settings (ss_settings (settings_start now s)) = settings_of_row (ss_user s) r"
  by (simp add: settings_start_def sc_hydrate_def settings_get_def row_json)

lemma started_default:
  "map_of (ss_rows s) (ss_user s) = None \<Longrightarrow> sc_settings (ss_settings (settings_start now s)) = createDefaultUserSettings (ss_user s)"
  by (simp add: settings_start_def sc_hydrate_def settings_get_def default_row_ok(2) [of _ 0] row_json [OF default_row_ok(1)])

definition first_row :: "settings_store \<Rightarrow> settings_row" where
  "first_row s = (case map_of (ss_rows s) (ss_user s) of Some r \<Rightarrow> r | None \<Rightarrow> default_row 0)"

lemma started:
  "settings_row_ok (first_row s) \<Longrightarrow> sc_settings (ss_settings (settings_start now s)) = settings_of_row (ss_user s) (first_row s)"
  by (auto simp: first_row_def started_settings started_default default_row_ok(2) [of _ 0] split: option.splits)

section \<open>Results\<close>

text \<open>The first edit after the start of a process is undone by the next start: an edit writes the table from the settings before
  it, since the profile and security members are merged beside the \<^verbatim>\<open>data\<close> the adapter reads and preferences under
  \<^verbatim>\<open>presentation\<close>, which it does not read.\<close>

theorem settings_edit_undone:
  assumes "edit_settings sq now e expected (settings_start t0 s) = (Inr v, s')" and "plain_edit e" and "settings_row_ok (first_row s)"
  shows "sc_settings (ss_settings (settings_start t1 s')) = sc_settings (ss_settings (settings_start t0 s))"
proof -
  let ?r = "first_row s"
  have start: "sc_settings (ss_settings (settings_start t0 s)) = settings_of_row (ss_user s) ?r" using assms(3) by (rule started)
  have user: "ss_user s' = ss_user s" using assms(1) by (rule edit_accepted) (simp add: settings_start_def)
  have "map_of (ss_rows s') (ss_user s') = Some (settings_stored sq (settings_params now (settings_of_row (ss_user s) ?r)))"
    using edit_saves_previous [OF assms(1,2)] by (simp add: start row_sections)
  then have "map_of (ss_rows s') (ss_user s') = Some (?r\<lparr>sr_updated_at := now\<rparr>)"
    using assms(3) by (simp add: row_reads_back row_stored)
  then show ?thesis using assms(3) by (simp add: started_settings start user)
qed

definition sample_sqlite :: sqlite where
  "sample_sqlite = \<lparr>as_text = (\<lambda>n. ''1''), as_integer = (\<lambda>s. num 1)\<rparr>"

definition sample_settings :: settings_store where
  "sample_settings = \<lparr>ss_user = ''usr'', ss_meta = [], ss_settings = new_settings 0 ''usr'', ss_rows = []\<rparr>"

definition dark_theme :: settings_edit where
  "dark_theme = EditPresentation [(''theme'', JStr ''dark'')]"

theorem settings_edit_undone_witness:
  "let s = settings_start 1 sample_settings; s' = snd (edit_settings sample_sqlite 2 dark_theme None s) in
   js_get (obj_get (sc_settings (ss_settings s')) ''presentationPreferences'') ''theme'' = JStr ''dark'' \<and>
   sc_settings (ss_settings (settings_start 3 s')) = sc_settings (ss_settings s)"
proof -
  let ?x = "edit_settings sample_sqlite 2 dark_theme None (settings_start 1 sample_settings)"
  have ok: "\<not> isl (fst ?x)" "plain_edit dark_theme" "settings_row_ok (first_row sample_settings)"
    "js_get (obj_get (sc_settings (ss_settings (snd ?x))) ''presentationPreferences'') ''theme'' = JStr ''dark''" by code_simp+
  then have "?x = (Inr (projr (fst ?x)), snd ?x)" by (metis prod.collapse sum.collapse(2))
  from settings_edit_undone [OF this ok(2,3)] ok(4) show ?thesis by (simp add: Let_def)
qed

text \<open>A passed challenge: a secret was given and the backend accepted it for the intent.\<close>

definition challenge_passed :: "(obj \<Rightarrow> string + jsval) \<Rightarrow> bool \<Rightarrow> jsval \<Rightarrow> jsval \<Rightarrow> jsval \<Rightarrow> bool" where
  "challenge_passed backend loggedIn type payload stepUpSecret \<longleftrightarrow>
     loggedIn \<and> (\<exists>secret ack. truthy secret \<and> secret \<in> {stepUpSecret, js_get payload ''currentPassword''} \<and>
       backend [(''type'', type), (''payload'', payload), (''stepUpSecret'', secret)] = Inr ack \<and>
       js_get ack ''status'' \<in> {JStr ''ACCEPTED'', JStr ''APPLIED''})"

lemma step_up_passed: "step_up backend loggedIn type payload stepUpSecret = (None, sent) \<Longrightarrow> challenge_passed backend loggedIn type payload stepUpSecret"
  by (auto simp: step_up_def challenge_passed_def Let_def js_or_def split: if_splits sum.splits)

lemma mirror_rejected: "settings_mirror sq now type payload s = (Inl e, s') \<Longrightarrow> s' = s"
  by (erule mirror_cases) auto

lemma intent_accepted:
  assumes "settings_intent backend loggedIn sq now w body s = (a, sent, s')" and "intent_fields body = (type, payload, stepUpSecret)"
    and "s' \<noteq> s \<or> a = Answer 200 (JStr ''ACCEPTED'') v"
  obtains sec where "isCommandPermitted ''SETTINGS_INTENT'' w" "settings_mirror sq now type payload s = (Inr sec, s')"
    "a = Answer 200 (JStr ''ACCEPTED'') (Some (sc_settings (ss_settings s')))"
    "requiresStepUp type payload \<Longrightarrow> challenge_passed backend loggedIn type payload stepUpSecret"
proof -
  let ?gate = "if requiresStepUp type payload then step_up backend loggedIn type payload stepUpSecret
     else (None, if loggedIn then [[(''type'', type), (''payload'', payload)]] else [])"
  obtain g snt where gate: "?gate = (g, snt)" by fastforce
  have refused: "a \<noteq> Answer 200 (JStr ''ACCEPTED'') v" if "g = Some a"
    using gate that by (auto simp: step_up_def Let_def js_or_def split: if_splits sum.splits)
  have perm: "isCommandPermitted ''SETTINGS_INTENT'' w" "truthy type"
    using assms by (auto simp: settings_intent_def split: if_splits)
  have run: "(a, sent, s') = (case g of Some a \<Rightarrow> (a, snt, s) | None \<Rightarrow>
      (case settings_mirror sq now type payload s of
         (Inl e, s') \<Rightarrow> (Thrown e, snt, s')
       | (Inr section, s') \<Rightarrow> (Answer 200 (JStr ''ACCEPTED'') (Some (sc_settings (ss_settings s'))), snt, s')))"
    using assms(1) perm by (simp add: settings_intent_def assms(2) gate cong: if_cong split: option.splits)
  then have "g = None" using refused assms(3) by (cases g) auto
  moreover obtain m s1 where m: "settings_mirror sq now type payload s = (m, s1)" by fastforce
  ultimately obtain sec where "m = Inr sec" "s' = s1" "a = Answer 200 (JStr ''ACCEPTED'') (Some (sc_settings (ss_settings s')))"
    using run assms(3) mirror_rejected by (cases m) fastforce+
  moreover have "requiresStepUp type payload \<Longrightarrow> challenge_passed backend loggedIn type payload stepUpSecret"
    using gate \<open>g = None\<close> step_up_passed by simp
  ultimately show thesis using that perm m by blast
qed


lemma profile_put:
  "sc_updateProfile now p None c = Inr c' \<Longrightarrow> sc_settings c' = AList.update ''profile'' (JObj (AList.update ''data''
     (JObj (obj_merge (spread (js_get (obj_get (sc_settings c) ''profile'') ''data'')) p)) (spread (obj_get (sc_settings c) ''profile'')))) (sc_settings c)"
  by (auto simp: sc_updateProfile_def sc_conflict_def sc_put_def Let_def split: if_splits)

lemma security_put:
  "sc_updateSecurity now p None c = Inr c' \<Longrightarrow>
   sc_settings c' = AList.update ''security'' (JObj (obj_merge (spread (obj_get (sc_settings c) ''security'')) p)) (sc_settings c)"
  by (auto simp: sc_updateSecurity_def sc_conflict_def sc_put_def)

text \<open>Any request can replace the e-mail address of the profile without a challenge: the notifications intent merges its whole payload
  into the profile, while the notification preferences it names stay as they are.\<close>

theorem email_without_step_up:
  assumes "settings_intent backend loggedIn sq now w body s = (Answer 200 (JStr ''ACCEPTED'') v, sent, s')"
    and "intent_fields body = (JStr ''UPDATE_NOTIFICATIONS'', JObj p, stepUpSecret)" and "distinct (map fst p)" and "(''email'', m) \<in> set p"
  shows "\<not> requiresStepUp (JStr ''UPDATE_NOTIFICATIONS'') (JObj p) \<and>
    js_get (js_get (obj_get (sc_settings (ss_settings s')) ''profile'') ''data'') ''email'' = m \<and>
    obj_get (sc_settings (ss_settings s')) ''notifications'' = obj_get (sc_settings (ss_settings s)) ''notifications''"
proof -
  from intent_accepted [OF assms(1,2)] obtain sec where "settings_mirror sq now (JStr ''UPDATE_NOTIFICATIONS'') (JObj p) s = (Inr sec, s')" by blast
  then obtain v where "edit_settings sq now (EditProfile p) None s = (Inr v, s')"
    by (rule mirror_cases) (auto simp: intent_effect_def simp del: edit_settings.simps)
  then have c: "sc_updateProfile now p None (ss_settings s) = Inr (ss_settings s')" by (rule edit_accepted) simp
  have "''email'' \<in> set (map fst p)" "obj_get p ''email'' = m" using assms(3,4) by (force simp: obj_get_def)+
  then show ?thesis
    by (simp add: profile_put [OF c] obj_get_merge [OF assms(3)] requiresStepUp_def STEP_UP_REQUIRED_def)
qed

text \<open>An accepted request to delete the account leaves the account status and deletion date that the settings show as they were: they
  are written beside the section's data.\<close>

theorem deletion_not_shown:
  assumes "settings_intent backend loggedIn sq now w body s = (Answer 200 (JStr ''ACCEPTED'') v, sent, s')"
    and "intent_fields body = (JStr ''DELETE_ACCOUNT'', payload, stepUpSecret)" and "sections_ok (sc_settings (ss_settings s))"
  shows "js_get (obj_get (sc_settings (ss_settings s')) ''security'') ''data'' = js_get (obj_get (sc_settings (ss_settings s)) ''security'') ''data''"
proof -
  let ?p = "[(''accountStatus'', JStr ''PENDING_DELETION''), (''deletionScheduledAt'', iso (now + 14 * 86400000))]"
  from intent_accepted [OF assms(1,2)] obtain sec where "settings_mirror sq now (JStr ''DELETE_ACCOUNT'') payload s = (Inr sec, s')" by blast
  then obtain v where "edit_settings sq now (EditSecurity ?p) None s = (Inr v, s')"
    by (rule mirror_cases) (auto simp: intent_effect_def simp del: edit_settings.simps)
  then have c: "sc_updateSecurity now ?p None (ss_settings s) = Inr (ss_settings s')" by (rule edit_accepted) simp
  show ?thesis using assms(3) by (simp add: security_put [OF c] sections_ok_def js_get_spread)
qed

definition sample_backend :: "obj \<Rightarrow> string + jsval" where
  "sample_backend i = Inr (JObj [(''status'', JStr (if obj_get i ''stepUpSecret'' = JStr ''pw'' then ''APPLIED'' else ''CHALLENGE_FAILED''))])"

definition intent :: "string \<Rightarrow> obj \<Rightarrow> obj \<Rightarrow> jsval" where
  "intent type payload rest = JObj ([(''type'', JStr type), (''payload'', JObj payload)] @ rest)"

abbreviation sample_intent :: "jsval \<Rightarrow> intent_answer \<times> obj list \<times> settings_store" where
  "sample_intent body \<equiv> settings_intent sample_backend True sample_sqlite 5 session_acp body sample_settings"


theorem email_without_step_up_witness:
  "js_get (js_get (obj_get (sc_settings (ss_settings (snd (snd (sample_intent (intent ''UPDATE_NOTIFICATIONS'' [(''email'', JStr ''x@y'')] [])))))) ''profile'') ''data'') ''email''
   = JStr ''x@y''"
proof -
  let ?b = "intent ''UPDATE_NOTIFICATIONS'' [(''email'', JStr ''x@y'')] []"
  have "fst (sample_intent ?b) = Answer 200 (JStr ''ACCEPTED'') (Some (sc_settings (ss_settings (snd (snd (sample_intent ?b))))))" by code_simp
  then have x: "sample_intent ?b = (Answer 200 (JStr ''ACCEPTED'') (Some (sc_settings (ss_settings (snd (snd (sample_intent ?b)))))),
      fst (snd (sample_intent ?b)), snd (snd (sample_intent ?b)))" by (metis prod.collapse)
  have f: "intent_fields ?b = (JStr ''UPDATE_NOTIFICATIONS'', JObj [(''email'', JStr ''x@y'')], JUndef)" by code_simp
  from email_without_step_up [OF x f, of "JStr ''x@y''"] show ?thesis by simp
qed

theorem deletion_not_shown_witness:
  "js_get (js_get (obj_get (sc_settings (ss_settings (snd (snd (sample_intent (intent ''DELETE_ACCOUNT'' [] [(''stepUpSecret'', JStr ''pw'')])))))) ''security'') ''data'') ''accountStatus''
   = JStr ''ACTIVE''"
proof -
  let ?b = "intent ''DELETE_ACCOUNT'' [] [(''stepUpSecret'', JStr ''pw'')]"
  have "fst (sample_intent ?b) = Answer 200 (JStr ''ACCEPTED'') (Some (sc_settings (ss_settings (snd (snd (sample_intent ?b))))))" by code_simp
  then have x: "sample_intent ?b = (Answer 200 (JStr ''ACCEPTED'') (Some (sc_settings (ss_settings (snd (snd (sample_intent ?b)))))),
      fst (snd (sample_intent ?b)), snd (snd (sample_intent ?b)))" by (metis prod.collapse)
  have f: "intent_fields ?b = (JStr ''DELETE_ACCOUNT'', JObj [], JStr ''pw'')" and ok: "sections_ok (sc_settings (ss_settings sample_settings))"
    and old: "js_get (js_get (obj_get (sc_settings (ss_settings sample_settings)) ''security'') ''data'') ''accountStatus'' = JStr ''ACTIVE''" by code_simp+
  show ?thesis unfolding deletion_not_shown [OF x f ok] by (rule old)
qed

text \<open>Over every sequence of settings edits, the accepted ones were made on consecutive revisions: an edit based on settings that
  have changed since is refused.\<close>

theorem no_lost_settings_edit:
  assumes "occ_run (group_commit ss_meta ss_set_meta ss_rollback ''settings'' now (edit_write sq now)) edits s = (vs, t)"
  shows "vs = [meta_revision ''settings'' (ss_meta s) ..< meta_revision ''settings'' (ss_meta s) + length vs] \<and>
    meta_revision ''settings'' (ss_meta t) = meta_revision ''settings'' (ss_meta s) + length vs"
  using assms by (rule settings_group.occ.run_versions)

theorem no_lost_settings_edit_witness:
  "fst (occ_run (group_commit ss_meta ss_set_meta ss_rollback ''settings'' 5 (edit_write sample_sqlite 5))
     [(dark_theme, 1), (dark_theme, 1), (dark_theme, 2)] sample_settings) = [1, 2]"
proof -
  let ?run = "occ_run (group_commit ss_meta ss_set_meta ss_rollback ''settings'' 5 (edit_write sample_sqlite 5))
     [(dark_theme, 1), (dark_theme, 1), (dark_theme, 2)] sample_settings"
  have n: "length (fst ?run) = 2" "meta_revision ''settings'' (ss_meta sample_settings) = 1" by code_simp+
  have "fst ?run = [1 ..< 1 + 2]" using no_lost_settings_edit [OF prod.collapse [symmetric, of ?run]] unfolding n by blast
  also have "\<dots> = [1, 2]" by code_simp
  finally show ?thesis .
qed

end
