(* ===== verification/Billing.thy ===== *)
theory Billing
  imports UserSettings SyncEvents
begin

text \<open>
  Subscription and invoices: the container in memory (\<^verbatim>\<open>state-store/memory/BillingContainer.mjs\<close>), the tables
  (\<^verbatim>\<open>persistence/adapters/BillingAdapter.mjs\<close>), the billing domain of \<^verbatim>\<open>StateStore.mjs\<close>, the adapter through which the
  synchronisation replaces the snapshot (\<^verbatim>\<open>repositories/repositoryFactory.mjs\<close>) and the checkout, cancel and resume
  routes (\<^verbatim>\<open>api-server/routes/billingRoutes.mjs\<close>). Dates are times, also in date columns; a column that holds JSON
  text is the value it was printed from; invoices are objects. Broadcasts and answers' messages are left out.
\<close>

section \<open>The container\<close>

definition createDefaultSubscriptionSnapshot :: "string \<Rightarrow> obj" where
  "createDefaultSubscriptionSnapshot u =
     [(''userId'', JStr u), (''currentPlan'', JStr ''None''), (''currentPlanId'', JNull), (''price'', num 0), (''currency'', JStr ''NGN''),
      (''currencySymbol'', naira), (''status'', JStr ''Payment_Required''), (''billingInterval'', JStr ''Monthly''),
      (''renewalDate'', JNull), (''expirationDate'', JNull),
      (''entitlements'', JObj [(''maxAccounts'', num 0), (''maxConcurrentBrowsers'', num 0), (''allowedPlatformIds'', JArr []),
         (''stealthAntidetectEnabled'', JBool False), (''priorityScanning'', JBool False)]),
      (''availableActions'', JArr [JStr ''SUBSCRIBE'', JStr ''CHANGE_PLAN'', JStr ''UPDATE_PAYMENT'']), (''notices'', JArr [])]"

record billing =
  bc_user :: string
  bc_subscription :: obj
  bc_invoices :: "(jsval, jsval) jsmap"
  bc_revision :: nat
  bc_updated :: int
  bc_stale :: bool

definition new_billing :: "int \<Rightarrow> string \<Rightarrow> billing" where
  "new_billing now u = \<lparr>bc_user = u, bc_subscription = createDefaultSubscriptionSnapshot u, bc_invoices = [], bc_revision = 1,
     bc_updated = now, bc_stale = False\<rparr>"

definition bc_reset :: "int \<Rightarrow> string \<Rightarrow> billing \<Rightarrow> billing" where
  "bc_reset now u c = c\<lparr>bc_user := u, bc_subscription := createDefaultSubscriptionSnapshot u, bc_invoices := [], bc_revision := 1,
     bc_updated := now, bc_stale := False\<rparr>"

definition validateSubscription :: "jsval \<Rightarrow> config_error + unit" where
  "validateSubscription sub =
     (if \<not> truthy sub \<or> \<not> typeof_object sub then Inl (StoreError (ValidationError ''not an object''))
      else if \<not> truthy (js_get sub ''status'') \<or> \<not> is_string (js_get sub ''status'') then Inl (StoreError (ValidationError ''status''))
      else if \<not> truthy (js_get sub ''planId'') \<and> \<not> truthy (js_get sub ''currentPlanId'') \<and> \<not> truthy (js_get sub ''plan_id'') \<and>
              js_get sub ''status'' \<noteq> JStr ''Payment_Required'' then Inl (StoreError (ValidationError ''planId''))
      else Inr ())"

definition invoice_key :: "obj \<Rightarrow> jsval" where
  "invoice_key bill = js_or (obj_get bill ''id'') (obj_get bill ''reference'')"

definition put_invoice :: "obj \<Rightarrow> (jsval, jsval) jsmap \<Rightarrow> (jsval, jsval) jsmap" where
  "put_invoice bill m = AList.update (invoice_key bill) (JObj (json_members bill)) m"

definition bc_filled :: "int \<Rightarrow> obj \<Rightarrow> obj list \<Rightarrow> nat option \<Rightarrow> billing \<Rightarrow> billing" where
  "bc_filled now sub invoicesList revision c =
     c\<lparr>bc_subscription := sub, bc_invoices := fold put_invoice invoicesList [],
       bc_revision := (case revision of Some r \<Rightarrow> r | None \<Rightarrow> bc_revision c + 1), bc_updated := now, bc_stale := False\<rparr>"

definition bc_hydrate :: "int \<Rightarrow> jsval \<Rightarrow> obj list \<Rightarrow> nat option \<Rightarrow> billing \<Rightarrow> config_error + billing" where
  "bc_hydrate now subscription invoicesList revision c =
     (if truthy subscription \<and> typeof_object subscription
      then (case validateSubscription subscription of
              Inl e \<Rightarrow> Inl e
            | Inr _ \<Rightarrow> Inr (bc_filled now (spread (json_clone subscription)) invoicesList revision c))
      else Inr (bc_filled now (createDefaultSubscriptionSnapshot (bc_user c)) invoicesList revision c))"

text \<open>\<open>by_date\<close> is the sort by date, newest first.\<close>

definition bc_getInvoices :: "(jsval list \<Rightarrow> jsval list) \<Rightarrow> billing \<Rightarrow> jsval list" where
  "bc_getInvoices by_date c = by_date (map snd (bc_invoices c))"

definition bc_conflict :: "nat option \<Rightarrow> billing \<Rightarrow> config_error + unit" where
  "bc_conflict expected c =
     (case expected of
        Some r \<Rightarrow> if r \<noteq> bc_revision c then Inl (StoreError (RevisionConflict ''subscription'' r (bc_revision c))) else Inr ()
      | None \<Rightarrow> Inr ())"

definition bc_updateSubscription :: "int \<Rightarrow> obj \<Rightarrow> nat option \<Rightarrow> billing \<Rightarrow> config_error + billing" where
  "bc_updateSubscription now updates expected c =
     (case bc_conflict expected c of
        Inl e \<Rightarrow> Inl e
      | Inr _ \<Rightarrow>
          let updated = AList.update ''lastUpdated'' (iso now) (obj_merge (bc_subscription c) updates) in
          (case validateSubscription (JObj updated) of
             Inl e \<Rightarrow> Inl e
           | Inr _ \<Rightarrow> Inr (c\<lparr>bc_subscription := updated, bc_revision := bc_revision c + 1, bc_updated := now, bc_stale := False\<rparr>)))"

definition bc_addInvoice :: "int \<Rightarrow> obj \<Rightarrow> billing \<Rightarrow> billing" where
  "bc_addInvoice now invoice c =
     c\<lparr>bc_invoices := put_invoice invoice (bc_invoices c), bc_revision := bc_revision c + 1, bc_updated := now\<rparr>"

definition bc_markStale :: "billing \<Rightarrow> billing" where
  "bc_markStale c = c\<lparr>bc_stale := True\<rparr>"

section \<open>The table of subscriptions\<close>

record subscription_row =
  su_plan :: jsval
  su_status :: jsval
  su_interval :: jsval
  su_renewal :: jsval
  su_expiration :: jsval
  su_entitlements :: jsval
  su_actions :: jsval
  su_notices :: jsval
  su_cached :: int

definition subscription_params :: "int \<Rightarrow> jsval \<Rightarrow> subscription_row" where
  "subscription_params now sub =
     \<lparr>su_plan = js_or (js_get sub ''planId'') (js_or (js_get sub ''currentPlanId'') (JStr ''starter'')),
      su_status = js_or (js_get sub ''status'') (JStr ''Active''), su_interval = js_or (js_get sub ''billingInterval'') (JStr ''Monthly''),
      su_renewal = js_or (js_get sub ''renewalDate'') JNull, su_expiration = js_or (js_get sub ''expirationDate'') JNull,
      su_entitlements = json_clone (js_or (js_get sub ''entitlements'') (JObj [])),
      su_actions = json_clone (js_or (js_get sub ''availableActions'') (JArr [])),
      su_notices = json_clone (js_or (js_get sub ''notices'') (JArr [])), su_cached = now\<rparr>"

definition subscription_stored :: "sqlite \<Rightarrow> subscription_row \<Rightarrow> subscription_row" where
  "subscription_stored sq r =
     r\<lparr>su_plan := text_column sq (su_plan r), su_status := text_column sq (su_status r), su_interval := text_column sq (su_interval r)\<rparr>"

definition saveSubscription ::
  "sqlite \<Rightarrow> int \<Rightarrow> string \<Rightarrow> jsval \<Rightarrow> (string, subscription_row) jsmap \<Rightarrow> config_error + (string, subscription_row) jsmap" where
  "saveSubscription sq now u sub t =
     (case assertZeroSecrets sub of
        Inl k \<Rightarrow> Inl (SecretFound k)
      | Inr _ \<Rightarrow>
          let r = subscription_params now sub in
          if list_all bindable [su_plan r, su_status r, su_interval r, su_renewal r, su_expiration r]
          then Inr (AList.update u (subscription_stored sq r) t) else Inl (StoreError SqlFailure))"

definition upper_char :: "char \<Rightarrow> char" where
  "upper_char c = (let n = of_char c :: nat in if 97 \<le> n \<and> n \<le> 122 then char_of (n - 32) else c)"

fun plan_name :: "jsval \<Rightarrow> jsval" where
  "plan_name (JStr (c # cs)) = JStr (upper_char c # cs)"
| "plan_name v = v"

definition subscription_of_row :: "string \<Rightarrow> subscription_row \<Rightarrow> obj" where
  "subscription_of_row u r =
     [(''userId'', JStr u), (''currentPlanId'', su_plan r), (''currentPlan'', plan_name (su_plan r)), (''status'', su_status r),
      (''billingInterval'', su_interval r), (''renewalDate'', su_renewal r), (''expirationDate'', su_expiration r),
      (''entitlements'', su_entitlements r), (''availableActions'', su_actions r), (''notices'', su_notices r), (''cachedAt'', iso (su_cached r))]"

definition getSubscription :: "string \<Rightarrow> (string, subscription_row) jsmap \<Rightarrow> obj" where
  "getSubscription u t = (case map_of t u of None \<Rightarrow> createDefaultSubscriptionSnapshot u | Some r \<Rightarrow> subscription_of_row u r)"

section \<open>The table of invoices\<close>

record invoice_row =
  iv_id :: jsval
  iv_user :: string
  iv_reference :: jsval
  iv_date :: jsval
  iv_amount :: jsnum
  iv_status :: jsval
  iv_plan :: jsval
  iv_interval :: jsval
  iv_receipt :: jsval
  iv_subtotal :: jsval
  iv_tax :: jsval
  iv_rate :: jsval
  iv_currency :: jsval
  iv_symbol :: jsval
  iv_cached :: int

definition real_column :: "(jsval \<Rightarrow> jsnum) \<Rightarrow> jsval \<Rightarrow> jsval" where
  "real_column to_num v = (if v = JUndef \<or> to_num v = NaN then JNull else JNum (to_num v))"

definition invoice_params :: "(jsval \<Rightarrow> jsnum) \<Rightarrow> int \<Rightarrow> string \<Rightarrow> obj \<Rightarrow> invoice_row" where
  "invoice_params to_num now u bill =
     \<lparr>iv_id = js_or (obj_get bill ''id'') (JStr (''inv_'' @ dec_string (nat now))), iv_user = u, iv_reference = obj_get bill ''reference'',
      iv_date = js_or (obj_get bill ''date'') (iso now),
      iv_amount = (let n = to_num (obj_get bill ''amount'') in if n = NaN then Fin 0 else n),
      iv_status = js_or (obj_get bill ''status'') (JStr ''Paid''), iv_plan = js_or (obj_get bill ''planName'') JNull,
      iv_interval = js_or (obj_get bill ''billingInterval'') JNull, iv_receipt = js_or (obj_get bill ''receiptUrl'') JNull,
      iv_subtotal = real_column to_num (obj_get bill ''subtotal''), iv_tax = real_column to_num (obj_get bill ''taxAmount''),
      iv_rate = real_column to_num (obj_get bill ''taxRate''), iv_currency = js_or (obj_get bill ''currency'') (JStr ''NGN''),
      iv_symbol = js_or (obj_get bill ''currencySymbol'') naira, iv_cached = now\<rparr>"

definition invoice_stored :: "sqlite \<Rightarrow> invoice_row \<Rightarrow> invoice_row" where
  "invoice_stored sq r =
     r\<lparr>iv_id := text_column sq (iv_id r), iv_reference := text_column sq (iv_reference r), iv_status := text_column sq (iv_status r),
       iv_plan := text_column sq (iv_plan r), iv_interval := text_column sq (iv_interval r), iv_receipt := text_column sq (iv_receipt r),
       iv_currency := text_column sq (iv_currency r), iv_symbol := text_column sq (iv_symbol r)\<rparr>"

text \<open>A reference is unique and not null; an invoice that meets its id keeps the user of the row.\<close>

definition saveInvoice ::
  "(jsval \<Rightarrow> jsnum) \<Rightarrow> sqlite \<Rightarrow> int \<Rightarrow> string \<Rightarrow> obj \<Rightarrow> invoice_row list \<Rightarrow> config_error + invoice_row list" where
  "saveInvoice to_num sq now u bill t =
     (case assertZeroSecrets (JObj bill) of
        Inl k \<Rightarrow> Inl (SecretFound k)
      | Inr _ \<Rightarrow>
          let p = invoice_params to_num now u bill; r = invoice_stored sq p in
          if \<not> list_all bindable [iv_id p, iv_reference p, iv_date p, iv_status p, iv_plan p, iv_interval p, iv_receipt p, iv_currency p, iv_symbol p]
             \<or> iv_reference r = JNull \<or> (\<exists>x\<in>set t. iv_id x \<noteq> iv_id r \<and> iv_reference x = iv_reference r)
          then Inl (StoreError SqlFailure)
          else Inr (if \<exists>x\<in>set t. iv_id x = iv_id r then map (\<lambda>x. if iv_id x = iv_id r then r\<lparr>iv_user := iv_user x\<rparr> else x) t else t @ [r]))"

definition invoice_of_row :: "invoice_row \<Rightarrow> obj" where
  "invoice_of_row r =
     [(''id'', iv_id r), (''userId'', JStr (iv_user r)), (''reference'', iv_reference r), (''date'', iv_date r), (''amount'', JNum (iv_amount r)),
      (''status'', iv_status r), (''planName'', iv_plan r), (''billingInterval'', iv_interval r), (''receiptUrl'', iv_receipt r),
      (''subtotal'', iv_subtotal r), (''taxAmount'', iv_tax r), (''taxRate'', iv_rate r), (''currency'', iv_currency r),
      (''currencySymbol'', iv_symbol r), (''cachedAt'', iso (iv_cached r))]"

text \<open>\<open>newest\<close> is SQLite's order by date, newest first.\<close>

definition listInvoices :: "(invoice_row list \<Rightarrow> invoice_row list) \<Rightarrow> string \<Rightarrow> nat \<Rightarrow> invoice_row list \<Rightarrow> obj list" where
  "listInvoices newest u limit t = map invoice_of_row (take limit (newest (filter (\<lambda>r. iv_user r = u) t)))"

section \<open>The billing domain of the store\<close>

record billing_store =
  bl_user :: string
  bl_meta :: "(string, meta_row) jsmap"
  bl_billing :: billing
  bl_subscriptions :: "(string, subscription_row) jsmap"
  bl_invoices :: "invoice_row list"

record billing_env =
  be_sqlite :: sqlite
  be_number :: "jsval \<Rightarrow> jsnum"
  be_now :: int

definition bl_rollback :: "billing_store \<Rightarrow> billing_store \<Rightarrow> billing_store" where
  "bl_rollback s s' = s'\<lparr>bl_meta := bl_meta s, bl_subscriptions := bl_subscriptions s, bl_invoices := bl_invoices s\<rparr>"

definition bl_set_meta :: "(string, meta_row) jsmap \<Rightarrow> billing_store \<Rightarrow> billing_store" where
  "bl_set_meta m s = s\<lparr>bl_meta := m\<rparr>"

datatype billing_edit = EditSubscription obj | AddInvoice obj

fun billing_write :: "billing_env \<Rightarrow> billing_edit \<Rightarrow> billing_store \<Rightarrow> (config_error + obj) \<times> billing_store" where
  "billing_write env (EditSubscription updates) s =
     (let targetSub = obj_merge (bc_subscription (bl_billing s)) updates in
      case saveSubscription (be_sqlite env) (be_now env) (bl_user s) (JObj targetSub) (bl_subscriptions s) of
        Inl e \<Rightarrow> (Inl e, s)
      | Inr t \<Rightarrow>
          (case bc_updateSubscription (be_now env) updates None (bl_billing s) of
             Inl e \<Rightarrow> (Inl e, s\<lparr>bl_subscriptions := t\<rparr>)
           | Inr c \<Rightarrow> (Inr (bc_subscription c), s\<lparr>bl_subscriptions := t, bl_billing := c\<rparr>)))"
| "billing_write env (AddInvoice invoice) s =
     (case saveInvoice (be_number env) (be_sqlite env) (be_now env) (bl_user s) invoice (bl_invoices s) of
        Inl e \<Rightarrow> (Inl e, s)
      | Inr t \<Rightarrow> (Inr invoice, s\<lparr>bl_invoices := t, bl_billing := bc_addInvoice (be_now env) invoice (bl_billing s)\<rparr>))"

definition billing_transaction :: "billing_env \<Rightarrow> nat option \<Rightarrow> billing_edit \<Rightarrow> billing_store \<Rightarrow> (config_error + obj) \<times> billing_store" where
  "billing_transaction env expected e s =
     group_transaction bl_meta bl_set_meta bl_rollback ''billing'' expected (be_now env) (billing_write env e) s"

definition billing_updateSubscription :: "billing_env \<Rightarrow> obj \<Rightarrow> nat option \<Rightarrow> billing_store \<Rightarrow> (config_error + obj) \<times> billing_store" where
  "billing_updateSubscription env updates expected s = billing_transaction env expected (EditSubscription updates) s"

definition billing_addInvoice :: "billing_env \<Rightarrow> obj \<Rightarrow> billing_store \<Rightarrow> (config_error + obj) \<times> billing_store" where
  "billing_addInvoice env invoice s = billing_transaction env None (AddInvoice invoice) s"

text \<open>The start of a process: a snapshot last validated more than two hours ago is stale.\<close>

definition billing_start :: "(invoice_row list \<Rightarrow> invoice_row list) \<Rightarrow> int \<Rightarrow> billing_store \<Rightarrow> billing_store" where
  "billing_start newest now s =
     (let meta = map_of (bl_meta s) ''billing''; c0 = new_billing now (bl_user s) in
      s\<lparr>bl_billing :=
          (case bc_hydrate now (JObj (getSubscription (bl_user s) (bl_subscriptions s))) (listInvoices newest (bl_user s) 50 (bl_invoices s))
                  (Some (meta_revision ''billing'' (bl_meta s))) c0 of
             Inl e \<Rightarrow> bc_reset now (bl_user s) c0
           | Inr c \<Rightarrow>
               (case meta of
                  Some m \<Rightarrow> if \<not> isSubscriptionWithinGracePeriod now (DateAt (m_validated m)) None then bc_markStale c else c
                | None \<Rightarrow> c))\<rparr>)"

definition billing_logout :: "int \<Rightarrow> billing_store \<Rightarrow> billing_store" where
  "billing_logout now s =
     s\<lparr>bl_subscriptions := AList.delete (bl_user s) (bl_subscriptions s), bl_invoices := filter (\<lambda>r. iv_user r \<noteq> bl_user s) (bl_invoices s),
       bl_billing := bc_reset now (bl_user s) (bl_billing s)\<rparr>"

section \<open>Synchronisation\<close>

fun save_invoices :: "billing_env \<Rightarrow> string \<Rightarrow> obj list \<Rightarrow> invoice_row list \<Rightarrow> bool \<times> invoice_row list" where
  "save_invoices env u [] t = (True, t)"
| "save_invoices env u (bill # bills) t =
     (case saveInvoice (be_number env) (be_sqlite env) (be_now env) u bill t of
        Inl e \<Rightarrow> (False, t)
      | Inr t' \<Rightarrow> save_invoices env u bills t')"

text \<open>What a synchronisation does with a snapshot it received: errors of the tables are swallowed, what was written before stays.\<close>

definition save_snapshot :: "billing_env \<Rightarrow> jsval \<Rightarrow> obj list \<Rightarrow> billing_store \<Rightarrow> billing_store" where
  "save_snapshot env sub bills s =
     (case saveSubscription (be_sqlite env) (be_now env) (bl_user s) sub (bl_subscriptions s) of
        Inl e \<Rightarrow> s
      | Inr t \<Rightarrow>
          (case save_invoices env (bl_user s) bills (bl_invoices s) of
             (False, ti) \<Rightarrow> s\<lparr>bl_subscriptions := t, bl_invoices := ti\<rparr>
           | (True, ti) \<Rightarrow> s\<lparr>bl_subscriptions := t, bl_invoices := ti, bl_meta := metadata_set ''billing'' None 1 (be_now env) (bl_meta s)\<rparr>))"

definition repo_hydrate_billing :: "billing_env \<Rightarrow> jsval \<Rightarrow> obj list \<Rightarrow> billing_store \<Rightarrow> config_error option \<times> billing_store" where
  "repo_hydrate_billing env sub bills s =
     (if \<not> truthy sub then (None, s)
      else case bc_hydrate (be_now env) sub bills None (bl_billing s) of
             Inl e \<Rightarrow> (Some e, s)
           | Inr c \<Rightarrow> (None, save_snapshot env sub bills (s\<lparr>bl_billing := c\<rparr>)))"

section \<open>Checkout, cancel and resume\<close>

definition default_grants :: "jsval list" where
  "default_grants = [JStr ''CAP_AUTOMATION_START'', JStr ''CAP_AUTOMATION_STOP'', JStr ''CAP_FILE_UPLOAD'', JStr ''CAP_TACTICAL_BET'', JStr ''CAP_CASH_OUT'']"

text \<open>The capabilities and the license with which a verified checkout establishes the session.\<close>

datatype checkout =
    CheckoutFailed
  | NotVerified obj
  | Promoted "jsval list" jsval obj

definition checkout_caps :: "jsval \<Rightarrow> jsval list" where
  "checkout_caps verifyRes = (case js_get verifyRes ''capabilities'' of JArr (c # cs) \<Rightarrow> c # cs | _ \<Rightarrow> default_grants)"

definition invoice_list :: "jsval \<Rightarrow> obj list" where
  "invoice_list v = (case v of JArr xs \<Rightarrow> map spread xs | _ \<Rightarrow> [])"

definition hydrate_verified :: "billing_env \<Rightarrow> jsval \<Rightarrow> billing_store \<Rightarrow> config_error option \<times> billing_store" where
  "hydrate_verified env verifyRes s =
     (let snapshot = js_get verifyRes ''snapshot'' in
      if truthy snapshot then repo_hydrate_billing env snapshot (invoice_list (js_get snapshot ''invoices'')) s else (None, s))"

definition verify_checkout :: "billing_env \<Rightarrow> string + jsval \<Rightarrow> billing_store \<Rightarrow> checkout \<times> billing_store" where
  "verify_checkout env reply s =
     (case reply of
        Inl e \<Rightarrow> (CheckoutFailed, s)
      | Inr verifyRes \<Rightarrow>
          (case hydrate_verified env verifyRes s of
             (Some e, s') \<Rightarrow> (CheckoutFailed, s')
           | (None, s') \<Rightarrow>
               let snapshot = bc_subscription (bl_billing s') in
               (if \<not> truthy verifyRes \<or> js_get verifyRes ''verified'' = JBool False then (NotVerified snapshot, s')
                else (Promoted (checkout_caps verifyRes) (js_or (js_get verifyRes ''license'') (JObj [(''status'', JStr ''VALID'')])) snapshot, s'))))"

definition cancel_subscription :: "billing_env \<Rightarrow> string + jsval \<Rightarrow> billing_store \<Rightarrow> jsval option \<times> billing_store" where
  "cancel_subscription env reply s =
     (case reply of
        Inl e \<Rightarrow> (None, s)
      | Inr cancelRes \<Rightarrow>
          let expirationDate = js_or (js_get cancelRes ''expirationDate'') (iso (be_now env + 15 * 86400000)) in
          (case billing_updateSubscription env [(''status'', JStr ''Cancelled''), (''expirationDate'', expirationDate)] None s of
             (Inl e, s') \<Rightarrow> (None, s')
           | (Inr v, s') \<Rightarrow> (Some expirationDate, s')))"

definition resume_subscription :: "billing_env \<Rightarrow> string + jsval \<Rightarrow> billing_store \<Rightarrow> jsval option \<times> billing_store" where
  "resume_subscription env reply s =
     (case reply of
        Inl e \<Rightarrow> (None, s)
      | Inr resumeRes \<Rightarrow>
          let renewalDate = js_or (js_get resumeRes ''renewalDate'') (iso (be_now env + 30 * 86400000)) in
          (case billing_updateSubscription env [(''status'', JStr ''Active''), (''renewalDate'', renewalDate)] None s of
             (Inl e, s') \<Rightarrow> (None, s')
           | (Inr v, s') \<Rightarrow> (Some renewalDate, s')))"

section \<open>Valid subscriptions\<close>

definition valid_subscription :: "obj \<Rightarrow> bool" where
  "valid_subscription sub \<longleftrightarrow> (\<exists>st. obj_get sub ''status'' = JStr st \<and> st \<noteq> [] \<and>
     (st = ''Payment_Required'' \<or> (\<exists>k\<in>{''planId'', ''currentPlanId'', ''plan_id''}. truthy (obj_get sub k))))"

lemma validated: "validateSubscription (JObj sub) = Inr u \<longleftrightarrow> valid_subscription sub"
  by (cases "obj_get sub ''status''") (auto simp: validateSubscription_def valid_subscription_def)

lemma default_valid [simp]: "valid_subscription (createDefaultSubscriptionSnapshot u)"
  by (simp add: valid_subscription_def createDefaultSubscriptionSnapshot_def obj_get_def)

lemma container_simps [simp]: "bc_subscription (new_billing now u) = createDefaultSubscriptionSnapshot u"
  "bc_subscription (bc_reset now u c) = createDefaultSubscriptionSnapshot u" "bc_subscription (bc_markStale c) = bc_subscription c"
  "bc_subscription (bc_filled now sub bills revision c) = sub" "bc_subscription (bc_addInvoice now bill c) = bc_subscription c"
  "bc_stale (bc_filled now sub bills revision c) = False" "bc_revision (bc_filled now sub bills None c) = Suc (bc_revision c)"
  by (simp_all add: new_billing_def bc_reset_def bc_markStale_def bc_filled_def bc_addInvoice_def)

lemma validated_object: "validateSubscription v = Inr u \<Longrightarrow> v = JObj (spread v)"
  by (cases v) (auto simp: validateSubscription_def)

lemma validated_valid: "validateSubscription v = Inr u \<Longrightarrow> valid_subscription (spread v)"
  using validated_object [of v u] validated [of "spread v" u] by metis

lemma hydrated_valid: "bc_hydrate now v bills revision c = Inr c' \<Longrightarrow> json_clone v = v \<Longrightarrow> valid_subscription (bc_subscription c')"
  by (auto simp: bc_hydrate_def split: if_splits sum.splits dest: validated_valid)

lemma updated_valid: "bc_updateSubscription now updates expected c = Inr c' \<Longrightarrow> valid_subscription (bc_subscription c')"
  by (auto simp: bc_updateSubscription_def Let_def split: sum.splits dest!: validated_valid)

text \<open>Plan and status of a row are texts.\<close>

definition rows_text :: "(string, subscription_row) jsmap \<Rightarrow> bool" where
  "rows_text t \<longleftrightarrow> (\<forall>x\<in>set t. is_string (su_plan (snd x)) \<and> is_string (su_status (snd x)))"

lemma truthy_text: "truthy v \<Longrightarrow> bindable v \<Longrightarrow> is_string (text_column sq v)"
  by (cases v) auto

lemma js_or_truthy: "truthy d \<Longrightarrow> truthy (js_or v d)"
  by (simp add: js_or_def)

lemma params_truthy: "truthy (su_plan (subscription_params now sub))" "truthy (su_status (subscription_params now sub))"
  by (simp_all add: subscription_params_def js_or_truthy)

lemma saved_subscription:
  assumes "saveSubscription sq now u sub t = Inr t'"
  shows "t' = AList.update u (subscription_stored sq (subscription_params now sub)) t" and "rows_text t \<Longrightarrow> rows_text t'"
proof -
  let ?r = "subscription_stored sq (subscription_params now sub)"
  from assms have t': "t' = AList.update u ?r t" and b: "bindable (su_plan (subscription_params now sub))" "bindable (su_status (subscription_params now sub))"
    by (auto simp: saveSubscription_def Let_def split: sum.splits if_splits)
  show "t' = AList.update u ?r t" by (rule t')
  have "is_string (su_plan ?r)" "is_string (su_status ?r)"
    using truthy_text [OF params_truthy(1) b(1)] truthy_text [OF params_truthy(2) b(2)] by (simp_all add: subscription_stored_def)
  then show "rows_text t'" if "rows_text t"
    using that set_update_subset [of u ?r t] by (fastforce simp: rows_text_def t')
qed

lemma delete_text: "rows_text t \<Longrightarrow> rows_text (AList.delete u t)"
  by (induction t) (auto simp: rows_text_def)

section \<open>The billing group\<close>

lemma billing_write_failed: "billing_write env e s = (Inl err, s') \<Longrightarrow> bl_rollback s s' = s"
  by (cases e) (auto simp: Let_def bl_rollback_def split: sum.splits)

interpretation billing_group: group_store bl_meta bl_set_meta bl_rollback "billing_write env" for env
  by unfold_locales (auto simp: bl_set_meta_def billing_write_failed)

lemma billing_rejected: "billing_transaction env expected e s = (Inl err, s') \<Longrightarrow> s' = s"
  unfolding billing_transaction_def by (rule billing_group.rejected_unchanged)

lemma billing_committed:
  assumes "billing_transaction env expected e s = (Inr v, s')"
  obtains s1 where "billing_write env e s = (Inr v, s1)" "bl_billing s' = bl_billing s1" "bl_user s' = bl_user s1"
    "bl_subscriptions s' = bl_subscriptions s1" "bl_invoices s' = bl_invoices s1"
  using assms unfolding billing_transaction_def by (auto simp: bl_set_meta_def elim!: group_cases)

lemma subscription_committed:
  assumes "billing_updateSubscription env updates expected s = (Inr v, s')"
  obtains t c where
    "saveSubscription (be_sqlite env) (be_now env) (bl_user s) (JObj (obj_merge (bc_subscription (bl_billing s)) updates)) (bl_subscriptions s) = Inr t"
    "bc_updateSubscription (be_now env) updates None (bl_billing s) = Inr c" "bl_subscriptions s' = t" "bl_billing s' = c" "bl_user s' = bl_user s"
  using assms unfolding billing_updateSubscription_def
  by (rule billing_committed) (auto simp: Let_def split: sum.splits)

definition billing_good :: "billing_store \<Rightarrow> bool" where
  "billing_good s \<longleftrightarrow> valid_subscription (bc_subscription (bl_billing s)) \<and> rows_text (bl_subscriptions s)"

lemma write_good: "billing_write env e s = (Inr v, s') \<Longrightarrow> billing_good s \<Longrightarrow> billing_good s'"
  by (cases e) (auto simp: billing_good_def Let_def split: sum.splits dest: updated_valid saved_subscription(2))

lemma edit_good:
  assumes "billing_transaction env expected e s = (r, s')" and "billing_good s"
  shows "billing_good s'"
proof (cases r)
  case (Inl err)
  with assms billing_rejected show ?thesis by blast
next
  case (Inr v)
  with assms(1) have "billing_transaction env expected e s = (Inr v, s')" by simp
  then show ?thesis by (rule billing_committed) (use write_good assms(2) in \<open>auto simp: billing_good_def\<close>)
qed

lemma save_snapshot_frame [simp]: "bl_billing (save_snapshot env sub bills s) = bl_billing s" "bl_user (save_snapshot env sub bills s) = bl_user s"
  by (auto simp: save_snapshot_def split: sum.splits prod.splits bool.splits)

lemma save_snapshot_text: "rows_text (bl_subscriptions s) \<Longrightarrow> rows_text (bl_subscriptions (save_snapshot env sub bills s))"
  by (auto simp: save_snapshot_def split: sum.splits prod.splits bool.splits dest: saved_subscription(2))

lemma sync_good: "repo_hydrate_billing env sub bills s = (r, s') \<Longrightarrow> json_clone sub = sub \<Longrightarrow> billing_good s \<Longrightarrow> billing_good s'"
  by (auto simp: repo_hydrate_billing_def billing_good_def save_snapshot_text split: if_splits sum.splits dest: hydrated_valid)

inductive billing_step :: "(invoice_row list \<Rightarrow> invoice_row list) \<Rightarrow> billing_store \<Rightarrow> billing_store \<Rightarrow> bool" for newest where
  edited: "billing_transaction env expected e s = (r, s') \<Longrightarrow> billing_step newest s s'"
| synchronised: "repo_hydrate_billing env sub bills s = (r, s') \<Longrightarrow> json_clone sub = sub \<Longrightarrow> billing_step newest s s'"
| restarted: "billing_step newest s (billing_start newest now s)"
| logged_out: "billing_step newest s (billing_logout now s)"

definition billing_initial :: "billing_store \<Rightarrow> bool" where
  "billing_initial s \<longleftrightarrow> rows_text (bl_subscriptions s) \<and> (\<exists>now. bl_billing s = new_billing now (bl_user s))"

section \<open>The start of a process\<close>

lemma stored_distinct: "distinct (map fst (getSubscription u t))"
  by (auto simp: getSubscription_def createDefaultSubscriptionSnapshot_def subscription_of_row_def split: option.splits)

lemma stored_texts:
  "rows_text t \<Longrightarrow> k \<in> {''status'', ''planId'', ''currentPlanId'', ''plan_id''} \<Longrightarrow>
   obj_get (getSubscription u t) k \<in> range JStr \<union> {JNull, JUndef}"
  by (auto simp: getSubscription_def createDefaultSubscriptionSnapshot_def subscription_of_row_def obj_get_def rows_text_def
      split: option.splits dest!: map_of_SomeD elim!: is_string.elims)

lemma clone_valid:
  assumes "distinct (map fst g)" and "\<And>k. k \<in> {''status'', ''planId'', ''currentPlanId'', ''plan_id''} \<Longrightarrow> obj_get g k \<in> range JStr \<union> {JNull, JUndef}"
  shows "valid_subscription (json_members g) \<longleftrightarrow> valid_subscription g"
proof -
  have "obj_get (json_members g) k = obj_get g k" if "k \<in> {''status'', ''planId'', ''currentPlanId'', ''plan_id''}" for k
    using assms(2) [OF that] by (auto simp: obj_get_json_members [OF assms(1)])
  then show ?thesis by (simp add: valid_subscription_def)
qed

lemma start_cases:
  fixes s newest now
  defines "g \<equiv> getSubscription (bl_user s) (bl_subscriptions s)" and "c \<equiv> bl_billing (billing_start newest now s)"
  obtains (invalid) "\<not> valid_subscription g" "bc_subscription c = createDefaultSubscriptionSnapshot (bl_user s)"
  | (valid) "valid_subscription g" "bc_subscription c = json_members g"
      "bc_stale c \<longleftrightarrow> (\<exists>m. map_of (bl_meta s) ''billing'' = Some m \<and> \<not> isSubscriptionWithinGracePeriod now (DateAt (m_validated m)) None)"
proof (cases "valid_subscription g")
  case False
  then have "validateSubscription (JObj g) \<noteq> Inr ()" by (simp add: validated)
  then obtain e where "validateSubscription (JObj g) = Inl e" by (cases "validateSubscription (JObj g)") auto
  with False invalid show thesis by (simp add: c_def billing_start_def bc_hydrate_def g_def Let_def)
next
  case True
  then have "validateSubscription (JObj g) = Inr ()" by (simp add: validated)
  with True valid show thesis
    by (auto simp: c_def billing_start_def bc_hydrate_def g_def Let_def bc_markStale_def split: option.splits)
qed

lemma billing_start_good: "billing_good s \<Longrightarrow> billing_good (billing_start newest now s)"
proof -
  assume "billing_good s"
  then have t: "rows_text (bl_subscriptions s)" by (simp add: billing_good_def)
  let ?g = "getSubscription (bl_user s) (bl_subscriptions s)"
  have v: "valid_subscription (json_members ?g) = valid_subscription ?g"
    by (rule clone_valid [OF stored_distinct]) (rule stored_texts [OF t])
  have "valid_subscription (bc_subscription (bl_billing (billing_start newest now s)))"
    by (rule start_cases [of s newest now]) (simp_all add: v)
  then show ?thesis using t by (simp add: billing_good_def billing_start_def Let_def)
qed

lemma logout_good: "billing_good s \<Longrightarrow> billing_good (billing_logout now s)"
  by (simp add: billing_good_def billing_logout_def delete_text)

interpretation billing_machine: machine_invariant billing_initial "billing_step newest" billing_good for newest
proof
  show "billing_good s" if "billing_initial s" for s using that by (auto simp: billing_initial_def billing_good_def)
  show "billing_good t" if "billing_step newest s t" "billing_good s" for s t
    using that by (cases rule: billing_step.cases) (auto intro: edit_good sync_good billing_start_good logout_good)
qed

lemma start_restores:
  assumes "map_of (bl_subscriptions s) (bl_user s) = Some r" and "su_status r = JStr st" and "st \<noteq> []" and "su_plan r = JStr p" and "p \<noteq> []"
  shows "obj_get (bc_subscription (bl_billing (billing_start newest now s))) k = json_clone (obj_get (subscription_of_row (bl_user s) r) k)"
proof -
  have g: "getSubscription (bl_user s) (bl_subscriptions s) = subscription_of_row (bl_user s) r" using assms(1) by (simp add: getSubscription_def)
  have v: "valid_subscription (subscription_of_row (bl_user s) r)"
    using assms(2-5) by (simp add: valid_subscription_def subscription_of_row_def obj_get_def)
  have "bc_subscription (bl_billing (billing_start newest now s)) = json_members (subscription_of_row (bl_user s) r)"
    by (rule start_cases [of s newest now]) (simp_all add: g v)
  moreover have "distinct (map fst (subscription_of_row (bl_user s) r))" by (simp add: subscription_of_row_def)
  ultimately show ?thesis by (simp only: obj_get_json_members)
qed

lemma row_members:
  "obj_get (subscription_of_row u r) ''status'' = su_status r" "obj_get (subscription_of_row u r) ''currentPlanId'' = su_plan r"
  "obj_get (subscription_of_row u r) ''currentPlan'' = plan_name (su_plan r)" "obj_get (subscription_of_row u r) ''entitlements'' = su_entitlements r"
  "obj_get (subscription_of_row u r) ''availableActions'' = su_actions r" "obj_get (subscription_of_row u r) ''notices'' = su_notices r"
  by (simp_all add: subscription_of_row_def obj_get_def)

section \<open>Results\<close>

text \<open>C35. In every run of edits, synchronisations, restarts and logouts the subscription in memory has a status, and a plan unless
  payment is required.\<close>

theorem subscription_always_valid:
  assumes "reach billing_initial (billing_step newest) s"
  shows "\<exists>st. obj_get (bc_subscription (bl_billing s)) ''status'' = JStr st \<and> st \<noteq> [] \<and>
    (st = ''Payment_Required'' \<or> (\<exists>k\<in>{''planId'', ''currentPlanId'', ''plan_id''}. truthy (obj_get (bc_subscription (bl_billing s)) k)))"
  using billing_machine.reach_good [OF assms] by (simp add: billing_good_def valid_subscription_def)

definition sample_billing_env :: billing_env where
  "sample_billing_env = \<lparr>be_sqlite = sample_sqlite, be_number = (\<lambda>v. case v of JNum n \<Rightarrow> n | _ \<Rightarrow> NaN), be_now = 10\<rparr>"

definition sample_billing :: billing_store where
  "sample_billing = \<lparr>bl_user = ''usr'', bl_meta = [], bl_billing = new_billing 0 ''usr'', bl_subscriptions = [], bl_invoices = []\<rparr>"

definition pro_plan :: obj where
  "pro_plan = [(''status'', JStr ''Active''), (''currentPlanId'', JStr ''pro''), (''entitlements'', JObj [(''maxAccounts'', num 10)])]"

abbreviation paid_billing :: billing_store where
  "paid_billing \<equiv> snd (billing_updateSubscription sample_billing_env pro_plan None sample_billing)"

theorem subscription_always_valid_witness:
  "(\<exists>st. obj_get (bc_subscription (bl_billing paid_billing)) ''status'' = JStr st \<and> st \<noteq> []) \<and> paid_billing \<noteq> sample_billing"
proof -
  have "billing_initial sample_billing" by (auto simp: billing_initial_def rows_text_def sample_billing_def)
  then have "reach billing_initial (billing_step id) sample_billing" by (rule reach_start)
  moreover have "billing_step id sample_billing paid_billing"
    by (rule edited) (simp add: billing_updateSubscription_def prod_eq_iff)
  ultimately have "reach billing_initial (billing_step id) paid_billing" by (rule reach_step)
  from subscription_always_valid [OF this] have "\<exists>st. obj_get (bc_subscription (bl_billing paid_billing)) ''status'' = JStr st \<and> st \<noteq> []" by blast
  moreover have "paid_billing \<noteq> sample_billing" by code_simp
  ultimately show ?thesis by blast
qed

text \<open>A billing edit that throws, for a stale revision, a secret, a value the table refuses or an invalid result, leaves tables, revision and
  container as they were.\<close>

theorem rejected_billing_changes_nothing:
  assumes "billing_transaction env expected e s = (Inl err, s')"
  shows "s' = s"
  using assms by (rule billing_rejected)

theorem rejected_billing_changes_nothing_witness:
  "let r = billing_transaction sample_billing_env None (EditSubscription [(''status'', JStr ''Cancelled'')]) sample_billing in
   isl (fst r) \<and> snd r = sample_billing"
proof -
  let ?r = "billing_transaction sample_billing_env None (EditSubscription [(''status'', JStr ''Cancelled'')]) sample_billing"
  have l: "isl (fst ?r)" by code_simp
  then have "?r = (Inl (projl (fst ?r)), snd ?r)" by (metis prod.collapse sum.collapse(1))
  from rejected_billing_changes_nothing [OF this] l show ?thesis by (simp add: Let_def)
qed

text \<open>After an accepted update of the subscription the next process has its status, plan, entitlements, actions and notices.\<close>

theorem subscription_survives_restart:
  assumes "billing_updateSubscription env updates expected s = (Inr v, s')"
    and "target = obj_merge (bc_subscription (bl_billing s)) updates"
    and "js_or (obj_get target ''planId'') (obj_get target ''currentPlanId'') = JStr p" and "p \<noteq> []"
    and "b = bc_subscription (bl_billing (billing_start newest now s'))"
  shows "obj_get b ''status'' = obj_get target ''status'' \<and> obj_get b ''currentPlanId'' = JStr p \<and>
    obj_get b ''entitlements'' = json_clone (js_or (obj_get target ''entitlements'') (JObj [])) \<and>
    obj_get b ''availableActions'' = json_clone (js_or (obj_get target ''availableActions'') (JArr [])) \<and>
    obj_get b ''notices'' = json_clone (js_or (obj_get target ''notices'') (JArr []))"
proof -
  let ?r = "subscription_stored (be_sqlite env) (subscription_params (be_now env) (JObj target))"
  obtain t c where save: "saveSubscription (be_sqlite env) (be_now env) (bl_user s) (JObj target) (bl_subscriptions s) = Inr t"
    and upd: "bc_updateSubscription (be_now env) updates None (bl_billing s) = Inr c"
    and s': "bl_subscriptions s' = t" "bl_user s' = bl_user s"
    using assms(1) unfolding assms(2) by (rule subscription_committed)
  have c: "bc_subscription c = AList.update ''lastUpdated'' (iso (be_now env)) target"
    using upd by (auto simp: bc_updateSubscription_def bc_conflict_def Let_def assms(2) split: sum.splits)
  obtain st where st: "obj_get target ''status'' = JStr st" "st \<noteq> []"
    using updated_valid [OF upd] by (auto simp: valid_subscription_def c)
  have plan: "js_or (obj_get target ''planId'') (js_or (obj_get target ''currentPlanId'') d) = JStr p" for d
    using assms(3,4) by (auto simp: js_or_def split: if_splits)
  have row: "map_of (bl_subscriptions s') (bl_user s') = Some ?r" using saved_subscription(1) [OF save] by (simp add: s' update_conv')
  have cols: "su_status ?r = JStr st" "su_plan ?r = JStr p"
    using st by (simp_all add: subscription_stored_def subscription_params_def js_or_def plan [unfolded js_or_def])
  show ?thesis
    unfolding assms(5) start_restores [OF row cols(1) st(2) cols(2) assms(4)] row_members
    by (simp add: cols st(1)) (simp add: subscription_stored_def subscription_params_def)
qed

theorem subscription_survives_restart_witness:
  "let b = bc_subscription (bl_billing (billing_start id 20 paid_billing)) in
   obj_get b ''status'' = JStr ''Active'' \<and> obj_get b ''currentPlanId'' = JStr ''pro'' \<and> obj_get b ''entitlements'' = JObj [(''maxAccounts'', num 10)]"
proof -
  let ?x = "billing_updateSubscription sample_billing_env pro_plan None sample_billing"
  let ?t = "obj_merge (bc_subscription (bl_billing sample_billing)) pro_plan"
  have "\<not> isl (fst ?x)" by code_simp
  then have x: "?x = (Inr (projr (fst ?x)), snd ?x)" by (metis prod.collapse sum.collapse(2))
  have p: "js_or (obj_get ?t ''planId'') (obj_get ?t ''currentPlanId'') = JStr ''pro''" and st: "obj_get ?t ''status'' = JStr ''Active''"
    and e: "json_clone (js_or (obj_get ?t ''entitlements'') (JObj [])) = JObj [(''maxAccounts'', num 10)]" by code_simp+
  from subscription_survives_restart [OF x refl p _ refl, of id 20] st e show ?thesis by (simp add: Let_def)
qed

text \<open>After the start of a process a stored subscription is stale exactly when it was last validated two hours ago or more, or in the future.\<close>

theorem restart_stale_exact:
  assumes "map_of (bl_subscriptions s) (bl_user s) = Some r" and "su_status r = JStr st" and "st \<noteq> []" and "su_plan r = JStr p" and "p \<noteq> []"
    and "map_of (bl_meta s) ''billing'' = Some m"
  shows "bc_stale (bl_billing (billing_start newest now s)) \<longleftrightarrow> now < m_validated m \<or> now - m_validated m \<ge> 2 * 60 * 60 * 1000"
proof -
  have v: "valid_subscription (getSubscription (bl_user s) (bl_subscriptions s))"
    using assms(1-5) by (simp add: getSubscription_def valid_subscription_def subscription_of_row_def obj_get_def)
  have "bc_stale (bl_billing (billing_start newest now s)) \<longleftrightarrow> \<not> isSubscriptionWithinGracePeriod now (DateAt (m_validated m)) None"
    by (rule start_cases [of s newest now]) (simp_all add: v assms(6))
  then show ?thesis by (auto simp: isSubscriptionWithinGracePeriod_def isFresh_def subscription_grace_def)
qed

theorem restart_stale_exact_witness:
  "bc_stale (bl_billing (billing_start id 7200010 paid_billing)) \<and> \<not> bc_stale (bl_billing (billing_start id 7200009 paid_billing)) \<and>
   bc_stale (bl_billing (billing_start id 9 paid_billing))"
proof -
  let ?r = "subscription_stored sample_sqlite (subscription_params 10 (JObj (obj_merge (bc_subscription (bl_billing sample_billing)) pro_plan)))"
  have r: "map_of (bl_subscriptions paid_billing) (bl_user paid_billing) = Some ?r" "su_status ?r = JStr ''Active''" "su_plan ?r = JStr ''pro''"
    "map_of (bl_meta paid_billing) ''billing'' = Some \<lparr>m_etag = None, m_revision = 2, m_validated = 10\<rparr>" by code_simp+
  from restart_stale_exact [OF r(1,2) _ r(3) _ r(4), of id] show ?thesis by simp
qed

text \<open>A subscription without a plan that a synchronisation stored is the Starter plan for the next process.\<close>

theorem unpaid_reads_back_as_starter:
  assumes "repo_hydrate_billing env sub bills s = (None, s')" and "validateSubscription sub = Inr ()"
    and "\<not> truthy (js_get sub ''planId'')" and "\<not> truthy (js_get sub ''currentPlanId'')"
    and "\<not> isl (saveSubscription (be_sqlite env) (be_now env) (bl_user s) sub (bl_subscriptions s))"
  shows "obj_get (bc_subscription (bl_billing (billing_start newest now s'))) ''currentPlanId'' = JStr ''starter'' \<and>
    obj_get (bc_subscription (bl_billing (billing_start newest now s'))) ''currentPlan'' = JStr ''Starter'' \<and>
    obj_get (bc_subscription (bl_billing (billing_start newest now s'))) ''status'' = js_get sub ''status''"
proof -
  let ?r = "subscription_stored (be_sqlite env) (subscription_params (be_now env) sub)"
  obtain st where st: "js_get sub ''status'' = JStr st" "st \<noteq> []"
    using validated_valid [OF assms(2)] validated_object [OF assms(2)] by (metis js_get.simps(1) valid_subscription_def)
  have "truthy sub" "typeof_object sub" using assms(2) by (auto simp: validateSubscription_def split: if_splits)
  then obtain c where s': "s' = save_snapshot env sub bills (s\<lparr>bl_billing := c\<rparr>)"
    using assms(1,2) by (auto simp: repo_hydrate_billing_def bc_hydrate_def)
  obtain t where t: "saveSubscription (be_sqlite env) (be_now env) (bl_user s) sub (bl_subscriptions s) = Inr t"
    using assms(5) by (cases "saveSubscription (be_sqlite env) (be_now env) (bl_user s) sub (bl_subscriptions s)") auto
  then have "bl_subscriptions s' = t" "bl_user s' = bl_user s"
    by (auto simp: s' save_snapshot_def split: prod.splits bool.splits)
  then have row: "map_of (bl_subscriptions s') (bl_user s') = Some ?r" using saved_subscription(1) [OF t] by (simp add: update_conv')
  have cols: "su_status ?r = JStr st" "su_plan ?r = JStr ''starter''"
    using st assms(3,4) by (simp_all add: subscription_stored_def subscription_params_def js_or_def)
  have name: "upper_char (CHR ''s'') = CHR ''S''" by code_simp
  show ?thesis
    using start_restores [OF row cols(1) st(2) cols(2)] by (simp add: row_members cols st name)
qed

definition unpaid :: jsval where
  "unpaid = JObj (createDefaultSubscriptionSnapshot ''usr'')"

theorem unpaid_reads_back_as_starter_witness:
  "let s' = snd (repo_hydrate_billing sample_billing_env unpaid [] sample_billing) in
   obj_get (bc_subscription (bl_billing s')) ''currentPlan'' = JStr ''None'' \<and>
   obj_get (bc_subscription (bl_billing (billing_start id 20 s'))) ''currentPlan'' = JStr ''Starter''"
proof -
  let ?x = "repo_hydrate_billing sample_billing_env unpaid [] sample_billing"
  have x: "fst ?x = None" "validateSubscription unpaid = Inr ()" "\<not> truthy (js_get unpaid ''planId'')" "\<not> truthy (js_get unpaid ''currentPlanId'')"
    "\<not> isl (saveSubscription (be_sqlite sample_billing_env) (be_now sample_billing_env) (bl_user sample_billing) unpaid (bl_subscriptions sample_billing))"
    and n: "obj_get (bc_subscription (bl_billing (snd ?x))) ''currentPlan'' = JStr ''None''" by code_simp+
  from x(1) have "?x = (None, snd ?x)" by (metis prod.collapse)
  from unpaid_reads_back_as_starter [OF this x(2-5), of id 20] n show ?thesis by (simp add: Let_def)
qed

text \<open>A synchronisation whose snapshot and invoices are stored sets the revision of the billing group back to one, however many edits were
  made: an edit based on the first revision is accepted again.\<close>

theorem synchronisation_resets_revision:
  assumes "repo_hydrate_billing env sub bills s = (None, s')" and "truthy sub"
    and "\<not> isl (saveSubscription (be_sqlite env) (be_now env) (bl_user s) sub (bl_subscriptions s))"
    and "fst (save_invoices env (bl_user s) bills (bl_invoices s))"
  shows "meta_revision ''billing'' (bl_meta s') = 1"
  using assms
  by (auto simp: repo_hydrate_billing_def save_snapshot_def split: if_splits sum.splits prod.splits bool.splits)

theorem synchronisation_resets_revision_witness:
  "let s' = snd (repo_hydrate_billing sample_billing_env (JObj pro_plan) [] paid_billing) in
   meta_revision ''billing'' (bl_meta paid_billing) = 2 \<and> meta_revision ''billing'' (bl_meta s') = 1 \<and>
   \<not> isl (fst (billing_updateSubscription sample_billing_env pro_plan (Some 1) s'))"
proof -
  let ?x = "repo_hydrate_billing sample_billing_env (JObj pro_plan) [] paid_billing"
  have x: "fst ?x = None" "truthy (JObj pro_plan)"
    "\<not> isl (saveSubscription (be_sqlite sample_billing_env) (be_now sample_billing_env) (bl_user paid_billing) (JObj pro_plan) (bl_subscriptions paid_billing))"
    "fst (save_invoices sample_billing_env (bl_user paid_billing) [] (bl_invoices paid_billing))"
    and n: "meta_revision ''billing'' (bl_meta paid_billing) = 2"
    "\<not> isl (fst (billing_updateSubscription sample_billing_env pro_plan (Some 1) (snd ?x)))" by code_simp+
  from x(1) have "?x = (None, snd ?x)" by (metis prod.collapse)
  from synchronisation_resets_revision [OF this x(2-4)] n show ?thesis by (simp add: Let_def)
qed

text \<open>A checkout answer that does not say \<^verbatim>\<open>verified: false\<close> promotes the session: without capabilities and license of its own it gets
  five capabilities, betting among them, and a license marked valid, with the subscription as it was.\<close>

theorem checkout_grants_by_default:
  assumes "truthy verifyRes" and "js_get verifyRes ''verified'' \<noteq> JBool False" and "\<not> truthy (js_get verifyRes ''snapshot'')"
    and "\<not> is_array (js_get verifyRes ''capabilities'')" and "\<not> truthy (js_get verifyRes ''license'')"
  shows "verify_checkout env (Inr verifyRes) s =
    (Promoted default_grants (JObj [(''status'', JStr ''VALID'')]) (bc_subscription (bl_billing s)), s)"
  using assms
  by (cases "js_get verifyRes ''capabilities''") (simp_all add: verify_checkout_def hydrate_verified_def checkout_caps_def js_or_def)

theorem checkout_grants_by_default_witness:
  "verify_checkout sample_billing_env (Inr (JObj [(''error'', JStr ''not found'')])) sample_billing =
    (Promoted default_grants (JObj [(''status'', JStr ''VALID'')]) (createDefaultSubscriptionSnapshot ''usr''), sample_billing)"
  using checkout_grants_by_default [of "JObj [(''error'', JStr ''not found'')]" sample_billing_env sample_billing]
  by (simp add: obj_get_def sample_billing_def)

end
