(* ===== verification/Spec2Isabelle.thy ===== *)
theory Spec2Isabelle
  imports Recovery ExecutionBoundary IpcFraming Locks ReplayProtection CommandHandlers SyncEvents NotificationFeed AccountRoutes Billing
begin

text \<open>
  A verification development of the betting-automation control plane (\<^verbatim>\<open>src/src\<close>): the Node.js
  process that holds the operator's license, decides whether automation may run, and hands bets to the
  execution plane over a local pipe.

  \<^bold>\<open>The parts and how they interact.\<close> The security authority (\<^verbatim>\<open>security-authority/\<close>) keeps one
  encrypted row in SQLite and an in-memory copy of it; a transition table says which events change it, the
  decision engine applies them one at a time, and the facade offers login, logout, revocation and
  degradation to the rest. A native flag, set by the authority and read by the native addon, cuts the pipe
  to the execution plane. Commands of the operator enter through the router (\<^verbatim>\<open>command/\<close>), which asks
  the authority for a capability and for the state's permission and then runs the registered handlers. The
  execution boundary (\<^verbatim>\<open>runtime-manager/boundary/\<close>) sends bets and reads reports; it relies on an
  idempotency ledger, on a watchdog fed by heartbeats and on a coordinator that freezes accounts whose
  bets have an uncertain outcome. The operator sees operations, controls and a life-cycle computed by
  \<^verbatim>\<open>state/\<close>. The synchronisation service (\<^verbatim>\<open>sync/\<close>) sends mutations to the backend, queues what it
  cannot send, applies the frames the backend pushes and measures how long it may go without one. The state
  store (\<^verbatim>\<open>state-store/\<close>) keeps the operator's accounts, configuration, notifications, settings and subscription twice, as rows in
  SQLite and as containers in memory that are hydrated from the rows when a process starts; a gate strips secrets
  from what leaves it. Policies and credentials for the execution plane are compiled from it.

  \<^bold>\<open>The theories.\<close>
  \<^item> \<open>JsPrelude\<close>: JavaScript values, numbers with NaN and infinities, decimal strings, the
    insertion-ordered \<^verbatim>\<open>Map\<close> as an association list, and the interfaces that several components
    implement: \<open>ordered_map\<close>, \<open>occ_store\<close> (a store that commits only on the version it was given),
    \<open>machine_invariant\<close> (an invariant of a step relation).
  \<^item> \<open>AuthorityState\<close>, \<open>Transitions\<close>: the states and rows of \<^verbatim>\<open>state-machine/states.mjs\<close> and
    \<^verbatim>\<open>persistence/schema.mjs\<close>, the record \<open>acp\<close> of everything the authority reads and writes, and the
    table of \<^verbatim>\<open>state-machine/transitions.mjs\<close> in source order.
  \<^item> \<open>SecureStorage\<close>: \<^verbatim>\<open>persistence/aead-storage-adapter.mjs\<close>. The cipher is an argument; that it
    is authenticated is the hypothesis \<open>aead_ok\<close>, which the concrete \<open>tag_enc\<close>, \<open>tag_dec\<close> satisfy.
  \<^item> \<open>StateEngine\<close>: \<^verbatim>\<open>state-machine/engine.mjs\<close>, \<^verbatim>\<open>invariants.mjs\<close> and
    \<^verbatim>\<open>decision-engine.mjs\<close>: boot, dispatch, the capability query, and the reachable states.
  \<^item> \<open>Licensing\<close>, \<open>TimeGuard\<close>, \<open>AuditTrail\<close>, \<open>Recovery\<close>: \<^verbatim>\<open>licensing/\<close>, \<^verbatim>\<open>time/\<close>
    with the session queries, \<^verbatim>\<open>audit/\<close>, \<^verbatim>\<open>recovery/reconciliation.mjs\<close>.
  \<^item> \<open>SecurityFacade\<close>: \<^verbatim>\<open>facade.mjs\<close> and the CDP proxies it closes.
  \<^item> \<open>CanonicalJson\<close>, \<open>ReplayProtection\<close>: \<^verbatim>\<open>protocol/canonical-serializer.mjs\<close>,
    \<^verbatim>\<open>envelope.mjs\<close> and \<^verbatim>\<open>replay-guard.mjs\<close>.
  \<^item> \<open>IdempotencyLedger\<close>, \<open>Watchdog\<close>, \<open>UncertainOperations\<close>, \<open>ExecutionBoundary\<close>:
    the four files of the same names in \<^verbatim>\<open>runtime-manager/boundary/\<close>, with \<^verbatim>\<open>pipeTransport.mjs\<close> and
    the envelope check of \<^verbatim>\<open>executionProtocol.mjs\<close>; \<open>IpcFraming\<close>: \<^verbatim>\<open>runtime-manager/ipc-client.mjs\<close>.
  \<^item> \<open>Locks\<close>: \<^verbatim>\<open>shared/mutex.mjs\<close> and \<^verbatim>\<open>shared/AsyncMutex.mjs\<close> against one contract, \<open>fifo_lock\<close>.
  \<^item> \<open>CommandPipeline\<close>: \<^verbatim>\<open>command/commandSchema.mjs\<close> and \<^verbatim>\<open>commandRouter.mjs\<close>.
  \<^item> \<open>OperatorView\<close>: \<^verbatim>\<open>state/operationTracker.mjs\<close>, \<^verbatim>\<open>capabilityResolver.mjs\<close>,
    \<^verbatim>\<open>lifecycleStateResolver.mjs\<close>.
  \<^item> \<open>AutomationLifecycle\<close>, \<open>CommandHandlers\<close>: the process table of \<^verbatim>\<open>runtime-manager/runtime-manager.mjs\<close>, the state of
    \<^verbatim>\<open>state/workspaceAggregator.mjs\<close>, the persisted life-cycle row, and the start, stop, emergency and
    freeze handlers of \<^verbatim>\<open>command/registerCommands.mjs\<close>, which compose them with the boundary, the
    operation tracker and the authority.
  \<^item> \<open>SyncOutbox\<close>, \<open>SyncEvents\<close>: \<^verbatim>\<open>sync/backendSyncService.mjs\<close>, its retry outbox on the one hand and
    its event stream and offline grace, with \<^verbatim>\<open>state-store/hydration/FreshnessEvaluator.mjs\<close>, on the other.
  \<^item> \<open>SecretsGate\<close>: \<^verbatim>\<open>state-store/validation/SanitizerGate.mjs\<close> and the filter of outgoing WebSocket messages.
  \<^item> \<open>NotificationFeed\<close>: the feed, its table and the domain of \<^verbatim>\<open>state-store/StateStore.mjs\<close> that writes both,
    with the repository and the route in front of it.
  \<^item> \<open>AccountsContainer\<close>, \<open>AccountsStore\<close>: the accounts in memory, and the table, the revisions, the transactions
    and the accounts domain of the store. The vault cipher is an argument of the model.
  \<^item> \<open>AutomationConfig\<close>: \<^verbatim>\<open>state-store/memory/AutomationConfigContainer.mjs\<close>, its table, the configuration domain
    of the store and the adapter through which the synchronisation replaces it.
  \<^item> \<open>ExecutionPayload\<close>: \<^verbatim>\<open>runtime-manager/boundary/VaultCredentialPipeline.mjs\<close> and
    \<^verbatim>\<open>ExecutionPayloadBuilder.mjs\<close>.
  \<^item> \<open>ConfigCommands\<close>: the handlers of \<^verbatim>\<open>command/registerCommands.mjs\<close> that write accounts and configuration.
  \<^item> \<open>UserSettings\<close>, \<open>Billing\<close>: the settings and the subscription with its invoices, each as container, table and domain
    of the store with the HTTP routes that change it. Both domains implement \<open>group_store\<close>, the contract of the
    store's transactions, which gives \<open>occ_store\<close>.
  \<^item> \<open>AccountRoutes\<close>: the token of the local console and the middleware that asks for it
    (\<^verbatim>\<open>api-server/middleware/auth.mjs\<close>), and the HTTP routes that change accounts.

  \<^bold>\<open>How the code is modelled.\<close> A method is a function from its arguments and the state it reads to its
  result and the new state; a thrown error is \<open>Inl\<close>. Asynchronous operations are atomic where the code
  holds a mutex around them (the decision engine, the life-cycle), and otherwise separate steps whose
  every interleaving is considered (\<open>engine_step\<close>, \<open>boundary_step\<close>, \<open>coord_step\<close>, \<open>guard_step\<close>, \<open>plane_step\<close>, whose handlers take
  the events that arrive while they wait as an argument, \<open>stream_act\<close>, \<open>outbox_step\<close>, \<open>feed_step\<close>, \<open>accounts_step\<close>, \<open>config_step\<close>, \<open>billing_step\<close>). Time
  is an argument, one reading per operation. Names are the source's; a suffix is added where a name is
  taken twice.

  \<^bold>\<open>What the lemmas show.\<close> For the authority: the invariant of every reachable state, that lockdown is
  left by no event, that a boot revives nothing, that commits are never lost and read back exactly, that
  an older row is refused, that capabilities, login, revocation and degradation behave as the code means
  them to, that the clock never reads below its anchor, that grace ends with its token, that secrets are
  scrubbed and the log is a chain. For the boundary: a bet with one idempotency key is written at most
  once in every interleaving, exactly when all its guards admit it; uncertain outcomes freeze the
  accounts until they are resolved; silence is classified exactly; the framed stream and the canonical
  form lose nothing; the locks exclude and serve in order. For the ingress: a command runs its handlers
  exactly when every gate admits it, a bet command needs a live authorization, an emergency stop needs
  nothing. For the life-cycle: at most one runtime exists, an emergency stop contains it whatever happens
  meanwhile, a failed start is undone. For the synchronisation: a flush loses nothing and ends, the outbox
  survives a restart, frames are routed in order and an offline lease is bounded. For the state store: an export
  shows no secret and the check in front of the tables is exact, the feed stays within its bound and counts
  its unread entries, accounts are unique up to case, passwords survive masked updates and restarts, a rejected
  write leaves no trace and no accepted edit is based on a stale revision; the configuration is always complete
  and survives restarts, as do the overrides of accounts. For the payloads: the execution plane is
  initialised with ready accounts only, a bet cycle that was switched off stays off across restarts (but
  not across a synchronisation), a change of the fleet re-asserts tailored policies, and a refused
  registration leaves nothing behind. For settings and billing: a sensitive setting changes only with a secret
  the backend accepted, the subscription is always valid, survives restarts and is stale after two hours. For the HTTP ingress: a request
  is admitted exactly with the token, which survives restarts, and accounts change only with the capability, on
  the revision the request names. Where the code falls short of what it means to do, a theorem states what it does instead.

  \<^bold>\<open>Bounds and fuel.\<close> No definition runs out of fuel. The retry loop of a synchronisation is counted
  (\<open>SYNC_RETRIES\<close>, three attempts, as in the code); the frame loop of the IPC client terminates because
  every frame shortens the buffer, the flush loop of the outbox because every round shortens what is left of
  the queue; every other loop is structural. The at-most-once theorem is bounded by
  the window and by half the capacity of the ledger, since later entries evict earlier ones.

  \<^bold>\<open>Not modelled.\<close> The Rust addon (cipher, signatures, DPAPI, pipe server) appears as arguments of the
  definitions, as do SHA-256, HMAC, JSON and number printing of the standard library. The HTTP client and
  server, the WebSocket server, the choice of the worker script, hardware identity and file hashing are
  input and output, as are the requests, the snapshot pull and the cache file of the synchronisation
  service. The catalogues of reference data, the projections for the user interface, the migrations and the HTTP
  routes other than those of accounts, notifications, settings and billing are logic that is not modelled.
\<close>

end
